(* ===== verification/Py_Prelude.thy ===== *)
theory Py_Prelude
  imports Main "HOL-Library.Word" "HOL-Library.Sublist"
begin

text \<open>
  Shared vocabulary of the development. Python values are represented as follows.
  \<^item> \<open>bytes\<close>: a list of \<^typ>\<open>char\<close>, whose values are exactly the 256 bytes;
  \<^item> \<open>str\<close> (\<open>pystr\<close>): the list of its Unicode code points, as natural numbers, so that
    lengths and comparisons are Python's; an ASCII literal is written \<open>lit ''abc''\<close>;
  \<^item> a function that may raise: a sum, \<open>Inl\<close> the exception and \<open>Inr\<close> the value.
  The theory holds the combinators for such results, the literals, and the searches and
  splits of sequences that the components share, with their lemmas in the collections
  \<open>result_simps\<close> (results) and \<open>seq_simps\<close> (sequences).
\<close>

named_theorems result_simps \<open>facts about computations that may raise\<close>
named_theorems seq_simps \<open>facts about searching and splitting sequences\<close>

type_synonym bytes = "char list"
type_synonym pystr = "nat list"

subsection \<open>ASCII literals of text\<close>

definition lit :: "string \<Rightarrow> pystr" where
  "lit s = map of_char s"

lemma lit_eq_iff [simp]: "lit a = lit b \<longleftrightarrow> a = b"
  unfolding lit_def by (metis inj_map_eq_map inj_onI of_char_eq_iff)

lemma lit_empty_iff [simp]: "lit a = [] \<longleftrightarrow> a = []" "[] = lit a \<longleftrightarrow> a = []"
  by (auto simp: lit_def)

lemma length_lit [simp]: "length (lit a) = length a"
  by (simp add: lit_def)

lemma lit_mem_image_iff [simp]: "lit a \<in> lit ` A \<longleftrightarrow> a \<in> A"
  by auto

subsection \<open>Results of computations that may raise\<close>

type_synonym ('e, 'a) result = "'e + 'a"

fun bind_result :: "('e, 'a) result \<Rightarrow> ('a \<Rightarrow> ('e, 'b) result) \<Rightarrow> ('e, 'b) result" where
  "bind_result (Inl e) f = Inl e"
| "bind_result (Inr x) f = f x"

text \<open>\<open>require c e\<close> is the statement \<open>if not c: raise e\<close>.\<close>

definition require :: "bool \<Rightarrow> 'e \<Rightarrow> ('e, unit) result" where
  "require c e = (if c then Inr () else Inl e)"

text \<open>\<open>for_each f xs\<close> runs \<open>f\<close> on the elements in order and stops at the first exception.\<close>

fun for_each :: "('a \<Rightarrow> ('e, unit) result) \<Rightarrow> 'a list \<Rightarrow> ('e, unit) result" where
  "for_each f [] = Inr ()"
| "for_each f (x # xs) = bind_result (f x) (\<lambda>_. for_each f xs)"

fun map_result :: "('a \<Rightarrow> ('e, 'b) result) \<Rightarrow> 'a list \<Rightarrow> ('e, 'b list) result" where
  "map_result f [] = Inr []"
| "map_result f (x # xs) =
     bind_result (f x) (\<lambda>y. bind_result (map_result f xs) (\<lambda>ys. Inr (y # ys)))"

definition of_option :: "'e \<Rightarrow> 'a option \<Rightarrow> ('e, 'a) result" where
  "of_option e r = (case r of None \<Rightarrow> Inl e | Some x \<Rightarrow> Inr x)"

fun is_ok :: "('e, 'a) result \<Rightarrow> bool" where
  "is_ok (Inl e) = False"
| "is_ok (Inr x) = True"

lemma bind_result_Inr [result_simps]:
  "bind_result m f = Inr y \<longleftrightarrow> (\<exists>x. m = Inr x \<and> f x = Inr y)"
  by (cases m) auto

lemma bind_result_Inl [result_simps]:
  "bind_result m f = Inl e \<longleftrightarrow> m = Inl e \<or> (\<exists>x. m = Inr x \<and> f x = Inl e)"
  by (cases m) auto

lemma case_sum_Inr [result_simps]:
  "(case r of Inl e \<Rightarrow> Inl (g e) | Inr x \<Rightarrow> f x) = Inr y \<longleftrightarrow> (\<exists>x. r = Inr x \<and> f x = Inr y)"
  by (cases r) auto

lemma map_sum_fst_Inr [result_simps]: "map_sum id fst r = Inr a \<longleftrightarrow> (\<exists>b. r = Inr (a, b))"
  by (cases r) auto

lemma guard_Inr: "(if c then Inl e else r) = Inr x \<longleftrightarrow> \<not> c \<and> r = Inr x"
  by simp

lemma require_Inr [result_simps]: "require c e = Inr u \<longleftrightarrow> c"
  by (simp add: require_def)

lemma require_Inl [result_simps]: "require c e = Inl e' \<longleftrightarrow> \<not> c \<and> e' = e"
  by (auto simp: require_def)

lemma require_True [simp]: "require True e = Inr ()"
  by (simp add: require_def)

lemma require_False [simp]: "require False e = Inl e"
  by (simp add: require_def)

lemma of_option_Inr [result_simps]: "of_option e r = Inr x \<longleftrightarrow> r = Some x"
  by (auto simp: of_option_def split: option.splits)

lemma of_option_Inl [result_simps]: "of_option e r = Inl e' \<longleftrightarrow> r = None \<and> e' = e"
  by (auto simp: of_option_def split: option.splits)

lemma for_each_Inr [result_simps]:
  "for_each f xs = Inr u \<longleftrightarrow> (\<forall>x \<in> set xs. f x = Inr ())"
  by (induction xs) (auto simp: bind_result_Inr)

lemma for_each_Inl:
  "for_each f xs = Inl e \<Longrightarrow> \<exists>x \<in> set xs. f x = Inl e"
  by (induction xs) (auto simp: bind_result_Inl)

lemma map_result_length: "map_result f xs = Inr ys \<Longrightarrow> length ys = length xs"
  by (induction xs arbitrary: ys) (auto simp: bind_result_Inr)

lemma map_result_nth:
  "map_result f xs = Inr ys \<Longrightarrow> i < length xs \<Longrightarrow> f (xs ! i) = Inr (ys ! i)"
  by (induction xs arbitrary: ys i) (auto simp: bind_result_Inr less_Suc_eq_0_disj)

lemma is_ok_iff: "is_ok r \<longleftrightarrow> (\<exists>x. r = Inr x)"
  by (cases r) auto

subsection \<open>Searching a sequence (\<open>bytes.find\<close>, \<open>bytes.rfind\<close>)\<close>

definition starts_with :: "'a list \<Rightarrow> 'a list \<Rightarrow> bool" where
  "starts_with xs p \<longleftrightarrow> take (length p) xs = p"

lemma starts_with_prefix: "starts_with xs p \<longleftrightarrow> prefix p xs"
  by (auto simp: starts_with_def prefix_def) (metis append_take_drop_id)

fun find_sub :: "'a list \<Rightarrow> 'a list \<Rightarrow> nat option" where
  "find_sub p [] = (if p = [] then Some 0 else None)"
| "find_sub p (x # xs) =
     (if starts_with (x # xs) p then Some 0 else map_option Suc (find_sub p xs))"

definition occurs_at :: "'a list \<Rightarrow> 'a list \<Rightarrow> nat \<Rightarrow> bool" where
  "occurs_at p xs i \<longleftrightarrow> i + length p \<le> length xs \<and> take (length p) (drop i xs) = p"

lemma starts_with_occurs: "starts_with xs p \<longleftrightarrow> occurs_at p xs 0"
  by (auto simp: starts_with_def occurs_at_def) (metis length_take min.cobounded1)

lemma occurs_at_Suc [simp]: "occurs_at p (x # xs) (Suc i) = occurs_at p xs i"
  by (simp add: occurs_at_def)

lemma occurs_at_bound: "occurs_at p xs i \<Longrightarrow> i + length p \<le> length xs"
  by (simp add: occurs_at_def)

lemma find_sub_Some:
  "find_sub p xs = Some i \<longleftrightarrow> occurs_at p xs i \<and> (\<forall>j < i. \<not> occurs_at p xs j)"
proof (induction xs arbitrary: i)
  case Nil
  then show ?case by (auto simp: occurs_at_def)
next
  case (Cons x xs)
  show ?case
  proof (cases i)
    case 0
    then show ?thesis by (auto simp: starts_with_occurs)
  next
    case (Suc k)
    then show ?thesis
      using Cons.IH [of k] by (auto simp: starts_with_occurs less_Suc_eq_0_disj)
  qed
qed

lemma find_sub_None: "find_sub p xs = None \<longleftrightarrow> (\<forall>i. \<not> occurs_at p xs i)"
proof (induction xs)
  case Nil
  then show ?case by (auto simp: occurs_at_def)
next
  case (Cons x xs)
  have "(\<forall>i. \<not> occurs_at p (x # xs) i) \<longleftrightarrow>
      \<not> occurs_at p (x # xs) 0 \<and> (\<forall>i. \<not> occurs_at p xs i)"
    by (metis not0_implies_Suc occurs_at_Suc)
  with Cons show ?case by (auto simp: starts_with_occurs)
qed

lemma occurs_at_append: "occurs_at p xs i \<Longrightarrow> occurs_at p (xs @ ys) i"
  by (auto simp: occurs_at_def)

lemma occurs_at_append_iff:
  "i + length p \<le> length xs \<Longrightarrow> occurs_at p (xs @ ys) i \<longleftrightarrow> occurs_at p xs i"
  by (auto simp: occurs_at_def)

lemma occurs_at_app: "occurs_at (p @ q) xs i \<longleftrightarrow> occurs_at p xs i \<and> occurs_at q xs (i + length p)"
  unfolding occurs_at_def by (auto simp: take_add append_eq_append_conv add.commute)

lemma occurs_at_Nil [simp]: "occurs_at [] xs i \<longleftrightarrow> i \<le> length xs"
  by (simp add: occurs_at_def)

lemma occurs_at_drop: "n \<le> length s \<Longrightarrow> occurs_at p (drop n s) j \<longleftrightarrow> occurs_at p s (n + j)"
  by (auto simp: occurs_at_def add.commute)

lemma find_sub_append_Some:
  assumes "find_sub p xs = Some i"
  shows "find_sub p (xs @ ys) = Some i"
proof -
  from assms have i: "occurs_at p xs i" and first: "\<forall>j < i. \<not> occurs_at p xs j"
    by (simp_all add: find_sub_Some)
  have "\<not> occurs_at p (xs @ ys) j" if "j < i" for j
  proof -
    from that occurs_at_bound [OF i] have "j + length p \<le> length xs" by simp
    with first that show ?thesis by (simp add: occurs_at_append_iff)
  qed
  with occurs_at_append [OF i] show ?thesis by (simp add: find_sub_Some)
qed

text \<open>The last occurrence that ends at or before \<open>hi\<close>, searching downwards from \<open>hi\<close>.\<close>

fun rfind_below :: "'a list \<Rightarrow> 'a list \<Rightarrow> nat \<Rightarrow> nat option" where
  "rfind_below p xs 0 = None"
| "rfind_below p xs (Suc i) = (if occurs_at p xs i then Some i else rfind_below p xs i)"

lemma rfind_below_Some:
  "rfind_below p xs n = Some i \<longleftrightarrow>
     i < n \<and> occurs_at p xs i \<and> (\<forall>j. i < j \<and> j < n \<longrightarrow> \<not> occurs_at p xs j)"
  by (induction n) (auto simp: less_Suc_eq)

lemma rfind_below_None: "rfind_below p xs n = None \<longleftrightarrow> (\<forall>j < n. \<not> occurs_at p xs j)"
  by (induction n) (auto simp: less_Suc_eq)

subsection \<open>Splitting at a separator (\<open>str.split\<close>)\<close>

fun split_on :: "'a \<Rightarrow> 'a list \<Rightarrow> 'a list list" where
  "split_on c [] = [[]]"
| "split_on c (x # xs) =
     (if x = c then [] # split_on c xs
      else (case split_on c xs of [] \<Rightarrow> [[x]] | w # ws \<Rightarrow> (x # w) # ws))"

lemma split_on_nonempty [simp]: "split_on c xs \<noteq> []"
  by (induction xs) (auto split: list.splits)

lemma split_on_no_sep: "w \<in> set (split_on c xs) \<Longrightarrow> c \<notin> set w"
  by (induction xs arbitrary: w) (fastforce split: if_splits list.splits)+

lemma takeWhile_upto: "c \<notin> set a \<Longrightarrow> takeWhile (\<lambda>x. x \<noteq> c) (a @ c # r) = a"
  by (induction a) auto

lemma dropWhile_upto: "c \<notin> set a \<Longrightarrow> dropWhile (\<lambda>x. x \<noteq> c) (a @ c # r) = c # r"
  by (induction a) auto

fun join_with :: "'a list \<Rightarrow> 'a list list \<Rightarrow> 'a list" where
  "join_with sep [] = []"
| "join_with sep [w] = w"
| "join_with sep (w # v # ws) = w @ sep @ join_with sep (v # ws)"

lemma join_split_on: "join_with [c] (split_on c xs) = xs"
proof (induction xs)
  case Nil
  then show ?case by simp
next
  case (Cons x xs)
  obtain w ws where "split_on c xs = w # ws"
    by (cases "split_on c xs") auto
  with Cons show ?case by (cases ws) auto
qed

text \<open>Splitting at a separator of several elements (\<open>bytes.split(sep)\<close>).\<close>

function split_seq :: "'a list \<Rightarrow> 'a list \<Rightarrow> 'a list list" where
  "split_seq sep xs =
     (case find_sub sep xs of
        None \<Rightarrow> [xs]
      | Some i \<Rightarrow>
          if sep = [] then [xs] else take i xs # split_seq sep (drop (i + length sep) xs))"
  by pat_completeness auto
termination
proof (relation "measure (\<lambda>(sep, xs). length xs)", goal_cases)
  case (2 sep xs i)
  then have "i + length sep \<le> length xs" and "0 < length sep"
    by (auto simp: find_sub_Some occurs_at_def)
  then have "length xs - (i + length sep) < length xs" by linarith
  then show ?case by simp
qed simp

declare split_seq.simps [simp del]

end
