(* ===== verification/Py_Text.thy ===== *)
theory Py_Text
  imports Py_Prelude
begin

text \<open>
  The text functions of Python's standard library that the components use: decimal
  numerals (\<open>str(int)\<close>, \<open>int(digits)\<close>), the UTF-8 codec in its strict mode, ASCII lower
  casing and \<open>str.strip\<close> of ASCII white space. The main facts are the round trips of the
  decimal and the UTF-8 codecs.
\<close>

subsection \<open>Decimal numerals\<close>

definition is_digit :: "nat \<Rightarrow> bool" where
  "is_digit c \<longleftrightarrow> 48 \<le> c \<and> c \<le> 57"

fun dec_digits :: "nat \<Rightarrow> pystr" where
  "dec_digits n = (if n < 10 then [48 + n] else dec_digits (n div 10) @ [48 + n mod 10])"

declare dec_digits.simps [simp del]

definition dec_value :: "pystr \<Rightarrow> nat" where
  "dec_value ds = foldl (\<lambda>a d. 10 * a + (d - 48)) 0 ds"

lemma dec_value_Nil [simp]: "dec_value [] = 0"
  by (simp add: dec_value_def)

lemma dec_value_snoc [simp]: "dec_value (ds @ [d]) = 10 * dec_value ds + (d - 48)"
  by (simp add: dec_value_def)

lemma dec_value_digits [simp]: "dec_value (dec_digits n) = n"
proof (induction n rule: dec_digits.induct)
  case (1 n)
  show ?case
  proof (cases "n < 10")
    case True
    then show ?thesis by (simp add: dec_digits.simps [of n] dec_value_def)
  next
    case False
    with 1 show ?thesis by (simp add: dec_digits.simps [of n])
  qed
qed

lemma dec_digits_nonempty [simp]: "dec_digits n \<noteq> []"
  by (subst dec_digits.simps) simp

lemma dec_digits_are_digits: "c \<in> set (dec_digits n) \<Longrightarrow> is_digit c"
proof (induction n rule: dec_digits.induct)
  case (1 n)
  then show ?case
    by (auto simp: dec_digits.simps [of n] is_digit_def split: if_splits)
qed

lemma hd_dec_digits: "0 < n \<Longrightarrow> hd (dec_digits n) \<noteq> 48"
proof (induction n rule: dec_digits.induct)
  case (1 n)
  show ?case
  proof (cases "n < 10")
    case True
    with 1 show ?thesis by (simp add: dec_digits.simps [of n])
  next
    case False
    then have "0 < n div 10" by simp
    with 1 False show ?thesis by (simp add: dec_digits.simps [of n] hd_append)
  qed
qed

lemma dec_digits_0 [simp]: "dec_digits 0 = [48]"
  by (subst dec_digits.simps) simp

text \<open>The value of a numeral is below the power of ten of its length.\<close>

lemma dec_value_less:
  "(\<forall>c \<in> set ds. is_digit c) \<Longrightarrow> dec_value ds < 10 ^ length ds"
  by (induction ds rule: rev_induct) (auto simp: is_digit_def)

text \<open>A numeral without a leading zero is at least the power of ten of its other digits.\<close>

lemma foldl_dec_ge: "(a::nat) * 10 ^ length ds \<le> foldl (\<lambda>a d. 10 * a + (d - 48)) a ds"
proof (induction ds arbitrary: a)
  case Nil
  then show ?case by simp
next
  case (Cons d ds)
  have "a * 10 ^ length (d # ds) \<le> (10 * a + (d - 48)) * 10 ^ length ds" by simp
  also have "\<dots> \<le> foldl (\<lambda>a d. 10 * a + (d - 48)) (10 * a + (d - 48)) ds"
    by (rule Cons.IH)
  finally show ?case by simp
qed

lemma dec_value_ge:
  assumes "ds \<noteq> []" "\<forall>c \<in> set ds. is_digit c" "hd ds \<noteq> 48"
  shows "10 ^ (length ds - 1) \<le> dec_value ds"
proof -
  obtain d es where ds: "ds = d # es" using assms(1) by (cases ds) auto
  with assms have "1 \<le> d - 48" by (auto simp: is_digit_def)
  then have "(1::nat) * 10 ^ length es \<le> (d - 48) * 10 ^ length es"
    by (rule mult_le_mono1)
  also have "\<dots> \<le> foldl (\<lambda>a d. 10 * a + (d - 48)) (d - 48) es" by (rule foldl_dec_ge)
  finally show ?thesis by (simp add: ds dec_value_def)
qed

text \<open>Numerals of one length are compared as their texts are.\<close>

fun seq_less :: "nat list \<Rightarrow> nat list \<Rightarrow> bool" where
  "seq_less xs [] = False"
| "seq_less [] (y # ys) = True"
| "seq_less (x # xs) (y # ys) = (x < y \<or> x = y \<and> seq_less xs ys)"

lemma foldl_dec_split:
  "foldl (\<lambda>a d. 10 * a + (d - 48)) (a::nat) ds = a * 10 ^ length ds + foldl (\<lambda>a d. 10 * a + (d - 48)) 0 ds"
proof (induction ds rule: rev_induct)
  case Nil
  then show ?case by simp
next
  case (snoc d ds)
  have "foldl (\<lambda>a d. 10 * a + (d - 48)) a (ds @ [d]) =
      10 * foldl (\<lambda>a d. 10 * a + (d - 48)) a ds + (d - 48)" by simp
  also have "\<dots> = 10 * (a * 10 ^ length ds + foldl (\<lambda>a d. 10 * a + (d - 48)) 0 ds) + (d - 48)"
    by (simp only: snoc.IH)
  finally show ?case by simp
qed

lemma dec_value_Cons: "dec_value (d # ds) = (d - 48) * 10 ^ length ds + dec_value ds"
  unfolding dec_value_def by (simp add: foldl_dec_split [of "d - 48" ds])

lemma seq_less_dec_value:
  assumes "length xs = length ys" "\<forall>c \<in> set xs. is_digit c" "\<forall>c \<in> set ys. is_digit c"
  shows "seq_less xs ys \<longleftrightarrow> dec_value xs < dec_value ys"
  using assms
proof (induction xs ys rule: list_induct2)
  case Nil
  then show ?case by simp
next
  case (Cons x xs y ys)
  then have d: "48 \<le> x" "48 \<le> y" and IH: "seq_less xs ys \<longleftrightarrow> dec_value xs < dec_value ys"
    by (auto simp: is_digit_def)
  have bx: "dec_value xs < 10 ^ length xs" and by': "dec_value ys < 10 ^ length xs"
    using Cons.prems Cons.hyps dec_value_less [of xs] dec_value_less [of ys] by simp_all
  show ?case
  proof (cases x y rule: linorder_cases)
    case less
    with d have "Suc (x - 48) \<le> y - 48" by simp
    then have "Suc (x - 48) * 10 ^ length xs \<le> (y - 48) * 10 ^ length xs"
      by (rule mult_le_mono1)
    with bx less Cons.hyps show ?thesis by (simp add: dec_value_Cons)
  next
    case equal
    with IH Cons.hyps show ?thesis by (simp add: dec_value_Cons)
  next
    case greater
    with d have "Suc (y - 48) \<le> x - 48" by simp
    then have "Suc (y - 48) * 10 ^ length xs \<le> (x - 48) * 10 ^ length xs"
      by (rule mult_le_mono1)
    with by' greater Cons.hyps show ?thesis by (simp add: dec_value_Cons)
  qed
qed

subsection \<open>UTF-8\<close>

definition is_surrogate :: "nat \<Rightarrow> bool" where
  "is_surrogate c \<longleftrightarrow> 55296 \<le> c \<and> c \<le> 57343"

text \<open>The bytes of one code point, as numbers; \<open>None\<close> where Python raises.\<close>

definition utf8_char :: "nat \<Rightarrow> nat list option" where
  "utf8_char c =
     (if is_surrogate c then None
      else if c < 128 then Some [c]
      else if c < 2048 then Some [192 + c div 64, 128 + c mod 64]
      else if c < 65536 then
        Some [224 + c div 4096, 128 + c div 64 mod 64, 128 + c mod 64]
      else if c < 1114112 then
        Some [240 + c div 262144, 128 + c div 4096 mod 64, 128 + c div 64 mod 64, 128 + c mod 64]
      else None)"

fun utf8_nums :: "pystr \<Rightarrow> nat list option" where
  "utf8_nums [] = Some []"
| "utf8_nums (c # cs) =
     (case utf8_char c of
        None \<Rightarrow> None
      | Some bs \<Rightarrow> map_option (\<lambda>rest. bs @ rest) (utf8_nums cs))"

definition utf8_encode :: "pystr \<Rightarrow> bytes option" where
  "utf8_encode s = map_option (map char_of) (utf8_nums s)"

definition is_cont :: "nat \<Rightarrow> bool" where
  "is_cont b \<longleftrightarrow> 128 \<le> b \<and> b < 192"

text \<open>One code point off the front of a byte sequence (strict decoding).\<close>

fun utf8_take :: "nat list \<Rightarrow> (nat \<times> nat list) option" where
  "utf8_take [] = None"
| "utf8_take (b # bs) =
     (if b < 128 then Some (b, bs)
      else if 194 \<le> b \<and> b < 224 then
        (case bs of
           c1 # r \<Rightarrow> if is_cont c1 then Some ((b - 192) * 64 + (c1 - 128), r) else None
         | _ \<Rightarrow> None)
      else if 224 \<le> b \<and> b < 240 then
        (case bs of
           c1 # c2 # r \<Rightarrow>
             let v = (b - 224) * 4096 + (c1 - 128) * 64 + (c2 - 128)
             in if is_cont c1 \<and> is_cont c2 \<and> 2048 \<le> v \<and> \<not> is_surrogate v
                then Some (v, r) else None
         | _ \<Rightarrow> None)
      else if 240 \<le> b \<and> b < 245 then
        (case bs of
           c1 # c2 # c3 # r \<Rightarrow>
             let v = (b - 240) * 262144 + (c1 - 128) * 4096 + (c2 - 128) * 64 + (c3 - 128)
             in if is_cont c1 \<and> is_cont c2 \<and> is_cont c3 \<and> 65536 \<le> v \<and> v < 1114112
                then Some (v, r) else None
         | _ \<Rightarrow> None)
      else None)"

lemma utf8_take_shorter: "utf8_take bs = Some (c, r) \<Longrightarrow> length r < length bs"
  by (cases bs) (auto simp: Let_def split: if_splits list.splits)

function utf8_denums :: "nat list \<Rightarrow> pystr option" where
  "utf8_denums bs =
     (if bs = [] then Some []
      else (case utf8_take bs of
              None \<Rightarrow> None
            | Some (c, r) \<Rightarrow> map_option (\<lambda>cs. c # cs) (utf8_denums r)))"
  by pat_completeness auto
termination
  by (relation "measure length") (auto dest: utf8_take_shorter)

declare utf8_denums.simps [simp del]

definition utf8_decode :: "bytes \<Rightarrow> pystr option" where
  "utf8_decode bs = utf8_denums (map of_char bs)"

lemma split64: "c div 64 * 64 + c mod 64 = (c::nat)"
  by simp

lemma split4096: "c div 4096 * 4096 + c div 64 mod 64 * 64 + c mod 64 = (c::nat)"
proof -
  have "c div 4096 = c div 64 div 64" by (simp add: div_mult2_eq [symmetric])
  moreover have "c div 64 div 64 * 64 + c div 64 mod 64 = c div 64" by simp
  moreover have "c div 64 * 64 + c mod 64 = c" by simp
  ultimately show ?thesis by linarith
qed

lemma split262144:
  "c div 262144 * 262144 + c div 4096 mod 64 * 4096 + c div 64 mod 64 * 64 + c mod 64 = (c::nat)"
proof -
  have d: "c div 262144 = c div 4096 div 64" by (simp add: div_mult2_eq [symmetric])
  have "c div 4096 div 64 * 64 + c div 4096 mod 64 = c div 4096" by simp
  then have "c div 262144 * 262144 + c div 4096 mod 64 * 4096 = c div 4096 * 4096"
    unfolding d by linarith
  with split4096 [of c] show ?thesis by linarith
qed

lemma utf8_take_char:
  assumes "utf8_char c = Some bs"
  shows "utf8_take (bs @ r) = Some (c, r)"
proof -
  have sur: "\<not> is_surrogate c" using assms by (simp add: utf8_char_def split: if_splits)
  have m: "c mod 64 < 64" "c div 64 mod 64 < 64" "c div 4096 mod 64 < 64" by simp_all
  consider "c < 128" | "128 \<le> c" "c < 2048" | "2048 \<le> c" "c < 65536"
    | "65536 \<le> c" "c < 1114112"
    using assms by (simp add: utf8_char_def split: if_splits)
  then show ?thesis
  proof cases
    case 1
    then show ?thesis using assms sur by (auto simp: utf8_char_def)
  next
    case 2
    define q where "q = c div 64"
    from 2 have q: "2 \<le> q" "q < 32" unfolding q_def by linarith+
    have bs: "bs = [192 + q, 128 + c mod 64]"
      using 2 assms sur by (simp add: utf8_char_def q_def)
    show ?thesis using q m(1) split64 [of c, folded q_def] by (simp add: bs is_cont_def)
  next
    case 3
    define q where "q = c div 4096"
    from 3 have q: "q < 16" unfolding q_def by linarith
    have bs: "bs = [224 + q, 128 + c div 64 mod 64, 128 + c mod 64]"
      using 3 assms sur by (simp add: utf8_char_def q_def)
    show ?thesis using q m(1,2) split4096 [of c, folded q_def] 3 sur
      by (simp add: bs is_cont_def Let_def)
  next
    case 4
    define q where "q = c div 262144"
    from 4 have q: "q < 5" unfolding q_def by linarith
    have bs: "bs = [240 + q, 128 + c div 4096 mod 64, 128 + c div 64 mod 64, 128 + c mod 64]"
      using 4 assms sur by (simp add: utf8_char_def q_def)
    show ?thesis using q m split262144 [of c, folded q_def] 4
      by (simp add: bs is_cont_def Let_def)
  qed
qed

lemma utf8_char_nonempty: "utf8_char c = Some bs \<Longrightarrow> bs \<noteq> []"
  by (auto simp: utf8_char_def split: if_splits)

lemma utf8_char_bytes:
  assumes "utf8_char c = Some bs" "b \<in> set bs"
  shows "b < 256"
proof -
  have m: "c mod 64 < 64" "c div 64 mod 64 < 64" "c div 4096 mod 64 < 64" by simp_all
  have d: "c div 262144 < 5" if "c < 1114112" using that by linarith
  have e: "c div 4096 < 16" if "c < 65536" using that by linarith
  have f: "c div 64 < 32" if "c < 2048" using that by linarith
  show ?thesis
    using assms m d e f by (auto simp: utf8_char_def split: if_splits)
qed

lemma utf8_nums_bytes: "utf8_nums s = Some bs \<Longrightarrow> b \<in> set bs \<Longrightarrow> b < 256"
  by (induction s arbitrary: bs) (auto split: option.splits dest: utf8_char_bytes)

lemma utf8_denums_nums: "utf8_nums s = Some bs \<Longrightarrow> utf8_denums bs = Some s"
proof (induction s arbitrary: bs)
  case Nil
  then show ?case by (simp add: utf8_denums.simps)
next
  case (Cons c cs)
  then obtain b r where b: "utf8_char c = Some b" and r: "utf8_nums cs = Some r"
    and bs: "bs = b @ r"
    by (auto split: option.splits)
  from b have "b \<noteq> []" by (rule utf8_char_nonempty)
  with Cons.IH [OF r] utf8_take_char [OF b, of r] bs show ?case
    by (simp add: utf8_denums.simps [of "b @ r"])
qed

theorem utf8_roundtrip: "utf8_encode s = Some bs \<Longrightarrow> utf8_decode bs = Some s"
proof -
  assume "utf8_encode s = Some bs"
  then obtain ns where ns: "utf8_nums s = Some ns" and bs: "bs = map char_of ns"
    by (auto simp: utf8_encode_def)
  have "map (\<lambda>n. of_char (char_of n :: char) :: nat) ns = ns"
    by (rule map_idI) (simp add: utf8_nums_bytes [OF ns])
  then show ?thesis
    using utf8_denums_nums [OF ns] by (simp add: bs utf8_decode_def comp_def)
qed

lemma utf8_encode_lit_chars:
  "(\<forall>c \<in> set s. of_char c < (128::nat)) \<Longrightarrow> utf8_encode (lit s) = Some s"
proof -
  have "(\<forall>c \<in> set s. of_char c < (128::nat)) \<Longrightarrow> utf8_nums (lit s) = Some (map of_char s)"
    by (induction s) (auto simp: lit_def utf8_char_def is_surrogate_def)
  moreover assume "\<forall>c \<in> set s. of_char c < (128::nat)"
  ultimately show ?thesis by (simp add: utf8_encode_def comp_def)
qed

subsection \<open>Case and white space of ASCII text\<close>

definition ascii_lower :: "nat \<Rightarrow> nat" where
  "ascii_lower c = (if 65 \<le> c \<and> c \<le> 90 then c + 32 else c)"

text \<open>The code points \<open>str.strip\<close> and \<open>str.split\<close> take for white space.\<close>

definition is_space :: "nat \<Rightarrow> bool" where
  "is_space c \<longleftrightarrow> 9 \<le> c \<and> c \<le> 13 \<or> 28 \<le> c \<and> c \<le> 32 \<or> c = 133 \<or> c = 160 \<or> c = 5760 \<or>
     8192 \<le> c \<and> c \<le> 8202 \<or> c = 8232 \<or> c = 8233 \<or> c = 8239 \<or> c = 8287 \<or> c = 12288"

definition strip_of :: "('a \<Rightarrow> bool) \<Rightarrow> 'a list \<Rightarrow> 'a list" where
  "strip_of p xs = rev (dropWhile p (rev (dropWhile p xs)))"

definition strip :: "pystr \<Rightarrow> pystr" where
  "strip s = strip_of is_space s"

lemma strip_Nil [simp]: "strip [] = []"
  by (simp add: strip_def strip_of_def)

lemma strip_of_set: "set (strip_of p xs) \<subseteq> set xs"
  by (auto simp: strip_of_def dest!: set_dropWhileD)

lemma strip_of_empty_iff: "strip_of p xs = [] \<longleftrightarrow> (\<forall>x \<in> set xs. p x)"
proof
  assume "strip_of p xs = []"
  then have "\<forall>x \<in> set (dropWhile p xs). p x" by (simp add: strip_of_def)
  then have "dropWhile p xs = []" by (metis hd_dropWhile hd_in_set)
  then show "\<forall>x \<in> set xs. p x" by simp
next
  assume "\<forall>x \<in> set xs. p x"
  then show "strip_of p xs = []" by (auto simp: strip_of_def dest: set_dropWhileD)
qed

subsection \<open>Membership, case and \<open>int\<close>\<close>

text \<open>\<open>sub in text\<close>.\<close>

definition has_sub :: "'a list \<Rightarrow> 'a list \<Rightarrow> bool" where
  "has_sub p xs \<longleftrightarrow> find_sub p xs \<noteq> None"

lemma has_sub_iff: "has_sub p xs \<longleftrightarrow> (\<exists>i. occurs_at p xs i)"
  by (auto simp: has_sub_def find_sub_None)

lemma has_sub_append: "has_sub p xs \<Longrightarrow> has_sub p (xs @ ys)"
  by (auto simp: has_sub_iff intro: occurs_at_append)

text \<open>
  \<open>str.lower\<close>, as far as the ASCII characters of the result go: the letters, the Kelvin
  sign and the dotted capital I are all that lower to one. Every other character is left
  as it is, where Python may put another character outside ASCII.
\<close>

definition lower :: "pystr \<Rightarrow> pystr" where
  "lower s = concat (map (\<lambda>c. if c = 8490 then [107] else if c = 304 then [105, 775]
     else [ascii_lower c]) s)"

text \<open>
  \<open>int(text)\<close> on ASCII text: spaces around it, a sign, and at most 4,300 digits, between
  which single underscores may stand. \<open>None\<close> is \<open>ValueError\<close>.
\<close>

definition int_digits :: "pystr \<Rightarrow> nat option" where
  "int_digits s =
     (let ws = split_on 95 s; ds = concat ws
      in if (\<forall>w \<in> set ws. w \<noteq> []) \<and> (\<forall>c \<in> set ds. is_digit c) \<and> length ds \<le> 4300
         then Some (dec_value ds) else None)"

definition py_int :: "pystr \<Rightarrow> int option" where
  "py_int s =
     (case strip s of
        [] \<Rightarrow> None
      | c # r \<Rightarrow>
          if c = 45 then map_option (\<lambda>n. - int n) (int_digits r)
          else if c = 43 then map_option int (int_digits r)
          else map_option int (int_digits (c # r)))"

lemma split_on_absent: "c \<notin> set xs \<Longrightarrow> split_on c xs = [xs]"
  by (induction xs) auto

lemma split_on_append: "c \<notin> set a \<Longrightarrow> split_on c (a @ c # r) = a # split_on c r"
  by (induction a) auto

lemma split_on_join: "ws \<noteq> [] \<Longrightarrow> (\<And>w. w \<in> set ws \<Longrightarrow> c \<notin> set w) \<Longrightarrow> split_on c (join_with [c] ws) = ws"
  by (induction "[c]" ws rule: join_with.induct) (auto simp: split_on_absent split_on_append)

lemma split_on_snoc: "split_on c (q @ [c]) = split_on c q @ [[]]"
  by (induction q) (auto split: list.splits)

lemma int_digits_print: "length (dec_digits n) \<le> 4300 \<Longrightarrow> int_digits (dec_digits n) = Some n"
proof -
  assume len: "length (dec_digits n) \<le> 4300"
  have "95 \<notin> set (dec_digits n)" using dec_digits_are_digits [of 95 n] by (auto simp: is_digit_def)
  then have "split_on 95 (dec_digits n) = [dec_digits n]" by (rule split_on_absent)
  with len show ?thesis by (simp add: int_digits_def dec_digits_are_digits Let_def)
qed

lemma strip_of_none: "(\<And>x. x \<in> set xs \<Longrightarrow> \<not> p x) \<Longrightarrow> strip_of p xs = xs"
proof -
  assume *: "\<And>x. x \<in> set xs \<Longrightarrow> \<not> p x"
  then have "dropWhile p xs = xs" by (cases xs) auto
  moreover from * have "dropWhile p (rev xs) = rev xs" by (cases "rev xs") (auto simp: dropWhile_eq_self_iff)
  ultimately show ?thesis by (simp add: strip_of_def)
qed

lemma dec_digits_value:
  "s \<noteq> [] \<Longrightarrow> list_all is_digit s \<Longrightarrow> s = [48] \<or> hd s \<noteq> 48 \<Longrightarrow> dec_digits (dec_value s) = s"
proof (induction s rule: rev_induct)
  case (snoc d ds)
  then have d: "is_digit d" "48 \<le> d" "d \<le> 57" by (auto simp: is_digit_def)
  show ?case
  proof (cases "ds = []")
    case True
    with d show ?thesis by (subst dec_digits.simps) (simp add: dec_value_def)
  next
    case False
    with snoc.prems have hd: "hd ds \<noteq> 48" and ds: "list_all is_digit ds" by auto
    have "0 < dec_value ds"
      using dec_value_ge [of ds] False hd ds by (simp add: list_all_iff) (metis less_le_trans zero_less_numeral zero_less_power)
    moreover have "dec_digits (dec_value ds) = ds" using snoc.IH False hd ds by simp
    moreover obtain e where "d = 48 + e" "e < 10" using d le_Suc_ex [of 48 d] by fastforce
    ultimately show ?thesis by (subst dec_digits.simps) simp
  qed
qed simp

lemma dec_digits_short:
  assumes "n < 10 ^ k" "0 < k"
  shows "length (dec_digits n) \<le> k"
proof (rule ccontr)
  assume "\<not> ?thesis"
  then have long: "k < length (dec_digits n)" by simp
  with assms(2) have "n \<noteq> 0" by (cases "n = 0") auto
  then have "10 ^ (length (dec_digits n) - 1) \<le> n"
    using dec_value_ge [of "dec_digits n"] hd_dec_digits [of n] dec_digits_are_digits [of _ n] by simp
  moreover have "(10 :: nat) ^ k \<le> 10 ^ (length (dec_digits n) - 1)" using long by (intro power_increasing) auto
  ultimately show False using assms(1) by linarith
qed

lemma py_int_print: "length (dec_digits n) \<le> 4300 \<Longrightarrow> py_int (dec_digits n) = Some (int n)"
proof -
  assume len: "length (dec_digits n) \<le> 4300"
  have "\<not> is_space c" if "c \<in> set (dec_digits n)" for c
    using dec_digits_are_digits [OF that] by (auto simp: is_digit_def is_space_def)
  then have s: "strip (dec_digits n) = dec_digits n"
    by (simp add: strip_def strip_of_none)
  obtain d ds where d: "dec_digits n = d # ds" by (cases "dec_digits n") auto
  then have "d \<noteq> 45" "d \<noteq> 43" using dec_digits_are_digits [of d n] by (auto simp: is_digit_def)
  with s d int_digits_print [OF len] show ?thesis by (simp add: py_int_def)
qed

subsection \<open>Digests in hexadecimal\<close>

text \<open>\<open>^[a-f0-9]{64}$\<close>, as pydantic matches it: the end is the end of the text.\<close>

definition hex64_pattern :: "pystr \<Rightarrow> bool" where
  "hex64_pattern s \<longleftrightarrow> length s = 64 \<and> list_all (\<lambda>c. is_digit c \<or> 97 \<le> c \<and> c \<le> 102) s"

end
