(* ===== verification/Py_Json.thy ===== *)
theory Py_Json
  imports Py_Text "HOL-Library.AList" "HOL-Library.List_Lexorder"
begin

text \<open>
  The \<open>json\<close> module of Python's standard library, as far as the components use it: the
  values, \<open>dict\<close> reads and writes, \<open>json.dumps\<close> (compact and indented, with
  \<open>ensure_ascii=False\<close>) and \<open>json.loads\<close>. A \<open>dict\<close> is the association list of its items in
  insertion order. A number with a fraction or an exponent is kept as its text
  (\<open>JFloat\<close>); the components hold none, and the round trip excludes it. Nesting is not
  limited, where Python raises \<open>RecursionError\<close>.
\<close>

datatype json =
    JNull
  | JBool bool
  | JInt int
  | JFloat pystr
  | JStr pystr
  | JArr "json list"
  | JObj "(pystr \<times> json) list"

subsection \<open>Dictionaries\<close>

definition obj_get :: "pystr \<Rightarrow> json \<Rightarrow> json option" where
  "obj_get k v = (case v of JObj kvs \<Rightarrow> map_of kvs k | _ \<Rightarrow> None)"

definition obj_set :: "pystr \<Rightarrow> json \<Rightarrow> json \<Rightarrow> json" where
  "obj_set k x v = (case v of JObj kvs \<Rightarrow> JObj (AList.update k x kvs) | _ \<Rightarrow> v)"

definition is_obj :: "json \<Rightarrow> bool" where
  "is_obj v = (case v of JObj kvs \<Rightarrow> True | _ \<Rightarrow> False)"

text \<open>\<open>record.update({...})\<close>.\<close>

definition obj_update :: "(pystr \<times> json) list \<Rightarrow> json \<Rightarrow> json" where
  "obj_update kvs v = foldl (\<lambda>w (k, x). obj_set k x w) v kvs"

lemma is_obj_JObj [simp]: "is_obj (JObj kvs)"
  by (simp add: is_obj_def)

lemma is_obj_obj_set [simp]: "is_obj (obj_set k x v) = is_obj v"
  by (simp add: is_obj_def obj_set_def split: json.splits)

lemma obj_get_obj_set [simp]:
  "is_obj v \<Longrightarrow> obj_get k (obj_set k' x v) = (if k = k' then Some x else obj_get k v)"
  by (auto simp: is_obj_def obj_get_def obj_set_def update_conv split: json.splits)

lemma obj_get_JObj: "obj_get k (JObj kvs) = map_of kvs k"
  by (simp add: obj_get_def)

lemma obj_get_not_obj [simp]: "\<not> is_obj v \<Longrightarrow> obj_get k v = None"
  by (simp add: is_obj_def obj_get_def split: json.splits)

text \<open>Keys in code point order (\<open>sort_keys=True\<close>), at every level.\<close>

fun sort_json :: "json \<Rightarrow> json" where
  "sort_json (JArr xs) = JArr (map sort_json xs)"
| "sort_json (JObj kvs) = JObj (sort_key fst (map (\<lambda>(k, v). (k, sort_json v)) kvs))"
| "sort_json v = v"

text \<open>Python's \<open>==\<close> on such values: key order is irrelevant, and \<open>True == 1\<close>.\<close>

fun eq_form :: "json \<Rightarrow> json" where
  "eq_form (JArr xs) = JArr (map eq_form xs)"
| "eq_form (JObj kvs) = JObj (sort_key fst (map (\<lambda>(k, v). (k, eq_form v)) kvs))"
| "eq_form (JBool b) = JInt (if b then 1 else 0)"
| "eq_form v = v"

definition json_eq :: "json \<Rightarrow> json \<Rightarrow> bool" where
  "json_eq v w \<longleftrightarrow> eq_form v = eq_form w"

lemma json_eq_refl [simp]: "json_eq v v"
  by (simp add: json_eq_def)

subsection \<open>Printing (\<open>json.dumps\<close>)\<close>

datatype style = Compact | Spaced | Indented nat

fun newline :: "style \<Rightarrow> nat \<Rightarrow> pystr" where
  "newline Compact l = []"
| "newline Spaced l = []"
| "newline (Indented n) l = 10 # replicate (n * l) 32"

text \<open>What follows the comma between two items, and the separator of a key and its value.\<close>

fun gap :: "style \<Rightarrow> nat \<Rightarrow> pystr" where
  "gap Compact l = []"
| "gap Spaced l = [32]"
| "gap (Indented n) l = newline (Indented n) l"

fun colon :: "style \<Rightarrow> pystr" where
  "colon Compact = [58]"
| "colon Spaced = [58, 32]"
| "colon (Indented n) = [58, 32]"

definition hex_digit :: "nat \<Rightarrow> nat" where
  "hex_digit n = (if n < 10 then 48 + n else 87 + n)"

definition escape_char :: "nat \<Rightarrow> pystr" where
  "escape_char c =
     (if c = 34 then [92, 34]
      else if c = 92 then [92, 92]
      else if c = 10 then [92, 110]
      else if c = 13 then [92, 114]
      else if c = 9 then [92, 116]
      else if c = 12 then [92, 102]
      else if c = 8 then [92, 98]
      else if c < 32 then [92, 117, 48, 48, hex_digit (c div 16), hex_digit (c mod 16)]
      else [c])"

definition js_string :: "pystr \<Rightarrow> pystr" where
  "js_string s = 34 # concat (map escape_char s) @ [34]"

definition js_int :: "int \<Rightarrow> pystr" where
  "js_int i = (if i < 0 then 45 # dec_digits (nat (- i)) else dec_digits (nat i))"

fun js_print :: "style \<Rightarrow> nat \<Rightarrow> json \<Rightarrow> pystr"
and js_elems :: "style \<Rightarrow> nat \<Rightarrow> json list \<Rightarrow> pystr"
and js_members :: "style \<Rightarrow> nat \<Rightarrow> (pystr \<times> json) list \<Rightarrow> pystr" where
  "js_print st l JNull = lit ''null''"
| "js_print st l (JBool b) = (if b then lit ''true'' else lit ''false'')"
| "js_print st l (JInt i) = js_int i"
| "js_print st l (JFloat t) = t"
| "js_print st l (JStr s) = js_string s"
| "js_print st l (JArr xs) =
     (if xs = [] then [91, 93]
      else 91 # newline st (Suc l) @ js_elems st (Suc l) xs @ newline st l @ [93])"
| "js_print st l (JObj kvs) =
     (if kvs = [] then [123, 125]
      else 123 # newline st (Suc l) @ js_members st (Suc l) kvs @ newline st l @ [125])"
| "js_elems st l [] = []"
| "js_elems st l (x # xs) =
     js_print st l x @ (if xs = [] then [] else 44 # gap st l @ js_elems st l xs)"
| "js_members st l [] = []"
| "js_members st l (kv # kvs) =
     js_string (fst kv) @ colon st @ js_print st l (snd kv) @
       (if kvs = [] then [] else 44 # gap st l @ js_members st l kvs)"

text \<open>\<open>json.dumps(value, ensure_ascii=False, sort_keys=True, separators=(',', ':'))\<close>,
  \<open>json.dumps(value, ensure_ascii=False, sort_keys=True)\<close> with the default separators, and \<open>json.dump(value, handle, ensure_ascii=False, indent=2)\<close>.\<close>

definition dumps_compact :: "json \<Rightarrow> pystr" where
  "dumps_compact v = js_print Compact 0 (sort_json v)"

definition dumps_spaced :: "json \<Rightarrow> pystr" where
  "dumps_spaced v = js_print Spaced 0 (sort_json v)"

definition dumps_indented :: "json \<Rightarrow> pystr" where
  "dumps_indented v = js_print (Indented 2) 0 v"

subsection \<open>Parsing (\<open>json.loads\<close>)\<close>

definition is_ws :: "nat \<Rightarrow> bool" where
  "is_ws c \<longleftrightarrow> c = 32 \<or> c = 9 \<or> c = 10 \<or> c = 13"

definition skip_ws :: "pystr \<Rightarrow> pystr" where
  "skip_ws s = dropWhile is_ws s"

definition hex_value :: "nat \<Rightarrow> nat option" where
  "hex_value c =
     (if 48 \<le> c \<and> c \<le> 57 then Some (c - 48)
      else if 97 \<le> c \<and> c \<le> 102 then Some (c - 87)
      else if 65 \<le> c \<and> c \<le> 70 then Some (c - 55)
      else None)"

text \<open>Four hexadecimal digits off the front.\<close>

fun hex4 :: "pystr \<Rightarrow> (nat \<times> pystr) option" where
  "hex4 (a # b # c # d # r) =
     (case (hex_value a, hex_value b, hex_value c, hex_value d) of
        (Some w, Some x, Some y, Some z) \<Rightarrow> Some (((w * 16 + x) * 16 + y) * 16 + z, r)
      | _ \<Rightarrow> None)"
| "hex4 _ = None"

lemma hex4_shorter: "hex4 s = Some (u, r) \<Longrightarrow> length r < length s"
  by (induction s rule: hex4.induct) (auto split: option.splits)

definition simple_escape :: "nat \<Rightarrow> nat option" where
  "simple_escape e =
     (if e = 34 then Some 34 else if e = 92 then Some 92 else if e = 47 then Some 47
      else if e = 98 then Some 8 else if e = 102 then Some 12 else if e = 110 then Some 10
      else if e = 114 then Some 13 else if e = 116 then Some 9 else None)"

text \<open>The code point of an escape whose first four digits are read: a high surrogate
  takes the low surrogate that follows it.\<close>

definition join_surrogates :: "nat \<Rightarrow> pystr \<Rightarrow> nat \<times> pystr" where
  "join_surrogates u r =
     (if 55296 \<le> u \<and> u \<le> 56319 \<and> take 2 r = [92, 117] then
        (case hex4 (drop 2 r) of
           Some (v, r') \<Rightarrow>
             if 56320 \<le> v \<and> v \<le> 57343
             then (65536 + (u - 55296) * 1024 + (v - 56320), r') else (u, r)
         | None \<Rightarrow> (u, r))
      else (u, r))"

lemma join_surrogates_length: "length (snd (join_surrogates u r)) \<le> length r"
proof -
  have "length r' \<le> length r" if "hex4 (drop 2 r) = Some (v, r')" for v r'
    using hex4_shorter [OF that] by simp
  then show ?thesis by (auto simp: join_surrogates_def split: option.splits)
qed

text \<open>A string, from behind its opening quotation mark.\<close>

function parse_string :: "pystr \<Rightarrow> (pystr \<times> pystr) option" where
  "parse_string s =
     (case s of
        [] \<Rightarrow> None
      | c # r \<Rightarrow>
          if c = 34 then Some ([], r)
          else if c = 92 then
            (case r of
               [] \<Rightarrow> None
             | e # r1 \<Rightarrow>
                 if e = 117 then
                   (case hex4 r1 of
                      None \<Rightarrow> None
                    | Some (u, r2) \<Rightarrow>
                        map_option (\<lambda>(t, w). (fst (join_surrogates u r2) # t, w))
                          (parse_string (snd (join_surrogates u r2))))
                 else
                   (case simple_escape e of
                      None \<Rightarrow> None
                    | Some x \<Rightarrow> map_option (\<lambda>(t, w). (x # t, w)) (parse_string r1)))
          else if c < 32 then None
          else map_option (\<lambda>(t, w). (c # t, w)) (parse_string r))"
  by pat_completeness auto
termination
proof (relation "measure length", goal_cases)
  case (2 s c r e r1 x2 u r2)
  then have "length r2 < length r1" by (auto dest: hex4_shorter)
  moreover have "length (snd (join_surrogates u r2)) \<le> length r2"
    by (rule join_surrogates_length)
  ultimately show ?case using 2 by simp
qed auto

declare parse_string.simps [simp del]

definition digits_split :: "pystr \<Rightarrow> pystr \<times> pystr" where
  "digits_split s = (takeWhile is_digit s, dropWhile is_digit s)"

text \<open>The optional fraction and exponent of a number.\<close>

definition parse_frac :: "pystr \<Rightarrow> pystr \<times> pystr" where
  "parse_frac s =
     (case s of
        c # d # r \<Rightarrow>
          if c = 46 \<and> is_digit d then (46 # fst (digits_split (d # r)), snd (digits_split (d # r)))
          else ([], s)
      | _ \<Rightarrow> ([], s))"

definition parse_exp :: "pystr \<Rightarrow> pystr \<times> pystr" where
  "parse_exp s =
     (case s of
        c # r \<Rightarrow>
          if c = 101 \<or> c = 69 then
            (let sg = (case r of d # r' \<Rightarrow> if d = 43 \<or> d = 45 then [d] else [] | [] \<Rightarrow> []);
                 ds = digits_split (drop (length sg) r)
             in if fst ds = [] then ([], s) else (c # sg @ fst ds, snd ds))
          else ([], s)
      | [] \<Rightarrow> ([], s))"

text \<open>The integer part: \<open>0\<close>, or the digits up to the first other character.\<close>

definition int_part :: "pystr \<Rightarrow> pystr \<times> pystr" where
  "int_part s =
     (case s of c # r \<Rightarrow> if c = 48 then ([48], r) else digits_split s | [] \<Rightarrow> ([], []))"

definition parse_number :: "pystr \<Rightarrow> (json \<times> pystr) option" where
  "parse_number s =
     (let neg = (case s of c # r \<Rightarrow> c = 45 | [] \<Rightarrow> False);
          s1 = (if neg then tl s else s);
          ds = int_part s1;
          fr = parse_frac (snd ds);
          ex = parse_exp (snd fr)
      in if fst ds = [] then None
         else if fst fr = [] \<and> fst ex = [] then
           Some (JInt (if neg then - int (dec_value (fst ds)) else int (dec_value (fst ds))), snd ds)
         else Some (JFloat ((if neg then [45] else []) @ fst ds @ fst fr @ fst ex), snd ex))"

definition parse_atom :: "pystr \<Rightarrow> (json \<times> pystr) option" where
  "parse_atom s =
     (if starts_with s (lit ''null'') then Some (JNull, drop 4 s)
      else if starts_with s (lit ''true'') then Some (JBool True, drop 4 s)
      else if starts_with s (lit ''false'') then Some (JBool False, drop 5 s)
      else if starts_with s (lit ''NaN'') then Some (JFloat (lit ''NaN''), drop 3 s)
      else if starts_with s (lit ''Infinity'') then Some (JFloat (lit ''Infinity''), drop 8 s)
      else if starts_with s (lit ''-Infinity'') then Some (JFloat (lit ''-Infinity''), drop 9 s)
      else parse_number s)"

text \<open>
  Values, elements and members. The first argument bounds the recursion; \<open>loads_pairs\<close>
  gives one more than the length of the text, which is enough, since every call follows
  the consumption of a character. An object is returned with the pairs as they stand
  in the text, as \<open>object_pairs_hook\<close> receives them.
\<close>

fun parse_value :: "nat \<Rightarrow> pystr \<Rightarrow> (json \<times> pystr) option"
and parse_elems :: "nat \<Rightarrow> pystr \<Rightarrow> (json list \<times> pystr) option"
and parse_members :: "nat \<Rightarrow> pystr \<Rightarrow> ((pystr \<times> json) list \<times> pystr) option" where
  "parse_value 0 s = None"
| "parse_value (Suc f) s =
     (case s of
        [] \<Rightarrow> None
      | c # r \<Rightarrow>
          if c = 34 then map_option (\<lambda>(t, u). (JStr t, u)) (parse_string r)
          else if c = 123 then
            (if take 1 (skip_ws r) = [125] then Some (JObj [], drop 1 (skip_ws r))
             else map_option (\<lambda>(kvs, u). (JObj kvs, u)) (parse_members f (skip_ws r)))
          else if c = 91 then
            (if take 1 (skip_ws r) = [93] then Some (JArr [], drop 1 (skip_ws r))
             else map_option (\<lambda>(xs, u). (JArr xs, u)) (parse_elems f (skip_ws r)))
          else parse_atom s)"
| "parse_elems 0 s = None"
| "parse_elems (Suc f) s =
     (case parse_value f s of
        None \<Rightarrow> None
      | Some (x, r) \<Rightarrow>
          (case skip_ws r of
             [] \<Rightarrow> None
           | c # r1 \<Rightarrow>
               if c = 93 then Some ([x], r1)
               else if c = 44 then
                 map_option (\<lambda>(xs, u). (x # xs, u)) (parse_elems f (skip_ws r1))
               else None))"
| "parse_members 0 s = None"
| "parse_members (Suc f) s =
     (if take 1 s = [34] then
        (case parse_string (drop 1 s) of
           None \<Rightarrow> None
         | Some (k, r) \<Rightarrow>
             if take 1 (skip_ws r) = [58] then
               (case parse_value f (skip_ws (drop 1 (skip_ws r))) of
                  None \<Rightarrow> None
                | Some (x, r1) \<Rightarrow>
                    (case skip_ws r1 of
                       [] \<Rightarrow> None
                     | c # r2 \<Rightarrow>
                         if c = 125 then Some ([(k, x)], r2)
                         else if c = 44 then
                           map_option (\<lambda>(kvs, u). ((k, x) # kvs, u))
                             (parse_members f (skip_ws r2))
                         else None))
             else None)
      else None)"

definition loads_pairs :: "pystr \<Rightarrow> json option" where
  "loads_pairs s =
     (case parse_value (Suc (length s)) (skip_ws s) of
        None \<Rightarrow> None
      | Some (v, r) \<Rightarrow> if skip_ws r = [] then Some v else None)"

text \<open>Python builds each \<open>dict\<close> from its pairs, where the last value of a key wins.\<close>

fun dict_of_pairs :: "json \<Rightarrow> json" where
  "dict_of_pairs (JArr xs) = JArr (map dict_of_pairs xs)"
| "dict_of_pairs (JObj kvs) =
     JObj (foldl (\<lambda>d (k, x). AList.update k x d) [] (map (\<lambda>(k, v). (k, dict_of_pairs v)) kvs))"
| "dict_of_pairs v = v"

definition loads :: "pystr \<Rightarrow> json option" where
  "loads s = map_option dict_of_pairs (loads_pairs s)"

subsection \<open>Round trip of strings and integers\<close>

lemma hex_value_digit: "n < 16 \<Longrightarrow> hex_value (hex_digit n) = Some n"
  by (simp add: hex_value_def hex_digit_def)

lemma hex4_escape: "c < 256 \<Longrightarrow>
  hex4 (48 # 48 # hex_digit (c div 16) # hex_digit (c mod 16) # r) = Some (c, r)"
proof -
  assume "c < 256"
  then have "c div 16 < 16" "c mod 16 < 16" by simp_all
  moreover have "hex_value 48 = Some 0" by (simp add: hex_value_def)
  ultimately show ?thesis by (simp add: hex_value_digit)
qed

lemma parse_string_escape:
  "parse_string (escape_char c @ r) = map_option (\<lambda>(t, w). (c # t, w)) (parse_string r)"
proof -
  consider (two) e where "escape_char c = [92, e]" "e \<noteq> 117" "simple_escape e = Some c"
    | (hex) "c < 32" "escape_char c = [92, 117, 48, 48, hex_digit (c div 16), hex_digit (c mod 16)]"
    | (plain) "escape_char c = [c]" "32 \<le> c" "c \<noteq> 34" "c \<noteq> 92"
  proof -
    consider "c \<in> {34, 92, 10, 13, 9, 12, 8}" | "c < 32" "c \<notin> {34, 92, 10, 13, 9, 12, 8}"
      | "32 \<le> c" "c \<noteq> 34" "c \<noteq> 92" by fastforce
    then show thesis
      by cases (use that in \<open>auto simp: escape_char_def simple_escape_def\<close>)
  qed
  then show ?thesis
  proof cases
    case two
    then show ?thesis by (simp add: parse_string.simps [of "92 # e # r"])
  next
    case hex
    have "join_surrogates c r = (c, r)" using hex(1) by (simp add: join_surrogates_def)
    with hex hex4_escape [of c r] show ?thesis
      by (simp add: parse_string.simps
        [of "92 # 117 # 48 # 48 # hex_digit (c div 16) # hex_digit (c mod 16) # r"])
  next
    case plain
    then show ?thesis by (simp add: parse_string.simps [of "c # r"])
  qed
qed

lemma parse_string_print:
  "parse_string (concat (map escape_char s) @ 34 # r) = Some (s, r)"
proof (induction s)
  case Nil
  show ?case by (simp add: parse_string.simps [of "34 # r"])
next
  case (Cons c s)
  then show ?case by (simp add: parse_string_escape)
qed

text \<open>What may follow a printed number.\<close>

definition ends_number :: "pystr \<Rightarrow> bool" where
  "ends_number r \<longleftrightarrow> (case r of [] \<Rightarrow> True | c # _ \<Rightarrow> \<not> is_digit c \<and> c \<noteq> 46 \<and> c \<noteq> 101 \<and> c \<noteq> 69)"

lemma ends_number_simps [simp]: "ends_number []" "ends_number (44 # r)" "ends_number (93 # r)"
  "ends_number (125 # r)" "ends_number (10 # r)"
  by (simp_all add: ends_number_def is_digit_def)

lemma ends_number_newline [simp]: "ends_number r \<Longrightarrow> ends_number (newline st l @ r)"
  by (cases st) simp_all

lemma digits_split_print:
  assumes "ends_number r"
  shows "digits_split (dec_digits n @ r) = (dec_digits n, r)"
proof -
  have all: "\<forall>c \<in> set (dec_digits n). is_digit c" by (simp add: dec_digits_are_digits)
  have "takeWhile is_digit r = []" "dropWhile is_digit r = r"
    using assms by (cases r; simp add: ends_number_def)+
  with all show ?thesis by (simp add: digits_split_def takeWhile_append dropWhile_append)
qed

lemma parse_frac_exp_end:
  "ends_number r \<Longrightarrow> parse_frac r = ([], r)" "ends_number r \<Longrightarrow> parse_exp r = ([], r)"
  by (auto simp: ends_number_def parse_frac_def parse_exp_def split: list.splits)

lemma dec_digits_Cons:
  obtains d ds where "dec_digits n = d # ds" "is_digit d"
  by (metis dec_digits_are_digits dec_digits_nonempty list.exhaust list.set_intros(1))

lemma int_part_print:
  assumes "ends_number r"
  shows "int_part (dec_digits n @ r) = (dec_digits n, r)"
proof (cases "n = 0")
  case True
  then show ?thesis by (simp add: int_part_def)
next
  case False
  obtain d ds where d: "dec_digits n = d # ds" by (rule dec_digits_Cons)
  with False hd_dec_digits [of n] have "d \<noteq> 48" by simp
  with d digits_split_print [OF assms, of n] show ?thesis by (simp add: int_part_def)
qed

lemma parse_number_print:
  assumes "ends_number r"
  shows "parse_number (js_int i @ r) = Some (JInt i, r)"
proof (cases "i < 0")
  case True
  then show ?thesis
    using int_part_print [OF assms, of "nat (- i)"] parse_frac_exp_end [OF assms]
    by (simp add: parse_number_def js_int_def Let_def)
next
  case False
  obtain d ds where d: "dec_digits (nat i) = d # ds" "is_digit d" by (rule dec_digits_Cons)
  then have "d \<noteq> 45" by (simp add: is_digit_def)
  then show ?thesis
    using False d int_part_print [OF assms, of "nat i"] parse_frac_exp_end [OF assms]
      dec_value_digits [of "nat i"]
    by (simp add: parse_number_def js_int_def Let_def)
qed

lemma js_int_start: "js_int i \<noteq> []" "hd (js_int i) = 45 \<or> is_digit (hd (js_int i))"
proof -
  obtain d ds where "dec_digits (nat i) = d # ds" "is_digit d" by (rule dec_digits_Cons)
  then show "js_int i \<noteq> []" "hd (js_int i) = 45 \<or> is_digit (hd (js_int i))"
    by (auto simp: js_int_def)
qed

lemma parse_atom_int:
  assumes "ends_number r"
  shows "parse_atom (js_int i @ r) = Some (JInt i, r)"
proof -
  obtain c cs where c: "js_int i = c # cs" using js_int_start(1) by (cases "js_int i") auto
  have minus: "cs \<noteq> [] \<and> is_digit (hd cs)" if "c = 45"
  proof -
    have "i < 0"
    proof (rule ccontr)
      assume "\<not> i < 0"
      then have "dec_digits (nat i) = c # cs" using c by (simp add: js_int_def)
      then have "is_digit c" using dec_digits_are_digits [of c "nat i"] by simp
      with that show False by (simp add: is_digit_def)
    qed
    then have "dec_digits (nat (- i)) = cs" using c by (simp add: js_int_def)
    then show ?thesis by (metis dec_digits_Cons list.distinct(1) list.sel(1))
  qed
  have "\<not> starts_with (c # cs @ r) (lit p)" if "p \<in> {''null'', ''true'', ''false'', ''NaN'', ''Infinity''}" for p
    using that js_int_start(2) [of i] c
    by (auto simp: starts_with_def lit_def is_digit_def)
  moreover have "\<not> starts_with (c # cs @ r) (lit ''-Infinity'')"
    using minus by (cases cs) (auto simp: starts_with_def lit_def is_digit_def)
  moreover have "parse_number (c # cs @ r) = Some (JInt i, r)"
    using parse_number_print [OF assms, of i] c by simp
  ultimately show ?thesis by (simp add: parse_atom_def c)
qed

subsection \<open>Round trip of values\<close>

fun no_float :: "json \<Rightarrow> bool" where
  "no_float (JFloat t) = False"
| "no_float (JArr xs) = (\<forall>x \<in> set xs. no_float x)"
| "no_float (JObj kvs) = (\<forall>kv \<in> set kvs. no_float (snd kv))"
| "no_float v = True"

lemma skip_ws_newline [simp]: "skip_ws (newline st l @ r) = skip_ws r"
proof -
  have "dropWhile is_ws (replicate n 32 @ r) = dropWhile is_ws r" for n
    by (induction n) (auto simp: is_ws_def)
  then show ?thesis by (cases st) (simp_all add: skip_ws_def is_ws_def)
qed

lemma skip_ws_gap [simp]: "skip_ws (gap st l @ r) = skip_ws r"
  by (cases st) (simp_all del: newline.simps, simp_all add: skip_ws_def is_ws_def)

lemma skip_ws_colon: "drop 1 (skip_ws (colon st @ r)) = (case st of Compact \<Rightarrow> r | _ \<Rightarrow> 32 # r)"
  "take 1 (skip_ws (colon st @ r)) = [58]"
  by (cases st; simp add: skip_ws_def is_ws_def)+

lemma skip_ws_Cons: "\<not> is_ws c \<Longrightarrow> skip_ws (c # r) = c # r"
  by (simp add: skip_ws_def)

lemma not_ws [simp]: "\<not> is_ws 44" "\<not> is_ws 34" "\<not> is_ws 91" "\<not> is_ws 93" "\<not> is_ws 123" "\<not> is_ws 125"
  by (simp_all add: is_ws_def)

lemma js_print_start:
  assumes "no_float v"
  obtains c cs where "js_print st l v = c # cs" "\<not> is_ws c" "c \<noteq> 93" "c \<noteq> 125"
proof -
  have "\<exists>c cs. js_print st l v = c # cs \<and> \<not> is_ws c \<and> c \<noteq> 93 \<and> c \<noteq> 125"
  proof (cases v)
    case (JInt i)
    obtain c cs where "js_int i = c # cs" using js_int_start(1) by (cases "js_int i") auto
    with js_int_start(2) [of i] JInt show ?thesis by (auto simp: is_ws_def is_digit_def)
  qed (use assms in \<open>simp_all add: lit_def js_string_def is_ws_def\<close>)
  with that show ?thesis by blast
qed

lemma skip_ws_print:
  assumes "no_float v"
  shows "skip_ws (js_print st l v @ r) = js_print st l v @ r"
proof -
  obtain c cs where "js_print st l v = c # cs" "\<not> is_ws c" using js_print_start [OF assms] .
  then show ?thesis by (simp add: skip_ws_Cons)
qed

lemma parse_atom_literals:
  "parse_atom (lit ''null'' @ r) = Some (JNull, r)"
  "parse_atom (lit ''true'' @ r) = Some (JBool True, r)"
  "parse_atom (lit ''false'' @ r) = Some (JBool False, r)"
  by (simp_all add: parse_atom_def starts_with_def lit_def)

lemma parse_value_atom:
  assumes "s = c # cs" "c \<noteq> 34" "c \<noteq> 123" "c \<noteq> 91"
  shows "parse_value (Suc f) s = parse_atom s"
  using assms by simp

lemma parse_print:
  "no_float v \<Longrightarrow> length (js_print st l v) \<le> f \<Longrightarrow> ends_number r \<Longrightarrow>
     parse_value f (js_print st l v @ r) = Some (v, r)"
  "xs \<noteq> [] \<Longrightarrow> \<forall>x \<in> set xs. no_float x \<Longrightarrow> length (js_elems st l xs) < f \<Longrightarrow>
     parse_elems f (js_elems st l xs @ newline st m @ 93 # r) = Some (xs, r)"
  "kvs \<noteq> [] \<Longrightarrow> \<forall>kv \<in> set kvs. no_float (snd kv) \<Longrightarrow> length (js_members st l kvs) < f \<Longrightarrow>
     parse_members f (js_members st l kvs @ newline st m @ 125 # r) = Some (kvs, r)"
proof (induction st l v and st l xs and st l kvs arbitrary: f r and f m r and f m r
    rule: js_print_js_elems_js_members.induct)
  case (1 st l)
  then obtain g where f: "f = Suc g" by (cases f) (auto simp: lit_def)
  have "parse_value (Suc g) (lit ''null'' @ r) = parse_atom (lit ''null'' @ r)"
    by (rule parse_value_atom [of _ 110]) (simp_all add: lit_def)
  then show ?case by (simp add: f parse_atom_literals)
next
  case (2 st l b)
  then obtain g where f: "f = Suc g" by (cases f) (auto simp: lit_def split: if_splits)
  have "parse_value (Suc g) (lit ''true'' @ r) = parse_atom (lit ''true'' @ r)"
    by (rule parse_value_atom [of _ 116]) (simp_all add: lit_def)
  moreover have "parse_value (Suc g) (lit ''false'' @ r) = parse_atom (lit ''false'' @ r)"
    by (rule parse_value_atom [of _ 102]) (simp_all add: lit_def)
  ultimately show ?case by (simp add: f parse_atom_literals)
next
  case (3 st l i)
  obtain c cs where c: "js_int i = c # cs" using js_int_start(1) by (cases "js_int i") auto
  with 3 obtain g where f: "f = Suc g" by (cases f) auto
  have "parse_value (Suc g) (js_int i @ r) = parse_atom (js_int i @ r)"
    by (rule parse_value_atom [of _ c "cs @ r"])
       (use c js_int_start(2) [of i] in \<open>auto simp: is_digit_def\<close>)
  with parse_atom_int [OF 3(3), of i] show ?case by (simp add: f)
next
  case (4 st l t)
  then show ?case by simp
next
  case (5 st l s)
  then obtain g where f: "f = Suc g" by (cases f) (auto simp: js_string_def)
  show ?case by (simp add: f js_string_def parse_string_print)
next
  case (6 st l xs)
  then obtain g where f: "f = Suc g" by (cases f) (auto split: if_splits)
  show ?case
  proof (cases "xs = []")
    case True
    then show ?thesis by (simp add: f skip_ws_Cons)
  next
    case False
    then obtain x ys where xs: "xs = x # ys" by (cases xs) auto
    with 6(2) have "no_float x" by simp
    then obtain c cs where c: "js_print st (Suc l) x = c # cs" "\<not> is_ws c" "c \<noteq> 93"
      using js_print_start by blast
    have "parse_elems g (js_elems st (Suc l) xs @ newline st l @ 93 # r) = Some (xs, r)"
      by (rule 6(1)) (use False 6(2,3) f in auto)
    moreover have "skip_ws (js_elems st (Suc l) xs @ w) = js_elems st (Suc l) xs @ w" for w
      using c by (simp add: xs skip_ws_Cons)
    moreover have "take 1 (js_elems st (Suc l) xs @ w) \<noteq> [93]" for w
      using c by (simp add: xs)
    ultimately show ?thesis using False by (simp add: f del: take_append)
  qed
next
  case (7 st l kvs)
  then obtain g where f: "f = Suc g" by (cases f) (auto split: if_splits)
  show ?case
  proof (cases "kvs = []")
    case True
    then show ?thesis by (simp add: f skip_ws_Cons)
  next
    case False
    have "parse_members g (js_members st (Suc l) kvs @ newline st l @ 125 # r) = Some (kvs, r)"
      by (rule 7(1)) (use False 7(2,3) f in auto)
    moreover have "skip_ws (js_members st (Suc l) kvs @ w) = js_members st (Suc l) kvs @ w"
      "take 1 (js_members st (Suc l) kvs @ w) = [34]" for w
      using False by (cases kvs; simp add: js_string_def skip_ws_Cons)+
    ultimately show ?thesis using False by (simp add: f del: take_append)
  qed
next
  case (8 st l)
  then show ?case by simp
next
  case (9 st l x xs)
  then obtain g where f: "f = Suc g" by (cases f) auto
  show ?case
  proof (cases "xs = []")
    case True
    have "parse_value g (js_print st l x @ newline st m @ 93 # r) = Some (x, newline st m @ 93 # r)"
      by (rule 9(1)) (use 9 f True in auto)
    then show ?thesis using True by (simp add: f skip_ws_Cons)
  next
    case False
    let ?rest = "js_elems st l xs @ newline st m @ 93 # r"
    have v: "parse_value g (js_print st l x @ 44 # gap st l @ ?rest) =
        Some (x, 44 # gap st l @ ?rest)"
      by (rule 9(1)) (use 9 f False in auto)
    have e: "parse_elems g ?rest = Some (xs, r)"
      by (rule 9(2)) (use 9 f False in auto)
    have "skip_ws (gap st l @ ?rest) = ?rest"
      using False 9(4) by (cases xs) (simp_all add: skip_ws_print)
    with v e False show ?thesis by (simp add: f skip_ws_Cons)
  qed
next
  case (10 st l)
  then show ?case by simp
next
  case (11 st l kv kvs)
  then obtain g where f: "f = Suc g" by (cases f) auto
  have nf: "no_float (snd kv)" using 11 by simp
  have sw: "skip_ws (drop 1 (skip_ws (colon st @ js_print st l (snd kv) @ w))) = js_print st l (snd kv) @ w"
    for w using skip_ws_print [OF nf, of st l w]
    by (cases st) (simp_all add: skip_ws_def is_ws_def)
  show ?case
  proof (cases "kvs = []")
    case True
    have "parse_value g (js_print st l (snd kv) @ newline st m @ 125 # r) =
        Some (snd kv, newline st m @ 125 # r)"
      by (rule 11(1)) (use 11 f nf True in auto)
    then show ?thesis using True
      by (simp add: f skip_ws_Cons js_string_def parse_string_print sw [unfolded One_nat_def]
        skip_ws_colon(2) [unfolded One_nat_def])
  next
    case False
    let ?rest = "js_members st l kvs @ newline st m @ 125 # r"
    have v: "parse_value g (js_print st l (snd kv) @ 44 # gap st l @ ?rest) =
        Some (snd kv, 44 # gap st l @ ?rest)"
      by (rule 11(1)) (use 11 f nf False in auto)
    have e: "parse_members g ?rest = Some (kvs, r)"
      by (rule 11(2)) (use 11 f False in auto)
    have "skip_ws (gap st l @ ?rest) = ?rest"
      using False by (cases kvs) (simp_all add: js_string_def skip_ws_Cons)
    with v e False show ?thesis
      by (simp add: f skip_ws_Cons js_string_def parse_string_print sw [unfolded One_nat_def]
        skip_ws_colon(2) [unfolded One_nat_def])
  qed
qed

text \<open>Text printed from a value reads back as the value.\<close>

lemma loads_pairs_print:
  assumes "no_float v"
  shows "loads_pairs (js_print st 0 v) = Some v"
proof -
  have "parse_value (Suc (length (js_print st 0 v))) (js_print st 0 v @ []) = Some (v, [])"
    by (rule parse_print(1)) (use assms in auto)
  then show ?thesis
    using skip_ws_print [OF assms, of st 0 "[]"] by (simp add: loads_pairs_def skip_ws_def)
qed

text \<open>An integer numeral of more than 4,300 digits is a \<open>ValueError\<close>, not a \<open>JSONDecodeError\<close>; \<open>loads\<close>
  reads it all the same, and who reads foreign text asks for \<open>ints_readable\<close>.\<close>

fun ints_readable :: "json \<Rightarrow> bool" where
  "ints_readable (JInt i) = (length (dec_digits (nat \<bar>i\<bar>)) \<le> 4300)"
| "ints_readable (JArr xs) = list_all ints_readable xs"
| "ints_readable (JObj kvs) = list_all (\<lambda>(_, v). ints_readable v) kvs"
| "ints_readable v = True"

text \<open>A value whose objects have distinct keys, as every value built from a \<open>dict\<close>.\<close>

fun dict_ok :: "json \<Rightarrow> bool" where
  "dict_ok (JArr xs) = (\<forall>x \<in> set xs. dict_ok x)"
| "dict_ok (JObj kvs) = (distinct (map fst kvs) \<and> (\<forall>kv \<in> set kvs. dict_ok (snd kv)))"
| "dict_ok v = True"

lemma update_fresh: "k \<notin> fst ` set d \<Longrightarrow> AList.update k x d = d @ [(k, x)]"
  by (induction d) auto

lemma foldl_update_distinct:
  "distinct (map fst (d @ kvs)) \<Longrightarrow> foldl (\<lambda>d (k, x). AList.update k x d) d kvs = d @ kvs"
proof (induction kvs arbitrary: d)
  case (Cons kv kvs)
  obtain k x where kv: "kv = (k, x)" by (cases kv)
  with Cons.prems have "k \<notin> fst ` set d" by auto
  with Cons kv show ?case by (simp add: update_fresh)
qed simp

lemma json_members_induct [case_names atom array dict]:
  assumes "\<And>v. sort_json v = v \<Longrightarrow> dict_of_pairs v = v \<Longrightarrow> P v"
    and "\<And>xs. (\<And>x. x \<in> set xs \<Longrightarrow> P x) \<Longrightarrow> P (JArr xs)"
    and "\<And>kvs. (\<And>kv. kv \<in> set kvs \<Longrightarrow> P (snd kv)) \<Longrightarrow> P (JObj kvs)"
  shows "P v"
proof (induction v)
  case (JObj kvs)
  have "P (snd kv)" if "kv \<in> set kvs" for kv
    using JObj [OF that, of "snd kv"] by (simp add: snds.simps)
  then show ?case by (rule assms(3))
qed (use assms in auto)

lemma dict_of_pairs_id: "dict_ok v \<Longrightarrow> dict_of_pairs v = v"
proof (induction v rule: json_members_induct)
  case (array xs)
  then show ?case by (simp add: map_idI)
next
  case (dict kvs)
  have m: "map (\<lambda>(k, v). (k, dict_of_pairs v)) kvs = kvs"
    using dict by (intro map_idI) (simp add: case_prod_beta)
  show ?case using dict.prems foldl_update_distinct [of "[]" kvs] by (simp add: m)
qed simp

lemma loads_print:
  "no_float v \<Longrightarrow> dict_ok v \<Longrightarrow> loads (js_print st 0 v) = Some v"
  by (simp add: loads_def loads_pairs_print dict_of_pairs_id)

lemma loads_dumps_indented [simp]: "no_float v \<Longrightarrow> dict_ok v \<Longrightarrow> loads (dumps_indented v) = Some v"
  by (simp add: dumps_indented_def loads_print)

lemma map_fst_insort_key: "map fst (insort_key fst kv kvs) = insort (fst kv) (map fst kvs)"
  by (induction kvs) auto

lemma map_fst_sort_key: "map fst (sort_key fst kvs) = sort (map fst kvs)"
  by (induction kvs) (simp_all add: map_fst_insort_key)

lemma no_float_sort_json: "no_float v \<Longrightarrow> no_float (sort_json v)"
  by (induction v rule: json_members_induct) (auto simp: case_prod_beta)

lemma dict_ok_sort_json: "dict_ok v \<Longrightarrow> dict_ok (sort_json v)"
proof (induction v rule: json_members_induct)
  case (dict kvs)
  have "distinct (map fst kvs)" using dict.prems by simp
  then have "distinct (map fst (sort_key fst (map (\<lambda>(k, v). (k, sort_json v)) kvs)))"
    by (simp add: map_fst_sort_key case_prod_beta comp_def)
  with dict show ?case by (auto simp: case_prod_beta)
qed auto

lemma loads_dumps_compact [simp]:
  "no_float v \<Longrightarrow> dict_ok v \<Longrightarrow> loads (dumps_compact v) = Some (sort_json v)"
  by (simp add: dumps_compact_def loads_print no_float_sort_json dict_ok_sort_json)

lemma loads_dumps_spaced [simp]:
  "no_float v \<Longrightarrow> dict_ok v \<Longrightarrow> loads (dumps_spaced v) = Some (sort_json v)"
  by (simp add: dumps_spaced_def loads_print no_float_sort_json dict_ok_sort_json)

subsection \<open>\<open>ensure_ascii\<close>\<close>

definition unicode_escape :: "nat \<Rightarrow> pystr" where
  "unicode_escape u =
     [92, 117, hex_digit (u div 4096), hex_digit (u div 256 mod 16), hex_digit (u div 16 mod 16), hex_digit (u mod 16)]"

definition ascii_escape :: "nat \<Rightarrow> pystr" where
  "ascii_escape c =
     (if c < 127 then [c]
      else if c < 65536 then unicode_escape c
      else unicode_escape (55296 + (c - 65536) div 1024) @ unicode_escape (56320 + (c - 65536) mod 1024))"

definition to_ascii :: "pystr \<Rightarrow> pystr" where
  "to_ascii s = concat (map ascii_escape s)"

text \<open>\<open>json.dumps(value)\<close>, and \<open>json.dumps(value, separators=(',', ':'))\<close>.\<close>

definition dumps_ascii :: "json \<Rightarrow> pystr" where
  "dumps_ascii v = to_ascii (js_print Spaced 0 v)"

definition dumps_ascii_compact :: "json \<Rightarrow> pystr" where
  "dumps_ascii_compact v = to_ascii (js_print Compact 0 v)"

lemma hex_digit_ascii: "n < 16 \<Longrightarrow> hex_digit n < 128"
  by (simp add: hex_digit_def)

lemma unicode_escape_ascii:
  assumes "u < 65536" "c \<in> set (unicode_escape u)"
  shows "c < 128"
proof -
  from assms(1) have "u div 4096 < 16" by (simp add: less_mult_imp_div_less)
  then have "hex_digit (u div 4096) < 128" by (rule hex_digit_ascii)
  moreover have "hex_digit (u div 256 mod 16) < 128" "hex_digit (u div 16 mod 16) < 128" "hex_digit (u mod 16) < 128"
    by (simp_all add: hex_digit_ascii)
  ultimately show ?thesis using assms(2) unfolding unicode_escape_def by fastforce
qed

lemma ascii_escape_ascii:
  assumes "c < 1114112" "d \<in> set (ascii_escape c)"
  shows "d < 128"
proof -
  from assms(1) have "c - 65536 < 1024 * 1024" by simp
  then have "(c - 65536) div 1024 < 1024" by (rule less_mult_imp_div_less)
  then have hi: "55296 + (c - 65536) div 1024 < 65536" by linarith
  have "(c - 65536) mod 1024 < 1024" by simp
  then have lo: "56320 + (c - 65536) mod 1024 < 65536" by linarith
  consider "c < 127" "d = c" | "c < 65536" "d \<in> set (unicode_escape c)"
    | "d \<in> set (unicode_escape (55296 + (c - 65536) div 1024))" | "d \<in> set (unicode_escape (56320 + (c - 65536) mod 1024))"
    using assms(2) unfolding ascii_escape_def by (force split: if_splits)
  then show ?thesis
  proof cases
    case 3
    from unicode_escape_ascii [OF hi this] show ?thesis .
  next
    case 4
    from unicode_escape_ascii [OF lo this] show ?thesis .
  qed (auto dest: unicode_escape_ascii)
qed

subsection \<open>Fields of an object, as the models of pydantic read them\<close>

text \<open>A text, an integer; a literal with a default may be absent; keys other than those named are forbidden.\<close>

definition string_field :: "string \<Rightarrow> json \<Rightarrow> pystr option" where
  "string_field k v = (case obj_get (lit k) v of Some (JStr s) \<Rightarrow> Some s | _ \<Rightarrow> None)"

definition int_field :: "string \<Rightarrow> json \<Rightarrow> int option" where
  "int_field k v = (case obj_get (lit k) v of Some (JInt i) \<Rightarrow> Some i | _ \<Rightarrow> None)"

definition literal_field :: "string \<Rightarrow> json \<Rightarrow> json \<Rightarrow> bool" where
  "literal_field k x v \<longleftrightarrow> (case obj_get (lit k) v of None \<Rightarrow> True | Some y \<Rightarrow> y = x)"

definition keys_within :: "string list \<Rightarrow> json \<Rightarrow> bool" where
  "keys_within ks v \<longleftrightarrow> (case v of JObj kvs \<Rightarrow> list_all (\<lambda>(k, _). k \<in> set (map lit ks)) kvs | _ \<Rightarrow> False)"

end
