(* ===== verification/Db_Model.thy ===== *)
theory Db_Model
  imports Py_Json
begin

text \<open>
  The database the accounts, roles and modules live in: the rows of
  \<open>modules/auth/models.py\<close> and \<open>modules/admin/models.py\<close>, the state of one SQLAlchemy
  session over them, and the session scope of \<open>db/session.py\<close>, which commits what a
  request did or rolls all of it back. A table is the list of its rows in insertion
  order. Columns that no modelled operation reads or writes (\<open>created_at\<close>,
  \<open>updated_at\<close>, \<open>created_by_user_id\<close>) are left out. New identifiers are one more than
  the largest in use, as SQLite allots them to an \<open>INTEGER PRIMARY KEY\<close>.
\<close>

subsection \<open>Errors\<close>

text \<open>What a request can end with: an \<open>HTTPException\<close> with its status and detail, a
  rejected body, or an exception nobody turns into a response (status 500). A message is
  plain text, or the \<open>repr\<close> of a value between two texts (\<open>f'...{value!r}...'\<close>).\<close>

datatype message = Plain pystr | WithRepr pystr pystr pystr

abbreviation msg :: "string \<Rightarrow> message" where
  "msg s \<equiv> Plain (lit s)"

datatype error =
    HTTPException int message
  | RequestValidationError
  | IntegrityError
  | ValueError message
  | RuntimeError message

subsection \<open>Instants\<close>

text \<open>A \<open>datetime\<close>: its wall clock in microseconds since 1970, and its offset from UTC
  unless it is naive. The services read a naive one as UTC.\<close>

datatype datetime = Datetime (wall: int) (offset: "int option")

definition to_utc :: "datetime \<Rightarrow> int" where
  "to_utc d = (case offset d of None \<Rightarrow> wall d | Some off \<Rightarrow> wall d - off)"

definition utc :: "int \<Rightarrow> datetime" where
  "utc t = Datetime t (Some 0)"

lemma to_utc_utc [simp]: "to_utc (utc t) = t"
  by (simp add: to_utc_def utc_def)

subsection \<open>Rows\<close>

record user =
  user_id :: int
  username :: pystr
  email :: "pystr option"
  display_name :: "pystr option"
  password_hash :: pystr
  role :: pystr
  is_active :: bool
  session_version :: int
  password_changed_at :: "datetime option"
  last_login_at :: "datetime option"

record group =
  group_id :: int
  group_key :: pystr
  group_name :: pystr
  group_description :: "pystr option"
  group_is_active :: bool

record resource_grant =
  grant_id :: int
  subject_type :: pystr
  subject_id :: int
  grant_resource_type :: pystr
  grant_resource_id :: pystr
  grant_permission_key :: pystr

record service_module =
  module_id :: int
  module_key :: pystr
  title :: pystr
  description :: "pystr option"
  href :: pystr
  module_section :: pystr
  module_status :: pystr
  badge :: pystr
  sort_order :: int
  is_enabled :: bool
  is_external :: bool
  visibility :: pystr
  launcher_kind :: pystr
  required_permission :: "pystr option"
  resource_type :: "pystr option"
  resource_id :: "pystr option"

text \<open>The columns an audit event takes from its caller as they come (a provenance record
  is any JSON object) hold JSON values, \<open>JNull\<close> for \<open>None\<close>.\<close>

record audit_event =
  audit_id :: int
  actor_user_id :: "int option"
  actor_username :: json
  actor_role :: json
  action :: pystr
  target_type :: pystr
  target_id :: "pystr option"
  audit_method :: json
  audit_path :: json
  audit_status :: pystr
  audit_ip_address :: json
  audit_user_agent :: json
  audit_request_id :: json
  idempotency_key :: "pystr option"
  before_json :: "pystr option"
  after_json :: "pystr option"
  metadata_json :: "pystr option"

record login_event =
  login_id :: int
  login_user_id :: "int option"
  login_username :: pystr
  login_ip_address :: "pystr option"
  login_user_agent :: "pystr option"
  login_status :: pystr
  login_created_at :: datetime

record session_activity =
  activity_id :: int
  activity_user_id :: int
  session_hash :: pystr
  last_seen_at :: datetime
  expires_at :: "datetime option"

record db =
  users :: "user list"
  groups :: "group list"
  user_groups :: "(int \<times> int) list"
  user_permissions :: "(int \<times> pystr) list"
  group_permissions :: "(int \<times> pystr) list"
  resource_grants :: "resource_grant list"
  service_modules :: "service_module list"
  audit_events :: "audit_event list"
  login_events :: "login_event list"
  session_activities :: "session_activity list"

subsection \<open>Reading and changing a table\<close>

definition next_id :: "int list \<Rightarrow> int" where
  "next_id ids = foldr max ids 0 + 1"

lemma next_id_greater: "i \<in> set ids \<Longrightarrow> i < next_id ids"
proof -
  have "i \<in> set ids \<Longrightarrow> i \<le> foldr max ids 0" by (induction ids) (auto simp: max_def)
  then show "i \<in> set ids \<Longrightarrow> i < next_id ids" by (simp add: next_id_def)
qed

lemma next_id_fresh [simp]: "next_id ids \<notin> set ids"
  using next_id_greater by blast

text \<open>\<open>db.get(Table, key)\<close>, and an assignment to the columns of the row with a key.\<close>

definition find_row :: "('r \<Rightarrow> 'k) \<Rightarrow> 'k \<Rightarrow> 'r list \<Rightarrow> 'r option" where
  "find_row key k rows = find (\<lambda>r. key r = k) rows"

definition change_row :: "('r \<Rightarrow> 'k) \<Rightarrow> 'k \<Rightarrow> ('r \<Rightarrow> 'r) \<Rightarrow> 'r list \<Rightarrow> 'r list" where
  "change_row key k f rows = map (\<lambda>r. if key r = k then f r else r) rows"

lemma find_row_simps [simp]:
  "find_row key k [] = None"
  "find_row key k (r # rows) = (if key r = k then Some r else find_row key k rows)"
  by (simp_all add: find_row_def)

lemma find_row_Some: "find_row key k rows = Some r \<Longrightarrow> r \<in> set rows \<and> key r = k"
  by (induction rows) (auto split: if_splits)

lemma find_row_None: "find_row key k rows = None \<longleftrightarrow> k \<notin> key ` set rows"
  by (induction rows) auto

lemma find_row_append: "find_row key k (rows @ rows') =
    (case find_row key k rows of None \<Rightarrow> find_row key k rows' | Some r \<Rightarrow> Some r)"
  by (induction rows) auto

lemma find_row_distinct:
  "distinct (map key rows) \<Longrightarrow> r \<in> set rows \<Longrightarrow> find_row key (key r) rows = Some r"
  by (induction rows) (auto simp: rev_image_eqI)

lemma map_key_change_row:
  "(\<And>r. key (f r) = key r) \<Longrightarrow> map key (change_row key k f rows) = map key rows"
  by (simp add: change_row_def)

lemma find_row_change_row:
  assumes "\<And>r. key (f r) = key r"
  shows "find_row key k (change_row key k' f rows) =
    (if k = k' then map_option f (find_row key k rows) else find_row key k rows)"
  using assms by (induction rows) (auto simp: change_row_def)

lemma find_row_replace:
  "key r' = i \<Longrightarrow> find_row key j (change_row key i (\<lambda>_. r') rows) =
    (if j = i then map_option (\<lambda>_. r') (find_row key i rows) else find_row key j rows)"
  by (induction rows) (auto simp: change_row_def)

lemma find_row_map:
  "(\<And>r. key (f r) = key r) \<Longrightarrow> find_row key k (map f rows) = map_option f (find_row key k rows)"
  by (induction rows) auto

text \<open>
  A table behind its operations: lookup by key and change of the row with a key. What the
  handlers rely on is that a change is seen by a lookup of its own key and by no other.
\<close>

locale keyed_table =
  fixes key :: "'r \<Rightarrow> 'k"
    and lookup :: "'k \<Rightarrow> 't \<Rightarrow> 'r option"
    and change :: "'k \<Rightarrow> ('r \<Rightarrow> 'r) \<Rightarrow> 't \<Rightarrow> 't"
  assumes lookup_key: "lookup k t = Some r \<Longrightarrow> key r = k"
    and lookup_change: "(\<And>r. key (f r) = key r) \<Longrightarrow>
      lookup k (change k' f t) = (if k = k' then map_option f (lookup k t) else lookup k t)"
begin

lemma change_absent:
  assumes "\<And>r. key (f r) = key r" "lookup k' t = None"
  shows "lookup k (change k' f t) = lookup k t"
  using assms by (simp add: lookup_change)

lemma lookup_change_own:
  assumes "\<And>r. key (f r) = key r" "lookup k t = Some r"
  shows "lookup k (change k f t) = Some (f r)"
  using assms by (simp add: lookup_change)

lemma lookup_change_twice:
  assumes "\<And>r. key (f r) = key r" "\<And>r. key (g r) = key r"
  shows "lookup k (change k' g (change k' f t)) = lookup k (change k' (g \<circ> f) t)"
  using assms by (simp add: lookup_change option.map_comp)

lemma lookup_changes:
  assumes "\<And>r. key (f r) = key r" "distinct ks"
  shows "lookup k (fold (\<lambda>k'. change k' f) ks t) =
    (if k \<in> set ks then map_option f (lookup k t) else lookup k t)"
  using assms(2)
proof (induction ks arbitrary: t)
  case (Cons k' ks)
  then show ?case by (auto simp: lookup_change [OF assms(1)])
qed simp

end

definition get_user :: "int \<Rightarrow> db \<Rightarrow> user option" where
  "get_user i d = find_row user_id i (users d)"

definition change_user :: "int \<Rightarrow> (user \<Rightarrow> user) \<Rightarrow> db \<Rightarrow> db" where
  "change_user i f d = d\<lparr>users := change_row user_id i f (users d)\<rparr>"

definition get_group :: "int \<Rightarrow> db \<Rightarrow> group option" where
  "get_group i d = find_row group_id i (groups d)"

definition change_group :: "int \<Rightarrow> (group \<Rightarrow> group) \<Rightarrow> db \<Rightarrow> db" where
  "change_group i f d = d\<lparr>groups := change_row group_id i f (groups d)\<rparr>"

definition get_module :: "int \<Rightarrow> db \<Rightarrow> service_module option" where
  "get_module i d = find_row module_id i (service_modules d)"

definition change_module :: "int \<Rightarrow> (service_module \<Rightarrow> service_module) \<Rightarrow> db \<Rightarrow> db" where
  "change_module i f d = d\<lparr>service_modules := change_row module_id i f (service_modules d)\<rparr>"

definition get_grant :: "int \<Rightarrow> db \<Rightarrow> resource_grant option" where
  "get_grant i d = find_row grant_id i (resource_grants d)"

interpretation user_table: keyed_table user_id get_user change_user
  by unfold_locales
    (auto simp: get_user_def change_user_def find_row_change_row dest: find_row_Some)

interpretation group_table: keyed_table group_id get_group change_group
  by unfold_locales
    (auto simp: get_group_def change_group_def find_row_change_row dest: find_row_Some)

interpretation module_table: keyed_table module_id get_module change_module
  by unfold_locales
    (auto simp: get_module_def change_module_def find_row_change_row dest: find_row_Some)

subsection \<open>The session scope\<close>

text \<open>
  \<open>get_db_session\<close> and \<open>Database.session\<close>: the first argument is the database before the
  request, the second what the request made of it. A request that ends with an exception
  leaves the database as it was.
\<close>

definition session_scope :: "db \<Rightarrow> (error, db \<times> 'a) result \<Rightarrow> db \<times> (error, 'a) result" where
  "session_scope d res =
     (case res of Inl e \<Rightarrow> (d, Inl e) | Inr (d', x) \<Rightarrow> (d', Inr x))"

lemma session_scope_simps [simp]:
  "session_scope d (Inl e) = (d, Inl e)"
  "session_scope d (Inr (d', x)) = (d', Inr x)"
  by (simp_all add: session_scope_def)

text \<open>The columns of the unique constraint \<open>uq_resource_grant\<close>.\<close>

definition grant_content :: "resource_grant \<Rightarrow> pystr \<times> int \<times> pystr \<times> pystr \<times> pystr" where
  "grant_content g = (subject_type g, subject_id g, grant_resource_type g, grant_resource_id g,
     grant_permission_key g)"

text \<open>The values of a nullable column, and the unique columns of the accounts.\<close>

definition somes :: "'a option list \<Rightarrow> 'a list" where
  "somes xs = map the (filter (\<lambda>x. x \<noteq> None) xs)"

lemma somes_simps [simp]:
  "somes [] = []" "somes (None # xs) = somes xs" "somes (Some x # xs) = x # somes xs"
  "somes (xs @ ys) = somes xs @ somes ys"
  by (simp_all add: somes_def)

lemma set_somes: "x \<in> set (somes xs) \<longleftrightarrow> Some x \<in> set xs"
  by (auto simp: somes_def intro!: image_eqI [of _ _ "Some x"])

definition accounts_ok :: "db \<Rightarrow> bool" where
  "accounts_ok d \<longleftrightarrow> distinct (map user_id (users d)) \<and> distinct (map username (users d)) \<and>
     distinct (somes (map email (users d)))"

lemma accounts_ok_users: "users d' = users d \<Longrightarrow> accounts_ok d' = accounts_ok d"
  by (simp add: accounts_ok_def)

lemma get_user_users: "users d' = users d \<Longrightarrow> get_user i d' = get_user i d"
  by (simp add: get_user_def)

lemma get_group_groups: "groups d' = groups d \<Longrightarrow> get_group i d' = get_group i d"
  by (simp add: get_group_def)

lemma change_user_rest [simp]:
  "groups (change_user i f d) = groups d" "user_groups (change_user i f d) = user_groups d"
  "user_permissions (change_user i f d) = user_permissions d"
  "group_permissions (change_user i f d) = group_permissions d"
  "resource_grants (change_user i f d) = resource_grants d"
  "service_modules (change_user i f d) = service_modules d"
  "audit_events (change_user i f d) = audit_events d"
  "login_events (change_user i f d) = login_events d"
  "session_activities (change_user i f d) = session_activities d"
  by (simp_all add: change_user_def)

end
