(* ===== verification/Audit_Trail.thy ===== *)
theory Audit_Trail
  imports Db_Model
begin

text \<open>
  The administration's audit trail, \<open>modules/admin/audit.py\<close>: the redaction of secrets in
  what is stored, and the append of an event, which a repeated idempotency key turns into
  a lookup of the first event. Also the parts of an HTTP request that the services read.
\<close>

subsection \<open>Requests\<close>

text \<open>Header names are kept in lower case, as the server hands them over.\<close>

record request =
  req_method :: pystr
  req_path :: pystr
  req_client_host :: "pystr option"
  req_headers :: "(pystr \<times> pystr) list"
  req_cookies :: "(pystr \<times> pystr) list"

definition header :: "request \<Rightarrow> string \<Rightarrow> pystr option" where
  "header req h = map_of (req_headers req) (lit h)"

subsection \<open>Redaction\<close>

definition SECRET_KEYS :: "pystr list" where
  "SECRET_KEYS = map lit [''password'', ''password_hash'', ''token'', ''jwt'', ''csrf'', ''secret'',
     ''api_key'', ''prompt'', ''answer'', ''content'', ''snippet'', ''citation'']"

definition is_secret_key :: "pystr \<Rightarrow> bool" where
  "is_secret_key k = (\<exists>s \<in> set SECRET_KEYS. has_sub s (lower k))"

definition REDACTED :: json where
  "REDACTED = JStr (lit ''[REDACTED]'')"

fun redact_audit_metadata :: "json \<Rightarrow> json" where
  "redact_audit_metadata (JObj kvs) =
     JObj (map (\<lambda>(k, v). (k, if is_secret_key k then REDACTED else redact_audit_metadata v)) kvs)"
| "redact_audit_metadata (JArr xs) = JArr (map redact_audit_metadata xs)"
| "redact_audit_metadata v = v"

definition dumps_redacted :: "json option \<Rightarrow> pystr option" where
  "dumps_redacted v = map_option (\<lambda>x. dumps_spaced (redact_audit_metadata x)) v"

subsection \<open>Recording an event\<close>

definition of_text :: "pystr option \<Rightarrow> json" where
  "of_text t = (case t of None \<Rightarrow> JNull | Some s \<Rightarrow> JStr s)"

definition provenance_value :: "json option \<Rightarrow> string \<Rightarrow> json \<Rightarrow> json" where
  "provenance_value prov k fallback =
     (case prov of
        None \<Rightarrow> fallback
      | Some p \<Rightarrow> (case obj_get (lit k) p of None \<Rightarrow> fallback | Some v \<Rightarrow> v))"

definition audit_actor_id :: "json \<Rightarrow> int option" where
  "audit_actor_id v = (case v of JInt i \<Rightarrow> if i > 0 then Some i else None | _ \<Rightarrow> None)"

definition persisted_audit_actor_id :: "db \<Rightarrow> json \<Rightarrow> int option" where
  "persisted_audit_actor_id d v =
     (case audit_actor_id v of
        None \<Rightarrow> None
      | Some i \<Rightarrow> map_option user_id (get_user i d))"

definition find_audit_event :: "db \<Rightarrow> pystr \<Rightarrow> audit_event option" where
  "find_audit_event d k = find (\<lambda>e. idempotency_key e = Some k) (audit_events d)"

text \<open>What the caller passes besides the session: the keyword arguments of
  \<open>record_admin_audit\<close>.\<close>

record audit_args =
  arg_actor :: "user option"
  arg_action :: pystr
  arg_target_type :: pystr
  arg_target_id :: "pystr option"
  arg_request :: "request option"
  arg_before :: "json option"
  arg_after :: "json option"
  arg_metadata :: "json option"
  arg_status :: pystr
  arg_provenance :: "json option"
  arg_idempotency_key :: "pystr option"

definition audit_call :: "user \<Rightarrow> string \<Rightarrow> string \<Rightarrow> pystr option \<Rightarrow> request \<Rightarrow> audit_args" where
  "audit_call actor act tt tid req =
     \<lparr>arg_actor = Some actor, arg_action = lit act, arg_target_type = lit tt, arg_target_id = tid,
      arg_request = Some req, arg_before = None, arg_after = None, arg_metadata = None,
      arg_status = lit ''success'', arg_provenance = None, arg_idempotency_key = None\<rparr>"

definition requested_actor_id :: "audit_args \<Rightarrow> int option" where
  "requested_actor_id a = audit_actor_id (provenance_value (arg_provenance a) ''actor_id''
     (case arg_actor a of Some u \<Rightarrow> JInt (user_id u) | None \<Rightarrow> JNull))"

text \<open>The metadata names the actor the provenance gave when no such user is left.\<close>

definition audit_metadata :: "db \<Rightarrow> audit_args \<Rightarrow> json option" where
  "audit_metadata d a =
     (case (requested_actor_id a, arg_metadata a) of
        (Some i, Some m) \<Rightarrow>
          if persisted_audit_actor_id d (JInt i) = None \<and> is_obj m
          then Some (obj_set (lit ''original_actor_id'') (JInt i) m) else Some m
      | (_, m) \<Rightarrow> m)"

definition new_audit_event :: "db \<Rightarrow> audit_args \<Rightarrow> audit_event" where
  "new_audit_event d a =
     (let prov = arg_provenance a; req = arg_request a; actor = arg_actor a
      in \<lparr>audit_id = 0,
          actor_user_id = (case requested_actor_id a of
             None \<Rightarrow> None | Some i \<Rightarrow> persisted_audit_actor_id d (JInt i)),
          actor_username = provenance_value prov ''actor_username''
            (of_text (map_option username actor)),
          actor_role = provenance_value prov ''actor_role'' (of_text (map_option role actor)),
          action = arg_action a, target_type = arg_target_type a, target_id = arg_target_id a,
          audit_method = provenance_value prov ''method'' (of_text (map_option req_method req)),
          audit_path = provenance_value prov ''path'' (of_text (map_option req_path req)),
          audit_status = arg_status a,
          audit_ip_address = provenance_value prov ''ip_address''
            (of_text (case req of None \<Rightarrow> None | Some r \<Rightarrow> req_client_host r)),
          audit_user_agent = provenance_value prov ''user_agent''
            (of_text (case req of None \<Rightarrow> None | Some r \<Rightarrow> header r ''user-agent'')),
          audit_request_id = provenance_value prov ''request_id''
            (of_text (case req of None \<Rightarrow> None | Some r \<Rightarrow> header r ''x-request-id'')),
          idempotency_key = arg_idempotency_key a,
          before_json = dumps_redacted (arg_before a),
          after_json = dumps_redacted (arg_after a),
          metadata_json = dumps_redacted (audit_metadata d a)\<rparr>)"

text \<open>\<open>db.add(event); db.flush()\<close>: the unique index on the key and the foreign key of the
  actor are checked, and the row gets its identifier.\<close>

definition insert_audit_event :: "db \<Rightarrow> audit_event \<Rightarrow> (error, db \<times> audit_event) result" where
  "insert_audit_event d e =
     (if (idempotency_key e \<noteq> None \<and> idempotency_key e \<in> idempotency_key ` set (audit_events d)) \<or>
         (case actor_user_id e of Some i \<Rightarrow> get_user i d = None | None \<Rightarrow> False)
      then Inl IntegrityError
      else
        let e' = e\<lparr>audit_id := next_id (map audit_id (audit_events d))\<rparr>
        in Inr (d\<lparr>audit_events := audit_events d @ [e']\<rparr>, e'))"

text \<open>
  \<open>record_admin_audit\<close>. The function \<open>others\<close> is what other sessions commit between the
  look up of the key and the flush: a rival insert of the same key shows up there, fails
  the nested insert, and its event is returned.
\<close>

definition record_admin_audit ::
  "(db \<Rightarrow> db) \<Rightarrow> db \<Rightarrow> audit_args \<Rightarrow> (error, db \<times> audit_event) result" where
  "record_admin_audit others d a =
     (case arg_idempotency_key a of
        None \<Rightarrow> insert_audit_event (others d) (new_audit_event d a)
      | Some k \<Rightarrow>
          case find_audit_event d k of
            Some e \<Rightarrow> Inr (d, e)
          | None \<Rightarrow>
              let d' = others d
              in case insert_audit_event d' (new_audit_event d a) of
                   Inr r \<Rightarrow> Inr r
                 | Inl err \<Rightarrow>
                     (case find_audit_event d' k of
                        None \<Rightarrow> Inl err
                      | Some e \<Rightarrow> Inr (d', e)))"

text \<open>The handlers run while no other session writes, and give no key.\<close>

definition audit :: "db \<Rightarrow> audit_args \<Rightarrow> (error, db) result" where
  "audit d a = map_sum id fst (record_admin_audit id d a)"

definition build_ai_provider_audit_metadata ::
  "pystr \<Rightarrow> pystr \<Rightarrow> pystr \<Rightarrow> pystr option \<Rightarrow> pystr option \<Rightarrow> pystr option \<Rightarrow> int option \<Rightarrow> json" where
  "build_ai_provider_audit_metadata op res rc k sk cs cv =
     JObj ([(lit ''operation'', JStr op), (lit ''result'', JStr res), (lit ''reason_code'', JStr rc)] @
       (case k of Some x \<Rightarrow> [(lit ''kind'', JStr x)] | None \<Rightarrow> []) @
       (case sk of Some x \<Rightarrow> [(lit ''selected_kind'', JStr x)] | None \<Rightarrow> []) @
       (case cs of Some x \<Rightarrow> [(lit ''compatible_state'', JStr x)] | None \<Rightarrow> []) @
       (case cv of Some x \<Rightarrow> [(lit ''config_version'', JInt x)] | None \<Rightarrow> []))"

subsection \<open>Facts about redaction\<close>

text \<open>The value at a path of keys and indices.\<close>

datatype step = Key pystr | Index nat

fun json_at :: "step list \<Rightarrow> json \<Rightarrow> json option" where
  "json_at [] v = Some v"
| "json_at (Key k # p) (JObj kvs) = (case map_of kvs k of None \<Rightarrow> None | Some v \<Rightarrow> json_at p v)"
| "json_at (Index i # p) (JArr xs) = (if i < length xs then json_at p (xs ! i) else None)"
| "json_at (st # p) v = None"

lemma map_of_redact: "map_of (map (\<lambda>(k, v). (k, if is_secret_key k then REDACTED else f v)) kvs) k =
    map_option (\<lambda>v. if is_secret_key k then REDACTED else f v) (map_of kvs k)"
  by (induction kvs) auto

lemma redact_REDACTED [simp]: "redact_audit_metadata REDACTED = REDACTED"
  by (simp add: REDACTED_def)

lemma json_at_REDACTED [simp]: "json_at (st # p) REDACTED = None"
  by (cases st) (simp_all add: REDACTED_def)

lemma redact_path:
  "json_at (p @ [Key k]) (redact_audit_metadata v) = Some w \<Longrightarrow> is_secret_key k \<Longrightarrow> w = REDACTED"
proof (induction p arbitrary: v)
  case Nil
  then show ?case
    by (cases v) (auto simp: map_of_redact split: option.splits)
next
  case (Cons st p)
  show ?case
  proof (cases v)
    case (JArr xs)
    with Cons show ?thesis by (cases st) (auto split: if_splits)
  next
    case (JObj kvs)
    with Cons.prems obtain k' x where k: "st = Key k'" "map_of kvs k' = Some x"
      by (cases st) (auto simp: map_of_redact split: option.splits)
    have "p @ [Key k] = hd (p @ [Key k]) # tl (p @ [Key k])" by simp
    then have "json_at (p @ [Key k]) REDACTED = None" using json_at_REDACTED by metis
    with Cons JObj k show ?thesis by (auto simp: map_of_redact split: if_splits)
  qed (use Cons.prems in \<open>cases st; simp\<close>)+
qed

lemma redact_idempotent [simp]: "redact_audit_metadata (redact_audit_metadata v) = redact_audit_metadata v"
  by (induction v rule: redact_audit_metadata.induct) (auto simp: case_prod_beta)

lemma redact_keys: "map fst (map (\<lambda>(k, v). (k, f k v)) kvs) = map fst kvs"
  by (induction kvs) auto

lemma redact_no_float: "no_float v \<Longrightarrow> no_float (redact_audit_metadata v)"
  by (induction v rule: redact_audit_metadata.induct) (auto simp: case_prod_beta REDACTED_def)

lemma redact_dict_ok: "dict_ok v \<Longrightarrow> dict_ok (redact_audit_metadata v)"
  by (induction v rule: redact_audit_metadata.induct)
    (auto simp: case_prod_beta comp_def REDACTED_def)

lemma json_at_sort: "dict_ok v \<Longrightarrow> json_at p (sort_json v) = map_option sort_json (json_at p v)"
proof (induction p arbitrary: v)
  case (Cons st p)
  show ?case
  proof (cases v)
    case (JArr xs)
    with Cons show ?thesis by (cases st) auto
  next
    case (JObj kvs)
    have d: "distinct (map fst kvs)" using Cons.prems JObj by simp
    have m: "map_of (sort_key fst (map (\<lambda>(k, v). (k, sort_json v)) kvs)) k =
        map_option sort_json (map_of kvs k)" for k
    proof -
      have "distinct (map fst (map (\<lambda>(k, v). (k, sort_json v)) kvs))"
        using d by (simp add: case_prod_beta comp_def)
      then have "map_of (sort_key fst (map (\<lambda>(k, v). (k, sort_json v)) kvs)) =
          map_of (map (\<lambda>(k, v). (k, sort_json v)) kvs)"
        by (subst map_of_inject_set) (simp_all add: map_fst_sort_key del: map_map)
      then show ?thesis by (simp add: map_of_map)
    qed
    show ?thesis
    proof (cases st)
      case (Key k)
      show ?thesis
      proof (cases "map_of kvs k")
        case (Some x)
        then have "dict_ok x" using Cons.prems JObj by (auto dest: map_of_SomeD)
        with Cons.IH Some JObj Key m show ?thesis by simp
      qed (use JObj Key m in simp)
    qed (use JObj in simp)
  qed (cases st; simp)+
qed simp

subsection \<open>Facts about the trail\<close>

lemma find_append: "find P (xs @ ys) = (case find P xs of None \<Rightarrow> find P ys | Some x \<Rightarrow> Some x)"
  by (induction xs) auto

lemma find_none_iff: "find P xs = None \<longleftrightarrow> (\<forall>x \<in> set xs. \<not> P x)"
  by (induction xs) auto

lemma new_event_key [simp]: "idempotency_key (new_audit_event d a) = arg_idempotency_key a"
  "action (new_audit_event d a) = arg_action a"
  by (simp_all add: new_audit_event_def Let_def)

lemma insert_audit_event_Inr: "insert_audit_event d e = Inr (d', e') \<Longrightarrow>
    d' = d\<lparr>audit_events := audit_events d @ [e']\<rparr> \<and> idempotency_key e' = idempotency_key e \<and>
    action e' = action e \<and> (idempotency_key e \<noteq> None \<longrightarrow> find_audit_event d (the (idempotency_key e)) = None)"
  by (auto simp: insert_audit_event_def find_audit_event_def find_none_iff Let_def image_iff
      split: if_splits)

lemma audit_call_key [simp]: "arg_idempotency_key (audit_call actor act tt tid req) = None"
  by (simp add: audit_call_def)

lemma audit_effect:
  assumes "audit d a = Inr d'" "arg_idempotency_key a = None"
  shows "\<exists>ev. d' = d\<lparr>audit_events := audit_events d @ [ev]\<rparr> \<and> action ev = arg_action a"
proof -
  obtain ev where "insert_audit_event d (new_audit_event d a) = Inr (d', ev)"
    using assms by (cases "record_admin_audit id d a") (auto simp: audit_def record_admin_audit_def)
  then show ?thesis using insert_audit_event_Inr by fastforce
qed

text \<open>Without a key an event is always stored: its actor is looked up in the same session.\<close>

lemma audit_total:
  assumes "arg_idempotency_key a = None"
  shows "\<exists>d'. audit d a = Inr d'"
proof -
  have "actor_user_id (new_audit_event d a) = None \<or>
      (\<exists>i u. actor_user_id (new_audit_event d a) = Some i \<and> get_user i d = Some u)"
    using user_table.lookup_key
    by (force simp: new_audit_event_def Let_def persisted_audit_actor_id_def split: option.splits)
  with assms show ?thesis
    by (auto simp: audit_def record_admin_audit_def insert_audit_event_def Let_def)
qed

subsection \<open>Properties\<close>

text \<open>
  C25 [stored_audit_redacted]: what is stored of a JSON value reads back as that value redacted, and there is no
  path in it that ends at a secret key with anything but the redaction mark, however deep
  the key stands.
\<close>

theorem stored_audit_redacted:
  assumes "no_float v" "dict_ok v"
  shows "\<exists>t w. dumps_redacted (Some v) = Some t \<and> loads t = Some w \<and>
    w = sort_json (redact_audit_metadata v) \<and>
    (\<forall>p k x. json_at (p @ [Key k]) w = Some x \<longrightarrow> is_secret_key k \<longrightarrow> x = REDACTED)"
proof -
  let ?r = "redact_audit_metadata v"
  have ok: "no_float ?r" "dict_ok ?r" using assms by (simp_all add: redact_no_float redact_dict_ok)
  have "x = REDACTED" if "json_at (p @ [Key k]) (sort_json ?r) = Some x" "is_secret_key k" for p k x
  proof -
    from that(1) obtain y where y: "json_at (p @ [Key k]) ?r = Some y" "x = sort_json y"
      by (auto simp: json_at_sort [OF ok(2)])
    have "y = REDACTED" using y(1) that(2) by (rule redact_path)
    with y(2) show ?thesis by (simp add: REDACTED_def)
  qed
  with ok show ?thesis by (simp add: dumps_redacted_def)
qed

text \<open>The hypotheses hold of metadata with a secret two levels down.\<close>

theorem stored_audit_redacted_witness:
  "\<exists>t w. dumps_redacted (Some (JObj [(lit ''a'', JArr [JObj [(lit ''Token'', JInt 1)]])])) = Some t \<and>
    loads t = Some w \<and> json_at [Key (lit ''a''), Index 0, Key (lit ''Token'')] w = Some REDACTED"
proof -
  let ?v = "JObj [(lit ''a'', JArr [JObj [(lit ''Token'', JInt 1)]])]"
  have "is_secret_key (lit ''Token'')"
    by (simp add: is_secret_key_def SECRET_KEYS_def has_sub_def lit_def lower_def ascii_lower_def starts_with_def)
  moreover have "\<not> is_secret_key (lit ''a'')"
    by (simp add: is_secret_key_def SECRET_KEYS_def has_sub_def lit_def lower_def ascii_lower_def starts_with_def)
  ultimately show ?thesis
    using stored_audit_redacted [of ?v] by (auto simp: REDACTED_def)
qed

text \<open>
  Recording under an idempotency key is idempotent. Once a call with the key has
  returned, whatever other sessions wrote in between, every later call with that key, with
  whatever arguments, stores nothing and returns the same event.
\<close>

theorem audit_idempotent:
  assumes "record_admin_audit others d a = Inr (d', ev)"
    and "arg_idempotency_key a = Some k" "arg_idempotency_key b = Some k"
  shows "record_admin_audit others' d' b = Inr (d', ev)"
proof -
  have "find_audit_event d' k = Some ev"
  proof (cases "find_audit_event d k")
    case (Some e)
    with assms show ?thesis by (simp add: record_admin_audit_def)
  next
    case None
    show ?thesis
    proof (cases "insert_audit_event (others d) (new_audit_event d a)")
      case (Inl err)
      with None assms show ?thesis
        by (auto simp: record_admin_audit_def Let_def split: option.splits)
    next
      case (Inr r)
      with None assms have r: "r = (d', ev)" by (simp add: record_admin_audit_def Let_def)
      from insert_audit_event_Inr [of "others d" "new_audit_event d a" d' ev] Inr r assms(2)
      show ?thesis by (auto simp: find_audit_event_def find_append)
    qed
  qed
  with assms(3) show ?thesis by (simp add: record_admin_audit_def)
qed

definition empty_db :: db where
  "empty_db = \<lparr>users = [], groups = [], user_groups = [], user_permissions = [],
     group_permissions = [], resource_grants = [], service_modules = [], audit_events = [],
     login_events = [], session_activities = []\<rparr>"

definition keyed_args :: "string \<Rightarrow> audit_args" where
  "keyed_args act = \<lparr>arg_actor = None, arg_action = lit act, arg_target_type = lit ''job'', arg_target_id = None,
     arg_request = None, arg_before = None, arg_after = None, arg_metadata = None,
     arg_status = lit ''success'', arg_provenance = None, arg_idempotency_key = Some (lit ''k'')\<rparr>"

text \<open>The first call stores its event; a second one with another action returns it.\<close>

theorem audit_idempotent_witness:
  "\<exists>d ev. record_admin_audit id empty_db (keyed_args ''first'') = Inr (d, ev) \<and> audit_events d = [ev] \<and>
     record_admin_audit id d (keyed_args ''second'') = Inr (d, ev)"
proof -
  let ?e = "(new_audit_event empty_db (keyed_args ''first''))\<lparr>audit_id := next_id []\<rparr>"
  have a: "arg_idempotency_key (keyed_args act) = Some (lit ''k'')" for act by (simp add: keyed_args_def)
  have "requested_actor_id (keyed_args ''first'') = None"
    by (simp add: requested_actor_id_def keyed_args_def provenance_value_def audit_actor_id_def)
  then have n: "actor_user_id (new_audit_event empty_db (keyed_args ''first'')) = None"
    by (simp add: new_audit_event_def Let_def)
  have f: "record_admin_audit id empty_db (keyed_args ''first'') = Inr (empty_db\<lparr>audit_events := [?e]\<rparr>, ?e)"
  proof -
    have e: "audit_events empty_db = []" by (simp add: empty_db_def)
    then have "insert_audit_event empty_db (new_audit_event empty_db (keyed_args ''first'')) =
        Inr (empty_db\<lparr>audit_events := [?e]\<rparr>, ?e)"
      by (simp add: insert_audit_event_def n Let_def)
    with e show ?thesis by (simp add: record_admin_audit_def a find_audit_event_def)
  qed
  from audit_idempotent [OF f a a] f show ?thesis by fastforce
qed

end
