(* ===== verification/Rbac_Policy.thy ===== *)
theory Rbac_Policy
  imports Db_Model "HOL-Library.Product_Lexorder"
begin

text \<open>
  Who may do what: the permission keys and their evaluation
  (\<open>modules/admin/permissions.py\<close>), the gate a service module may declare
  (\<open>module_policy.py\<close>), the audience of a module (\<open>module_access_service.py\<close>), and the
  invalidation of sessions after a change of authority (\<open>session_fanout.py\<close>).
\<close>

subsection \<open>Permission keys\<close>

definition ADMIN_PERMISSIONS :: "pystr set" where
  "ADMIN_PERMISSIONS = lit `
     {''admin.users.read'', ''admin.users.manage'', ''admin.users.reset_password'',
      ''admin.rbac.read'', ''admin.rbac.manage'', ''admin.audit.read'',
      ''admin.dashboard.manage'', ''admin.newsletters.read'', ''admin.newsletters.write'',
      ''admin.newsletters.bulk'', ''admin.newsletters.sync'', ''admin.taxonomy.read'',
      ''admin.taxonomy.manage'', ''admin.read_tracking.read'', ''admin.read_tracking.purge'',
      ''admin.backup.read'', ''admin.backup.create'', ''admin.restore.execute'',
      ''admin.ai.read'', ''admin.ai.manage'', ''admin.sessions.read'', ''admin.sessions.purge'',
      ''admin.resource_grants.read'', ''admin.resource_grants.manage'', ''admin.office.manage'',
      ''admin.leantime.read'', ''admin.leantime.manage'', ''collections.read'',
      ''collections.nsa.read'', ''search.nsa.read'', ''search.use'', ''ai.use'',
      ''ai.history.manage_own'', ''dashboard.openwebui.launch'', ''office.use'',
      ''leantime.read''}"

definition RESOURCE_SAFE_PERMISSIONS :: "pystr \<Rightarrow> pystr set option" where
  "RESOURCE_SAFE_PERMISSIONS t =
     (if t = lit ''collection'' then Some (lit ` {''collections.nsa.read'', ''collections.read''})
      else None)"

definition is_resource_safe_permission :: "pystr \<Rightarrow> pystr \<Rightarrow> bool" where
  "is_resource_safe_permission t k =
     (k \<in> (case RESOURCE_SAFE_PERMISSIONS t of Some ks \<Rightarrow> ks | None \<Rightarrow> {}))"

definition is_valid_resource_id :: "pystr \<Rightarrow> bool" where
  "is_valid_resource_id rid =
     (if rid \<noteq> strip rid \<or> rid = [] \<or> 100 < length rid then False
      else if (\<exists>c \<in> set (lit [CHR 0x2A, CHR 0x2F, CHR 0x5C]). c \<in> set rid) \<or> has_sub (lit ''..'') rid
      then False
      else \<not> (\<exists>c \<in> set rid. c < 32 \<or> c = 127))"

definition DEFAULT_ROLE_PERMISSIONS :: "pystr \<Rightarrow> pystr set option" where
  "DEFAULT_ROLE_PERMISSIONS r =
     (if r = lit ''admin'' then Some ADMIN_PERMISSIONS
      else if r = lit ''user'' then
        Some (lit ` {''search.use'', ''ai.use'', ''ai.history.manage_own'',
          ''dashboard.openwebui.launch'', ''office.use'', ''leantime.read''})
      else if r = lit ''pending'' then Some {}
      else None)"

definition permissions_for_role :: "pystr \<Rightarrow> pystr set" where
  "permissions_for_role r = (case DEFAULT_ROLE_PERMISSIONS r of Some ks \<Rightarrow> ks | None \<Rightarrow> {})"

subsection \<open>Effective permissions of a user\<close>

text \<open>The groups of the user whose row exists and is active (the inner join).\<close>

definition active_group_ids :: "db \<Rightarrow> user \<Rightarrow> int list" where
  "active_group_ids d u =
     filter (\<lambda>g. case get_group g d of Some gr \<Rightarrow> group_is_active gr | None \<Rightarrow> False)
       (map snd (filter (\<lambda>ug. fst ug = user_id u) (user_groups d)))"

definition direct_permission_keys :: "db \<Rightarrow> user \<Rightarrow> pystr list" where
  "direct_permission_keys d u = map snd (filter (\<lambda>p. fst p = user_id u) (user_permissions d))"

definition list_user_permission_keys :: "db \<Rightarrow> user \<Rightarrow> pystr set" where
  "list_user_permission_keys d u =
     (let keys = permissions_for_role (role u) \<union> set (direct_permission_keys d u);
          gids = active_group_ids d u
      in if gids = [] then keys
         else keys \<union> set (map snd (filter (\<lambda>p. fst p \<in> set gids) (group_permissions d))))"

definition has_permission :: "db \<Rightarrow> user \<Rightarrow> pystr \<Rightarrow> bool" where
  "has_permission d u k = (if \<not> is_active u then False else k \<in> list_user_permission_keys d u)"

definition list_user_resource_grants :: "db \<Rightarrow> user \<Rightarrow> (pystr \<times> pystr \<times> pystr) list" where
  "list_user_resource_grants d u =
     (if \<not> is_active u then []
      else
        let gids = active_group_ids d u;
            wanted = (\<lambda>g. (subject_type g = lit ''user'' \<and> subject_id g = user_id u) \<or>
              (gids \<noteq> [] \<and> subject_type g = lit ''group'' \<and> subject_id g \<in> set gids))
        in map (\<lambda>g. (grant_resource_type g, grant_resource_id g, grant_permission_key g))
             (filter wanted (resource_grants d)))"

definition has_resource_permission :: "db \<Rightarrow> user \<Rightarrow> pystr \<Rightarrow> pystr \<Rightarrow> pystr \<Rightarrow> bool" where
  "has_resource_permission d u rt rid k =
     (if \<not> is_active u then False else (rt, rid, k) \<in> set (list_user_resource_grants d u))"

subsection \<open>The gate of a service module\<close>

datatype gate_error =
    AdminGate
  | UnknownVisibility pystr
  | RequiresPermission
  | RequiresResourcePair
  | UnknownPermission pystr
  | UnsafeResourceId pystr
  | UnsupportedGate

fun gate_message :: "gate_error \<Rightarrow> message" where
  "gate_message AdminGate = msg ''Modules with admin visibility must not declare a permission gate''"
| "gate_message (UnknownVisibility v) = WithRepr (lit ''Unknown module visibility: '') v []"
| "gate_message RequiresPermission = msg ''Module gate requires required_permission''"
| "gate_message RequiresResourcePair =
     msg ''Module gate requires resource_type and resource_id together''"
| "gate_message (UnknownPermission p) = WithRepr (lit ''Unknown required_permission: '') p []"
| "gate_message (UnsafeResourceId r) = WithRepr (lit ''Unsafe resource_id: '') r []"
| "gate_message UnsupportedGate = msg ''Unsupported resource gate combination''"

text \<open>\<open>^[a-z0-9-]+$\<close> under \<open>match\<close>: the end of the pattern also matches before a final line
  feed.\<close>

definition is_resource_id_char :: "nat \<Rightarrow> bool" where
  "is_resource_id_char c \<longleftrightarrow> 97 \<le> c \<and> c \<le> 122 \<or> is_digit c \<or> c = 45"

definition resource_id_pattern :: "pystr \<Rightarrow> bool" where
  "resource_id_pattern s =
     (let t = (if s \<noteq> [] \<and> last s = 10 then butlast s else s)
      in t \<noteq> [] \<and> (\<forall>c \<in> set t. is_resource_id_char c))"

definition KNOWN_PERMISSIONS :: "pystr set" where
  "KNOWN_PERMISSIONS =
     ADMIN_PERMISSIONS \<union> (case RESOURCE_SAFE_PERMISSIONS (lit ''collection'') of
       Some ks \<Rightarrow> ks | None \<Rightarrow> {})"

definition ALLOWED_RESOURCE_GATE :: "pystr \<times> pystr \<times> pystr" where
  "ALLOWED_RESOURCE_GATE = (lit ''collections.nsa.read'', lit ''collection'', lit ''nsa'')"

definition validate_module_gate ::
  "pystr \<Rightarrow> pystr option \<Rightarrow> pystr option \<Rightarrow> pystr option \<Rightarrow> gate_error option" where
  "validate_module_gate vis perm rt rid =
     (if vis = lit ''admin'' then
        (if perm \<noteq> None \<or> rt \<noteq> None \<or> rid \<noteq> None then Some AdminGate else None)
      else if vis \<noteq> lit ''public'' then Some (UnknownVisibility vis)
      else if perm = None \<and> rt = None \<and> rid = None then None
      else
        case perm of
          None \<Rightarrow> Some RequiresPermission
        | Some p \<Rightarrow>
            if (rt = None) \<noteq> (rid = None) then Some RequiresResourcePair
            else if p \<notin> KNOWN_PERMISSIONS then Some (UnknownPermission p)
            else
              case (rt, rid) of
                (Some t, Some r) \<Rightarrow>
                  if \<not> resource_id_pattern r then Some (UnsafeResourceId r)
                  else if (p, t, r) \<noteq> ALLOWED_RESOURCE_GATE then Some UnsupportedGate
                  else None
              | _ \<Rightarrow> None)"

subsection \<open>The audience of a service module\<close>

definition VALID_ROLES :: "pystr set" where
  "VALID_ROLES = lit ` {''admin'', ''user'', ''pending''}"

definition validate_role :: "pystr \<Rightarrow> (error, pystr) result" where
  "validate_role r =
     (if r \<notin> VALID_ROLES then Inl (ValueError (WithRepr (lit ''Unsupported stored user role: '') r []))
      else Inr r)"

text \<open>An optional column is false when it is \<open>None\<close> or the empty string.\<close>

definition truthy :: "pystr option \<Rightarrow> bool" where
  "truthy x \<longleftrightarrow> x \<noteq> None \<and> x \<noteq> Some []"

definition user_can_access_module :: "db \<Rightarrow> user option \<Rightarrow> service_module \<Rightarrow> (error, bool) result" where
  "user_can_access_module d u m =
     (if \<not> is_enabled m \<or> visibility m = lit ''hidden'' \<or> module_status m = lit ''hidden'' then Inr False
      else if visibility m = lit ''admin'' then
        (case u of
           None \<Rightarrow> Inr False
         | Some v \<Rightarrow>
             if \<not> is_active v then Inr False
             else bind_result (validate_role (role v)) (\<lambda>r. Inr (r \<in> lit ` {''admin'', ''user''})))
      else if visibility m \<noteq> lit ''public'' then Inr False
      else if \<not> truthy (required_permission m) then
        Inr (\<not> truthy (resource_type m) \<and> \<not> truthy (resource_id m))
      else
        case u of
          None \<Rightarrow> Inr False
        | Some v \<Rightarrow>
            bind_result (validate_role (role v)) (\<lambda>_.
              let p = the (required_permission m)
              in if has_permission d v p then Inr True
                 else if truthy (resource_type m) \<and> truthy (resource_id m) \<and>
                   has_resource_permission d v (the (resource_type m)) (the (resource_id m)) p
                 then Inr True
                 else Inr False))"

text \<open>The modules that pass the policy, in order; the first error is raised.\<close>

fun filter_accessible :: "db \<Rightarrow> user option \<Rightarrow> service_module list \<Rightarrow> (error, service_module list) result" where
  "filter_accessible d u [] = Inr []"
| "filter_accessible d u (m # ms) =
     bind_result (user_can_access_module d u m) (\<lambda>ok.
       bind_result (filter_accessible d u ms) (\<lambda>rest. Inr (if ok then m # rest else rest)))"

definition accessible_module_refs ::
  "db \<Rightarrow> user option \<Rightarrow> service_module list \<Rightarrow> (error, (pystr \<times> pystr) list) result" where
  "accessible_module_refs d u ms =
     bind_result (case u of None \<Rightarrow> Inr [] | Some v \<Rightarrow> validate_role (role v)) (\<lambda>_.
     bind_result (filter_accessible d u (sort_key (\<lambda>m. (sort_order m, module_key m)) ms)) (\<lambda>oks.
       Inr (map (\<lambda>m. (module_key m, title m)) oks)))"

subsection \<open>Invalidation of sessions\<close>

text \<open>The users of the ids, each once, get their \<open>session_version\<close> raised by one; the value
  is the number of distinct ids.\<close>

definition bump_authorization_session_versions :: "db \<Rightarrow> int option list \<Rightarrow> db \<times> nat" where
  "bump_authorization_session_versions d ids =
     (let ids' = remdups (somes ids)
      in if ids' = [] then (d, 0)
         else (d\<lparr>users := map (\<lambda>u. if user_id u \<in> set ids'
                then u\<lparr>session_version := session_version u + 1\<rparr> else u) (users d)\<rparr>, length ids'))"

definition users_in_group :: "db \<Rightarrow> int \<Rightarrow> int list" where
  "users_in_group d gid = map fst (filter (\<lambda>ug. snd ug = gid) (user_groups d))"

definition users_affected_by_resource_grant :: "db \<Rightarrow> pystr \<Rightarrow> int \<Rightarrow> int list" where
  "users_affected_by_resource_grant d st sid =
     (if st = lit ''user'' then [sid]
      else if st = lit ''group'' then users_in_group d sid
      else [])"

definition bump_group_members :: "db \<Rightarrow> int \<Rightarrow> db \<times> nat" where
  "bump_group_members d gid = bump_authorization_session_versions d (map Some (users_in_group d gid))"

subsection \<open>Facts about permissions\<close>

lemma mem_active_group_ids: "g \<in> set (active_group_ids d u) \<longleftrightarrow>
    (user_id u, g) \<in> set (user_groups d) \<and> (\<exists>gr. get_group g d = Some gr \<and> group_is_active gr)"
  by (force simp: active_group_ids_def split: option.splits)

lemma mem_list_user_permission_keys: "k \<in> list_user_permission_keys d u \<longleftrightarrow>
    k \<in> permissions_for_role (role u) \<or> (user_id u, k) \<in> set (user_permissions d) \<or>
    (\<exists>g. g \<in> set (active_group_ids d u) \<and> (g, k) \<in> set (group_permissions d))"
proof -
  have "k \<in> set (direct_permission_keys d u) \<longleftrightarrow> (user_id u, k) \<in> set (user_permissions d)"
    by (force simp: direct_permission_keys_def)
  moreover have "k \<in> set (map snd (filter (\<lambda>p. fst p \<in> set gs) (group_permissions d))) \<longleftrightarrow>
      (\<exists>g. g \<in> set gs \<and> (g, k) \<in> set (group_permissions d))" for gs
    by force
  ultimately show ?thesis by (simp add: list_user_permission_keys_def Let_def)
qed

lemma mem_list_user_resource_grants: "(rt, rid, k) \<in> set (list_user_resource_grants d u) \<longleftrightarrow>
    is_active u \<and> (\<exists>g \<in> set (resource_grants d).
      grant_resource_type g = rt \<and> grant_resource_id g = rid \<and> grant_permission_key g = k \<and>
      (subject_type g = lit ''user'' \<and> subject_id g = user_id u \<or>
       subject_type g = lit ''group'' \<and> subject_id g \<in> set (active_group_ids d u)))"
  by (force simp: list_user_resource_grants_def Let_def)

lemma permissions_for_role_finite [simp]: "finite (permissions_for_role r)"
  by (simp add: permissions_for_role_def DEFAULT_ROLE_PERMISSIONS_def ADMIN_PERMISSIONS_def)

lemma finite_list_user_permission_keys [simp]: "finite (list_user_permission_keys d u)"
  by (simp add: list_user_permission_keys_def Let_def)

subsection \<open>Facts about the gate\<close>

lemma nsa_gate_pattern [simp]: "resource_id_pattern (lit ''nsa'')"
  by (simp add: resource_id_pattern_def lit_def is_resource_id_char_def)

lemma nsa_known [simp]: "lit ''collections.nsa.read'' \<in> KNOWN_PERMISSIONS"
  by (simp add: KNOWN_PERMISSIONS_def ADMIN_PERMISSIONS_def)

lemma known_nonempty: "p \<in> KNOWN_PERMISSIONS \<Longrightarrow> p \<noteq> []"
  by (auto simp: KNOWN_PERMISSIONS_def ADMIN_PERMISSIONS_def RESOURCE_SAFE_PERMISSIONS_def)

lemma gate_admin: "validate_module_gate (lit ''admin'') p t r = None \<longleftrightarrow> p = None \<and> t = None \<and> r = None"
  by (simp add: validate_module_gate_def)

lemma gate_public: "validate_module_gate (lit ''public'') p t r = None \<longleftrightarrow>
    (p = None \<and> t = None \<and> r = None) \<or>
    (\<exists>k \<in> KNOWN_PERMISSIONS. p = Some k \<and> t = None \<and> r = None) \<or>
    (p = Some (lit ''collections.nsa.read'') \<and> t = Some (lit ''collection'') \<and> r = Some (lit ''nsa''))"
  by (cases p; cases t; cases r)
    (auto simp: validate_module_gate_def ALLOWED_RESOURCE_GATE_def)

lemma gate_other: "v \<noteq> lit ''admin'' \<Longrightarrow> v \<noteq> lit ''public'' \<Longrightarrow> validate_module_gate v p t r \<noteq> None"
  by (simp add: validate_module_gate_def)

subsection \<open>Facts about the invalidation of sessions\<close>

definition bumped :: "user \<Rightarrow> user" where
  "bumped u = u\<lparr>session_version := session_version u + 1\<rparr>"

lemma bumped_simps [simp]: "user_id (bumped u) = user_id u" "role (bumped u) = role u"
  "is_active (bumped u) = is_active u" "session_version (bumped u) = session_version u + 1"
  "username (bumped u) = username u" "email (bumped u) = email u"
  "password_hash (bumped u) = password_hash u"
  by (simp_all add: bumped_def)

lemma set_remdups_somes: "i \<in> set (remdups (somes ids)) \<longleftrightarrow> Some i \<in> set ids"
  by (simp add: set_somes)

lemma bump_users: "users (fst (bump_authorization_session_versions d ids)) =
    map (\<lambda>u. if Some (user_id u) \<in> set ids then bumped u else u) (users d)"
proof (cases "remdups (somes ids) = []")
  case True
  then have "Some i \<notin> set ids" for i using set_remdups_somes [of i ids] by simp
  then show ?thesis using True by (simp add: bump_authorization_session_versions_def)
next
  case False
  then show ?thesis
    by (simp add: bump_authorization_session_versions_def Let_def set_somes bumped_def del: set_remdups)
      (simp add: set_somes)
qed

lemma bump_rest [simp]:
  "groups (fst (bump_authorization_session_versions d ids)) = groups d"
  "user_groups (fst (bump_authorization_session_versions d ids)) = user_groups d"
  "user_permissions (fst (bump_authorization_session_versions d ids)) = user_permissions d"
  "group_permissions (fst (bump_authorization_session_versions d ids)) = group_permissions d"
  "resource_grants (fst (bump_authorization_session_versions d ids)) = resource_grants d"
  "service_modules (fst (bump_authorization_session_versions d ids)) = service_modules d"
  "audit_events (fst (bump_authorization_session_versions d ids)) = audit_events d"
  "login_events (fst (bump_authorization_session_versions d ids)) = login_events d"
  "session_activities (fst (bump_authorization_session_versions d ids)) = session_activities d"
  by (simp_all add: bump_authorization_session_versions_def Let_def)

lemma get_user_bump: "get_user i (fst (bump_authorization_session_versions d ids)) =
    map_option (\<lambda>u. if Some i \<in> set ids then bumped u else u) (get_user i d)"
proof -
  let ?f = "\<lambda>u. if Some (user_id u) \<in> set ids then bumped u else u"
  have "find_row user_id i (map ?f (users d)) = map_option ?f (find_row user_id i (users d))"
    by (rule find_row_map) simp
  then show ?thesis
    by (cases "find_row user_id i (users d)") (auto simp: get_user_def bump_users dest: find_row_Some)
qed

lemma mem_users_in_group: "i \<in> set (users_in_group d g) \<longleftrightarrow> (i, g) \<in> set (user_groups d)"
  by (force simp: users_in_group_def)

subsection \<open>Properties\<close>

text \<open>
  C24 [permission_exact]: a permission check is exact. It holds for an active user whose role, direct
  keys or active groups give that very key; rows about any other key, and every resource
  grant, can be taken away without changing the answer, so that a read permission never
  satisfies a write.
\<close>

theorem permission_exact:
  "has_permission d u k =
     has_permission
       (d\<lparr>user_permissions := filter (\<lambda>p. snd p = k) (user_permissions d),
          group_permissions := filter (\<lambda>p. snd p = k) (group_permissions d),
          resource_grants := []\<rparr>) u k \<and>
   (has_permission d u k \<longleftrightarrow>
     is_active u \<and>
     (k \<in> permissions_for_role (role u) \<or> (user_id u, k) \<in> set (user_permissions d) \<or>
      (\<exists>g gr. (user_id u, g) \<in> set (user_groups d) \<and> get_group g d = Some gr \<and> group_is_active gr \<and>
         (g, k) \<in> set (group_permissions d))))"
proof -
  have iff: "has_permission x u k \<longleftrightarrow> is_active u \<and> (k \<in> permissions_for_role (role u) \<or>
      (user_id u, k) \<in> set (user_permissions x) \<or>
      (\<exists>g gr. (user_id u, g) \<in> set (user_groups x) \<and> get_group g x = Some gr \<and> group_is_active gr \<and>
         (g, k) \<in> set (group_permissions x)))" for x
    by (cases "is_active u")
      (simp_all only: has_permission_def mem_list_user_permission_keys mem_active_group_ids if_False if_True
        not_True_eq_False not_False_eq_True simp_thms, blast)
  show ?thesis by (simp add: iff get_group_def)
qed

text \<open>
  The gate policy accepts exactly the four documented states: no gate under admin
  visibility, and under public visibility no gate, a known global permission, or the one
  resource gate of the NSA collection.
\<close>

theorem module_gate_states:
  "validate_module_gate v p t r = None \<longleftrightarrow>
     (v = lit ''admin'' \<and> p = None \<and> t = None \<and> r = None) \<or>
     (v = lit ''public'' \<and> p = None \<and> t = None \<and> r = None) \<or>
     (v = lit ''public'' \<and> (\<exists>k. k \<in> KNOWN_PERMISSIONS \<and> p = Some k) \<and> t = None \<and> r = None) \<or>
     (v = lit ''public'' \<and> p = Some (lit ''collections.nsa.read'') \<and> t = Some (lit ''collection'') \<and>
      r = Some (lit ''nsa''))"
proof -
  consider "v = lit ''admin''" | "v = lit ''public''" | "v \<noteq> lit ''admin''" "v \<noteq> lit ''public''" by blast
  then show ?thesis
  proof cases
    case 1
    then show ?thesis by (simp add: gate_admin)
  next
    case 2
    then have "v \<noteq> lit ''admin''" by simp
    with 2 gate_public [of p t r] show ?thesis by (simp only: 2 simp_thms) blast
  next
    case 3
    then show ?thesis using gate_other [of v p t r] by blast
  qed
qed

end
