(* ===== verification/Auth.thy ===== *)
theory Auth
  imports Audit_Trail Rbac_Policy
begin

text \<open>
  Accounts and sessions: the passwords (\<open>core/security.py\<close>, \<open>modules/auth/services.py\<close>),
  the authentication of a request from its session token and the guards of a route
  (\<open>modules/auth/dependencies.py\<close>), and the routes of \<open>modules/auth/api.py\<close> that log in,
  log out and change a password. The password hashes (passlib), the tokens (PyJWT) and
  SHA-256 are parameters, the fields of \<open>env\<close>, as are the settings and the clock, which
  stands still during one request.
\<close>

subsection \<open>The environment\<close>

text \<open>
  \<open>identify_scheme\<close> is \<open>None\<close> where \<open>pwd_context.identify\<close> knows no scheme or raises,
  \<open>verify_hash\<close> where \<open>pwd_context.verify\<close> raises, \<open>jwt_decode\<close> where \<open>jwt.decode\<close> raises (as for a token that
  expired by the clock). \<open>make_hash\<close> is \<open>Inl\<close> where \<open>pwd_context.hash\<close> raises a \<open>ValueError\<close>, as it does above 4,096
  characters.
  \<open>float_micros\<close> reads a number with a fraction as microseconds.
\<close>

record env =
  identify_scheme :: "pystr \<Rightarrow> pystr option"
  verify_hash :: "pystr \<Rightarrow> pystr \<Rightarrow> bool option"
  make_hash :: "pystr \<Rightarrow> (message, pystr) result"
  sha256_hex :: "bytes \<Rightarrow> pystr"
  jwt_encode :: "json \<Rightarrow> pystr \<Rightarrow> pystr"
  jwt_decode :: "pystr \<Rightarrow> pystr \<Rightarrow> json option"
  random_token :: pystr
  float_micros :: "pystr \<Rightarrow> int"
  now :: int
  jwt_secret_key :: pystr
  access_token_ttl_minutes :: int
  admin_session_cookie_name :: pystr
  csrf_cookie_name :: pystr
  secure_cookies :: bool
  session_activity_debounce_seconds :: int
  connected_user_retention_days :: int

subsection \<open>Passwords\<close>

definition PASSWORD_MAX_LENGTH :: nat where "PASSWORD_MAX_LENGTH = 256"
definition PASSWORD_MIN_LENGTH :: nat where "PASSWORD_MIN_LENGTH = 8"
definition RETIRED_PASSWORD :: pystr where "RETIRED_PASSWORD = lit ''change-me''"

datatype password_hash_error = PasswordHashError

definition verify_password :: "env \<Rightarrow> pystr \<Rightarrow> pystr \<Rightarrow> (password_hash_error, bool) result" where
  "verify_password e password h =
     (case identify_scheme e h of
        None \<Rightarrow> Inl PasswordHashError
      | Some _ \<Rightarrow> (case verify_hash e password h of None \<Rightarrow> Inl PasswordHashError | Some b \<Rightarrow> Inr b))"

text \<open>What \<open>set_user_password\<close> raises: its own error with a text, or the \<open>ValueError\<close> of the hash function.\<close>

datatype password_error = PasswordCandidateError pystr | Hash_Value_Error message

definition hash_password :: "env \<Rightarrow> pystr \<Rightarrow> (password_error, pystr) result" where
  "hash_password e password = map_sum Hash_Value_Error id (make_hash e password)"

text \<open>No character outside ASCII case-folds to one of \<open>change-me\<close>, so that folding the
  ASCII letters decides the comparison.\<close>

definition is_retired_password :: "pystr \<Rightarrow> bool" where
  "is_retired_password v = (map ascii_lower (strip v) = RETIRED_PASSWORD)"

text \<open>A \<open>PasswordCandidateError\<close> is its message.\<close>

definition validate_password_candidate :: "pystr \<Rightarrow> string \<Rightarrow> nat \<Rightarrow> (pystr, pystr) result" where
  "validate_password_candidate password field minimum =
     (if PASSWORD_MAX_LENGTH < length password then
        Inl (lit field @ lit '' must be at most '' @ dec_digits PASSWORD_MAX_LENGTH @ lit '' characters'')
      else if strip password = [] then Inl (lit field @ lit '' is required'')
      else if is_retired_password password then Inl (lit ''Retired password cannot be used'')
      else if length password < minimum then
        Inl (lit field @ lit '' must be at least '' @ dec_digits minimum @ lit '' characters'')
      else Inr password)"

definition password_hash_uses_retired_password :: "env \<Rightarrow> pystr \<Rightarrow> (password_hash_error, bool) result" where
  "password_hash_uses_retired_password e h = verify_password e RETIRED_PASSWORD h"

definition FIRST_CHANGE_REQUIRED_AT :: datetime where
  "FIRST_CHANGE_REQUIRED_AT = utc 0"

definition requires_password_change :: "user \<Rightarrow> bool" where
  "requires_password_change u =
     (case password_changed_at u of
        None \<Rightarrow> False
      | Some t \<Rightarrow> to_utc t = to_utc FIRST_CHANGE_REQUIRED_AT)"

definition require_password_change :: "bool \<Rightarrow> user \<Rightarrow> user" where
  "require_password_change invalidate u =
     (let u1 = u\<lparr>password_changed_at := Some FIRST_CHANGE_REQUIRED_AT\<rparr>
      in if invalidate then u1\<lparr>session_version := session_version u1 + 1\<rparr> else u1)"

definition set_user_password ::
  "env \<Rightarrow> user \<Rightarrow> pystr \<Rightarrow> bool \<Rightarrow> string \<Rightarrow> pystr option \<Rightarrow> bool \<Rightarrow> (password_error, user) result" where
  "set_user_password e u password change_required field previous invalidate =
     bind_result (map_sum PasswordCandidateError id (validate_password_candidate password field PASSWORD_MIN_LENGTH))
       (\<lambda>candidate.
       if previous \<noteq> None \<and> previous = Some candidate then
         Inl (PasswordCandidateError (lit field @ lit '' must differ from the current password''))
       else
         bind_result (hash_password e candidate) (\<lambda>h.
         let u1 = u\<lparr>password_hash := h\<rparr>
         in if change_required then Inr (require_password_change invalidate u1)
            else
              let u2 = u1\<lparr>password_changed_at := Some (utc (now e))\<rparr>
              in Inr (if invalidate then u2\<lparr>session_version := session_version u2 + 1\<rparr> else u2)))"

lemma validated_candidate: "validate_password_candidate pw field n = Inr c \<Longrightarrow> c = pw"
  by (auto simp: validate_password_candidate_def split: if_splits)

lemma set_user_password_Inr:
  assumes "set_user_password e u pw change field previous invalidate = Inr u'"
  obtains h where "validate_password_candidate pw field PASSWORD_MIN_LENGTH = Inr pw" "previous \<noteq> Some pw"
    "make_hash e pw = Inr h"
    "u' = (if change then require_password_change invalidate (u\<lparr>password_hash := h\<rparr>)
       else u\<lparr>password_hash := h, password_changed_at := Some (utc (now e)),
         session_version := session_version u + (if invalidate then 1 else 0)\<rparr>)"
proof (cases "validate_password_candidate pw field PASSWORD_MIN_LENGTH")
  case (Inl m)
  with assms show thesis by (simp add: set_user_password_def)
next
  case (Inr c)
  with validated_candidate [OF Inr] have v: "validate_password_candidate pw field PASSWORD_MIN_LENGTH = Inr pw" by simp
  show thesis
  proof (cases "previous = Some pw")
    case True
    with assms v show thesis by (simp add: set_user_password_def)
  next
    case False
    show thesis
    proof (cases "make_hash e pw")
      case (Inl m)
      with assms v False show thesis by (auto simp: set_user_password_def hash_password_def)
    next
      case (Inr h)
      with assms v False show thesis by (auto simp: set_user_password_def hash_password_def Let_def intro!: that)
    qed
  qed
qed

text \<open>The routes turn the error of a candidate into a 400; the other one leaves them as it is.\<close>

fun password_http_error :: "password_error \<Rightarrow> error" where
  "password_http_error (PasswordCandidateError m) = HTTPException 400 (Plain m)"
| "password_http_error (Hash_Value_Error m) = ValueError m"

subsection \<open>Tokens\<close>

definition micros_per_second :: int where "micros_per_second = 1000000"

definition access_token_payload :: "env \<Rightarrow> pystr \<Rightarrow> pystr \<Rightarrow> pystr \<Rightarrow> int \<Rightarrow> int \<Rightarrow> json" where
  "access_token_payload e subject r csrf ttl ver =
     JObj [(lit ''sub'', JStr subject), (lit ''role'', JStr r), (lit ''csrf'', JStr csrf),
       (lit ''iat'', JInt (now e div micros_per_second)),
       (lit ''exp'', JInt ((now e + ttl * 60 * micros_per_second) div micros_per_second)),
       (lit ''ver'', JInt ver)]"

definition create_access_token :: "env \<Rightarrow> pystr \<Rightarrow> pystr \<Rightarrow> pystr \<Rightarrow> int \<Rightarrow> pystr" where
  "create_access_token e subject r csrf ver =
     jwt_encode e (access_token_payload e subject r csrf (access_token_ttl_minutes e) ver) (jwt_secret_key e)"

definition decode_access_token :: "env \<Rightarrow> pystr \<Rightarrow> json option" where
  "decode_access_token e token = jwt_decode e token (jwt_secret_key e)"

definition hash_session_token :: "env \<Rightarrow> pystr \<Rightarrow> (error, pystr) result" where
  "hash_session_token e token =
     (case utf8_encode token of
        None \<Rightarrow> Inl (ValueError (msg ''surrogates not allowed''))
      | Some bs \<Rightarrow> Inr (sha256_hex e bs))"

subsection \<open>The record of an active session\<close>

definition find_activity :: "db \<Rightarrow> int \<Rightarrow> pystr \<Rightarrow> session_activity option" where
  "find_activity d uid h = find (\<lambda>a. activity_user_id a = uid \<and> session_hash a = h) (session_activities d)"

definition insert_activity :: "db \<Rightarrow> session_activity \<Rightarrow> (error, db) result" where
  "insert_activity d a =
     (if find_activity d (activity_user_id a) (session_hash a) \<noteq> None \<or>
         get_user (activity_user_id a) d = None
      then Inl IntegrityError
      else Inr (d\<lparr>session_activities := session_activities d @
        [a\<lparr>activity_id := next_id (map activity_id (session_activities d))\<rparr>]\<rparr>))"

definition payload_expiry :: "env \<Rightarrow> json \<Rightarrow> datetime option" where
  "payload_expiry e payload =
     (case obj_get (lit ''exp'') payload of
        Some (JInt i) \<Rightarrow> Some (utc (i * micros_per_second))
      | Some (JBool b) \<Rightarrow> Some (utc (if b then micros_per_second else 0))
      | Some (JFloat t) \<Rightarrow> Some (utc (float_micros e t))
      | _ \<Rightarrow> None)"

text \<open>The row found is refreshed unless it was seen within the debounce interval.\<close>

definition refresh_activity :: "env \<Rightarrow> datetime option \<Rightarrow> session_activity \<Rightarrow> db \<Rightarrow> db" where
  "refresh_activity e expires a d =
     (if to_utc (last_seen_at a) < now e - max (session_activity_debounce_seconds e) 0 * micros_per_second
      then d\<lparr>session_activities := change_row activity_id (activity_id a)
        (\<lambda>x. x\<lparr>last_seen_at := utc (now e), expires_at := expires\<rparr>) (session_activities d)\<rparr>
      else d)"

text \<open>As in \<open>record_admin_audit\<close>, \<open>others\<close> is what other sessions commit before the flush.\<close>

definition record_session_activity ::
  "(db \<Rightarrow> db) \<Rightarrow> env \<Rightarrow> db \<Rightarrow> user \<Rightarrow> pystr \<Rightarrow> json \<Rightarrow> (error, db) result" where
  "record_session_activity others e d u token payload =
     bind_result (hash_session_token e token) (\<lambda>h.
       let expires = payload_expiry e payload
       in case find_activity d (user_id u) h of
            Some a \<Rightarrow> Inr (refresh_activity e expires a d)
          | None \<Rightarrow>
              let d' = others d
              in case insert_activity d' \<lparr>activity_id = 0, activity_user_id = user_id u,
                   session_hash = h, last_seen_at = utc (now e), expires_at = expires\<rparr> of
                   Inr d'' \<Rightarrow> Inr d''
                 | Inl err \<Rightarrow>
                     (case find_activity d' (user_id u) h of
                        None \<Rightarrow> Inl err
                      | Some a \<Rightarrow> Inr (refresh_activity e expires a d')))"

subsection \<open>The user of a request\<close>

definition FIRST_CHANGE_ALLOWED_PATHS :: "pystr set" where
  "FIRST_CHANGE_ALLOWED_PATHS =
     lit ` {''/api/v1/auth/change-password'', ''/api/v1/auth/logout'', ''/api/v1/auth/me''}"

text \<open>\<open>int(payload['sub'])\<close>; \<open>jwt.decode\<close> lets through no subject that is not text.\<close>

definition subject_of :: "json \<Rightarrow> int option" where
  "subject_of payload = (case obj_get (lit ''sub'') payload of Some (JStr s) \<Rightarrow> py_int s | _ \<Rightarrow> None)"

definition current_user_from_request ::
  "env \<Rightarrow> request \<Rightarrow> db \<Rightarrow> (error, db \<times> user \<times> json) result" where
  "current_user_from_request e req d =
     (case map_of (req_cookies req) (admin_session_cookie_name e) of
        None \<Rightarrow> Inl (HTTPException 401 (msg ''Authentication required''))
      | Some token \<Rightarrow>
          if token = [] then Inl (HTTPException 401 (msg ''Authentication required''))
          else
            case decode_access_token e token of
              None \<Rightarrow> Inl (HTTPException 401 (msg ''Invalid session''))
            | Some payload \<Rightarrow>
                (case (subject_of payload, obj_get (lit ''ver'') payload) of
                   (Some uid, Some (JInt ver)) \<Rightarrow>
                     (case get_user uid d of
                        None \<Rightarrow> Inl (HTTPException 401 (msg ''Invalid user''))
                      | Some u \<Rightarrow>
                          if \<not> is_active u then Inl (HTTPException 401 (msg ''Invalid user''))
                          else if ver \<noteq> session_version u then
                            Inl (HTTPException 401 (msg ''Session expired''))
                          else if requires_password_change u \<and> req_path req \<notin> FIRST_CHANGE_ALLOWED_PATHS
                          then Inl (HTTPException 403 (msg ''Password change required''))
                          else bind_result (record_session_activity id e d u token payload)
                            (\<lambda>d'. Inr (d', u, payload)))
                 | _ \<Rightarrow> Inl (HTTPException 401 (msg ''Invalid session''))))"

definition get_optional_user :: "env \<Rightarrow> request \<Rightarrow> db \<Rightarrow> (error, db \<times> user option) result" where
  "get_optional_user e req d =
     (case current_user_from_request e req d of
        Inr (d', u, payload) \<Rightarrow> Inr (d', Some u)
      | Inl (HTTPException st detail) \<Rightarrow>
          if st = 401 \<or> st = 403 then Inr (d, None) else Inl (HTTPException st detail)
      | Inl err \<Rightarrow> Inl err)"

definition require_permission :: "db \<Rightarrow> user \<Rightarrow> string \<Rightarrow> (error, unit) result" where
  "require_permission d u k =
     require (has_permission d u (lit k)) (HTTPException 403 (msg ''Insufficient permission''))"

definition require_role :: "pystr list \<Rightarrow> user \<Rightarrow> (error, unit) result" where
  "require_role rs u = require (role u \<in> set rs) (HTTPException 403 (msg ''Insufficient role''))"

definition get_current_admin :: "env \<Rightarrow> request \<Rightarrow> db \<Rightarrow> (error, db \<times> user) result" where
  "get_current_admin e req d =
     bind_result (current_user_from_request e req d) (\<lambda>(d', u, payload).
       if role u \<noteq> lit ''admin'' \<or> \<not> has_permission d' u (lit ''admin.users.read'')
       then Inl (HTTPException 401 (msg ''Invalid admin user'')) else Inr (d', u))"

definition require_csrf :: "env \<Rightarrow> request \<Rightarrow> json \<Rightarrow> (error, unit) result" where
  "require_csrf e req payload =
     (let hv = header req ''x-csrf-token'';
          cookie = map_of (req_cookies req) (csrf_cookie_name e);
          expected = obj_get (lit ''csrf'') payload
      in require (truthy hv \<and> truthy cookie \<and> hv = cookie \<and> expected = Some (JStr (the hv)))
           (HTTPException 403 (msg ''CSRF validation failed'')))"

text \<open>
  A route that needs a permission, with or without the CSRF check: FastAPI solves the
  dependencies first, on the session the handler gets, then checks the body, then runs the
  handler; the session scope commits or rolls back the whole.
\<close>

definition endpoint ::
  "env \<Rightarrow> request \<Rightarrow> string \<Rightarrow> bool \<Rightarrow> bool \<Rightarrow> (user \<Rightarrow> db \<Rightarrow> (error, db \<times> 'a) result) \<Rightarrow> db \<Rightarrow>
     db \<times> (error, 'a) result" where
  "endpoint e req perm csrf body_ok handler d =
     session_scope d
       (bind_result (current_user_from_request e req d) (\<lambda>(d1, actor, payload).
        bind_result (require_permission d1 actor perm) (\<lambda>_.
        bind_result (if csrf then require_csrf e req payload else Inr ()) (\<lambda>_.
        bind_result (require body_ok RequestValidationError) (\<lambda>_. handler actor d1)))))"

end
