(* ===== verification/Accounts.thy ===== *)
theory Accounts
  imports Auth
begin

text \<open>
  The account operations: \<open>AuthService\<close> of \<open>modules/auth/services.py\<close> (the start-up check of
  the configured administrator and the login) and the routes of \<open>modules/auth/api.py\<close>
  for login, logout and change of password.
\<close>

subsection \<open>Start-up check of the configured administrator\<close>

definition get_by_username :: "pystr \<Rightarrow> db \<Rightarrow> user option" where
  "get_by_username n d = find_row username n (users d)"

definition get_by_email :: "pystr \<Rightarrow> db \<Rightarrow> user option" where
  "get_by_email m d = find_row email (Some m) (users d)"

text \<open>\<open>db.add(user); db.flush()\<close>: the unique columns are checked.\<close>

definition insert_user :: "user \<Rightarrow> db \<Rightarrow> (error, db \<times> user) result" where
  "insert_user u d =
     (if username u \<in> username ` set (users d) \<or> (email u \<noteq> None \<and> email u \<in> email ` set (users d))
      then Inl IntegrityError
      else
        let u' = u\<lparr>user_id := next_id (map user_id (users d))\<rparr>
        in Inr (d\<lparr>users := users d @ [u']\<rparr>, u'))"

definition active_users :: "db \<Rightarrow> user list" where
  "active_users d = sort_key user_id (filter is_active (users d))"

definition new_account :: "pystr \<Rightarrow> pystr option \<Rightarrow> pystr option \<Rightarrow> pystr \<Rightarrow> bool \<Rightarrow> user" where
  "new_account n m dn r act =
     \<lparr>user_id = 0, username = n, email = m, display_name = dn, password_hash = [], role = r,
      is_active = act, session_version = 0, password_changed_at = None, last_login_at = None\<rparr>"

definition invalid_hash_message :: "pystr list \<Rightarrow> message" where
  "invalid_hash_message ns = Plain (lit ''Active accounts have invalid password hashes: '' @
     join_with (lit '', '') ns @ lit ''. Reset those accounts before starting the service.'')"

definition retired_password_message :: "pystr list \<Rightarrow> message" where
  "retired_password_message ns = Plain (lit ''Active accounts use the retired password: '' @
     join_with (lit '', '') ns @
     lit ''. Reset those accounts to unique passwords before starting the service.'')"

text \<open>\<open>AuthService.preflight_configured_admin\<close>. The password it stores was checked before, so
  that the \<open>PasswordCandidateError\<close> of \<open>set_user_password\<close> cannot arise; it would leave as it
  is, as does a \<open>ValueError\<close> of the hash function.\<close>

fun password_value_error :: "password_error \<Rightarrow> error" where
  "password_value_error (PasswordCandidateError m) = ValueError (Plain m)"
| "password_value_error (Hash_Value_Error m) = ValueError m"

definition preflight_configured_admin ::
  "env \<Rightarrow> pystr \<Rightarrow> pystr option \<Rightarrow> db \<Rightarrow> (error, db) result" where
  "preflight_configured_admin e name bootstrap d =
     (let user = get_by_username name d;
          invalid = filter (\<lambda>u. \<not> is_ok (password_hash_uses_retired_password e (password_hash u)))
            (active_users d);
          retired = filter (\<lambda>u. password_hash_uses_retired_password e (password_hash u) = Inr True)
            (active_users d);
          others = filter (\<lambda>u. case user of None \<Rightarrow> True | Some v \<Rightarrow> user_id u \<noteq> user_id v) retired
      in
      if invalid \<noteq> [] then Inl (RuntimeError (invalid_hash_message (map username invalid)))
      else if others \<noteq> [] then Inl (RuntimeError (retired_password_message (map username others)))
      else if (case bootstrap of None \<Rightarrow> False | Some b \<Rightarrow>
        \<not> is_ok (validate_password_candidate b ''ADMIN_PASSWORD'' PASSWORD_MIN_LENGTH))
      then Inl (RuntimeError (msg ''Configured administrator bootstrap password is invalid''))
      else
        case user of
          None \<Rightarrow>
            (case bootstrap of
               None \<Rightarrow> Inr d
             | Some b \<Rightarrow>
                 (case set_user_password e (new_account name None None (lit ''admin'') True) b True
                    ''ADMIN_PASSWORD'' None False of
                    Inl m \<Rightarrow> Inl (password_value_error m)
                  | Inr u \<Rightarrow> map_sum id fst (insert_user u d)))
        | Some u \<Rightarrow>
            (case password_hash_uses_retired_password e (password_hash u) of
               Inl _ \<Rightarrow> Inl (RuntimeError (WithRepr (lit ''Configured administrator '') (username u)
                 (lit '' has an invalid password hash. Reset the account before starting the service.'')))
             | Inr True \<Rightarrow>
                 (case bootstrap of
                    None \<Rightarrow> Inl (RuntimeError (WithRepr (lit ''Configured administrator '') (username u)
                      (lit '' uses retired credentials and cannot be resolved without ADMIN_PASSWORD'')))
                  | Some b \<Rightarrow>
                      (case set_user_password e u b True ''ADMIN_PASSWORD'' None True of
                         Inl m \<Rightarrow> Inl (password_value_error m)
                       | Inr u' \<Rightarrow> Inr (change_user (user_id u) (\<lambda>_. u') d)))
             | Inr False \<Rightarrow>
                 (case bootstrap of
                    None \<Rightarrow> Inr d
                  | Some b \<Rightarrow>
                      (case verify_password e b (password_hash u) of
                         Inl _ \<Rightarrow> Inl (ValueError (msg ''Stored password hash is invalid''))
                       | Inr ok \<Rightarrow>
                           if ok \<and> \<not> requires_password_change u
                           then Inr (change_user (user_id u) (require_password_change True) d)
                           else Inr d))))"

subsection \<open>Login\<close>

definition add_login_event ::
  "env \<Rightarrow> int option \<Rightarrow> pystr \<Rightarrow> pystr option \<Rightarrow> pystr option \<Rightarrow> string \<Rightarrow> db \<Rightarrow> db" where
  "add_login_event e uid name ip agent st d =
     d\<lparr>login_events := login_events d @
       [\<lparr>login_id = next_id (map login_id (login_events d)), login_user_id = uid,
         login_username = take 100 name, login_ip_address = ip,
         login_user_agent = (if truthy agent then Some (take 500 (the agent)) else None),
         login_status = lit st, login_created_at = utc (now e)\<rparr>]\<rparr>"

text \<open>\<open>AuthService.login\<close>: the failure is an event too, so that both outcomes have a
  database. \<open>None\<close> is \<open>AuthError('Invalid credentials')\<close>.\<close>

definition credentials_valid :: "env \<Rightarrow> user option \<Rightarrow> pystr \<Rightarrow> bool" where
  "credentials_valid e user password =
     (case user of
        None \<Rightarrow> False
      | Some u \<Rightarrow> is_active u \<and> \<not> is_retired_password password \<and>
          verify_password e password (password_hash u) = Inr True)"

definition auth_login ::
  "env \<Rightarrow> pystr \<Rightarrow> pystr \<Rightarrow> pystr option \<Rightarrow> pystr option \<Rightarrow> db \<Rightarrow> db \<times> (user \<times> pystr \<times> pystr) option" where
  "auth_login e name password ip agent d =
     (case get_by_username name d of
        None \<Rightarrow> (add_login_event e None name ip agent ''failure'' d, None)
      | Some u \<Rightarrow>
          if \<not> credentials_valid e (Some u) password
          then (add_login_event e (Some (user_id u)) name ip agent ''failure'' d, None)
          else
            let csrf = random_token e;
                token = create_access_token e (js_int (user_id u)) (role u) csrf (session_version u);
                u' = u\<lparr>last_login_at := Some (utc (now e))\<rparr>;
                d1 = change_user (user_id u) (\<lambda>v. v\<lparr>last_login_at := Some (utc (now e))\<rparr>) d
            in (add_login_event e (Some (user_id u)) name ip agent ''success'' d1,
                Some (u', token, csrf)))"

subsection \<open>Cookies and responses\<close>

record cookie =
  cookie_name :: pystr
  cookie_value :: pystr
  httponly :: bool
  samesite :: pystr
  secure :: bool
  max_age :: int
  cookie_path :: pystr

definition session_cookies :: "env \<Rightarrow> pystr \<Rightarrow> pystr \<Rightarrow> cookie list" where
  "session_cookies e token csrf =
     [\<lparr>cookie_name = admin_session_cookie_name e, cookie_value = token, httponly = True,
       samesite = lit ''lax'', secure = secure_cookies e,
       max_age = access_token_ttl_minutes e * 60, cookie_path = lit ''/''\<rparr>,
      \<lparr>cookie_name = csrf_cookie_name e, cookie_value = csrf, httponly = False,
       samesite = lit ''lax'', secure = secure_cookies e,
       max_age = access_token_ttl_minutes e * 60, cookie_path = lit ''/''\<rparr>]"

record user_response =
  resp_id :: int
  resp_username :: pystr
  resp_role :: pystr
  resp_email :: "pystr option"
  resp_is_active :: bool
  resp_requires_password_change :: bool

definition user_response_of :: "user \<Rightarrow> user_response" where
  "user_response_of u = \<lparr>resp_id = user_id u, resp_username = username u, resp_role = role u,
     resp_email = email u, resp_is_active = is_active u,
     resp_requires_password_change = requires_password_change u\<rparr>"

record auth_response =
  auth_user :: user_response
  auth_csrf_token :: pystr
  auth_cookies :: "cookie list"

text \<open>The \<open>login\<close> route commits the failure event before it answers 401.\<close>

definition login_route ::
  "env \<Rightarrow> pystr \<Rightarrow> pystr \<Rightarrow> request \<Rightarrow> db \<Rightarrow> db \<times> (error, auth_response) result" where
  "login_route e name password req d =
     (if \<not> (length name \<le> 100 \<and> length password \<le> 256) then (d, Inl RequestValidationError)
      else
        case auth_login e name password (req_client_host req) (header req ''user-agent'') d of
          (d', None) \<Rightarrow> (d', Inl (HTTPException 401 (msg ''Invalid credentials'')))
        | (d', Some (u, token, csrf)) \<Rightarrow>
            (d', Inr \<lparr>auth_user = user_response_of u, auth_csrf_token = csrf,
              auth_cookies = session_cookies e token csrf\<rparr>))"

text \<open>\<open>logout\<close>: both cookies are deleted in any case; the value is the names.\<close>

definition logout_handler ::
  "env \<Rightarrow> request \<Rightarrow> user option \<Rightarrow> db \<Rightarrow> (error, db \<times> pystr list) result" where
  "logout_handler e req current d =
     (let token = map_of (req_cookies req) (admin_session_cookie_name e);
          deleted = [admin_session_cookie_name e, csrf_cookie_name e]
      in case current of
           None \<Rightarrow> Inr (d, deleted)
         | Some u \<Rightarrow>
             let d1 = add_login_event e (Some (user_id u)) (username u) (req_client_host req)
               (header req ''user-agent'') ''logout'' d
             in if truthy token then
                  bind_result (hash_session_token e (the token)) (\<lambda>h.
                    Inr (d1\<lparr>session_activities := filter
                      (\<lambda>a. \<not> (activity_user_id a = user_id u \<and> session_hash a = h))
                      (session_activities d1)\<rparr>, deleted))
                else Inr (d1, deleted))"

definition logout_route :: "env \<Rightarrow> request \<Rightarrow> db \<Rightarrow> db \<times> (error, pystr list) result" where
  "logout_route e req d =
     session_scope d
       (bind_result (get_optional_user e req d) (\<lambda>(d1, current). logout_handler e req current d1))"

definition change_password_handler ::
  "env \<Rightarrow> pystr \<Rightarrow> pystr \<Rightarrow> request \<Rightarrow> user \<Rightarrow> db \<Rightarrow> (error, db \<times> auth_response) result" where
  "change_password_handler e current_password new_password req u d =
     (if verify_password e current_password (password_hash u) \<noteq> Inr True
      then Inl (HTTPException 401 (msg ''Current password is incorrect''))
      else
        case set_user_password e u new_password False ''New password'' (Some current_password) True of
          Inl m \<Rightarrow> Inl (password_http_error m)
        | Inr u' \<Rightarrow>
            let d1 = change_user (user_id u) (\<lambda>_. u') d;
                csrf = random_token e;
                token = create_access_token e (js_int (user_id u')) (role u') csrf (session_version u')
            in bind_result
                 (audit d1 ((audit_call u' ''account.password_change'' ''user''
                    (Some (js_int (user_id u'))) req)\<lparr>arg_metadata := Some (JObj [(lit ''self'', JBool True)])\<rparr>))
                 (\<lambda>d2. Inr (d2, \<lparr>auth_user = user_response_of u', auth_csrf_token = csrf,
                   auth_cookies = session_cookies e token csrf\<rparr>)))"

definition change_password_route ::
  "env \<Rightarrow> pystr \<Rightarrow> pystr \<Rightarrow> request \<Rightarrow> db \<Rightarrow> db \<times> (error, auth_response) result" where
  "change_password_route e current_password new_password req d =
     session_scope d
       (bind_result (current_user_from_request e req d) (\<lambda>(d1, u, payload).
        bind_result (require_csrf e req payload) (\<lambda>_.
          change_password_handler e current_password new_password req u d1)))"

end
