(* ===== verification/Admin_Api.thy ===== *)
theory Admin_Api
  imports Accounts
begin

text \<open>
  The handlers of \<open>modules/admin/api.py\<close> that manage accounts, groups, memberships,
  resource grants, service modules and the session records, over the payloads of
  \<open>modules/admin/schemas.py\<close>. A handler gets the authenticated actor and the database of
  its session and returns the database it leaves with its response, or the error that
  rolls the session back; \<open>endpoint\<close> puts the guards of its route in front.
\<close>

subsection \<open>Payloads and responses\<close>

record user_create =
  new_username :: pystr
  new_password :: pystr
  new_email :: "pystr option"
  new_display_name :: "pystr option"
  new_role :: pystr
  new_is_active :: bool

definition user_create_ok :: "user_create \<Rightarrow> bool" where
  "user_create_ok p \<longleftrightarrow> 1 \<le> length (new_username p) \<and> length (new_username p) \<le> 100 \<and>
     1 \<le> length (new_password p) \<and> length (new_password p) \<le> 256 \<and> new_role p \<in> VALID_ROLES"

text \<open>\<open>None\<close> in the outer option of \<open>upd_email\<close> and \<open>upd_display_name\<close>: the field is not in
  \<open>model_fields_set\<close>. The other fields treat an absent and a null value alike.\<close>

record user_update =
  upd_email :: "pystr option option"
  upd_display_name :: "pystr option option"
  upd_role :: "pystr option"
  upd_is_active :: "bool option"
  upd_permissions :: "pystr list option"

definition user_update_ok :: "user_update \<Rightarrow> bool" where
  "user_update_ok p \<longleftrightarrow> (case upd_role p of None \<Rightarrow> True | Some r \<Rightarrow> r \<in> VALID_ROLES)"

record group_upsert =
  ups_key :: pystr
  ups_name :: pystr
  ups_description :: "pystr option"
  ups_is_active :: bool
  ups_permissions :: "pystr list"

record grant_create =
  gc_subject_type :: pystr
  gc_subject_id :: int
  gc_resource_type :: pystr
  gc_resource_id :: pystr
  gc_permission_key :: pystr

definition grant_create_ok :: "grant_create \<Rightarrow> bool" where
  "grant_create_ok p \<longleftrightarrow> gc_subject_type p \<in> lit ` {''user'', ''group''}"

definition resource_policy_error :: "grant_create \<Rightarrow> string option" where
  "resource_policy_error p =
     (if RESOURCE_SAFE_PERMISSIONS (gc_resource_type p) = None then
        Some ''Invalid resource grant resource_type''
      else if \<not> is_valid_resource_id (gc_resource_id p) then Some ''Invalid resource grant resource_id''
      else if gc_permission_key p \<in> ADMIN_PERMISSIONS \<and>
        \<not> is_resource_safe_permission (gc_resource_type p) (gc_permission_key p)
      then Some ''Invalid resource grant permission_key''
      else if \<not> is_resource_safe_permission (gc_resource_type p) (gc_permission_key p)
      then Some ''Invalid resource grant permission_key''
      else None)"

record user_admin_response =
  uar_user :: user
  uar_permissions :: "pystr list"

definition serialize_user :: "db \<Rightarrow> user \<Rightarrow> user_admin_response" where
  "serialize_user d u =
     \<lparr>uar_user = u, uar_permissions = sorted_list_of_set (list_user_permission_keys d u)\<rparr>"

definition optional_text :: "pystr option \<Rightarrow> pystr option" where
  "optional_text v =
     (case v of None \<Rightarrow> None | Some s \<Rightarrow> if strip s = [] then None else Some (strip s))"

definition required_text :: "pystr \<Rightarrow> string \<Rightarrow> (error, pystr) result" where
  "required_text v field =
     (if strip v = [] then Inl (HTTPException 400 (Plain (lit field @ lit '' is required'')))
      else Inr (strip v))"

definition group_permission_keys :: "db \<Rightarrow> int \<Rightarrow> pystr list" where
  "group_permission_keys d gid = sort (map snd (filter (\<lambda>p. fst p = gid) (group_permissions d)))"

definition serialize_group :: "db \<Rightarrow> group \<Rightarrow> json" where
  "serialize_group d g = JObj
     [(lit ''id'', JInt (group_id g)), (lit ''key'', JStr (group_key g)), (lit ''name'', JStr (group_name g)),
      (lit ''description'', of_text (group_description g)), (lit ''is_active'', JBool (group_is_active g)),
      (lit ''permissions'', JArr (map JStr (group_permission_keys d (group_id g))))]"

subsection \<open>Accounts\<close>

definition has_other_active_admin :: "db \<Rightarrow> user \<Rightarrow> bool" where
  "has_other_active_admin d u =
     (\<exists>v \<in> set (users d). user_id v \<noteq> user_id u \<and> is_active v \<and> role v = lit ''admin'' \<and>
        lit ''admin.rbac.manage'' \<in> list_user_permission_keys d v)"

definition create_user ::
  "env \<Rightarrow> user_create \<Rightarrow> request \<Rightarrow> user \<Rightarrow> db \<Rightarrow> (error, db \<times> user_admin_response) result" where
  "create_user e p req actor d =
     bind_result (required_text (new_username p) ''username'') (\<lambda>name.
       case set_user_password e
         (new_account name (optional_text (new_email p)) (optional_text (new_display_name p)) (new_role p)
           (new_is_active p)) (new_password p) False ''password'' None False of
         Inl m \<Rightarrow> Inl (password_http_error m)
       | Inr u \<Rightarrow>
           if get_by_username name d \<noteq> None then Inl (HTTPException 409 (msg ''User already exists''))
           else
             bind_result (insert_user u d) (\<lambda>(d1, u').
             bind_result (audit d1 ((audit_call actor ''user.create'' ''user'' (Some (js_int (user_id u'))) req)
               \<lparr>arg_after := Some (JObj [(lit ''username'', JStr (username u')), (lit ''role'', JStr (role u')),
                 (lit ''is_active'', JBool (is_active u')), (lit ''email'', of_text (email u')),
                 (lit ''display_name'', of_text (display_name u'))])\<rparr>)) (\<lambda>d2.
             Inr (d2, serialize_user d2 u'))))"

definition user_snapshot :: "db \<Rightarrow> user \<Rightarrow> json" where
  "user_snapshot d u = JObj
     [(lit ''role'', JStr (role u)), (lit ''is_active'', JBool (is_active u)), (lit ''email'', of_text (email u)),
      (lit ''display_name'', of_text (display_name u)),
      (lit ''permissions'', JArr (map JStr (sorted_list_of_set (list_user_permission_keys d u))))]"

definition unknown_permission :: "pystr \<Rightarrow> error" where
  "unknown_permission k = HTTPException 400 (Plain (lit ''Unknown permission: '' @ k))"

text \<open>The direct keys of a user are replaced by the sorted set of the payload's, all of which
  must be known.\<close>

definition replace_user_permissions :: "int \<Rightarrow> pystr list option \<Rightarrow> db \<Rightarrow> (error, db) result" where
  "replace_user_permissions uid perms d =
     (case perms of
        None \<Rightarrow> Inr d
      | Some ks \<Rightarrow>
          let ks' = sort (remdups ks)
          in bind_result (for_each (\<lambda>k. require (k \<in> ADMIN_PERMISSIONS) (unknown_permission k)) ks') (\<lambda>_.
               Inr (d\<lparr>user_permissions :=
                 filter (\<lambda>p. fst p \<noteq> uid) (user_permissions d) @ map (Pair uid) ks'\<rparr>)))"

text \<open>\<open>db.flush()\<close> of a changed account: the unique email.\<close>

definition flush_user :: "user \<Rightarrow> db \<Rightarrow> (error, db) result" where
  "flush_user u d =
     (if email u \<noteq> None \<and> (\<exists>v \<in> set (users d). user_id v \<noteq> user_id u \<and> email v = email u)
      then Inl IntegrityError
      else Inr (change_user (user_id u) (\<lambda>_. u) d))"

definition reset_required :: error where
  "reset_required = HTTPException 400 (msg ''Password reset is required before activating this user'')"

text \<open>The account after the payload: \<open>new_role\<close> and \<open>new_active\<close> of the handler, and the
  assignments to the row.\<close>

definition requested_role :: "user_update \<Rightarrow> user \<Rightarrow> pystr" where
  "requested_role p u = (case upd_role p of Some r \<Rightarrow> r | None \<Rightarrow> role u)"

definition requested_active :: "user_update \<Rightarrow> user \<Rightarrow> bool" where
  "requested_active p u = (case upd_is_active p of Some b \<Rightarrow> b | None \<Rightarrow> is_active u)"

definition updated_user :: "user_update \<Rightarrow> user \<Rightarrow> user" where
  "updated_user p u = u\<lparr>
     email := (case upd_email p of Some m \<Rightarrow> optional_text m | None \<Rightarrow> email u),
     display_name := (case upd_display_name p of Some n \<Rightarrow> optional_text n | None \<Rightarrow> display_name u),
     role := requested_role p u, is_active := requested_active p u,
     session_version := session_version u + 1\<rparr>"

definition update_user ::
  "env \<Rightarrow> int \<Rightarrow> user_update \<Rightarrow> request \<Rightarrow> user \<Rightarrow> db \<Rightarrow> (error, db \<times> user_admin_response) result" where
  "update_user e uid p req actor d =
     (case get_user uid d of
        None \<Rightarrow> Inl (HTTPException 404 (msg ''User not found''))
      | Some u \<Rightarrow>
          let before = user_snapshot d u;
              role' = requested_role p u;
              active' = requested_active p u
          in
          if user_id u = user_id actor \<and> (\<not> active' \<or> role' \<noteq> role u) then
            Inl (HTTPException 400 (msg ''Self lockout is not allowed''))
          else if (is_active u \<and> role u = lit ''admin'' \<and> (\<not> active' \<or> role' \<noteq> lit ''admin'')) \<and>
            \<not> has_other_active_admin d u
          then Inl (HTTPException 400 (msg ''At least one active admin must remain''))
          else if \<not> is_active u \<and> active' \<and>
            password_hash_uses_retired_password e (password_hash u) \<noteq> Inr False
          then Inl reset_required
          else
            let u' = updated_user p u
            in bind_result (replace_user_permissions (user_id u) (upd_permissions p) d) (\<lambda>d1.
               bind_result (flush_user u' d1) (\<lambda>d2.
               bind_result (audit d2 ((audit_call actor ''user.update'' ''user'' (Some (js_int (user_id u))) req)
                 \<lparr>arg_before := Some before, arg_after := Some (user_snapshot d2 u')\<rparr>)) (\<lambda>d3.
               Inr (d3, serialize_user d3 u')))))"

lemma updated_user_simps [simp]:
  "user_id (updated_user p u) = user_id u" "username (updated_user p u) = username u"
  "role (updated_user p u) = requested_role p u" "is_active (updated_user p u) = requested_active p u"
  "session_version (updated_user p u) = session_version u + 1"
  "password_hash (updated_user p u) = password_hash u"
  by (simp_all add: updated_user_def)

definition reset_user_password ::
  "env \<Rightarrow> int \<Rightarrow> pystr \<Rightarrow> request \<Rightarrow> user \<Rightarrow> db \<Rightarrow> (error, db \<times> user_admin_response) result" where
  "reset_user_password e uid temporary req actor d =
     (case get_user uid d of
        None \<Rightarrow> Inl (HTTPException 404 (msg ''User not found''))
      | Some u \<Rightarrow>
          case set_user_password e u temporary True ''temporary_password'' None True of
            Inl m \<Rightarrow> Inl (password_http_error m)
          | Inr u' \<Rightarrow>
              bind_result (flush_user u' d) (\<lambda>d1.
              bind_result (audit d1 ((audit_call actor ''user.password_reset'' ''user'' (Some (js_int (user_id u))) req)
                \<lparr>arg_metadata := Some (JObj [(lit ''temporary_password'', REDACTED)])\<rparr>)) (\<lambda>d2.
              Inr (d2, serialize_user d2 u'))))"

subsection \<open>Groups and memberships\<close>

definition upsert_group ::
  "group_upsert \<Rightarrow> request \<Rightarrow> user \<Rightarrow> db \<Rightarrow> (error, db \<times> json) result" where
  "upsert_group p req actor d =
     (let old = find_row group_key (ups_key p) (groups d);
          before = map_option (serialize_group d) old;
          act = (if old = None then ''group.create'' else ''group.update'');
          gid = (case old of None \<Rightarrow> next_id (map group_id (groups d)) | Some g \<Rightarrow> group_id g);
          g' = \<lparr>group_id = gid, group_key = ups_key p, group_name = ups_name p,
            group_description = ups_description p, group_is_active = ups_is_active p\<rparr>;
          d1 = (case old of
             None \<Rightarrow> d\<lparr>groups := groups d @ [g']\<rparr>
           | Some g \<Rightarrow> change_group gid (\<lambda>_. g') d);
          ks = sort (remdups (ups_permissions p))
      in
      bind_result (for_each (\<lambda>k. require (k \<in> ADMIN_PERMISSIONS) (unknown_permission k)) ks) (\<lambda>_.
        let d2 = d1\<lparr>group_permissions :=
              filter (\<lambda>q. fst q \<noteq> gid) (group_permissions d1) @ map (Pair gid) ks\<rparr>;
            d3 = fst (bump_group_members d2 gid);
            after = serialize_group d3 g'
        in bind_result (audit d3 ((audit_call actor act ''group'' (Some (js_int gid)) req)
             \<lparr>arg_before := before, arg_after := Some after\<rparr>)) (\<lambda>d4.
           Inr (d4, serialize_group d4 g'))))"

definition membership_snapshot :: "group \<Rightarrow> json" where
  "membership_snapshot g =
     JObj [(lit ''group_id'', JInt (group_id g)), (lit ''group_key'', JStr (group_key g))]"

definition user_or_group_missing :: error where
  "user_or_group_missing = HTTPException 404 (msg ''User or group not found'')"

definition add_user_group ::
  "int \<Rightarrow> int \<Rightarrow> request \<Rightarrow> user \<Rightarrow> db \<Rightarrow> (error, db \<times> user_admin_response) result" where
  "add_user_group uid gid req actor d =
     (case (get_user uid d, get_group gid d) of
        (Some u, Some g) \<Rightarrow>
          if (uid, gid) \<notin> set (user_groups d) then
            (let d1 = fst (bump_authorization_session_versions d [Some uid]);
                 d2 = d1\<lparr>user_groups := user_groups d1 @ [(uid, gid)]\<rparr>
             in bind_result (audit d2 ((audit_call actor ''user_group.add'' ''user'' (Some (js_int uid)) req)
                  \<lparr>arg_after := Some (membership_snapshot g)\<rparr>)) (\<lambda>d3.
                Inr (d3, serialize_user d3 (bumped u))))
          else Inr (d, serialize_user d u)
      | _ \<Rightarrow> Inl user_or_group_missing)"

definition remove_user_group ::
  "int \<Rightarrow> int \<Rightarrow> request \<Rightarrow> user \<Rightarrow> db \<Rightarrow> (error, db \<times> user_admin_response) result" where
  "remove_user_group uid gid req actor d =
     (case (get_user uid d, get_group gid d) of
        (Some u, Some g) \<Rightarrow>
          if (uid, gid) \<in> set (user_groups d) then
            (let d1 = d\<lparr>user_groups := filter (\<lambda>ug. ug \<noteq> (uid, gid)) (user_groups d)\<rparr>;
                 d2 = fst (bump_authorization_session_versions d1 [Some uid])
             in bind_result (audit d2 ((audit_call actor ''user_group.remove'' ''user'' (Some (js_int uid)) req)
                  \<lparr>arg_before := Some (membership_snapshot g)\<rparr>)) (\<lambda>d3.
                Inr (d3, serialize_user d3 (bumped u))))
          else Inr (d, serialize_user d u)
      | _ \<Rightarrow> Inl user_or_group_missing)"

subsection \<open>Resource grants\<close>

definition grant_snapshot :: "resource_grant \<Rightarrow> json" where
  "grant_snapshot g = JObj
     [(lit ''id'', JInt (grant_id g)), (lit ''subject_type'', JStr (subject_type g)),
      (lit ''subject_id'', JInt (subject_id g)), (lit ''resource_type'', JStr (grant_resource_type g)),
      (lit ''resource_id'', JStr (grant_resource_id g)), (lit ''permission_key'', JStr (grant_permission_key g))]"

definition title_case :: "pystr \<Rightarrow> pystr" where
  "title_case s = (case s of [] \<Rightarrow> [] | c # r \<Rightarrow> (if 97 \<le> c \<and> c \<le> 122 then c - 32 else c) # r)"

definition validate_grant_subject :: "db \<Rightarrow> pystr \<Rightarrow> int \<Rightarrow> (error, unit) result" where
  "validate_grant_subject d st sid =
     (if st = lit ''user'' \<and> get_user sid d \<noteq> None then Inr ()
      else if st = lit ''group'' \<and> get_group sid d \<noteq> None then Inr ()
      else Inl (HTTPException 404 (Plain (title_case st @ lit '' subject not found''))))"

definition create_resource_grant ::
  "grant_create \<Rightarrow> request \<Rightarrow> user \<Rightarrow> db \<Rightarrow> (error, db \<times> resource_grant) result" where
  "create_resource_grant p req actor d =
     bind_result (validate_grant_subject d (gc_subject_type p) (gc_subject_id p)) (\<lambda>_.
     case resource_policy_error p of
       Some m \<Rightarrow> Inl (HTTPException 400 (msg m))
     | None \<Rightarrow>
         let g = \<lparr>grant_id = next_id (map grant_id (resource_grants d)), subject_type = gc_subject_type p,
               subject_id = gc_subject_id p, grant_resource_type = gc_resource_type p,
               grant_resource_id = gc_resource_id p, grant_permission_key = gc_permission_key p\<rparr>
         in if grant_content g \<in> grant_content ` set (resource_grants d)
            then Inl (HTTPException 409 (msg ''Resource grant already exists''))
            else
              let d1 = d\<lparr>resource_grants := resource_grants d @ [g]\<rparr>;
                  d2 = fst (bump_authorization_session_versions d1
                    (map Some (users_affected_by_resource_grant d1 (subject_type g) (subject_id g))))
              in bind_result (audit d2 ((audit_call actor ''resource_grant.create'' ''resource_grant''
                   (Some (js_int (grant_id g))) req)\<lparr>arg_after := Some (grant_snapshot g)\<rparr>)) (\<lambda>d3.
                 Inr (d3, g)))"

definition delete_resource_grant ::
  "int \<Rightarrow> request \<Rightarrow> user \<Rightarrow> db \<Rightarrow> (error, db \<times> unit) result" where
  "delete_resource_grant gid req actor d =
     (case get_grant gid d of
        None \<Rightarrow> Inl (HTTPException 404 (msg ''Resource grant not found''))
      | Some g \<Rightarrow>
          let affected = users_affected_by_resource_grant d (subject_type g) (subject_id g);
              d1 = d\<lparr>resource_grants := filter (\<lambda>x. grant_id x \<noteq> gid) (resource_grants d)\<rparr>;
              d2 = fst (bump_authorization_session_versions d1 (map Some affected))
          in bind_result (audit d2 ((audit_call actor ''resource_grant.delete'' ''resource_grant''
               (Some (js_int gid)) req)\<lparr>arg_before := Some (grant_snapshot g)\<rparr>)) (\<lambda>d3.
             Inr (d3, ())))"

end
