(* ===== verification/Module_Api.thy ===== *)
theory Module_Api
  imports Admin_Api
begin

text \<open>
  The service modules of the dashboard (\<open>modules/admin/api.py\<close>: public list, create, delete,
  update) and the purge of old session records.
\<close>

text \<open>\<open>ServiceModuleCreateRequest\<close> has the columns of the row but for its identifier.\<close>

definition module_create_ok :: "service_module \<Rightarrow> bool" where
  "module_create_ok p \<longleftrightarrow>
     module_status p \<in> lit ` {''active'', ''development'', ''coming_soon'', ''hidden''} \<and>
     visibility p \<in> lit ` {''public'', ''admin''} \<and>
     launcher_kind p \<in> lit ` {''none'', ''open_notebook'', ''open_webui''}"

text \<open>\<open>ServiceModuleUpdateRequest\<close>: \<open>None\<close> is a field that is not set, \<open>Some None\<close> one that is
  set to null.\<close>

record module_update =
  mu_title :: "pystr option option"
  mu_description :: "pystr option option"
  mu_href :: "pystr option option"
  mu_section :: "pystr option option"
  mu_status :: "pystr option option"
  mu_badge :: "pystr option option"
  mu_sort_order :: "int option option"
  mu_is_enabled :: "bool option option"
  mu_is_external :: "bool option option"
  mu_visibility :: "pystr option option"
  mu_launcher_kind :: "pystr option option"
  mu_required_permission :: "pystr option option"
  mu_resource_type :: "pystr option option"
  mu_resource_id :: "pystr option option"

definition literal_ok :: "string set \<Rightarrow> pystr option option \<Rightarrow> bool" where
  "literal_ok vs x \<longleftrightarrow> (case x of Some (Some s) \<Rightarrow> s \<in> lit ` vs | _ \<Rightarrow> True)"

definition module_update_ok :: "module_update \<Rightarrow> bool" where
  "module_update_ok p \<longleftrightarrow>
     literal_ok {''active'', ''development'', ''coming_soon'', ''hidden''} (mu_status p) \<and>
     literal_ok {''public'', ''admin''} (mu_visibility p) \<and>
     literal_ok {''none'', ''open_notebook'', ''open_webui''} (mu_launcher_kind p)"

text \<open>A field's new value; a null in a \<open>NOT NULL\<close> column fails at the flush.\<close>

definition set_field :: "'a \<Rightarrow> 'a option option \<Rightarrow> 'a option" where
  "set_field old x = (case x of None \<Rightarrow> Some old | Some v \<Rightarrow> v)"

definition set_nullable :: "'a option \<Rightarrow> 'a option option \<Rightarrow> 'a option" where
  "set_nullable old x = (case x of None \<Rightarrow> old | Some v \<Rightarrow> v)"

definition apply_module_update :: "module_update \<Rightarrow> service_module \<Rightarrow> (error, service_module) result" where
  "apply_module_update p m =
     (case (set_field (title m) (mu_title p), set_field (href m) (mu_href p),
            set_field (module_section m) (mu_section p), set_field (module_status m) (mu_status p),
            set_field (badge m) (mu_badge p), set_field (sort_order m) (mu_sort_order p),
            set_field (is_enabled m) (mu_is_enabled p), set_field (is_external m) (mu_is_external p),
            set_field (visibility m) (mu_visibility p), set_field (launcher_kind m) (mu_launcher_kind p)) of
        (Some t, Some h, Some s, Some st, Some b, Some so, Some en, Some ex, Some v, Some lk) \<Rightarrow>
          Inr (m\<lparr>title := t, description := set_nullable (description m) (mu_description p), href := h,
            module_section := s, module_status := st, badge := b, sort_order := so, is_enabled := en,
            is_external := ex, visibility := v, launcher_kind := lk,
            required_permission := set_nullable (required_permission m) (mu_required_permission p),
            resource_type := set_nullable (resource_type m) (mu_resource_type p),
            resource_id := set_nullable (resource_id m) (mu_resource_id p)\<rparr>)
      | _ \<Rightarrow> Inl IntegrityError)"

definition module_snapshot :: "service_module \<Rightarrow> json" where
  "module_snapshot m = JObj
     [(lit ''key'', JStr (module_key m)), (lit ''title'', JStr (title m)),
      (lit ''description'', of_text (description m)), (lit ''href'', JStr (href m)),
      (lit ''section'', JStr (module_section m)), (lit ''status'', JStr (module_status m)),
      (lit ''badge'', JStr (badge m)), (lit ''sort_order'', JInt (sort_order m)),
      (lit ''is_enabled'', JBool (is_enabled m)), (lit ''is_external'', JBool (is_external m)),
      (lit ''visibility'', JStr (visibility m)),
      (lit ''required_permission'', of_text (required_permission m)),
      (lit ''resource_type'', of_text (resource_type m)), (lit ''resource_id'', of_text (resource_id m))]"

definition public_service_modules :: "db \<Rightarrow> user option \<Rightarrow> (error, service_module list) result" where
  "public_service_modules d u =
     filter_accessible d u (sort_key (\<lambda>m. (sort_order m, module_id m)) (service_modules d))"

definition gate_rejected :: "gate_error \<Rightarrow> error" where
  "gate_rejected g = HTTPException 400 (gate_message g)"

definition create_service_module ::
  "service_module \<Rightarrow> request \<Rightarrow> user \<Rightarrow> db \<Rightarrow> (error, db \<times> service_module) result" where
  "create_service_module p req actor d =
     (if find_row module_key (module_key p) (service_modules d) \<noteq> None then
        Inl (HTTPException 409 (msg ''Service module key already exists''))
      else
        case validate_module_gate (visibility p) (required_permission p) (resource_type p) (resource_id p) of
          Some g \<Rightarrow> Inl (gate_rejected g)
        | None \<Rightarrow>
            let m = p\<lparr>module_id := next_id (map module_id (service_modules d))\<rparr>;
                d1 = d\<lparr>service_modules := service_modules d @ [m]\<rparr>
            in bind_result (audit d1 ((audit_call actor ''service_module.create'' ''service_module''
                 (Some (module_key m)) req)\<lparr>arg_after := Some (module_snapshot m)\<rparr>)) (\<lambda>d2.
               Inr (d2, m)))"

definition delete_service_module ::
  "int \<Rightarrow> request \<Rightarrow> user \<Rightarrow> db \<Rightarrow> (error, db \<times> unit) result" where
  "delete_service_module mid req actor d =
     (case get_module mid d of
        None \<Rightarrow> Inl (HTTPException 404 (msg ''Service module not found''))
      | Some m \<Rightarrow>
          let d1 = d\<lparr>service_modules := filter (\<lambda>x. module_id x \<noteq> mid) (service_modules d)\<rparr>
          in bind_result (audit d1 ((audit_call actor ''service_module.delete'' ''service_module''
               (Some (module_key m)) req)\<lparr>arg_before := Some (module_snapshot m)\<rparr>)) (\<lambda>d2.
             Inr (d2, ())))"

text \<open>The gate is validated on the merge of the stored row and the payload; a null visibility
  is no visibility the policy knows.\<close>

definition update_service_module ::
  "int \<Rightarrow> module_update \<Rightarrow> request \<Rightarrow> user \<Rightarrow> db \<Rightarrow> (error, db \<times> service_module) result" where
  "update_service_module mid p req actor d =
     (case get_module mid d of
        None \<Rightarrow> Inl (HTTPException 404 (msg ''Service module not found''))
      | Some m \<Rightarrow>
          case set_field (visibility m) (mu_visibility p) of
            None \<Rightarrow> Inl (HTTPException 400 (msg ''Unknown module visibility: None''))
          | Some v \<Rightarrow>
              (case validate_module_gate v (set_nullable (required_permission m) (mu_required_permission p))
                 (set_nullable (resource_type m) (mu_resource_type p))
                 (set_nullable (resource_id m) (mu_resource_id p)) of
                 Some g \<Rightarrow> Inl (gate_rejected g)
               | None \<Rightarrow>
                   bind_result (apply_module_update p m) (\<lambda>m'.
                     let d1 = change_module mid (\<lambda>_. m') d
                     in bind_result (audit d1 ((audit_call actor ''service_module.update'' ''service_module''
                          (Some (module_key m')) req)\<lparr>arg_before := Some (module_snapshot m),
                          arg_after := Some (module_snapshot m')\<rparr>)) (\<lambda>d2.
                        Inr (d2, m')))))"

subsection \<open>Purge of session records\<close>

definition retention_days :: "env \<Rightarrow> int" where
  "retention_days e = min (max (connected_user_retention_days e) 30) 90"

definition purge_connected_sessions ::
  "env \<Rightarrow> request \<Rightarrow> user \<Rightarrow> db \<Rightarrow> (error, db \<times> nat \<times> nat) result" where
  "purge_connected_sessions e req actor d =
     (let cutoff = now e - retention_days e * 86400 * micros_per_second;
          old_login = (\<lambda>l. to_utc (login_created_at l) < cutoff);
          old_activity = (\<lambda>a. to_utc (last_seen_at a) < cutoff);
          n = length (filter old_login (login_events d));
          k = length (filter old_activity (session_activities d));
          d1 = d\<lparr>login_events := filter (\<lambda>l. \<not> old_login l) (login_events d),
            session_activities := filter (\<lambda>a. \<not> old_activity a) (session_activities d)\<rparr>
      in bind_result (audit d1 ((audit_call actor ''admin.sessions.purge'' ''session_activity'' None req)
           \<lparr>arg_metadata := Some (JObj [(lit ''login_events_deleted'', JInt (int n)),
             (lit ''session_activity_deleted'', JInt (int k))])\<rparr>)) (\<lambda>d2. Inr (d2, n, k)))"

end
