(* ===== verification/Routes.thy ===== *)
theory Routes
  imports Module_Api
begin

text \<open>
  The routes that change the database, each a handler behind its guards, the relation of
  all of them, and what holds of every sequence of requests: sessions are invalidated when
  the authority of their user changes, an active administrator remains, stored grants and
  module gates stay within the policy, and the audit trail only grows.
\<close>

subsection \<open>The routes\<close>

definition post_user :: "env \<Rightarrow> request \<Rightarrow> user_create \<Rightarrow> db \<Rightarrow> db \<times> (error, user_admin_response) result" where
  "post_user e req p = endpoint e req ''admin.users.manage'' True (user_create_ok p) (create_user e p req)"

definition patch_user :: "env \<Rightarrow> request \<Rightarrow> int \<Rightarrow> user_update \<Rightarrow> db \<Rightarrow> db \<times> (error, user_admin_response) result" where
  "patch_user e req uid p =
     endpoint e req ''admin.users.manage'' True (user_update_ok p) (update_user e uid p req)"

definition post_password_reset :: "env \<Rightarrow> request \<Rightarrow> int \<Rightarrow> pystr \<Rightarrow> db \<Rightarrow> db \<times> (error, user_admin_response) result" where
  "post_password_reset e req uid temporary =
     endpoint e req ''admin.users.reset_password'' True True (reset_user_password e uid temporary req)"

definition post_group :: "env \<Rightarrow> request \<Rightarrow> group_upsert \<Rightarrow> db \<Rightarrow> db \<times> (error, json) result" where
  "post_group e req p = endpoint e req ''admin.rbac.manage'' True True (upsert_group p req)"

definition post_user_group :: "env \<Rightarrow> request \<Rightarrow> int \<Rightarrow> int \<Rightarrow> db \<Rightarrow> db \<times> (error, user_admin_response) result" where
  "post_user_group e req uid gid =
     endpoint e req ''admin.rbac.manage'' True True (add_user_group uid gid req)"

definition delete_user_group :: "env \<Rightarrow> request \<Rightarrow> int \<Rightarrow> int \<Rightarrow> db \<Rightarrow> db \<times> (error, user_admin_response) result" where
  "delete_user_group e req uid gid =
     endpoint e req ''admin.rbac.manage'' True True (remove_user_group uid gid req)"

definition post_resource_grant :: "env \<Rightarrow> request \<Rightarrow> grant_create \<Rightarrow> db \<Rightarrow> db \<times> (error, resource_grant) result" where
  "post_resource_grant e req p =
     endpoint e req ''admin.resource_grants.manage'' True (grant_create_ok p) (create_resource_grant p req)"

definition delete_grant :: "env \<Rightarrow> request \<Rightarrow> int \<Rightarrow> db \<Rightarrow> db \<times> (error, unit) result" where
  "delete_grant e req gid =
     endpoint e req ''admin.resource_grants.manage'' True True (delete_resource_grant gid req)"

definition post_service_module :: "env \<Rightarrow> request \<Rightarrow> service_module \<Rightarrow> db \<Rightarrow> db \<times> (error, service_module) result" where
  "post_service_module e req p =
     endpoint e req ''admin.dashboard.manage'' True (module_create_ok p) (create_service_module p req)"

definition delete_module :: "env \<Rightarrow> request \<Rightarrow> int \<Rightarrow> db \<Rightarrow> db \<times> (error, unit) result" where
  "delete_module e req mid =
     endpoint e req ''admin.dashboard.manage'' True True (delete_service_module mid req)"

definition patch_service_module :: "env \<Rightarrow> request \<Rightarrow> int \<Rightarrow> module_update \<Rightarrow> db \<Rightarrow> db \<times> (error, service_module) result" where
  "patch_service_module e req mid p =
     endpoint e req ''admin.dashboard.manage'' True (module_update_ok p) (update_service_module mid p req)"

definition post_sessions_purge :: "env \<Rightarrow> request \<Rightarrow> db \<Rightarrow> db \<times> (error, nat \<times> nat) result" where
  "post_sessions_purge e req =
     endpoint e req ''admin.sessions.purge'' True True (purge_connected_sessions e req)"

text \<open>One request, served by any of the routes in any environment.\<close>

inductive request_step :: "db \<Rightarrow> db \<Rightarrow> bool" where
  "request_step d (fst (post_user e req p d))"
| "request_step d (fst (patch_user e req uid up d))"
| "request_step d (fst (post_password_reset e req uid pw d))"
| "request_step d (fst (post_group e req gp d))"
| "request_step d (fst (post_user_group e req uid gid d))"
| "request_step d (fst (delete_user_group e req uid gid d))"
| "request_step d (fst (post_resource_grant e req gc d))"
| "request_step d (fst (delete_grant e req gid d))"
| "request_step d (fst (post_service_module e req m d))"
| "request_step d (fst (delete_module e req mid d))"
| "request_step d (fst (patch_service_module e req mid mu d))"
| "request_step d (fst (post_sessions_purge e req d))"
| "request_step d (fst (login_route e name pw req d))"
| "request_step d (fst (logout_route e req d))"
| "request_step d (fst (change_password_route e cur new req d))"

subsection \<open>The authority of a user\<close>

definition authority :: "db \<Rightarrow> user \<Rightarrow> bool \<times> pystr \<times> pystr set \<times> (pystr \<times> pystr \<times> pystr) set" where
  "authority d u = (is_active u, role u, list_user_permission_keys d u, set (list_user_resource_grants d u))"

text \<open>The tables an authority is read from, as far as one user goes.\<close>

definition same_view :: "int \<Rightarrow> db \<Rightarrow> db \<Rightarrow> bool" where
  "same_view i d d' \<longleftrightarrow>
     (\<forall>k. (i, k) \<in> set (user_permissions d') \<longleftrightarrow> (i, k) \<in> set (user_permissions d)) \<and>
     (\<forall>g. (i, g) \<in> set (user_groups d') \<longleftrightarrow> (i, g) \<in> set (user_groups d)) \<and>
     (\<forall>g. (i, g) \<in> set (user_groups d) \<longrightarrow> get_group g d' = get_group g d \<and>
        (\<forall>k. (g, k) \<in> set (group_permissions d') \<longleftrightarrow> (g, k) \<in> set (group_permissions d))) \<and>
     (\<forall>gr. subject_type gr = lit ''user'' \<and> subject_id gr = i \<or>
        subject_type gr = lit ''group'' \<and> (i, subject_id gr) \<in> set (user_groups d) \<longrightarrow>
        gr \<in> set (resource_grants d') \<longleftrightarrow> gr \<in> set (resource_grants d))"

lemma authority_same_view:
  assumes "same_view (user_id u) d d'" "user_id u' = user_id u" "is_active u' = is_active u" "role u' = role u"
  shows "authority d' u' = authority d u"
proof -
  have groups: "g \<in> set (active_group_ids d' u') \<longleftrightarrow> g \<in> set (active_group_ids d u)" for g
    using assms by (auto simp: mem_active_group_ids same_view_def)
  have mem: "(user_id u, g) \<in> set (user_groups d)" if "g \<in> set (active_group_ids d u)" for g
    using that by (simp add: mem_active_group_ids)
  have keys: "list_user_permission_keys d' u' = list_user_permission_keys d u"
  proof (rule set_eqI)
    fix k
    show "k \<in> list_user_permission_keys d' u' \<longleftrightarrow> k \<in> list_user_permission_keys d u"
      using assms groups mem by (auto simp: mem_list_user_permission_keys same_view_def)
  qed
  have "x \<in> set (list_user_resource_grants d' u') \<longleftrightarrow> x \<in> set (list_user_resource_grants d u)" for x
  proof -
    obtain rt rid k where x: "x = (rt, rid, k)" by (cases x)
    have "gr \<in> set (resource_grants d') \<longleftrightarrow> gr \<in> set (resource_grants d)"
      if "subject_type gr = lit ''user'' \<and> subject_id gr = user_id u \<or>
        subject_type gr = lit ''group'' \<and> subject_id gr \<in> set (active_group_ids d u)" for gr
      using that assms(1) mem by (auto simp: same_view_def)
    then show ?thesis unfolding x mem_list_user_resource_grants
      by (auto simp: assms(2,3) groups)
  qed
  with keys assms show ?thesis by (auto simp: authority_def)
qed

lemma same_view_tables:
  assumes "user_permissions d' = user_permissions d" "user_groups d' = user_groups d"
    "groups d' = groups d" "group_permissions d' = group_permissions d" "resource_grants d' = resource_grants d"
  shows "same_view i d d'"
  using assms by (simp add: same_view_def get_group_def)

text \<open>
  What a request may do to the accounts: each one is kept under its identifier, its session
  version does not fall, and it rises where the account or its view of the tables changes.
\<close>

definition guarded_change :: "db \<Rightarrow> db \<Rightarrow> bool" where
  "guarded_change d d' \<longleftrightarrow>
     (\<forall>i u. get_user i d = Some u \<longrightarrow>
        (\<exists>u'. get_user i d' = Some u' \<and>
           (session_version u < session_version u' \<or>
            session_version u = session_version u' \<and> is_active u' = is_active u \<and> role u' = role u \<and>
            password_hash u' = password_hash u \<and> same_view i d d')))"

lemma guarded_change_same:
  assumes "users d' = users d" "\<And>i. same_view i d d'"
  shows "guarded_change d d'"
  using assms by (simp add: guarded_change_def get_user_users [OF assms(1)])

text \<open>What every request keeps.\<close>

definition has_active_admin :: "db \<Rightarrow> bool" where
  "has_active_admin d \<longleftrightarrow> (\<exists>u \<in> set (users d). is_active u \<and> role u = lit ''admin'')"

definition grant_safe :: "resource_grant \<Rightarrow> bool" where
  "grant_safe g \<longleftrightarrow> is_resource_safe_permission (grant_resource_type g) (grant_permission_key g) \<and>
     is_valid_resource_id (grant_resource_id g)"

definition module_gated :: "service_module \<Rightarrow> bool" where
  "module_gated m \<longleftrightarrow>
     validate_module_gate (visibility m) (required_permission m) (resource_type m) (resource_id m) = None"

definition no_authority_change :: "db \<Rightarrow> db \<Rightarrow> bool" where
  "no_authority_change d d' \<longleftrightarrow>
     (\<forall>i u. get_user i d = Some u \<longrightarrow>
        (\<exists>u'. get_user i d' = Some u' \<and> is_active u' = is_active u \<and> role u' = role u \<and> same_view i d d'))"

text \<open>The primary key of the grants, on which the deletion of one relies.\<close>

definition grant_ids_ok :: "db \<Rightarrow> bool" where
  "grant_ids_ok d \<longleftrightarrow> distinct (map grant_id (resource_grants d))"

lemma grant_ids_ok_grants: "resource_grants d' = resource_grants d \<Longrightarrow> grant_ids_ok d' = grant_ids_ok d"
  by (simp add: grant_ids_ok_def)

definition request_ok :: "db \<Rightarrow> db \<Rightarrow> bool" where
  "request_ok d d' \<longleftrightarrow> (grant_ids_ok d \<longrightarrow>
     grant_ids_ok d' \<and> guarded_change d d' \<and>
     (\<exists>evs. audit_events d' = audit_events d @ evs \<and> (evs = [] \<longrightarrow> no_authority_change d d')) \<and>
     (accounts_ok d \<longrightarrow> accounts_ok d') \<and>
     (accounts_ok d \<and> has_active_admin d \<longrightarrow> has_active_admin d') \<and>
     ((\<forall>g \<in> set (resource_grants d). grant_safe g) \<longrightarrow> (\<forall>g \<in> set (resource_grants d'). grant_safe g)) \<and>
     ((\<forall>m \<in> set (service_modules d). module_gated m) \<longrightarrow> (\<forall>m \<in> set (service_modules d'). module_gated m)))"

text \<open>The common case: the accounts and the tables of authority stay as they are.\<close>

definition same_authority_tables :: "db \<Rightarrow> db \<Rightarrow> bool" where
  "same_authority_tables d d' \<longleftrightarrow> users d' = users d \<and> user_permissions d' = user_permissions d \<and>
     user_groups d' = user_groups d \<and> groups d' = groups d \<and> group_permissions d' = group_permissions d \<and>
     resource_grants d' = resource_grants d"

lemma request_ok_same:
  assumes "same_authority_tables d d'" "audit_events d' = audit_events d @ evs"
    and "(\<forall>m \<in> set (service_modules d). module_gated m) \<longrightarrow> (\<forall>m \<in> set (service_modules d'). module_gated m)"
  shows "request_ok d d'"
proof -
  have view: "same_view i d d'" for i
    using assms(1) by (intro same_view_tables) (simp_all add: same_authority_tables_def)
  have u: "users d' = users d" using assms(1) by (simp add: same_authority_tables_def)
  have "no_authority_change d d'"
    using view by (simp add: no_authority_change_def get_user_users [OF u])
  then show ?thesis
    using assms guarded_change_same [OF u view]
    by (simp add: request_ok_def same_authority_tables_def accounts_ok_users [OF u] has_active_admin_def
        grant_ids_ok_def)
qed

lemma request_ok_refl [simp]: "request_ok d d"
  by (rule request_ok_same [of _ _ "[]"]) (simp_all add: same_authority_tables_def)

text \<open>The tables of the session records are none that the properties read.\<close>

definition drop_activity :: "db \<Rightarrow> db" where
  "drop_activity d = d\<lparr>login_events := [], session_activities := []\<rparr>"

lemma drop_activity_simps [simp]:
  "users (drop_activity d) = users d" "groups (drop_activity d) = groups d"
  "user_groups (drop_activity d) = user_groups d" "user_permissions (drop_activity d) = user_permissions d"
  "group_permissions (drop_activity d) = group_permissions d"
  "resource_grants (drop_activity d) = resource_grants d"
  "service_modules (drop_activity d) = service_modules d" "audit_events (drop_activity d) = audit_events d"
  by (simp_all add: drop_activity_def)

lemma request_ok_cong:
  assumes "drop_activity d1 = drop_activity d2" "request_ok d2 d'"
  shows "request_ok d1 d'"
proof -
  have eqs: "users d1 = users d2" "groups d1 = groups d2" "user_groups d1 = user_groups d2"
    "user_permissions d1 = user_permissions d2" "group_permissions d1 = group_permissions d2"
    "resource_grants d1 = resource_grants d2" "service_modules d1 = service_modules d2"
    "audit_events d1 = audit_events d2"
    using arg_cong [OF assms(1), of users] arg_cong [OF assms(1), of groups]
      arg_cong [OF assms(1), of user_groups] arg_cong [OF assms(1), of user_permissions]
      arg_cong [OF assms(1), of group_permissions] arg_cong [OF assms(1), of resource_grants]
      arg_cong [OF assms(1), of service_modules] arg_cong [OF assms(1), of audit_events]
    by simp_all
  have view: "same_view i d1 d' = same_view i d2 d'" for i
    by (simp add: same_view_def eqs get_group_groups [OF eqs(2)])
  have "guarded_change d1 d' = guarded_change d2 d'" "no_authority_change d1 d' = no_authority_change d2 d'"
    by (simp_all add: guarded_change_def no_authority_change_def view get_user_users [OF eqs(1)])
  with assms(2) show ?thesis
    by (simp add: request_ok_def eqs accounts_ok_users [OF eqs(1)] has_active_admin_def
        grant_ids_ok_grants [OF eqs(6)])
qed

subsection \<open>Guards\<close>

lemma record_session_activity_effect:
  "record_session_activity id e d u token payload = Inr d' \<Longrightarrow> drop_activity d' = drop_activity d"
  by (auto simp: record_session_activity_def refresh_activity_def insert_activity_def drop_activity_def
      Let_def result_simps split: option.splits if_splits sum.splits)

lemma current_user_effect:
  assumes "current_user_from_request e req d = Inr (d', u, payload)"
  shows "drop_activity d' = drop_activity d \<and> get_user (user_id u) d = Some u \<and> is_active u \<and>
    obj_get (lit ''ver'') payload = Some (JInt (session_version u))"
  using assms user_table.lookup_key
  by (auto simp: current_user_from_request_def result_simps Let_def
      split: option.splits if_splits json.splits dest!: record_session_activity_effect)

lemma endpoint_cases:
  obtains (failed) err where "endpoint e req perm csrf ok h d = (d, Inl err)"
  | (served) d1 actor payload d' x where "endpoint e req perm csrf ok h d = (d', Inr x)"
      "current_user_from_request e req d = Inr (d1, actor, payload)"
      "drop_activity d1 = drop_activity d" "has_permission d1 actor (lit perm)" "ok"
      "csrf \<Longrightarrow> require_csrf e req payload = Inr ()"
      "h actor d1 = Inr (d', x)"
proof -
  let ?r = "bind_result (current_user_from_request e req d) (\<lambda>(d1, actor, payload).
        bind_result (require_permission d1 actor perm) (\<lambda>_.
        bind_result (if csrf then require_csrf e req payload else Inr ()) (\<lambda>_.
        bind_result (require ok RequestValidationError) (\<lambda>_. h actor d1))))"
  show thesis
  proof (cases ?r)
    case (Inl err)
    then show thesis by (intro failed) (simp add: endpoint_def)
  next
    case (Inr r)
    obtain d' x where r: "r = (d', x)" by (cases r)
    from Inr obtain d1 actor payload where c: "current_user_from_request e req d = Inr (d1, actor, payload)"
      and p: "has_permission d1 actor (lit perm)" "ok" "h actor d1 = Inr (d', x)"
      and cs: "csrf \<Longrightarrow> require_csrf e req payload = Inr ()"
      by (auto simp: result_simps require_permission_def r split: if_splits)
    show thesis
      using served [of d' x d1 actor payload] c p cs current_user_effect [OF c] Inr r
      by (simp add: endpoint_def)
  qed
qed

text \<open>A property of every handler's success is one of its route.\<close>

lemma endpoint_request_ok:
  assumes "\<And>actor d1 d' x. h actor d1 = Inr (d', x) \<Longrightarrow> ok \<Longrightarrow> request_ok d1 d'"
  shows "request_ok d (fst (endpoint e req perm csrf ok h d))"
proof (cases rule: endpoint_cases [of e req perm csrf ok h d])
  case (served d1 actor payload d' x)
  have "request_ok d1 d'" using assms served(5,7) by blast
  then show ?thesis using request_ok_cong [of d d1] served(1,3) by simp
qed simp

end
