(* ===== verification/Route_Invariants.thy ===== *)
theory Route_Invariants
  imports Routes
begin

text \<open>
  Every handler keeps \<open>request_ok\<close>, hence every request does, and with it every sequence of
  requests. The properties about the accounts, the authority and the audit trail rest on
  \<open>request_step_ok\<close>.
\<close>

subsection \<open>One account replaced\<close>

lemma set_change_row: "set (change_row key k f rows) =
    (\<lambda>r. if key r = k then f r else r) ` set rows"
  by (auto simp: change_row_def)

lemma distinct_emails_change:
  assumes "distinct (somes (map email us))" "distinct (map user_id us)" "user_id u' = i"
    and "email u' = None \<or> (\<forall>v \<in> set us. user_id v \<noteq> i \<longrightarrow> email v \<noteq> email u')"
  shows "distinct (somes (map email (change_row user_id i (\<lambda>_. u') us)))"
  using assms
proof (induction us)
  case (Cons v us)
  have rest: "change_row user_id i (\<lambda>_. u') us = us" if "user_id v = i"
  proof -
    have "user_id w \<noteq> i" if "w \<in> set us" for w
      using Cons.prems(2) \<open>user_id v = i\<close> that by (auto simp: image_iff)
    then show ?thesis by (simp add: change_row_def map_idI)
  qed
  have IH: "distinct (somes (map email (change_row user_id i (\<lambda>_. u') us)))"
    using Cons by (cases "email v") auto
  have c: "change_row user_id i (\<lambda>_. u') (v # us) =
      (if user_id v = i then u' else v) # change_row user_id i (\<lambda>_. u') us"
    by (simp add: change_row_def)
  show ?case
  proof (cases "user_id v = i")
    case True
    have "email u' = None \<or> email u' \<notin> email ` set us"
      using Cons.prems(2,4) True by (auto simp: image_iff)
    with True Cons.prems(1) show ?thesis
      by (cases "email u'"; cases "email v") (auto simp: c rest set_somes)
  next
    case False
    have "Some m \<notin> set (map email (change_row user_id i (\<lambda>_. u') us))" if "email v = Some m" for m
      using Cons.prems(1,4) that False by (auto simp: set_change_row set_somes split: if_splits)
    with False IH show ?thesis by (cases "email v") (auto simp: c set_somes)
  qed
qed (simp add: change_row_def)

lemma get_user_change_row:
  assumes "users d' = change_row user_id i (\<lambda>_. u') (users d)" "user_id u' = i"
  shows "get_user j d' = (if j = i then map_option (\<lambda>_. u') (get_user i d) else get_user j d)"
  using assms by (simp add: get_user_def find_row_replace)

lemma accounts_ok_change:
  assumes "accounts_ok d" "get_user i d = Some u"
    and "users d' = change_row user_id i (\<lambda>_. u') (users d)" "user_id u' = i" "username u' = username u"
    and "email u' = None \<or> (\<forall>v \<in> set (users d). user_id v \<noteq> i \<longrightarrow> email v \<noteq> email u')"
  shows "accounts_ok d'"
proof -
  have i: "map user_id (users d') = map user_id (users d)"
    using assms(3,4) by (simp add: change_row_def)
  have "username v = username u" if "v \<in> set (users d)" "user_id v = i" for v
    using assms(1,2) that find_row_distinct [of user_id "users d" v] by (simp add: accounts_ok_def get_user_def)
  then have n: "map username (users d') = map username (users d)"
    using assms(3,5) by (auto simp: change_row_def)
  show ?thesis
    using assms(1,6) distinct_emails_change [of "users d" u' i] i n assms(3,4)
    by (simp add: accounts_ok_def)
qed

lemma request_ok_change:
  assumes u: "get_user i d = Some u"
    and us: "users d' = change_row user_id i (\<lambda>_. u') (users d)" "user_id u' = i" "username u' = username u"
    and em: "accounts_ok d \<Longrightarrow> email u' = None \<or> (\<forall>v \<in> set (users d). user_id v \<noteq> i \<longrightarrow> email v \<noteq> email u')"
    and views: "\<And>j. j \<noteq> i \<Longrightarrow> same_view j d d'"
    and own: "session_version u < session_version u' \<or>
      session_version u = session_version u' \<and> is_active u' = is_active u \<and> role u' = role u \<and>
      password_hash u' = password_hash u \<and> same_view i d d'"
    and trail: "audit_events d' = audit_events d @ evs" "evs = [] \<Longrightarrow> session_version u = session_version u'"
    and adm: "accounts_ok d \<Longrightarrow> is_active u \<Longrightarrow> role u = lit ''admin'' \<Longrightarrow>
      (is_active u' \<and> role u' = lit ''admin'') \<or>
      (\<exists>v \<in> set (users d). user_id v \<noteq> i \<and> is_active v \<and> role v = lit ''admin'')"
    and rest: "resource_grants d' = resource_grants d" "service_modules d' = service_modules d"
  shows "request_ok d d'"
proof -
  note get = get_user_change_row [OF us(1,2)]
  have g: "guarded_change d d'"
    using own views u by (auto simp: guarded_change_def get)
  have n: "no_authority_change d d'" if "evs = []"
    using own views u trail(2) [OF that] by (auto simp: no_authority_change_def get)
  have "has_active_admin d'" if ok: "accounts_ok d" and "has_active_admin d"
  proof -
    from \<open>has_active_admin d\<close> obtain v where v: "v \<in> set (users d)" "is_active v" "role v = lit ''admin''"
      by (auto simp: has_active_admin_def)
    show ?thesis
    proof (cases "user_id v = i")
      case False
      with v us(1) show ?thesis by (force simp: has_active_admin_def set_change_row)
    next
      case True
      then have "v = u"
        using ok v(1) u find_row_distinct [of user_id "users d" v] by (simp add: accounts_ok_def get_user_def)
      with adm ok v consider "is_active u'" "role u' = lit ''admin''"
        | w where "w \<in> set (users d)" "user_id w \<noteq> i" "is_active w" "role w = lit ''admin''"
        by blast
      then show ?thesis
        using v(1) True us(1) by cases (force simp: has_active_admin_def set_change_row)+
    qed
  qed
  then show ?thesis
    using g n accounts_ok_change [OF _ u us em] trail(1) rest
    by (simp add: request_ok_def grant_ids_ok_def)
qed

subsection \<open>Sessions of a set of users invalidated\<close>

lemma request_ok_bump:
  assumes us: "users d' = map (\<lambda>u. if P (user_id u) then bumped u else u) (users d)"
    and views: "\<And>i. \<not> P i \<Longrightarrow> same_view i d d'"
    and trail: "audit_events d' = audit_events d @ [ev]"
    and safe: "(\<forall>g \<in> set (resource_grants d). grant_safe g) \<Longrightarrow> (\<forall>g \<in> set (resource_grants d'). grant_safe g)"
    and keys: "grant_ids_ok d \<Longrightarrow> grant_ids_ok d'"
    and rest: "service_modules d' = service_modules d"
  shows "request_ok d d'"
proof -
  have get: "get_user i d' = map_option (\<lambda>u. if P i then bumped u else u) (get_user i d)" for i
  proof -
    let ?f = "\<lambda>u. if P (user_id u) then bumped u else u"
    have "find_row user_id i (map ?f (users d)) = map_option ?f (find_row user_id i (users d))"
      by (rule find_row_map) simp
    then show ?thesis
      by (cases "find_row user_id i (users d)") (auto simp: get_user_def us dest: find_row_Some)
  qed
  have "guarded_change d d'" using views by (auto simp: guarded_change_def get)
  moreover have "accounts_ok d' = accounts_ok d"
  proof -
    have "map user_id (users d') = map user_id (users d)" "map username (users d') = map username (users d)"
      "map email (users d') = map email (users d)" by (auto simp: us)
    then show ?thesis by (simp add: accounts_ok_def)
  qed
  moreover have "has_active_admin d' = has_active_admin d"
  proof -
    have "has_active_admin x \<longleftrightarrow> (True, lit ''admin'') \<in> set (map (\<lambda>u. (is_active u, role u)) (users x))" for x
      by (force simp: has_active_admin_def)
    moreover have "map (\<lambda>u. (is_active u, role u)) (users d') = map (\<lambda>u. (is_active u, role u)) (users d)"
      by (auto simp: us)
    ultimately show ?thesis by (metis (no_types, lifting))
  qed
  ultimately show ?thesis using trail safe rest keys by (simp add: request_ok_def)
qed

subsection \<open>Handlers that leave the accounts alone\<close>

lemma audit_tables:
  assumes "audit d a = Inr d'" "arg_idempotency_key a = None"
  obtains ev where "d' = d\<lparr>audit_events := audit_events d @ [ev]\<rparr>"
  using audit_effect [OF assms] by blast

lemma create_service_module_ok:
  assumes "create_service_module p req actor d = Inr (d', m)"
  shows "request_ok d d'"
proof -
  from assms obtain m' a where m: "m' = p\<lparr>module_id := next_id (map module_id (service_modules d))\<rparr>"
    and g: "module_gated m'"
    and a: "audit (d\<lparr>service_modules := service_modules d @ [m']\<rparr>) a = Inr d'" "arg_idempotency_key a = None"
    by (auto simp: create_service_module_def module_gated_def result_simps Let_def
        split: if_splits option.splits)
  from a obtain ev where "d' = d\<lparr>service_modules := service_modules d @ [m'], audit_events := audit_events d @ [ev]\<rparr>"
    by (rule audit_tables) simp
  with g show ?thesis
    by (intro request_ok_same [of _ _ "[ev]"]) (simp_all add: same_authority_tables_def)
qed

lemma delete_service_module_ok:
  assumes "delete_service_module mid req actor d = Inr (d', x)"
  shows "request_ok d d'"
proof -
  let ?ms = "filter (\<lambda>x. module_id x \<noteq> mid) (service_modules d)"
  from assms obtain a where a: "audit (d\<lparr>service_modules := ?ms\<rparr>) a = Inr d'" "arg_idempotency_key a = None"
    by (auto simp: delete_service_module_def result_simps Let_def split: option.splits)
  from a obtain ev where "d' = d\<lparr>service_modules := ?ms, audit_events := audit_events d @ [ev]\<rparr>"
    by (rule audit_tables) simp
  then show ?thesis
    by (intro request_ok_same [of _ _ "[ev]"]) (simp_all add: same_authority_tables_def)
qed

lemma apply_module_update_gate:
  assumes "apply_module_update p m = Inr m'" "set_field (visibility m) (mu_visibility p) = Some v"
  shows "visibility m' = v" "required_permission m' = set_nullable (required_permission m) (mu_required_permission p)"
    "resource_type m' = set_nullable (resource_type m) (mu_resource_type p)"
    "resource_id m' = set_nullable (resource_id m) (mu_resource_id p)" "module_id m' = module_id m"
  using assms by (auto simp: apply_module_update_def split: option.splits)

lemma update_service_module_ok:
  assumes "update_service_module mid p req actor d = Inr (d', x)"
  shows "request_ok d d'"
proof -
  from assms obtain m v where m: "get_module mid d = Some m"
    and v: "set_field (visibility m) (mu_visibility p) = Some v"
    and g: "validate_module_gate v (set_nullable (required_permission m) (mu_required_permission p))
                 (set_nullable (resource_type m) (mu_resource_type p))
                 (set_nullable (resource_id m) (mu_resource_id p)) = None"
    by (auto simp: update_service_module_def split: option.splits)
  with assms obtain m' a where m': "apply_module_update p m = Inr m'"
    and a: "audit (change_module mid (\<lambda>_. m') d) a = Inr d'" "arg_idempotency_key a = None"
    by (auto simp: update_service_module_def result_simps Let_def)
  have gated: "module_gated m'"
    using g apply_module_update_gate [OF m' v] by (simp add: module_gated_def)
  from a obtain ev where d': "d' = (change_module mid (\<lambda>_. m') d)\<lparr>audit_events := audit_events d @ [ev]\<rparr>"
    by (rule audit_tables) (simp add: change_module_def)
  show ?thesis using gated
    by (intro request_ok_same [of _ _ "[ev]"])
       (auto simp: d' same_authority_tables_def change_module_def set_change_row)
qed

lemma purge_connected_sessions_ok:
  assumes "purge_connected_sessions e req actor d = Inr (d', x)"
  shows "request_ok d d'"
proof -
  from assms obtain ls ss a where
    a: "audit (d\<lparr>login_events := ls, session_activities := ss\<rparr>) a = Inr d'" "arg_idempotency_key a = None"
    by (auto simp: purge_connected_sessions_def result_simps Let_def)
  from a obtain ev where "d' = d\<lparr>login_events := ls, session_activities := ss, audit_events := audit_events d @ [ev]\<rparr>"
    by (rule audit_tables) simp
  then show ?thesis
    by (intro request_ok_same [of _ _ "[ev]"]) (simp_all add: same_authority_tables_def)
qed

lemma logout_route_ok: "request_ok d (fst (logout_route e req d))"
proof -
  have "drop_activity d1 = drop_activity d" if "get_optional_user e req d = Inr (d1, current)" for d1 current
    using that by (auto simp: get_optional_user_def split: sum.splits error.splits if_splits
        dest!: current_user_effect)
  moreover have "drop_activity d' = drop_activity d1" if "logout_handler e req current d1 = Inr (d', x)" for current d1 d' x
    using that by (auto simp: logout_handler_def drop_activity_def add_login_event_def result_simps Let_def
        split: option.splits if_splits)
  ultimately have "drop_activity (fst (logout_route e req d)) = drop_activity d"
    by (auto simp: logout_route_def session_scope_def result_simps split: sum.splits prod.splits)
  from request_ok_cong [OF this [symmetric] request_ok_refl] show ?thesis .
qed

subsection \<open>Handlers that replace or add an account\<close>

lemma set_user_password_keeps:
  assumes "set_user_password e u pw req_change field prev invd = Inr u'"
  shows "user_id u' = user_id u" "username u' = username u" "email u' = email u" "role u' = role u"
    "is_active u' = is_active u" "session_version u' = session_version u + (if invd then 1 else 0)"
proof -
  from assms obtain h where "u' = (if req_change then require_password_change invd (u\<lparr>password_hash := h\<rparr>)
       else u\<lparr>password_hash := h, password_changed_at := Some (utc (now e)),
         session_version := session_version u + (if invd then 1 else 0)\<rparr>)" by (rule set_user_password_Inr)
  then show "user_id u' = user_id u" "username u' = username u" "email u' = email u" "role u' = role u"
    "is_active u' = is_active u" "session_version u' = session_version u + (if invd then 1 else 0)"
    by (simp_all add: require_password_change_def Let_def split: if_splits)
qed

lemma create_user_ok:
  assumes "create_user e p req actor d = Inr (d', x)"
  shows "request_ok d d'"
proof -
  from assms obtain u1 u' d1 a where
    i: "insert_user u1 d = Inr (d1, u')"
    and a: "audit d1 a = Inr d'" "arg_idempotency_key a = None"
    by (auto simp: create_user_def result_simps Let_def split: if_split_asm)
  then have d1: "d1 = d\<lparr>users := users d @ [u']\<rparr>" and new: "user_id u' \<notin> user_id ` set (users d)"
    "username u' \<notin> username ` set (users d)" "email u' = None \<or> email u' \<notin> email ` set (users d)"
    using next_id_fresh [of "map user_id (users d)"]
    by (auto simp: insert_user_def Let_def split: if_splits)
  from a obtain ev where d': "d' = d\<lparr>users := users d @ [u'], audit_events := audit_events d @ [ev]\<rparr>"
    by (rule audit_tables) (simp add: d1)
  have get: "get_user j d' = Some v" if "get_user j d = Some v" for j v
    using that by (simp add: get_user_def d' find_row_append)
  have view: "same_view j d d'" for j by (simp add: same_view_tables d')
  have "guarded_change d d'" using get view by (auto simp: guarded_change_def)
  moreover have "accounts_ok d'" if "accounts_ok d"
    using that new by (cases "email u'") (auto simp: accounts_ok_def d' set_somes)
  moreover have "has_active_admin d'" if "has_active_admin d" using that by (auto simp: has_active_admin_def d')
  ultimately show ?thesis by (simp add: request_ok_def d' grant_ids_ok_def)
qed

lemma same_view_permissions:
  assumes "user_permissions d' = filter (\<lambda>p. fst p \<noteq> i) (user_permissions d) @ map (Pair i) ks"
    "user_groups d' = user_groups d" "groups d' = groups d" "group_permissions d' = group_permissions d"
    "resource_grants d' = resource_grants d" "j \<noteq> i"
  shows "same_view j d d'"
  using assms by (auto simp: same_view_def get_group_def)

lemma replace_user_permissions_effect:
  assumes "replace_user_permissions uid perms d = Inr d1"
  shows "d1 = d\<lparr>user_permissions := user_permissions d1\<rparr> \<and> (user_permissions d1 = user_permissions d \<or>
    (\<exists>ks. user_permissions d1 = filter (\<lambda>p. fst p \<noteq> uid) (user_permissions d) @ map (Pair uid) ks))"
  using assms
  by (cases perms) (auto simp: replace_user_permissions_def Let_def result_simps)

lemma flush_user_effect:
  assumes "flush_user u' d = Inr d'"
  shows "d' = change_user (user_id u') (\<lambda>_. u') d"
    "email u' = None \<or> (\<forall>v \<in> set (users d). user_id v \<noteq> user_id u' \<longrightarrow> email v \<noteq> email u')"
  using assms by (auto simp: flush_user_def split: if_splits)

lemma change_user_users: "users (change_user i f d) = change_row user_id i f (users d)"
  by (simp add: change_user_def)

lemma update_user_ok:
  assumes "update_user e uid p req actor d = Inr (d', x)"
  shows "request_ok d d'"
proof -
  from assms obtain u where u: "get_user uid d = Some u"
    by (auto simp: update_user_def split: option.splits)
  then have uid: "user_id u = uid" by (rule user_table.lookup_key)
  define u' where "u' = updated_user p u"
  have u': "user_id u' = uid" "username u' = username u" "role u' = requested_role p u"
      "is_active u' = requested_active p u" "session_version u' = session_version u + 1"
    by (simp_all add: u'_def uid)
  from assms u uid obtain d1 d2 a where
    adm: "is_active u \<Longrightarrow> role u = lit ''admin'' \<Longrightarrow> \<not> requested_active p u \<or> requested_role p u \<noteq> lit ''admin'' \<Longrightarrow>
      has_other_active_admin d u"
    and d1: "replace_user_permissions uid (upd_permissions p) d = Inr d1"
    and d2: "flush_user u' d1 = Inr d2"
    and a: "audit d2 a = Inr d'" "arg_idempotency_key a = None"
    by (auto simp: update_user_def Let_def result_simps u'_def [symmetric] split: if_split_asm)
  obtain ps where ps: "d1 = d\<lparr>user_permissions := ps\<rparr>"
    "ps = user_permissions d \<or> (\<exists>ks. ps = filter (\<lambda>p. fst p \<noteq> uid) (user_permissions d) @ map (Pair uid) ks)"
    using replace_user_permissions_effect [OF d1] by blast
  note d2' = flush_user_effect [OF d2]
  from a obtain ev where "d' = d2\<lparr>audit_events := audit_events d2 @ [ev]\<rparr>" by (rule audit_tables)
  then have d': "d' = (change_user uid (\<lambda>_. u') d)\<lparr>user_permissions := ps, audit_events := audit_events d @ [ev]\<rparr>"
    by (simp add: d2'(1) u'(1) ps(1) change_user_def)
  show ?thesis
  proof (rule request_ok_change [OF u, where u' = u' and evs = "[ev]"])
    show "email u' = None \<or> (\<forall>v \<in> set (users d). user_id v \<noteq> uid \<longrightarrow> email v \<noteq> email u')"
      using d2'(2) by (simp add: u'(1) ps(1))
    show "same_view j d d'" if "j \<noteq> uid" for j
      using ps(2)
    proof
      assume "ps = user_permissions d"
      then show ?thesis by (intro same_view_tables) (simp_all add: d')
    next
      assume "\<exists>ks. ps = filter (\<lambda>p. fst p \<noteq> uid) (user_permissions d) @ map (Pair uid) ks"
      then obtain ks where "ps = filter (\<lambda>p. fst p \<noteq> uid) (user_permissions d) @ map (Pair uid) ks" by blast
      then show ?thesis using that by (intro same_view_permissions) (simp_all add: d')
    qed
    show "is_active u' \<and> role u' = lit ''admin'' \<or>
        (\<exists>v \<in> set (users d). user_id v \<noteq> uid \<and> is_active v \<and> role v = lit ''admin'')"
      if "is_active u" "role u = lit ''admin''"
      using adm that u' uid by (auto simp: has_other_active_admin_def)
  qed (simp_all add: d' u' change_user_users)
qed

lemma reset_user_password_ok:
  assumes "reset_user_password e uid pw req actor d = Inr (d', x)"
  shows "request_ok d d'"
proof -
  from assms obtain u u' d1 a where u: "get_user uid d = Some u"
    and u': "set_user_password e u pw True ''temporary_password'' None True = Inr u'"
    and d1: "flush_user u' d = Inr d1"
    and a: "audit d1 a = Inr d'" "arg_idempotency_key a = None"
    by (auto simp: reset_user_password_def result_simps split: option.splits sum.splits)
  have uid: "user_id u = uid" using u by (rule user_table.lookup_key)
  note keeps = set_user_password_keeps [OF u']
  note d1' = flush_user_effect [OF d1]
  from a obtain ev where "d' = d1\<lparr>audit_events := audit_events d1 @ [ev]\<rparr>" by (rule audit_tables)
  then have d': "d' = (change_user uid (\<lambda>_. u') d)\<lparr>audit_events := audit_events d @ [ev]\<rparr>"
    by (simp add: d1'(1) keeps uid change_user_def)
  show ?thesis
    by (rule request_ok_change [OF u, where u' = u' and evs = "[ev]"])
       (use d1'(2) in \<open>auto simp: d' keeps uid change_user_users intro: same_view_tables\<close>)
qed

lemma distinct_somes_unique:
  "distinct (somes (map f us)) \<Longrightarrow> v \<in> set us \<Longrightarrow> w \<in> set us \<Longrightarrow> f v = Some m \<Longrightarrow> f w = Some m \<Longrightarrow> v = w"
proof (induction us)
  case (Cons z us)
  then show ?case by (cases "f z") (auto simp: set_somes image_iff)
qed simp

lemma email_unique:
  assumes "accounts_ok d" "get_user i d = Some u"
  shows "email u = None \<or> (\<forall>v \<in> set (users d). user_id v \<noteq> i \<longrightarrow> email v \<noteq> email u)"
proof (cases "email u")
  case (Some m)
  have u: "u \<in> set (users d)" "user_id u = i"
    using assms(2) find_row_Some [of user_id i "users d" u] by (simp_all add: get_user_def)
  have "email v \<noteq> email u" if "v \<in> set (users d)" "user_id v \<noteq> i" for v
    using distinct_somes_unique [of email "users d" v u m] assms(1) that u Some
    by (auto simp: accounts_ok_def)
  then show ?thesis by blast
qed simp

text \<open>A change of columns that no property reads.\<close>

lemma request_ok_touch:
  assumes us: "users d' = map f (users d)"
    and f: "\<And>u. user_id (f u) = user_id u \<and> username (f u) = username u \<and> email (f u) = email u \<and>
      role (f u) = role u \<and> is_active (f u) = is_active u \<and> session_version (f u) = session_version u \<and>
      password_hash (f u) = password_hash u"
    and rest: "user_permissions d' = user_permissions d" "user_groups d' = user_groups d" "groups d' = groups d"
      "group_permissions d' = group_permissions d" "resource_grants d' = resource_grants d"
      "service_modules d' = service_modules d" "audit_events d' = audit_events d"
  shows "request_ok d d'"
proof -
  have get: "get_user i d' = map_option f (get_user i d)" for i
    using f by (simp add: get_user_def us find_row_map)
  have view: "same_view i d d'" for i using rest by (intro same_view_tables)
  have "map user_id (users d') = map user_id (users d)" "map username (users d') = map username (users d)"
    "map email (users d') = map email (users d)" using f by (simp_all add: us)
  then have "accounts_ok d' = accounts_ok d" by (simp add: accounts_ok_def)
  moreover have "has_active_admin d' = has_active_admin d" using f by (auto simp: has_active_admin_def us)
  moreover have "guarded_change d d'" "no_authority_change d d'"
    using f view by (auto simp: guarded_change_def no_authority_change_def get)
  ultimately show ?thesis using rest by (simp add: request_ok_def grant_ids_ok_def)
qed

lemma login_route_ok: "request_ok d (fst (login_route e name pw req d))"
proof -
  have event: "request_ok d (add_login_event e i n ip ag st d)" for i n ip ag st
    by (intro request_ok_same [of _ _ "[]"]) (simp_all add: same_authority_tables_def add_login_event_def)
  have "request_ok d (add_login_event e i n ip ag st
      (change_user j (\<lambda>v. v\<lparr>last_login_at := Some (utc (now e))\<rparr>) d))" for i n ip ag st j
    by (rule request_ok_touch [where f = "\<lambda>u. if user_id u = j then u\<lparr>last_login_at := Some (utc (now e))\<rparr> else u"])
       (simp_all add: add_login_event_def change_user_users change_row_def)
  with event show ?thesis
    by (simp add: login_route_def auth_login_def Let_def split: option.split)
qed

lemma change_password_handler_ok:
  assumes "change_password_handler e cur new req u d = Inr (d', x)" "get_user (user_id u) d = Some u"
  shows "request_ok d d'"
proof -
  from assms(1) obtain u' a where
    u': "set_user_password e u new False ''New password'' (Some cur) True = Inr u'"
    and a: "audit (change_user (user_id u) (\<lambda>_. u') d) a = Inr d'" "arg_idempotency_key a = None"
    by (auto simp: change_password_handler_def result_simps Let_def split: if_split_asm)
  note keeps = set_user_password_keeps [OF u']
  from a obtain ev where d': "d' = (change_user (user_id u) (\<lambda>_. u') d)\<lparr>audit_events := audit_events d @ [ev]\<rparr>"
    by (rule audit_tables) (simp add: change_user_def)
  show ?thesis
  proof (rule request_ok_change [OF assms(2), where u' = u' and evs = "[ev]"])
    show "email u' = None \<or> (\<forall>v \<in> set (users d). user_id v \<noteq> user_id u \<longrightarrow> email v \<noteq> email u')" if "accounts_ok d"
      using email_unique [OF that assms(2)] keeps by simp
  qed (auto simp: d' keeps change_user_users intro: same_view_tables)
qed

lemma change_password_route_ok: "request_ok d (fst (change_password_route e cur new req d))"
proof -
  have "request_ok d d'" if "bind_result (current_user_from_request e req d) (\<lambda>(d1, u, payload).
        bind_result (require_csrf e req payload) (\<lambda>_.
          change_password_handler e cur new req u d1)) = Inr (d', x)" for d' x
  proof -
    from that obtain d1 u payload where c: "current_user_from_request e req d = Inr (d1, u, payload)"
      and h: "change_password_handler e cur new req u d1 = Inr (d', x)"
      by (auto simp: result_simps)
    from current_user_effect [OF c] have d1: "drop_activity d1 = drop_activity d"
      and u: "get_user (user_id u) d = Some u" by auto
    have "users d1 = users d" using arg_cong [OF d1, of users] by simp
    from u have "get_user (user_id u) d1 = Some u"
      using get_user_users [OF \<open>users d1 = users d\<close>] by simp
    from change_password_handler_ok [OF h this] show ?thesis
      using request_ok_cong [of d d1] d1 by simp
  qed
  then show ?thesis
    by (auto simp: change_password_route_def session_scope_def split: sum.splits prod.splits)
qed

subsection \<open>Handlers that change the tables of authority\<close>

lemma bumped_users: "users (fst (bump_authorization_session_versions d ids)) =
    map (\<lambda>u. if (\<lambda>i. Some i \<in> set ids) (user_id u) then bumped u else u) (users d)"
  by (simp add: bump_users)

lemma get_group_bump [simp]: "get_group g (fst (bump_authorization_session_versions d ids)) = get_group g d"
  by (simp add: get_group_def)

lemma upsert_group_ok:
  assumes "upsert_group p req actor d = Inr (d', x)"
  shows "request_ok d d'"
proof -
  define old where "old = find_row group_key (ups_key p) (groups d)"
  define gid where "gid = (case old of None \<Rightarrow> next_id (map group_id (groups d)) | Some g \<Rightarrow> group_id g)"
  define g' where "g' = \<lparr>group_id = gid, group_key = ups_key p, group_name = ups_name p,
            group_description = ups_description p, group_is_active = ups_is_active p\<rparr>"
  define d1 where "d1 = (case old of None \<Rightarrow> d\<lparr>groups := groups d @ [g']\<rparr> | Some g \<Rightarrow> change_group gid (\<lambda>_. g') d)"
  define ps where "ps = filter (\<lambda>q. fst q \<noteq> gid) (group_permissions d1) @ map (Pair gid) (sort (remdups (ups_permissions p)))"
  define d3 where "d3 = fst (bump_group_members (d1\<lparr>group_permissions := ps\<rparr>) gid)"
  from assms obtain a where a: "audit d3 a = Inr d'" "arg_idempotency_key a = None"
    unfolding upsert_group_def old_def [symmetric] Let_def gid_def [symmetric] g'_def [symmetric] d1_def [symmetric]
      ps_def [symmetric] d3_def [symmetric]
    by (auto simp: result_simps)
  from a obtain ev where d': "d' = d3\<lparr>audit_events := audit_events d3 @ [ev]\<rparr>" by (rule audit_tables)
  have d1: "users d1 = users d" "user_groups d1 = user_groups d" "user_permissions d1 = user_permissions d"
    "group_permissions d1 = group_permissions d" "resource_grants d1 = resource_grants d"
    "service_modules d1 = service_modules d" "audit_events d1 = audit_events d"
    by (simp_all add: d1_def change_group_def split: option.split)
  have other: "get_group g d1 = get_group g d" if "g \<noteq> gid" for g
    using that by (simp add: d1_def get_group_def change_group_def g'_def find_row_append find_row_replace
        split: option.split)
  have ids: "Some i \<in> set (map Some (users_in_group (d1\<lparr>group_permissions := ps\<rparr>) gid)) \<longleftrightarrow>
      (i, gid) \<in> set (user_groups d)" for i
    using mem_users_in_group [of i "d1\<lparr>group_permissions := ps\<rparr>" gid] by (auto simp: d1)
  show ?thesis
  proof (rule request_ok_bump [where P = "\<lambda>i. (i, gid) \<in> set (user_groups d)" and ev = ev])
    show "users d' = map (\<lambda>u. if (user_id u, gid) \<in> set (user_groups d) then bumped u else u) (users d)"
      by (simp only: d' d3_def bump_group_members_def bumped_users ids) (simp add: d1 bumped_users ids del: set_map)
    show "same_view i d d'" if i: "(i, gid) \<notin> set (user_groups d)" for i
    proof -
      have "get_group g d' = get_group g d" if "(i, g) \<in> set (user_groups d)" for g
      proof -
        have "g \<noteq> gid" using i that by auto
        with other show ?thesis by (simp add: d' d3_def bump_group_members_def get_group_def)
      qed
      moreover have "user_permissions d' = user_permissions d" "user_groups d' = user_groups d"
        "resource_grants d' = resource_grants d" "group_permissions d' = ps"
        by (simp_all add: d' d3_def bump_group_members_def d1)
      ultimately show ?thesis using i by (auto simp: same_view_def ps_def d1)
    qed
  qed (simp_all add: d' d3_def bump_group_members_def d1 grant_ids_ok_def)
qed

lemma add_user_group_ok:
  assumes "add_user_group uid gid req actor d = Inr (d', x)"
  shows "request_ok d d'"
proof (cases "(uid, gid) \<in> set (user_groups d)")
  case True
  with assms have "d' = d" by (auto simp: add_user_group_def split: option.splits)
  then show ?thesis by simp
next
  case False
  let ?b = "fst (bump_authorization_session_versions d [Some uid])"
  from assms False obtain a where
    "audit (?b\<lparr>user_groups := user_groups d @ [(uid, gid)]\<rparr>) a = Inr d'" "arg_idempotency_key a = None"
    by (auto simp: add_user_group_def result_simps Let_def split: option.splits)
  then obtain ev where d': "d' = ?b\<lparr>user_groups := user_groups d @ [(uid, gid)], audit_events := audit_events d @ [ev]\<rparr>"
    by (rule audit_tables) simp
  show ?thesis
    by (rule request_ok_bump [where P = "\<lambda>i. i = uid" and ev = ev])
       (auto simp: d' bump_users same_view_def get_group_def grant_ids_ok_def)
qed

lemma remove_user_group_ok:
  assumes "remove_user_group uid gid req actor d = Inr (d', x)"
  shows "request_ok d d'"
proof (cases "(uid, gid) \<in> set (user_groups d)")
  case False
  with assms have "d' = d" by (auto simp: remove_user_group_def split: option.splits)
  then show ?thesis by simp
next
  case True
  let ?gs = "filter (\<lambda>ug. ug \<noteq> (uid, gid)) (user_groups d)"
  let ?b = "fst (bump_authorization_session_versions (d\<lparr>user_groups := ?gs\<rparr>) [Some uid])"
  from assms True obtain a where "audit ?b a = Inr d'" "arg_idempotency_key a = None"
    by (auto simp: remove_user_group_def result_simps Let_def split: option.splits)
  then obtain ev where d': "d' = ?b\<lparr>audit_events := audit_events d @ [ev]\<rparr>"
    by (rule audit_tables) simp
  show ?thesis
    by (rule request_ok_bump [where P = "\<lambda>i. i = uid" and ev = ev])
       (auto simp: d' bump_users same_view_def get_group_def grant_ids_ok_def)
qed

text \<open>The users a grant affects see every grant of theirs; the others see none of it.\<close>

lemma mem_affected: "i \<in> set (users_affected_by_resource_grant d st sid) \<longleftrightarrow>
    st = lit ''user'' \<and> sid = i \<or> st = lit ''group'' \<and> (i, sid) \<in> set (user_groups d)"
  by (auto simp: users_affected_by_resource_grant_def mem_users_in_group)

lemma create_resource_grant_ok:
  assumes "create_resource_grant p req actor d = Inr (d', x)"
  shows "request_ok d d'"
proof -
  define g where "g = \<lparr>grant_id = next_id (map grant_id (resource_grants d)), subject_type = gc_subject_type p,
               subject_id = gc_subject_id p, grant_resource_type = gc_resource_type p,
               grant_resource_id = gc_resource_id p, grant_permission_key = gc_permission_key p\<rparr>"
  define d1 where "d1 = d\<lparr>resource_grants := resource_grants d @ [g]\<rparr>"
  define ids where "ids = map Some (users_affected_by_resource_grant d1 (subject_type g) (subject_id g))"
  from assms obtain a where p: "resource_policy_error p = None"
    and a: "audit (fst (bump_authorization_session_versions d1 ids)) a = Inr d'" "arg_idempotency_key a = None"
    by (auto simp: create_resource_grant_def Let_def result_simps g_def d1_def ids_def
        split: option.splits if_splits)
  from a obtain ev where d': "d' = (fst (bump_authorization_session_versions d1 ids))\<lparr>audit_events := audit_events d @ [ev]\<rparr>"
    by (rule audit_tables) (simp add: d1_def)
  have safe: "grant_safe g"
    using p by (auto simp: resource_policy_error_def grant_safe_def g_def split: if_splits)
  have ids: "Some i \<in> set ids \<longleftrightarrow>
      subject_type g = lit ''user'' \<and> subject_id g = i \<or> subject_type g = lit ''group'' \<and> (i, subject_id g) \<in> set (user_groups d)" for i
    using mem_affected [of i d1 "subject_type g" "subject_id g"] by (auto simp: ids_def d1_def)
  show ?thesis
  proof (rule request_ok_bump [where P = "\<lambda>i. Some i \<in> set ids" and ev = ev])
    show "same_view i d d'" if "Some i \<notin> set ids" for i
      using that unfolding ids by (auto simp: d' d1_def same_view_def get_group_def)
  qed (use safe next_id_fresh [of "map grant_id (resource_grants d)"] in
    \<open>auto simp: d' d1_def bump_users grant_ids_ok_def g_def\<close>)
qed

lemma delete_resource_grant_ok:
  assumes "delete_resource_grant gid req actor d = Inr (d', x)"
  shows "request_ok d d'"
proof (cases "grant_ids_ok d")
  case False
  then show ?thesis by (simp add: request_ok_def)
next
  case True
  from assms obtain g where g: "get_grant gid d = Some g"
    by (auto simp: delete_resource_grant_def split: option.splits)
  define d1 where "d1 = d\<lparr>resource_grants := filter (\<lambda>x. grant_id x \<noteq> gid) (resource_grants d)\<rparr>"
  define ids where "ids = map Some (users_affected_by_resource_grant d (subject_type g) (subject_id g))"
  from assms g obtain a where
    a: "audit (fst (bump_authorization_session_versions d1 ids)) a = Inr d'" "arg_idempotency_key a = None"
    by (auto simp: delete_resource_grant_def Let_def result_simps d1_def ids_def)
  from a obtain ev where d': "d' = (fst (bump_authorization_session_versions d1 ids))\<lparr>audit_events := audit_events d @ [ev]\<rparr>"
    by (rule audit_tables) (simp add: d1_def)
  have ids: "Some i \<in> set ids \<longleftrightarrow>
      subject_type g = lit ''user'' \<and> subject_id g = i \<or> subject_type g = lit ''group'' \<and> (i, subject_id g) \<in> set (user_groups d)" for i
    using mem_affected [of i d "subject_type g" "subject_id g"] by (auto simp: ids_def)
  have only: "h = g" if "h \<in> set (resource_grants d)" "grant_id h = gid" for h
    using find_row_distinct [of grant_id "resource_grants d" h] that True g
    by (simp add: get_grant_def grant_ids_ok_def)
  show ?thesis
  proof (rule request_ok_bump [where P = "\<lambda>i. Some i \<in> set ids" and ev = ev])
    show "same_view i d d'" if "Some i \<notin> set ids" for i
      using that only unfolding ids by (auto simp: d' d1_def same_view_def get_group_def)
  qed (auto simp: d' d1_def bump_users grant_ids_ok_def distinct_map_filter)
qed

subsection \<open>Every request\<close>

lemma request_step_ok: "request_step d d' \<Longrightarrow> request_ok d d'"
proof (induction rule: request_step.induct)
  case (1 d e req p)
  show ?case unfolding post_user_def by (rule endpoint_request_ok) (rule create_user_ok)
next
  case (2 d e req uid up)
  show ?case unfolding patch_user_def by (rule endpoint_request_ok) (rule update_user_ok)
next
  case (3 d e req uid pw)
  show ?case unfolding post_password_reset_def by (rule endpoint_request_ok) (rule reset_user_password_ok)
next
  case (4 d e req gp)
  show ?case unfolding post_group_def by (rule endpoint_request_ok) (rule upsert_group_ok)
next
  case (5 d e req uid gid)
  show ?case unfolding post_user_group_def by (rule endpoint_request_ok) (rule add_user_group_ok)
next
  case (6 d e req uid gid)
  show ?case unfolding delete_user_group_def by (rule endpoint_request_ok) (rule remove_user_group_ok)
next
  case (7 d e req gc)
  show ?case unfolding post_resource_grant_def by (rule endpoint_request_ok) (rule create_resource_grant_ok)
next
  case (8 d e req gid)
  show ?case unfolding delete_grant_def by (rule endpoint_request_ok) (rule delete_resource_grant_ok)
next
  case (9 d e req m)
  show ?case unfolding post_service_module_def by (rule endpoint_request_ok) (rule create_service_module_ok)
next
  case (10 d e req mid)
  show ?case unfolding delete_module_def by (rule endpoint_request_ok) (rule delete_service_module_ok)
next
  case (11 d e req mid mu)
  show ?case unfolding patch_service_module_def by (rule endpoint_request_ok) (rule update_service_module_ok)
next
  case (12 d e req)
  show ?case unfolding post_sessions_purge_def by (rule endpoint_request_ok) (rule purge_connected_sessions_ok)
qed (rule login_route_ok logout_route_ok change_password_route_ok)+

text \<open>Databases a running service reaches.\<close>

abbreviation reaches :: "db \<Rightarrow> db \<Rightarrow> bool" where
  "reaches \<equiv> request_step\<^sup>*\<^sup>*"

lemma reaches_ids: "reaches d d' \<Longrightarrow> grant_ids_ok d \<Longrightarrow> grant_ids_ok d'"
  by (induction rule: rtranclp_induct) (auto dest!: request_step_ok simp: request_ok_def)

lemma reaches_account:
  "reaches d d' \<Longrightarrow> grant_ids_ok d \<Longrightarrow> get_user i d = Some u \<Longrightarrow>
     \<exists>u'. get_user i d' = Some u' \<and> (session_version u < session_version u' \<or>
       session_version u' = session_version u \<and> authority d' u' = authority d u \<and>
       password_hash u' = password_hash u)"
proof (induction rule: rtranclp_induct)
  case (step d' d'')
  then obtain u' where u': "get_user i d' = Some u'" and
    le: "session_version u < session_version u' \<or>
       session_version u' = session_version u \<and> authority d' u' = authority d u \<and>
       password_hash u' = password_hash u" by blast
  have ids: "user_id u' = i" using u' by (rule user_table.lookup_key)
  have "grant_ids_ok d'" using step.hyps(1) step.prems(1) by (rule reaches_ids)
  with step.hyps(2) have "guarded_change d' d''" by (auto dest!: request_step_ok simp: request_ok_def)
  with u' obtain u'' where u'': "get_user i d'' = Some u''" and
    ch: "session_version u' < session_version u'' \<or>
            session_version u' = session_version u'' \<and> is_active u'' = is_active u' \<and> role u'' = role u' \<and>
            password_hash u'' = password_hash u' \<and> same_view i d' d''"
    by (auto simp: guarded_change_def)
  have "user_id u'' = i" using u'' by (rule user_table.lookup_key)
  then have "authority d'' u'' = authority d' u'"
    if "is_active u'' = is_active u'" "role u'' = role u'" "same_view i d' d''"
    using authority_same_view [of u' d' d'' u''] that ids by simp
  with u'' ch le show ?case by auto
qed auto

end
