(* ===== verification/Access_Properties.thy ===== *)
theory Access_Properties
  imports Route_Invariants
begin

text \<open>
  The properties of accounts and access that hold of a running service: they follow from
  \<open>request_step_ok\<close> by induction on the sequence of requests. The witnesses use one small
  database and an environment in which hashes and tokens are tables.
\<close>

subsection \<open>A concrete service\<close>

definition demo_env :: env where
  "demo_env = \<lparr>identify_scheme = (\<lambda>h. Some []), verify_hash = (\<lambda>p h. Some (p = h)),
     make_hash = (\<lambda>p. if length p \<le> 4096 then Inr p else Inl (msg ''password exceeds maximum allowed size'')),
     sha256_hex = (\<lambda>b. lit ''h''), jwt_encode = (\<lambda>p k. lit ''T''),
     jwt_decode = (\<lambda>t k. if t = lit ''T'' then Some (JObj [(lit ''sub'', JStr (lit ''1'')),
       (lit ''csrf'', JStr (lit ''C'')), (lit ''ver'', JInt 0)]) else None),
     random_token = lit ''C'', float_micros = (\<lambda>t. 0), now = 1700000000000000,
     jwt_secret_key = lit ''K'', access_token_ttl_minutes = 60, admin_session_cookie_name = lit ''s'',
     csrf_cookie_name = lit ''c'', secure_cookies = True, session_activity_debounce_seconds = 60,
     connected_user_retention_days = 30\<rparr>"

definition demo_admin :: user where
  "demo_admin = \<lparr>user_id = 1, username = lit ''root'', email = None, display_name = None,
     password_hash = lit ''longenough'', role = lit ''admin'', is_active = True, session_version = 0,
     password_changed_at = None, last_login_at = None\<rparr>"

definition demo_db :: db where
  "demo_db = empty_db\<lparr>users := [demo_admin]\<rparr>"

definition demo_request :: request where
  "demo_request = \<lparr>req_method = lit ''POST'', req_path = lit ''/'', req_client_host = None,
     req_headers = [(lit ''x-csrf-token'', lit ''C'')],
     req_cookies = [(lit ''s'', lit ''T''), (lit ''c'', lit ''C'')]\<rparr>"

text \<open>The database after a failed login of somebody unknown.\<close>

definition demo_after :: db where
  "demo_after = fst (login_route demo_env (lit ''x'') (lit ''y'') demo_request demo_db)"

lemma demo_reaches: "reaches demo_db demo_after"
  unfolding demo_after_def by (rule r_into_rtranclp) (rule request_step.intros)

lemma demo_after_eq: "demo_after = demo_db\<lparr>login_events := login_events demo_after\<rparr>"
  by (simp add: demo_after_def demo_db_def empty_db_def login_route_def auth_login_def get_by_username_def
      add_login_event_def demo_admin_def)

lemma demo_user [simp]: "get_user 1 demo_db = Some demo_admin" "get_user 1 demo_after = Some demo_admin"
  by (simp_all add: demo_after_eq [THEN arg_cong [of _ _ users], simplified] get_user_def)
     (simp_all add: demo_db_def empty_db_def demo_admin_def)

lemma demo_admin_simps [simp]: "user_id demo_admin = 1" "is_active demo_admin" "session_version demo_admin = 0"
  "role demo_admin = lit ''admin''" "password_hash demo_admin = lit ''longenough''"
  "\<not> requires_password_change demo_admin"
  by (simp_all add: demo_admin_def requires_password_change_def)

lemma demo_ids [simp]: "grant_ids_ok demo_db" "accounts_ok demo_db" "has_active_admin demo_db"
  by (simp_all add: grant_ids_ok_def accounts_ok_def has_active_admin_def demo_db_def empty_db_def demo_admin_def)

subsection \<open>Authority and sessions\<close>

lemma current_user_payload:
  assumes "current_user_from_request e req d = Inr (d', u, payload)"
  shows "\<exists>token. map_of (req_cookies req) (admin_session_cookie_name e) = Some token \<and>
    decode_access_token e token = Some payload \<and> subject_of payload = Some (user_id u) \<and>
    get_user (user_id u) d = Some u"
  using assms user_table.lookup_key
  by (auto simp: current_user_from_request_def result_simps Let_def
      split: option.splits if_splits json.splits)

text \<open>
  C1 [session_keeps_authority]: no session outlives the authority it was issued under. A request that the service
  accepts, with a token that names account \<open>i\<close> and the session version the account had in
  some earlier database, finds the account active, with the role, the permission keys, the
  resource grants and the password hash of that earlier database, whatever requests were
  served in between.
\<close>

theorem session_keeps_authority:
  assumes "reaches d d'" "grant_ids_ok d" "get_user i d = Some u"
    and "subject_of payload = Some i" "obj_get (lit ''ver'') payload = Some (JInt (session_version u))"
    and "current_user_from_request e req d' = Inr (d'', u', payload)"
  shows "user_id u' = i \<and> is_active u' \<and> authority d' u' = authority d u \<and> password_hash u' = password_hash u"
proof -
  from current_user_payload [OF assms(6)] have s: "subject_of payload = Some (user_id u')" by blast
  with assms(4) have i: "user_id u' = i" by simp
  from current_user_effect [OF assms(6)] have u': "get_user i d' = Some u'" "is_active u'"
    "session_version u' = session_version u"
    using i assms(5) by auto
  with reaches_account [OF assms(1-3)] i show ?thesis by auto
qed

theorem session_keeps_authority_witness:
  "\<exists>d'' u' payload. current_user_from_request demo_env demo_request demo_after = Inr (d'', u', payload) \<and>
     authority demo_after u' = authority demo_db demo_admin"
proof -
  let ?p = "JObj [(lit ''sub'', JStr (lit ''1'')), (lit ''csrf'', JStr (lit ''C'')), (lit ''ver'', JInt 0)]"
  have sub: "subject_of ?p = Some 1"
    by (simp add: subject_of_def obj_get_def py_int_def strip_def strip_of_def is_space_def lit_def
        int_digits_def is_digit_def dec_value_def)
  have tok: "map_of (req_cookies demo_request) (admin_session_cookie_name demo_env) = Some (lit ''T'')"
    "decode_access_token demo_env (lit ''T'') = Some ?p"
    by (simp_all add: demo_request_def demo_env_def decode_access_token_def)
  have ver: "obj_get (lit ''ver'') ?p = Some (JInt 0)" by (simp add: obj_get_def)
  have hash: "hash_session_token demo_env (lit ''T'') = Inr (lit ''h'')"
    by (simp add: hash_session_token_def utf8_encode_lit_chars demo_env_def)
  have act: "session_activities demo_after = []"
    by (subst demo_after_eq) (simp add: demo_db_def empty_db_def)
  obtain d'' where "record_session_activity id demo_env demo_after demo_admin (lit ''T'') ?p = Inr d''"
    using act by (simp add: record_session_activity_def hash find_activity_def insert_activity_def Let_def)
  then have c: "current_user_from_request demo_env demo_request demo_after = Inr (d'', demo_admin, ?p)"
    by (simp add: current_user_from_request_def tok sub ver)
  have "obj_get (lit ''ver'') ?p = Some (JInt (session_version demo_admin))"
    by (simp add: ver)
  from session_keeps_authority [OF demo_reaches demo_ids(1) demo_user(1) sub this c] c show ?thesis by blast
qed

text \<open>
  C2 [active_admin_remains]: the service never loses its last administrator. From a database with the unique
  columns intact and an active account in the admin role, every sequence of requests leads
  to one with an active admin who holds \<open>admin.rbac.manage\<close>, and no two accounts ever share an
  identifier, a user name or an email.
\<close>

theorem active_admin_remains:
  assumes "reaches d d'" "grant_ids_ok d" "accounts_ok d" "has_active_admin d"
  shows "accounts_ok d' \<and> (\<exists>u \<in> set (users d'). is_active u \<and> role u = lit ''admin'' \<and>
    has_permission d' u (lit ''admin.rbac.manage''))"
proof -
  have "accounts_ok d' \<and> has_active_admin d'"
    using assms
  proof (induction rule: rtranclp_induct)
    case (step d1 d2)
    moreover have "grant_ids_ok d1" using step.hyps(1) step.prems(1) by (rule reaches_ids)
    ultimately show ?case by (auto dest!: request_step_ok simp: request_ok_def)
  qed simp
  then obtain u where u: "accounts_ok d'" "u \<in> set (users d')" "is_active u" "role u = lit ''admin''"
    by (auto simp: has_active_admin_def)
  then have "has_permission d' u (lit ''admin.rbac.manage'')"
    by (simp add: has_permission_def mem_list_user_permission_keys permissions_for_role_def
        DEFAULT_ROLE_PERMISSIONS_def ADMIN_PERMISSIONS_def)
  with u show ?thesis by blast
qed

theorem active_admin_remains_witness:
  "accounts_ok demo_after \<and> (\<exists>u \<in> set (users demo_after). is_active u \<and> role u = lit ''admin'' \<and>
    has_permission demo_after u (lit ''admin.rbac.manage''))"
  by (rule active_admin_remains [OF demo_reaches demo_ids])

text \<open>
  C3 [audit_trail_complete]: the audit trail is append-only and complete for authority. What a sequence of
  requests does to it is to append events; if it appended none, every account still has the
  authority it had.
\<close>

theorem audit_trail_complete:
  assumes "reaches d d'" "grant_ids_ok d"
  shows "\<exists>evs. audit_events d' = audit_events d @ evs \<and>
    (evs = [] \<longrightarrow> (\<forall>i u. get_user i d = Some u \<longrightarrow>
       (\<exists>u'. get_user i d' = Some u' \<and> authority d' u' = authority d u)))"
  using assms
proof (induction rule: rtranclp_induct)
  case (step d1 d2)
  then obtain evs where evs: "audit_events d1 = audit_events d @ evs"
    "evs = [] \<Longrightarrow> (\<forall>i u. get_user i d = Some u \<longrightarrow>
       (\<exists>u'. get_user i d1 = Some u' \<and> authority d1 u' = authority d u))" by blast
  have "grant_ids_ok d1" using step.hyps(1) step.prems by (rule reaches_ids)
  with step.hyps(2) obtain evs' where evs': "audit_events d2 = audit_events d1 @ evs'"
    "evs' = [] \<Longrightarrow> no_authority_change d1 d2"
    by (auto dest!: request_step_ok simp: request_ok_def)
  have "\<exists>u''. get_user i d2 = Some u'' \<and> authority d2 u'' = authority d u"
    if "evs @ evs' = []" "get_user i d = Some u" for i u
  proof -
    from that evs(2) obtain u' where u': "get_user i d1 = Some u'" "authority d1 u' = authority d u" by blast
    with that evs'(2) obtain u'' where u'': "get_user i d2 = Some u''" "is_active u'' = is_active u'"
      "role u'' = role u'" "same_view i d1 d2" by (auto simp: no_authority_change_def)
    have "user_id u' = i" "user_id u'' = i" using u'(1) u''(1) by (auto dest: user_table.lookup_key)
    with u'' have "authority d2 u'' = authority d1 u'" by (intro authority_same_view) simp_all
    with u' u'' show ?thesis by auto
  qed
  then show ?case using evs(1) evs'(1) by (intro exI [of _ "evs @ evs'"]) simp
qed auto

theorem audit_trail_complete_witness:
  "\<exists>evs. audit_events demo_after = audit_events demo_db @ evs"
  using audit_trail_complete [OF demo_reaches demo_ids(1)] by blast

text \<open>
  C13 [resource_grants_stay_safe]: a resource grant never becomes more than a read of a collection. If the stored
  grants are within the policy at first, then after any requests a per-resource permission
  that anybody holds is one of the two read keys of a collection, and hence no
  administration key.
\<close>

theorem resource_grants_stay_safe:
  assumes "reaches d d'" "grant_ids_ok d" "\<forall>g \<in> set (resource_grants d). grant_safe g"
    and "has_resource_permission d' u rt rid k"
  shows "rt = lit ''collection'' \<and> k \<in> lit ` {''collections.nsa.read'', ''collections.read''} \<and>
    is_valid_resource_id rid \<and> \<not> starts_with k (lit ''admin.'')"
proof -
  have "\<forall>g \<in> set (resource_grants d'). grant_safe g"
    using assms(1-3)
  proof (induction rule: rtranclp_induct)
    case (step d1 d2)
    moreover have "grant_ids_ok d1" using step.hyps(1) step.prems(1) by (rule reaches_ids)
    ultimately show ?case by (auto dest!: request_step_ok simp: request_ok_def)
  qed simp
  moreover from assms(4) obtain g where "g \<in> set (resource_grants d')" "grant_resource_type g = rt"
    "grant_resource_id g = rid" "grant_permission_key g = k"
    by (auto simp: has_resource_permission_def mem_list_user_resource_grants split: if_splits)
  ultimately have safe: "is_resource_safe_permission rt k" "is_valid_resource_id rid"
    by (auto simp: grant_safe_def)
  then have "rt = lit ''collection''" "k \<in> lit ` {''collections.nsa.read'', ''collections.read''}"
    by (auto simp: is_resource_safe_permission_def RESOURCE_SAFE_PERMISSIONS_def split: if_splits)
  moreover from this(2) have "\<not> starts_with k (lit ''admin.'')"
    by (auto simp: starts_with_def lit_def)
  ultimately show ?thesis using safe(2) by blast
qed

definition demo_grant_db :: db where
  "demo_grant_db = demo_db\<lparr>resource_grants := [\<lparr>grant_id = 1, subject_type = lit ''user'', subject_id = 1,
     grant_resource_type = lit ''collection'', grant_resource_id = lit ''nsa'',
     grant_permission_key = lit ''collections.nsa.read''\<rparr>]\<rparr>"

theorem resource_grants_stay_safe_witness:
  "has_resource_permission demo_grant_db demo_admin (lit ''collection'') (lit ''nsa'') (lit ''collections.nsa.read'') \<and>
   \<not> starts_with (lit ''collections.nsa.read'') (lit ''admin.'')"
proof -
  have h: "has_resource_permission demo_grant_db demo_admin (lit ''collection'') (lit ''nsa'') (lit ''collections.nsa.read'')"
    by (simp add: has_resource_permission_def mem_list_user_resource_grants demo_grant_db_def)
  have v: "is_valid_resource_id (lit ''nsa'')"
    by (simp add: is_valid_resource_id_def lit_def strip_def strip_of_def is_space_def has_sub_def starts_with_def)
  have "\<forall>g \<in> set (resource_grants demo_grant_db). grant_safe g"
    using v by (simp add: demo_grant_db_def grant_safe_def is_resource_safe_permission_def RESOURCE_SAFE_PERMISSIONS_def)
  moreover have "grant_ids_ok demo_grant_db" by (simp add: grant_ids_ok_def demo_grant_db_def)
  ultimately show ?thesis
    using resource_grants_stay_safe [of demo_grant_db demo_grant_db demo_admin] h by blast
qed

lemma filter_accessible_mem: "filter_accessible d u ms = Inr oks \<Longrightarrow> m \<in> set oks \<Longrightarrow>
    m \<in> set ms \<and> user_can_access_module d u m = Inr True"
  by (induction ms arbitrary: oks) (auto simp: result_simps split: if_splits)

text \<open>
  Visitors see only what is ungated. If every stored module passes the gate policy
  at first, then after any requests the public listing shows a visitor without an account
  only enabled modules of public visibility that declare no permission and no resource.
\<close>

theorem anonymous_sees_ungated:
  assumes "reaches d d'" "grant_ids_ok d" "\<forall>m \<in> set (service_modules d). module_gated m"
    and "public_service_modules d' None = Inr ms" "m \<in> set ms"
  shows "is_enabled m \<and> visibility m = lit ''public'' \<and> module_status m \<noteq> lit ''hidden'' \<and>
    required_permission m = None \<and> resource_type m = None \<and> resource_id m = None"
proof -
  have gated: "\<forall>m \<in> set (service_modules d'). module_gated m"
    using assms(1-3)
  proof (induction rule: rtranclp_induct)
    case (step d1 d2)
    moreover have "grant_ids_ok d1" using step.hyps(1) step.prems(1) by (rule reaches_ids)
    ultimately show ?case by (auto dest!: request_step_ok simp: request_ok_def)
  qed simp
  from filter_accessible_mem [OF assms(4) [unfolded public_service_modules_def] assms(5)]
  have m: "m \<in> set (service_modules d')" "user_can_access_module d' None m = Inr True" by auto
  then have a: "is_enabled m" "visibility m = lit ''public''" "module_status m \<noteq> lit ''hidden''"
    "\<not> truthy (required_permission m)" "\<not> truthy (resource_type m)" "\<not> truthy (resource_id m)"
    by (auto simp: user_can_access_module_def split: if_splits)
  from gated m(1) have "validate_module_gate (lit ''public'') (required_permission m) (resource_type m) (resource_id m) = None"
    using a(2) by (auto simp: module_gated_def)
  then show ?thesis using a by (auto simp: gate_public truthy_def dest: known_nonempty)
qed

definition demo_module :: service_module where
  "demo_module = \<lparr>module_id = 1, module_key = lit ''news'', title = lit ''News'', description = None,
     href = lit ''#'', module_section = lit ''Main'', module_status = lit ''active'', badge = lit ''Active'',
     sort_order = 0, is_enabled = True, is_external = False, visibility = lit ''public'',
     launcher_kind = lit ''none'', required_permission = None, resource_type = None, resource_id = None\<rparr>"

theorem anonymous_sees_ungated_witness:
  "public_service_modules (demo_db\<lparr>service_modules := [demo_module]\<rparr>) None = Inr [demo_module] \<and>
   required_permission demo_module = None"
proof -
  let ?d = "demo_db\<lparr>service_modules := [demo_module]\<rparr>"
  have l: "public_service_modules ?d None = Inr [demo_module]"
    by (simp add: public_service_modules_def user_can_access_module_def demo_module_def truthy_def)
  have "grant_ids_ok ?d" by (simp add: grant_ids_ok_def demo_db_def empty_db_def)
  moreover have "\<forall>m \<in> set (service_modules ?d). module_gated m"
    by (simp add: module_gated_def demo_module_def gate_public)
  ultimately show ?thesis using anonymous_sees_ungated [of ?d ?d "[demo_module]" demo_module] l by simp
qed

subsection \<open>Passwords\<close>

text \<open>
  A login succeeds exactly for an active account whose stored hash verifies the
  password, and never with the retired password; either way one login event is recorded,
  with the outcome as its status and the name cut to its column, and the accounts keep
  everything but the time of the last login.
\<close>

theorem login_outcomes:
  "(snd (auth_login e name pw ip ag d) \<noteq> None \<longleftrightarrow>
     (\<exists>u. get_by_username name d = Some u \<and> is_active u \<and> \<not> is_retired_password pw \<and>
        verify_password e pw (password_hash u) = Inr True)) \<and>
   (\<exists>ev. login_events (fst (auth_login e name pw ip ag d)) = login_events d @ [ev] \<and>
      login_status ev = lit (if snd (auth_login e name pw ip ag d) = None then ''failure'' else ''success'') \<and>
      length (login_username ev) \<le> 100) \<and>
   map (\<lambda>u. u\<lparr>last_login_at := None\<rparr>) (users (fst (auth_login e name pw ip ag d))) =
     map (\<lambda>u. u\<lparr>last_login_at := None\<rparr>) (users d)"
  by (cases "get_by_username name d")
    (simp_all add: auth_login_def add_login_event_def credentials_valid_def Let_def change_user_def change_row_def)

lemma py_int_js_int: "0 \<le> i \<Longrightarrow> length (dec_digits (nat i)) \<le> 4300 \<Longrightarrow> py_int (js_int i) = Some i"
  using py_int_print [of "nat i"] by (simp add: js_int_def)

lemma set_user_password_result:
  assumes "set_user_password e u pw False field prev invd = Inr u'"
  shows "make_hash e pw = Inr (password_hash u')" "password_changed_at u' = Some (utc (now e))"
  using assms by (auto elim!: set_user_password_Inr)

lemma record_session_activity_total:
  assumes "utf8_encode token \<noteq> None" "get_user (user_id u) d = Some u"
  shows "\<exists>d'. record_session_activity id e d u token payload = Inr d'"
  using assms
  by (auto simp: record_session_activity_def hash_session_token_def insert_activity_def find_activity_def
      Let_def split: option.splits)

lemma validated_not_retired:
  assumes "set_user_password e u b req_change field prev invd = Inr u'"
  shows "make_hash e b = Inr (password_hash u')" "b \<noteq> RETIRED_PASSWORD"
proof -
  have "is_retired_password RETIRED_PASSWORD"
    by (simp add: is_retired_password_def RETIRED_PASSWORD_def strip_def strip_of_def is_space_def lit_def ascii_lower_def)
  then have "validate_password_candidate RETIRED_PASSWORD field PASSWORD_MIN_LENGTH \<noteq> Inr RETIRED_PASSWORD"
    by (simp add: validate_password_candidate_def)
  with assms show "make_hash e b = Inr (password_hash u')" "b \<noteq> RETIRED_PASSWORD"
    by (auto elim!: set_user_password_Inr simp: require_password_change_def Let_def)
qed

lemma preflight_clean:
  assumes "preflight_configured_admin e name boot d = Inr d'" "v \<in> set (users d)" "is_active v"
  shows "password_hash_uses_retired_password e (password_hash v) = Inr False \<or>
    (\<exists>u. get_by_username name d = Some u \<and> user_id v = user_id u)"
proof -
  let ?r = "password_hash_uses_retired_password e (password_hash v)"
  have act: "v \<in> set (active_users d)" using assms(2,3) by (simp add: active_users_def)
  have "filter (\<lambda>u. \<not> is_ok (password_hash_uses_retired_password e (password_hash u))) (active_users d) = []"
    using assms(1) by (auto simp: preflight_configured_admin_def Let_def split: if_splits)
  with act have ok: "is_ok ?r" by (auto simp: filter_empty_conv)
  have "filter (\<lambda>u. case get_by_username name d of None \<Rightarrow> True | Some w \<Rightarrow> user_id u \<noteq> user_id w)
      (filter (\<lambda>u. password_hash_uses_retired_password e (password_hash u) = Inr True) (active_users d)) = []"
    using assms(1) unfolding preflight_configured_admin_def Let_def
    by (meson Inl_Inr_False)
  with act have "?r = Inr True \<Longrightarrow> \<exists>u. get_by_username name d = Some u \<and> user_id v = user_id u"
    by (auto simp: filter_empty_conv split: option.splits)
  with ok show ?thesis by (cases ?r) auto
qed

text \<open>
  The start-up check lets the service start only without the retired password. When
  it succeeds, on accounts with unique identifiers and a password library whose fresh
  hashes verify exactly the password they were made of, every active account has a valid
  hash that does not verify the retired password.
\<close>

theorem preflight_no_retired:
  assumes "preflight_configured_admin e name boot d = Inr d'" "accounts_ok d"
    and "\<And>p h. make_hash e p = Inr h \<Longrightarrow> identify_scheme e h \<noteq> None \<and>
      verify_hash e RETIRED_PASSWORD h = Some (RETIRED_PASSWORD = p)"
  shows "\<forall>u \<in> set (users d'). is_active u \<longrightarrow> password_hash_uses_retired_password e (password_hash u) = Inr False"
proof -
  let ?uses = "\<lambda>u. password_hash_uses_retired_password e (password_hash u)"
  have new: "?uses u' = Inr False" if "set_user_password e u b rc field prev invd = Inr u'" for u u' b rc field prev invd
    using validated_not_retired [OF that] assms(3) [of b "password_hash u'"]
    by (auto simp: password_hash_uses_retired_password_def verify_password_def)
  show ?thesis
  proof (cases "get_by_username name d")
    case None
    then have clean: "?uses v = Inr False" if "v \<in> set (users d)" "is_active v" for v
      using preflight_clean [OF assms(1) that] by simp
    from assms(1) None consider "d' = d"
      | u u' b where "set_user_password e (new_account name None None (lit ''admin'') True) b True ''ADMIN_PASSWORD'' None False = Inr u"
        "insert_user u d = Inr (d', u')"
      by (auto simp: preflight_configured_admin_def Let_def result_simps
          split: if_splits option.splits sum.splits)
    then show ?thesis
      by cases (auto simp: clean insert_user_def Let_def new split: if_splits)
  next
    case (Some u)
    have uu: "u \<in> set (users d)" using Some find_row_Some by (fastforce simp: get_by_username_def)
    have others: "?uses v = Inr False" if "v \<in> set (users d)" "is_active v" "user_id v \<noteq> user_id u" for v
      using preflight_clean [OF assms(1) that(1,2)] that(3) Some by auto
    have own: "v = u" if "v \<in> set (users d)" "user_id v = user_id u" for v
      using assms(2) that uu by (auto simp: accounts_ok_def distinct_map dest: inj_onD)
    from assms(1) Some consider (replaced) u' b where "d' = change_user (user_id u) (\<lambda>_. u') d"
        "set_user_password e u b True ''ADMIN_PASSWORD'' None True = Inr u'"
      | (kept) "d' = d" "?uses u = Inr False"
      | (forced) "d' = change_user (user_id u) (require_password_change True) d" "?uses u = Inr False"
      by (auto simp: preflight_configured_admin_def Let_def split: if_splits option.splits sum.splits bool.splits)
    then show ?thesis
    proof cases
      case replaced
      then show ?thesis using others new [OF replaced(2)]
        by (auto simp: change_user_users set_change_row split: if_splits)
    next
      case kept
      then show ?thesis using others own by auto
    next
      case forced
      have "?uses v = Inr False" if "v \<in> set (users d)" "user_id v = user_id u" for v
        using own [OF that] forced(2) by simp
      with forced(1) show ?thesis using others
        by (auto simp: change_user_users set_change_row require_password_change_def split: if_splits)
    qed
  qed
qed

theorem preflight_no_retired_witness:
  "preflight_configured_admin demo_env (lit ''root'') (Some (lit ''longerword'')) demo_db = Inr demo_db \<and>
   password_hash_uses_retired_password demo_env (password_hash demo_admin) = Inr False"
proof -
  have v: "verify_hash demo_env p h = Some (p = h)" "identify_scheme demo_env h = Some []" for p h
    by (simp_all add: demo_env_def)
  have r: "password_hash_uses_retired_password demo_env (lit ''longenough'') = Inr False"
    by (simp add: password_hash_uses_retired_password_def verify_password_def v RETIRED_PASSWORD_def)
  have u: "get_by_username (lit ''root'') demo_db = Some demo_admin" "active_users demo_db = [demo_admin]"
    by (simp_all add: get_by_username_def demo_db_def empty_db_def demo_admin_def active_users_def)
  have c: "validate_password_candidate (lit ''longerword'') ''ADMIN_PASSWORD'' PASSWORD_MIN_LENGTH = Inr (lit ''longerword'')"
    by (simp add: validate_password_candidate_def PASSWORD_MAX_LENGTH_def PASSWORD_MIN_LENGTH_def
        is_retired_password_def RETIRED_PASSWORD_def strip_def strip_of_def is_space_def lit_def ascii_lower_def)
  have p: "preflight_configured_admin demo_env (lit ''root'') (Some (lit ''longerword'')) demo_db = Inr demo_db"
    by (simp add: preflight_configured_admin_def u r c verify_password_def v)
  have "identify_scheme demo_env h \<noteq> None \<and> verify_hash demo_env RETIRED_PASSWORD h = Some (RETIRED_PASSWORD = q)"
    if "make_hash demo_env q = Inr h" for q h
    using that by (simp add: demo_env_def split: if_splits)
  from preflight_no_retired [OF p demo_ids(2) this] p show ?thesis by (simp add: demo_db_def)
qed

end
