(* ===== verification/Bundle_Contracts.thy ===== *)
theory Bundle_Contracts
  imports Db_Model
begin

text \<open>
  The boundary rules of internal data bundles,
  \<open>operations/internal_data_bundle_contracts.py\<close>: the strict JSON reader, the approval and
  trust policy records, the checks of signers, recipient, policy, access list, target path,
  inventory and envelope, and the dispatch the PowerShell layer calls. An error is its
  code: the detail of \<open>InternalDataBundleError\<close> never leaves the process. The coercions of
  pydantic, base64, SHA-256 and the parsing of ISO dates are parameters, the fields of
  \<open>host\<close>. Instants are microseconds of UTC.
\<close>

record host =
  pydantic_datetime :: "json \<Rightarrow> datetime option"
  pydantic_bool :: "json \<Rightarrow> bool option"
  pydantic_int :: "json \<Rightarrow> int option"
  sha256_hexdigest :: "bytes \<Rightarrow> pystr"
  b64decode :: "pystr \<Rightarrow> bytes option"
  fromisoformat :: "pystr \<Rightarrow> datetime option"
  str_of :: "json \<Rightarrow> pystr"
  dump_instant :: "int \<Rightarrow> pystr"
  clock :: int

subsection \<open>Constants and error codes\<close>

definition SCHEMA_VERSION :: pystr where "SCHEMA_VERSION = lit ''1.0''"
definition AES_256_CBC_OID :: pystr where "AES_256_CBC_OID = lit ''2.16.840.1.101.3.4.1.42''"
definition DOCUMENT_SIGNING_EKU_OID :: pystr where
  "DOCUMENT_SIGNING_EKU_OID = lit ''1.3.6.1.4.1.311.10.3.12''"
definition EMAIL_PROTECTION_EKU_OID :: pystr where
  "EMAIL_PROTECTION_EKU_OID = lit ''1.3.6.1.5.5.7.3.4''"
definition NORMAL_ROOTS :: "pystr set" where
  "NORMAL_ROOTS = lit ` {''newsletter'', ''civil_aircraft'', ''document''}"
definition NSA_ROOT :: "pystr set" where "NSA_ROOT = {lit ''nsa''}"
definition ALL_ROOTS :: "pystr set" where "ALL_ROOTS = NORMAL_ROOTS \<union> NSA_ROOT"
definition NORMAL_SIGNER_ROLES :: "pystr set" where
  "NORMAL_SIGNER_ROLES = lit ` {''data_owner'', ''security_officer''}"
definition NSA_SIGNER_ROLES :: "pystr set" where
  "NSA_SIGNER_ROLES = lit ` {''nsa_data_owner'', ''security_officer''}"
definition hour :: int where "hour = 3600000000"
definition MAX_APPROVAL_TTL :: int where "MAX_APPROVAL_TTL = 24 * hour"
definition REQUIRED_ENVELOPE_ENTRIES :: "pystr set" where
  "REQUIRED_ENVELOPE_ENTRIES = lit ` {''approval.json'', ''inventory.json''}"

datatype code =
    DUPLICATE_JSON_KEY | INVALID_JSON | SCHEMA_VIOLATION | TTL_EXCEEDED | EXPIRES_BEFORE_ISSUED
  | APPROVAL_EXPIRED | APPROVAL_NOT_YET_VALID | MIXED_ROOTS | ROOTS_NSA_FLAG_MISMATCH | UNKNOWN_ROOT
  | SIGNER_ROLE_SET_MISMATCH | SIGNER_SAME_THUMBPRINT | SIGNER_ROLE_INVALID_FOR_BUNDLE
  | RECIPIENT_MISMATCH | RECIPIENT_ENVIRONMENT_MISMATCH | RECIPIENT_PRIVATE_KEY_MISSING
  | EKU_MISMATCH | CERT_NOT_YET_VALID | CERT_EXPIRED | SIGNATURE_INVALID | CHAIN_INVALID
  | AES_OID_MISMATCH | TRUST_POLICY_DIGEST_MISMATCH | TRUST_POLICY_DIGEST_ABSENT
  | TRUST_POLICY_EXPIRED | ACL_MISMATCH | ALLOWED_ROOTS_NOT_SUBSET | PATH_TRAVERSAL
  | PATH_ESCAPES_ALLOWED_ROOTS | INVENTORY_HASH_MISMATCH | ENVELOPE_ENTRY_MISMATCH

fun code_value :: "code \<Rightarrow> string" where
  "code_value DUPLICATE_JSON_KEY = ''duplicate-json-key''"
| "code_value INVALID_JSON = ''invalid-json''"
| "code_value SCHEMA_VIOLATION = ''schema-violation''"
| "code_value TTL_EXCEEDED = ''ttl-exceeded''"
| "code_value EXPIRES_BEFORE_ISSUED = ''expires-before-issued''"
| "code_value APPROVAL_EXPIRED = ''approval-expired''"
| "code_value APPROVAL_NOT_YET_VALID = ''approval-not-yet-valid''"
| "code_value MIXED_ROOTS = ''mixed-roots''"
| "code_value ROOTS_NSA_FLAG_MISMATCH = ''roots-nsa-flag-mismatch''"
| "code_value UNKNOWN_ROOT = ''unknown-root''"
| "code_value SIGNER_ROLE_SET_MISMATCH = ''signer-role-set-mismatch''"
| "code_value SIGNER_SAME_THUMBPRINT = ''signer-same-thumbprint''"
| "code_value SIGNER_ROLE_INVALID_FOR_BUNDLE = ''signer-role-invalid-for-bundle''"
| "code_value RECIPIENT_MISMATCH = ''recipient-mismatch''"
| "code_value RECIPIENT_ENVIRONMENT_MISMATCH = ''recipient-environment-mismatch''"
| "code_value RECIPIENT_PRIVATE_KEY_MISSING = ''recipient-private-key-missing''"
| "code_value EKU_MISMATCH = ''eku-mismatch''"
| "code_value CERT_NOT_YET_VALID = ''cert-not-yet-valid''"
| "code_value CERT_EXPIRED = ''cert-expired''"
| "code_value SIGNATURE_INVALID = ''signature-invalid''"
| "code_value CHAIN_INVALID = ''chain-invalid''"
| "code_value AES_OID_MISMATCH = ''aes-oid-mismatch''"
| "code_value TRUST_POLICY_DIGEST_MISMATCH = ''trust-policy-digest-mismatch''"
| "code_value TRUST_POLICY_DIGEST_ABSENT = ''trust-policy-digest-absent''"
| "code_value TRUST_POLICY_EXPIRED = ''trust-policy-expired''"
| "code_value ACL_MISMATCH = ''acl-mismatch''"
| "code_value ALLOWED_ROOTS_NOT_SUBSET = ''allowed-roots-not-subset''"
| "code_value PATH_TRAVERSAL = ''path-traversal''"
| "code_value PATH_ESCAPES_ALLOWED_ROOTS = ''path-escapes-allowed-roots''"
| "code_value INVENTORY_HASH_MISMATCH = ''inventory-hash-mismatch''"
| "code_value ENVELOPE_ENTRY_MISMATCH = ''envelope-entry-mismatch''"

type_synonym 'a checked = "(code, 'a) result"

text \<open>What leaves a function of the module: an \<open>InternalDataBundleError\<close>; a \<open>ValidationError\<close>, \<open>KeyError\<close> or
  \<open>ValueError\<close>, which the request mode of \<open>main\<close> prints as a schema violation; or the \<open>TypeError\<close> or
  \<open>AttributeError\<close> of a value of another type, which it does not catch.\<close>

datatype rpc_error = Bundle code | BadRequest | Uncaught

type_synonym 'a rpc = "(rpc_error, 'a) result"

subsection \<open>Records\<close>

record approval =
  ap_schema_version :: pystr
  ap_request_id :: pystr
  ap_ticket_id :: pystr
  ap_purpose :: pystr
  ap_issued_at :: int
  ap_expires_at :: int
  ap_target_environment_id :: pystr
  ap_recipient_thumbprint :: pystr
  ap_allowed_roots :: "pystr list"
  ap_source_inventory_sha256 :: pystr
  ap_include_nsa :: bool

record trust_party =
  tp_role :: pystr
  tp_thumbprint :: pystr
  tp_subject :: pystr
  tp_eku_oid :: pystr

record trust_policy =
  pol_schema_version :: pystr
  pol_policy_id :: pystr
  pol_expires_at :: int
  pol_max_approval_ttl_hours :: int
  pol_allowed_roots :: "pystr list"
  pol_signers :: "trust_party list"
  pol_recipients :: "trust_party list"

record signature_evidence =
  sig_role :: pystr
  sig_thumbprint :: pystr
  sig_subject :: pystr
  sig_eku_oid :: pystr
  signature_valid :: bool
  chain_valid :: bool
  sig_not_before :: int
  sig_not_after :: int

record recipient_evidence =
  rec_target_environment_id :: pystr
  rec_thumbprint :: pystr
  rec_subject :: pystr
  rec_eku_oid :: pystr
  has_private_key :: bool
  rec_not_before :: int
  rec_not_after :: int

record ace_entry =
  identity_sid :: pystr
  rights :: pystr
  is_inherited :: bool

subsection \<open>The strict reader\<close>

text \<open>
  \<open>json.loads\<close> with the hook \<open>_no_duplicate_keys\<close>, which runs at the closing brace of every
  object: its error comes before any later one in the text. The functions are those of
  \<open>Py_Json\<close> with the hook in them, and with the \<open>ValueError\<close> of an integer of more than 4,300 digits, which is
  raised where the integer stands and is no \<open>JSONDecodeError\<close>.
\<close>

definition no_duplicate_keys :: "(pystr \<times> json) list \<Rightarrow> (pystr \<times> json) list rpc" where
  "no_duplicate_keys kvs = (if distinct (map fst kvs) then Inr kvs else Inl (Bundle DUPLICATE_JSON_KEY))"

fun strict_value :: "nat \<Rightarrow> pystr \<Rightarrow> (json \<times> pystr) rpc"
and strict_elems :: "nat \<Rightarrow> pystr \<Rightarrow> (json list \<times> pystr) rpc"
and strict_members :: "nat \<Rightarrow> pystr \<Rightarrow> ((pystr \<times> json) list \<times> pystr) rpc" where
  "strict_value 0 s = Inl (Bundle INVALID_JSON)"
| "strict_value (Suc f) s =
     (case s of
        [] \<Rightarrow> Inl (Bundle INVALID_JSON)
      | c # r \<Rightarrow>
          if c = 34 then
            of_option (Bundle INVALID_JSON) (map_option (\<lambda>(t, u). (JStr t, u)) (parse_string r))
          else if c = 123 then
            (if take 1 (skip_ws r) = [125] then Inr (JObj [], drop 1 (skip_ws r))
             else bind_result (strict_members f (skip_ws r)) (\<lambda>(kvs, u).
               bind_result (no_duplicate_keys kvs) (\<lambda>d. Inr (JObj d, u))))
          else if c = 91 then
            (if take 1 (skip_ws r) = [93] then Inr (JArr [], drop 1 (skip_ws r))
             else bind_result (strict_elems f (skip_ws r)) (\<lambda>(xs, u). Inr (JArr xs, u)))
          else
            (case parse_atom s of
               None \<Rightarrow> Inl (Bundle INVALID_JSON)
             | Some (v, u) \<Rightarrow> if ints_readable v then Inr (v, u) else Inl BadRequest))"
| "strict_elems 0 s = Inl (Bundle INVALID_JSON)"
| "strict_elems (Suc f) s =
     bind_result (strict_value f s) (\<lambda>(x, r).
       case skip_ws r of
         [] \<Rightarrow> Inl (Bundle INVALID_JSON)
       | c # r1 \<Rightarrow>
           if c = 93 then Inr ([x], r1)
           else if c = 44 then
             bind_result (strict_elems f (skip_ws r1)) (\<lambda>(xs, u). Inr (x # xs, u))
           else Inl (Bundle INVALID_JSON))"
| "strict_members 0 s = Inl (Bundle INVALID_JSON)"
| "strict_members (Suc f) s =
     (if take 1 s = [34] then
        bind_result (of_option (Bundle INVALID_JSON) (parse_string (drop 1 s))) (\<lambda>(k, r).
          if take 1 (skip_ws r) = [58] then
            bind_result (strict_value f (skip_ws (drop 1 (skip_ws r)))) (\<lambda>(x, r1).
              case skip_ws r1 of
                [] \<Rightarrow> Inl (Bundle INVALID_JSON)
              | c # r2 \<Rightarrow>
                  if c = 125 then Inr ([(k, x)], r2)
                  else if c = 44 then
                    bind_result (strict_members f (skip_ws r2)) (\<lambda>(kvs, u). Inr ((k, x) # kvs, u))
                  else Inl (Bundle INVALID_JSON))
          else Inl (Bundle INVALID_JSON))
      else Inl (Bundle INVALID_JSON))"

definition strict_loads :: "pystr \<Rightarrow> json rpc" where
  "strict_loads s =
     bind_result (strict_value (Suc (length s)) (skip_ws s)) (\<lambda>(v, r).
       if skip_ws r = [] then Inr v else Inl (Bundle INVALID_JSON))"

definition parse_strict_json_object :: "bytes \<Rightarrow> json rpc" where
  "parse_strict_json_object raw =
     (case utf8_decode raw of
        None \<Rightarrow> Inl (Bundle INVALID_JSON)
      | Some text \<Rightarrow>
          bind_result (strict_loads text) (\<lambda>v. if is_obj v then Inr v else Inl (Bundle INVALID_JSON)))"

subsection \<open>The model classes\<close>

text \<open>
  \<open>model_validate\<close> of a class that forbids extra fields: a required field that is missing or
  does not validate, or a field that is not of the class, is a \<open>ValidationError\<close>, here
  \<open>None\<close>.
\<close>

definition json_text :: "json \<Rightarrow> pystr option" where
  "json_text v = (case v of JStr s \<Rightarrow> Some s | _ \<Rightarrow> None)"

definition json_list :: "json \<Rightarrow> json list option" where
  "json_list v = (case v of JArr xs \<Rightarrow> Some xs | _ \<Rightarrow> None)"

fun map_opt :: "('a \<Rightarrow> 'b option) \<Rightarrow> 'a list \<Rightarrow> 'b list option" where
  "map_opt f [] = Some []"
| "map_opt f (x # xs) = (case f x of None \<Rightarrow> None | Some y \<Rightarrow> map_option ((#) y) (map_opt f xs))"

definition text_field :: "(pystr \<Rightarrow> bool) \<Rightarrow> string \<Rightarrow> json \<Rightarrow> pystr option" where
  "text_field ok k v =
     (case obj_get (lit k) v of
        None \<Rightarrow> None
      | Some x \<Rightarrow> (case json_text x of None \<Rightarrow> None | Some s \<Rightarrow> if ok s then Some s else None))"

definition non_empty :: "pystr \<Rightarrow> bool" where "non_empty s \<longleftrightarrow> s \<noteq> []"
definition any_text :: "pystr \<Rightarrow> bool" where "any_text s \<longleftrightarrow> True"

definition is_upper_hex :: "nat \<Rightarrow> bool" where
  "is_upper_hex c \<longleftrightarrow> is_digit c \<or> 65 \<le> c \<and> c \<le> 70"
definition is_lower_hex :: "nat \<Rightarrow> bool" where
  "is_lower_hex c \<longleftrightarrow> is_digit c \<or> 97 \<le> c \<and> c \<le> 102"
definition thumbprint_pattern :: "pystr \<Rightarrow> bool" where
  "thumbprint_pattern s \<longleftrightarrow> length s = 40 \<and> (\<forall>c \<in> set s. is_upper_hex c)"
definition sha256_pattern :: "pystr \<Rightarrow> bool" where
  "sha256_pattern s \<longleftrightarrow> length s = 64 \<and> (\<forall>c \<in> set s. is_lower_hex c)"

text \<open>The validators of both models make a \<open>datetime\<close> an instant of UTC and refuse a naive one.\<close>

definition instant_field :: "host \<Rightarrow> string \<Rightarrow> json \<Rightarrow> int option" where
  "instant_field h k v =
     (case obj_get (lit k) v of
        None \<Rightarrow> None
      | Some x \<Rightarrow>
          (case pydantic_datetime h x of
             None \<Rightarrow> None
           | Some t \<Rightarrow> if offset t = None then None else Some (to_utc t)))"

definition list_field :: "(json \<Rightarrow> 'a option) \<Rightarrow> string \<Rightarrow> json \<Rightarrow> 'a list option" where
  "list_field f k v =
     (case obj_get (lit k) v of
        None \<Rightarrow> None
      | Some x \<Rightarrow> (case json_list x of None \<Rightarrow> None | Some xs \<Rightarrow> map_opt f xs))"

definition only_keys :: "string set \<Rightarrow> json \<Rightarrow> bool" where
  "only_keys ks v = (case v of JObj kvs \<Rightarrow> fst ` set kvs \<subseteq> lit ` ks | _ \<Rightarrow> False)"

definition validate_approval_record :: "host \<Rightarrow> json \<Rightarrow> approval option" where
  "validate_approval_record h v =
     (if \<not> only_keys {''schema_version'', ''request_id'', ''ticket_id'', ''purpose'', ''issued_at'',
         ''expires_at'', ''target_environment_id'', ''recipient_thumbprint'', ''allowed_roots'',
         ''source_inventory_sha256'', ''include_nsa''} v
      then None
      else
        case (text_field any_text ''schema_version'' v, text_field non_empty ''request_id'' v,
              text_field non_empty ''ticket_id'' v, text_field non_empty ''purpose'' v,
              instant_field h ''issued_at'' v, instant_field h ''expires_at'' v,
              text_field non_empty ''target_environment_id'' v,
              text_field thumbprint_pattern ''recipient_thumbprint'' v,
              list_field json_text ''allowed_roots'' v,
              text_field sha256_pattern ''source_inventory_sha256'' v,
              (case obj_get (lit ''include_nsa'') v of None \<Rightarrow> None | Some b \<Rightarrow> pydantic_bool h b)) of
          (Some sv, Some rid, Some tid, Some pu, Some ia, Some ea, Some te, Some rt, Some ar, Some sh, Some nsa) \<Rightarrow>
            if ar = [] \<or> \<not> distinct ar then None
            else Some \<lparr>ap_schema_version = sv, ap_request_id = rid, ap_ticket_id = tid, ap_purpose = pu,
              ap_issued_at = ia, ap_expires_at = ea, ap_target_environment_id = te,
              ap_recipient_thumbprint = rt, ap_allowed_roots = ar, ap_source_inventory_sha256 = sh,
              ap_include_nsa = nsa\<rparr>
        | _ \<Rightarrow> None)"

text \<open>\<open>TrustSigner\<close> and \<open>TrustRecipient\<close> differ in the name of their first field.\<close>

definition validate_trust_party :: "string \<Rightarrow> json \<Rightarrow> trust_party option" where
  "validate_trust_party k v =
     (if \<not> only_keys {k, ''thumbprint'', ''subject'', ''eku_oid''} v then None
      else
        case (text_field non_empty k v, text_field thumbprint_pattern ''thumbprint'' v,
              text_field non_empty ''subject'' v, text_field non_empty ''eku_oid'' v) of
          (Some r, Some t, Some s, Some e) \<Rightarrow>
            Some \<lparr>tp_role = r, tp_thumbprint = t, tp_subject = s, tp_eku_oid = e\<rparr>
        | _ \<Rightarrow> None)"

definition validate_trust_policy_record :: "host \<Rightarrow> json \<Rightarrow> trust_policy option" where
  "validate_trust_policy_record h v =
     (if \<not> only_keys {''schema_version'', ''policy_id'', ''expires_at'', ''max_approval_ttl_hours'',
         ''allowed_roots'', ''signers'', ''recipients''} v
      then None
      else
        case (text_field any_text ''schema_version'' v, text_field non_empty ''policy_id'' v,
              instant_field h ''expires_at'' v,
              (case obj_get (lit ''max_approval_ttl_hours'') v of
                 None \<Rightarrow> None
               | Some x \<Rightarrow> (case pydantic_int h x of
                   None \<Rightarrow> None | Some n \<Rightarrow> if 0 < n \<and> n \<le> 24 then Some n else None)),
              list_field json_text ''allowed_roots'' v,
              list_field (validate_trust_party ''role'') ''signers'' v,
              list_field (validate_trust_party ''target_environment_id'') ''recipients'' v) of
          (Some sv, Some pid, Some ea, Some ttl, Some ar, Some ss, Some rs) \<Rightarrow>
            Some \<lparr>pol_schema_version = sv, pol_policy_id = pid, pol_expires_at = ea,
              pol_max_approval_ttl_hours = ttl, pol_allowed_roots = ar, pol_signers = ss,
              pol_recipients = rs\<rparr>
        | _ \<Rightarrow> None)"

subsection \<open>The checks\<close>

text \<open>\<open>now or datetime.now(timezone.utc)\<close>.\<close>

definition reference_time :: "host \<Rightarrow> int option \<Rightarrow> int" where
  "reference_time h t = (case t of None \<Rightarrow> clock h | Some i \<Rightarrow> i)"

definition parse_approval_strict :: "host \<Rightarrow> bytes \<Rightarrow> int option \<Rightarrow> approval rpc" where
  "parse_approval_strict h raw t =
     bind_result (parse_strict_json_object raw) (\<lambda>v.
     bind_result (of_option (Bundle SCHEMA_VIOLATION) (validate_approval_record h v)) (\<lambda>a.
       let roots = set (ap_allowed_roots a)
       in
       if ap_schema_version a \<noteq> SCHEMA_VERSION then Inl (Bundle SCHEMA_VIOLATION)
       else if ap_expires_at a \<le> ap_issued_at a then Inl (Bundle EXPIRES_BEFORE_ISSUED)
       else if ap_expires_at a - ap_issued_at a > MAX_APPROVAL_TTL then Inl (Bundle TTL_EXCEEDED)
       else if reference_time h t < ap_issued_at a then Inl (Bundle APPROVAL_NOT_YET_VALID)
       else if reference_time h t > ap_expires_at a then Inl (Bundle APPROVAL_EXPIRED)
       else if roots - ALL_ROOTS \<noteq> {} then Inl (Bundle UNKNOWN_ROOT)
       else if roots \<inter> NSA_ROOT \<noteq> {} \<and> roots - NSA_ROOT \<noteq> {} then Inl (Bundle MIXED_ROOTS)
       else if (roots = NSA_ROOT) \<noteq> ap_include_nsa a then Inl (Bundle ROOTS_NSA_FLAG_MISMATCH)
       else Inr a))"

definition classify_bundle_type :: "approval \<Rightarrow> pystr" where
  "classify_bundle_type a = (if set (ap_allowed_roots a) = NSA_ROOT then lit ''nsa'' else lit ''normal'')"

definition check_signature :: "pystr set \<Rightarrow> int \<Rightarrow> signature_evidence \<Rightarrow> unit checked" where
  "check_signature expected ref sg =
     (if sig_role sg \<notin> expected then Inl SIGNER_ROLE_INVALID_FOR_BUNDLE
      else if sig_eku_oid sg \<noteq> DOCUMENT_SIGNING_EKU_OID then Inl EKU_MISMATCH
      else if \<not> signature_valid sg then Inl SIGNATURE_INVALID
      else if \<not> chain_valid sg then Inl CHAIN_INVALID
      else if ref < sig_not_before sg then Inl CERT_NOT_YET_VALID
      else if ref > sig_not_after sg then Inl CERT_EXPIRED
      else Inr ())"

definition validate_signers :: "host \<Rightarrow> pystr \<Rightarrow> signature_evidence list \<Rightarrow> int option \<Rightarrow> unit checked" where
  "validate_signers h bundle_type sigs t =
     (let expected = (if bundle_type = lit ''nsa'' then NSA_SIGNER_ROLES else NORMAL_SIGNER_ROLES)
      in
      if length sigs \<noteq> 2 then Inl SIGNER_ROLE_SET_MISMATCH
      else if length (remdups (map sig_thumbprint sigs)) \<noteq> 2 then Inl SIGNER_SAME_THUMBPRINT
      else if set (map sig_role sigs) \<noteq> expected then Inl SIGNER_ROLE_SET_MISMATCH
      else for_each (check_signature expected (reference_time h t)) sigs)"

definition validate_recipient :: "host \<Rightarrow> approval \<Rightarrow> recipient_evidence \<Rightarrow> int option \<Rightarrow> unit checked" where
  "validate_recipient h a r t =
     (if rec_thumbprint r \<noteq> ap_recipient_thumbprint a then Inl RECIPIENT_MISMATCH
      else if rec_target_environment_id r \<noteq> ap_target_environment_id a then Inl RECIPIENT_ENVIRONMENT_MISMATCH
      else if rec_eku_oid r \<noteq> EMAIL_PROTECTION_EKU_OID then Inl EKU_MISMATCH
      else if \<not> has_private_key r then Inl RECIPIENT_PRIVATE_KEY_MISSING
      else if reference_time h t < rec_not_before r then Inl CERT_NOT_YET_VALID
      else if reference_time h t > rec_not_after r then Inl CERT_EXPIRED
      else Inr ())"

definition validate_aes_oid :: "pystr \<Rightarrow> unit checked" where
  "validate_aes_oid oid = require (oid = AES_256_CBC_OID) AES_OID_MISMATCH"

definition parse_trust_policy :: "host \<Rightarrow> bytes \<Rightarrow> pystr option \<Rightarrow> int option \<Rightarrow> trust_policy rpc" where
  "parse_trust_policy h raw pinned t =
     (case pinned of
        None \<Rightarrow> Inl (Bundle TRUST_POLICY_DIGEST_ABSENT)
      | Some p \<Rightarrow>
          if p = [] then Inl (Bundle TRUST_POLICY_DIGEST_ABSENT)
          else if lower (sha256_hexdigest h raw) \<noteq> lower p then Inl (Bundle TRUST_POLICY_DIGEST_MISMATCH)
          else
            bind_result (parse_strict_json_object raw) (\<lambda>v.
            bind_result (of_option (Bundle SCHEMA_VIOLATION) (validate_trust_policy_record h v)) (\<lambda>pol.
              if pol_schema_version pol \<noteq> SCHEMA_VERSION then Inl (Bundle SCHEMA_VIOLATION)
              else if reference_time h t > pol_expires_at pol then Inl (Bundle TRUST_POLICY_EXPIRED)
              else Inr pol)))"

definition validate_approval_against_trust_policy :: "approval \<Rightarrow> trust_policy \<Rightarrow> unit checked" where
  "validate_approval_against_trust_policy a pol =
     (if ap_expires_at a - ap_issued_at a > pol_max_approval_ttl_hours pol * hour then Inl TTL_EXCEEDED
      else if \<not> set (ap_allowed_roots a) \<subseteq> set (pol_allowed_roots pol) then Inl ALLOWED_ROOTS_NOT_SUBSET
      else Inr ())"

definition validate_trust_policy_acl ::
  "ace_entry list \<Rightarrow> bool \<Rightarrow> pystr \<Rightarrow> pystr \<Rightarrow> pystr \<Rightarrow> unit checked" where
  "validate_trust_policy_acl aces inheritance_disabled sys adm auth =
     (let sids = map identity_sid aces
      in
      if \<not> inheritance_disabled then Inl ACL_MISMATCH
      else if \<exists>ace \<in> set aces. is_inherited ace then Inl ACL_MISMATCH
      else if length aces \<noteq> 3 \<or> set sids \<noteq> {sys, adm, auth} \<or> length (remdups sids) \<noteq> 3 then Inl ACL_MISMATCH
      else for_each (\<lambda>ace. require (rights ace = lit ''Read'') ACL_MISMATCH) aces)"

text \<open>The parts of a path under both separators, without the empty ones.\<close>

definition path_parts :: "pystr \<Rightarrow> pystr list" where
  "path_parts p = filter (\<lambda>w. w \<noteq> []) (split_on 47 (map (\<lambda>c. if c = 92 then 47 else c) p))"

definition validate_target_root :: "pystr \<Rightarrow> pystr list \<Rightarrow> pystr checked" where
  "validate_target_root target allowed =
     (let norm = map (\<lambda>c. if c = 92 then 47 else c) target; parts = path_parts target
      in
      if starts_with norm [47] \<or> 58 \<in> set norm then Inl PATH_TRAVERSAL
      else if parts = [] then Inl PATH_TRAVERSAL
      else if \<exists>w \<in> set parts. w = lit ''.'' \<or> w = lit ''..'' then Inl PATH_TRAVERSAL
      else if hd parts \<notin> set allowed then Inl PATH_ESCAPES_ALLOWED_ROOTS
      else Inr (hd parts))"

definition validate_inventory :: "host \<Rightarrow> bytes \<Rightarrow> approval \<Rightarrow> json rpc" where
  "validate_inventory h raw a =
     (if sha256_hexdigest h raw \<noteq> ap_source_inventory_sha256 a then Inl (Bundle INVENTORY_HASH_MISMATCH)
      else parse_strict_json_object raw)"

definition is_signature_entry :: "pystr \<Rightarrow> bool" where
  "is_signature_entry n \<longleftrightarrow> starts_with (rev n) (rev (lit ''.p7s''))"

text \<open>The content entries are a set in the code: with several bad ones, which error is raised
  is not fixed there, and is that of the first entry here.\<close>

definition validate_envelope_entries :: "pystr list \<Rightarrow> pystr list \<Rightarrow> unit checked" where
  "validate_envelope_entries names allowed =
     (if \<not> distinct names then Inl ENVELOPE_ENTRY_MISMATCH
      else if REQUIRED_ENVELOPE_ENTRIES - set names \<noteq> {} then Inl ENVELOPE_ENTRY_MISMATCH
      else if length (filter is_signature_entry names) \<noteq> 2 then Inl SIGNER_ROLE_SET_MISMATCH
      else for_each (\<lambda>n. bind_result (validate_target_root n allowed) (\<lambda>_. Inr ()))
        (filter (\<lambda>n. n \<notin> REQUIRED_ENVELOPE_ENTRIES \<and> \<not> is_signature_entry n) names))"

subsection \<open>The dispatch\<close>

definition lift_code :: "'a checked \<Rightarrow> 'a rpc" where
  "lift_code r = map_sum Bundle id r"

definition item :: "string \<Rightarrow> json \<Rightarrow> json rpc" where
  "item k v = (case v of JObj kvs \<Rightarrow> of_option BadRequest (map_of kvs (lit k)) | _ \<Rightarrow> Inl Uncaught)"

definition text_item :: "host \<Rightarrow> string \<Rightarrow> json \<Rightarrow> pystr rpc" where
  "text_item h k v = bind_result (item k v) (\<lambda>x. Inr (case x of JStr s \<Rightarrow> s | _ \<Rightarrow> str_of h x))"

definition json_truth :: "host \<Rightarrow> json \<Rightarrow> bool" where
  "json_truth h v = (case v of
     JNull \<Rightarrow> False | JBool b \<Rightarrow> b | JInt i \<Rightarrow> i \<noteq> 0
   | JFloat t \<Rightarrow> str_of h v \<notin> lit ` {''0.0'', ''-0.0''}
   | JStr s \<Rightarrow> s \<noteq> [] | JArr xs \<Rightarrow> xs \<noteq> [] | JObj kvs \<Rightarrow> kvs \<noteq> [])"

definition bool_item :: "host \<Rightarrow> string \<Rightarrow> json \<Rightarrow> bool rpc" where
  "bool_item h k v = bind_result (item k v) (\<lambda>x. Inr (json_truth h x))"

text \<open>\<open>str(value).replace('Z', '+00:00')\<close>, parsed; a naive instant is one of UTC.\<close>

definition decode_datetime :: "host \<Rightarrow> json \<Rightarrow> int option rpc" where
  "decode_datetime h v =
     (case v of
        JNull \<Rightarrow> Inr None
      | _ \<Rightarrow>
          let text = (case v of JStr s \<Rightarrow> s | _ \<Rightarrow> str_of h v)
          in bind_result (of_option BadRequest
               (fromisoformat h (concat (map (\<lambda>c. if c = 90 then lit ''+00:00'' else [c]) text))))
               (\<lambda>d. Inr (Some (to_utc d))))"

definition decode_datetime_required :: "host \<Rightarrow> json \<Rightarrow> int rpc" where
  "decode_datetime_required h v =
     bind_result (decode_datetime h v) (\<lambda>t. of_option (Bundle SCHEMA_VIOLATION) t)"

definition datetime_item :: "host \<Rightarrow> string \<Rightarrow> json \<Rightarrow> int rpc" where
  "datetime_item h k v = bind_result (item k v) (decode_datetime_required h)"

definition decode_signature :: "host \<Rightarrow> json \<Rightarrow> signature_evidence rpc" where
  "decode_signature h v =
     bind_result (text_item h ''role'' v) (\<lambda>r.
     bind_result (text_item h ''thumbprint'' v) (\<lambda>t.
     bind_result (text_item h ''subject'' v) (\<lambda>s.
     bind_result (text_item h ''eku_oid'' v) (\<lambda>e.
     bind_result (bool_item h ''signature_valid'' v) (\<lambda>sv.
     bind_result (bool_item h ''chain_valid'' v) (\<lambda>cv.
     bind_result (datetime_item h ''not_before'' v) (\<lambda>nb.
     bind_result (datetime_item h ''not_after'' v) (\<lambda>na.
       Inr \<lparr>sig_role = r, sig_thumbprint = t, sig_subject = s, sig_eku_oid = e, signature_valid = sv,
         chain_valid = cv, sig_not_before = nb, sig_not_after = na\<rparr>))))))))"

definition decode_recipient :: "host \<Rightarrow> json \<Rightarrow> recipient_evidence rpc" where
  "decode_recipient h v =
     bind_result (text_item h ''target_environment_id'' v) (\<lambda>te.
     bind_result (text_item h ''thumbprint'' v) (\<lambda>t.
     bind_result (text_item h ''subject'' v) (\<lambda>s.
     bind_result (text_item h ''eku_oid'' v) (\<lambda>e.
     bind_result (bool_item h ''has_private_key'' v) (\<lambda>pk.
     bind_result (datetime_item h ''not_before'' v) (\<lambda>nb.
     bind_result (datetime_item h ''not_after'' v) (\<lambda>na.
       Inr \<lparr>rec_target_environment_id = te, rec_thumbprint = t, rec_subject = s, rec_eku_oid = e,
         has_private_key = pk, rec_not_before = nb, rec_not_after = na\<rparr>)))))))"

definition decode_ace :: "host \<Rightarrow> json \<Rightarrow> ace_entry rpc" where
  "decode_ace h v =
     bind_result (text_item h ''identity_sid'' v) (\<lambda>i.
     bind_result (text_item h ''rights'' v) (\<lambda>r.
     bind_result (bool_item h ''is_inherited'' v) (\<lambda>b.
       Inr \<lparr>identity_sid = i, rights = r, is_inherited = b\<rparr>)))"

text \<open>Iteration over a value: a list, the keys of an object, the characters of a text.\<close>

definition iterate :: "json \<Rightarrow> json list rpc" where
  "iterate v = (case v of
     JArr xs \<Rightarrow> Inr xs | JObj kvs \<Rightarrow> Inr (map (JStr \<circ> fst) kvs) | JStr s \<Rightarrow> Inr (map (\<lambda>c. JStr [c]) s)
   | _ \<Rightarrow> Inl Uncaught)"

text \<open>Of the allowed roots only the texts can equal the first part of a path. An entry name
  that is no text ends in an uncaught error, unless an earlier check refuses the list.\<close>

definition texts :: "json list \<Rightarrow> pystr list" where
  "texts xs = concat (map (\<lambda>x. case x of JStr s \<Rightarrow> [s] | _ \<Rightarrow> []) xs)"

definition all_texts :: "json list \<Rightarrow> pystr list rpc" where
  "all_texts xs = of_option Uncaught (map_opt json_text xs)"

definition approval_item :: "host \<Rightarrow> json \<Rightarrow> approval rpc" where
  "approval_item h v =
     bind_result (item ''approval'' v) (\<lambda>a. of_option BadRequest (validate_approval_record h a))"

definition raw_item :: "host \<Rightarrow> string \<Rightarrow> json \<Rightarrow> bytes rpc" where
  "raw_item h k v = bind_result (text_item h k v) (\<lambda>s. of_option BadRequest (b64decode h s))"

text \<open>\<open>json.loads(model.model_dump_json())\<close>.\<close>

definition dump_approval :: "host \<Rightarrow> approval \<Rightarrow> json" where
  "dump_approval h a = JObj
     [(lit ''schema_version'', JStr (ap_schema_version a)), (lit ''request_id'', JStr (ap_request_id a)),
      (lit ''ticket_id'', JStr (ap_ticket_id a)), (lit ''purpose'', JStr (ap_purpose a)),
      (lit ''issued_at'', JStr (dump_instant h (ap_issued_at a))),
      (lit ''expires_at'', JStr (dump_instant h (ap_expires_at a))),
      (lit ''target_environment_id'', JStr (ap_target_environment_id a)),
      (lit ''recipient_thumbprint'', JStr (ap_recipient_thumbprint a)),
      (lit ''allowed_roots'', JArr (map JStr (ap_allowed_roots a))),
      (lit ''source_inventory_sha256'', JStr (ap_source_inventory_sha256 a)),
      (lit ''include_nsa'', JBool (ap_include_nsa a))]"

definition dump_party :: "string \<Rightarrow> trust_party \<Rightarrow> json" where
  "dump_party k p = JObj
     [(lit k, JStr (tp_role p)), (lit ''thumbprint'', JStr (tp_thumbprint p)),
      (lit ''subject'', JStr (tp_subject p)), (lit ''eku_oid'', JStr (tp_eku_oid p))]"

definition dump_policy :: "host \<Rightarrow> trust_policy \<Rightarrow> json" where
  "dump_policy h p = JObj
     [(lit ''schema_version'', JStr (pol_schema_version p)), (lit ''policy_id'', JStr (pol_policy_id p)),
      (lit ''expires_at'', JStr (dump_instant h (pol_expires_at p))),
      (lit ''max_approval_ttl_hours'', JInt (pol_max_approval_ttl_hours p)),
      (lit ''allowed_roots'', JArr (map JStr (pol_allowed_roots p))),
      (lit ''signers'', JArr (map (dump_party ''role'') (pol_signers p))),
      (lit ''recipients'', JArr (map (dump_party ''target_environment_id'') (pol_recipients p)))]"

definition status_ok :: "(pystr \<times> json) list \<Rightarrow> json" where
  "status_ok rest = JObj ((lit ''status'', JStr (lit ''ok'')) # rest)"

definition dispatch_rpc :: "host \<Rightarrow> json \<Rightarrow> json rpc" where
  "dispatch_rpc h req =
     (if \<not> is_obj req then Inl Uncaught
      else
      let act = obj_get (lit ''action'') req
      in
      bind_result (decode_datetime h (case obj_get (lit ''now'') req of None \<Rightarrow> JNull | Some v \<Rightarrow> v)) (\<lambda>t.
      if act = Some (JStr (lit ''parse_approval'')) then
        bind_result (raw_item h ''raw_base64'' req) (\<lambda>raw.
        bind_result (parse_approval_strict h raw t) (\<lambda>a.
          Inr (status_ok [(lit ''bundle_type'', JStr (classify_bundle_type a)),
            (lit ''approval'', dump_approval h a)])))
      else if act = Some (JStr (lit ''validate_signers'')) then
        bind_result (item ''signatures'' req) (\<lambda>ss.
        bind_result (iterate ss) (\<lambda>xs.
        bind_result (map_result (decode_signature h) xs) (\<lambda>sigs.
        bind_result (text_item h ''bundle_type'' req) (\<lambda>bt.
        bind_result (lift_code (validate_signers h bt sigs t)) (\<lambda>_. Inr (status_ok []))))))
      else if act = Some (JStr (lit ''validate_recipient'')) then
        bind_result (approval_item h req) (\<lambda>a.
        bind_result (item ''recipient'' req) (\<lambda>v.
        bind_result (decode_recipient h v) (\<lambda>r.
        bind_result (lift_code (validate_recipient h a r t)) (\<lambda>_. Inr (status_ok [])))))
      else if act = Some (JStr (lit ''validate_trust_policy'')) then
        bind_result (raw_item h ''policy_raw_base64'' req) (\<lambda>raw.
          let pinned = (case obj_get (lit ''pinned_sha256'') req of
                None \<Rightarrow> None | Some JNull \<Rightarrow> None | Some (JStr s) \<Rightarrow> Some s | Some v \<Rightarrow> Some (str_of h v))
          in bind_result (parse_trust_policy h raw pinned t) (\<lambda>pol.
               let ok = status_ok [(lit ''policy'', dump_policy h pol)]
               in if obj_get (lit ''approval'') req = None then Inr ok
                  else
                    bind_result (approval_item h req) (\<lambda>a.
                    bind_result (lift_code (validate_approval_against_trust_policy a pol)) (\<lambda>_. Inr ok))))
      else if act = Some (JStr (lit ''validate_acl'')) then
        bind_result (item ''aces'' req) (\<lambda>v.
        bind_result (iterate v) (\<lambda>xs.
        bind_result (map_result (decode_ace h) xs) (\<lambda>aces.
        bind_result (bool_item h ''inheritance_disabled'' req) (\<lambda>dis.
        bind_result (text_item h ''system_sid'' req) (\<lambda>sys.
        bind_result (text_item h ''administrators_sid'' req) (\<lambda>adm.
        bind_result (text_item h ''authorized_sid'' req) (\<lambda>auth.
        bind_result (lift_code (validate_trust_policy_acl aces dis sys adm auth)) (\<lambda>_. Inr (status_ok [])))))))))
      else if act = Some (JStr (lit ''validate_envelope_entries'')) then
        bind_result (item ''entry_names'' req) (\<lambda>v.
        bind_result (iterate v) (\<lambda>xs.
        bind_result (all_texts xs) (\<lambda>names.
        bind_result (item ''allowed_roots'' req) (\<lambda>w.
        bind_result (iterate w) (\<lambda>roots.
        bind_result (lift_code (validate_envelope_entries names (texts roots))) (\<lambda>_. Inr (status_ok [])))))))
      else if act = Some (JStr (lit ''validate_inventory'')) then
        bind_result (raw_item h ''inventory_raw_base64'' req) (\<lambda>raw.
        bind_result (approval_item h req) (\<lambda>a.
        bind_result (validate_inventory h raw a) (\<lambda>inv. Inr (status_ok [(lit ''inventory'', inv)]))))
      else if act = Some (JStr (lit ''validate_aes_oid'')) then
        bind_result (text_item h ''oid'' req) (\<lambda>oid.
        bind_result (lift_code (validate_aes_oid oid)) (\<lambda>_. Inr (status_ok [])))
      else if act = Some (JStr (lit ''validate_target_root'')) then
        bind_result (text_item h ''target_root'' req) (\<lambda>target.
        bind_result (item ''allowed_roots'' req) (\<lambda>w.
        bind_result (iterate w) (\<lambda>roots.
        bind_result (lift_code (validate_target_root target (texts roots))) (\<lambda>top.
          Inr (status_ok [(lit ''root'', JStr top)])))))
      else Inl (Bundle SCHEMA_VIOLATION)))"

text \<open>The command line: what is written to standard output with exit code 0, or to standard
  error with exit code 1 (of a schema violation outside the checks, the first words), or a
  traceback.\<close>

datatype outcome = Printed json | Failed pystr | Crashed

definition main_rpc :: "host \<Rightarrow> bytes \<Rightarrow> outcome" where
  "main_rpc h raw =
     (case bind_result (of_option BadRequest (utf8_decode raw)) (\<lambda>text.
           bind_result (of_option BadRequest (loads_pairs text)) (\<lambda>v.
             if ints_readable v then dispatch_rpc h (dict_of_pairs v) else Inl BadRequest)) of
        Inr v \<Rightarrow> Printed v
      | Inl (Bundle c) \<Rightarrow> Failed (lit (code_value c))
      | Inl BadRequest \<Rightarrow> Failed (lit ''schema-violation: '')
      | Inl Uncaught \<Rightarrow> Crashed)"

definition main_default :: "host \<Rightarrow> bytes \<Rightarrow> outcome" where
  "main_default h raw =
     (case parse_approval_strict h raw None of
        Inr a \<Rightarrow> Printed (dump_approval h a)
      | Inl (Bundle c) \<Rightarrow> Failed (lit (code_value c))
      | Inl _ \<Rightarrow> Crashed)"

subsection \<open>The strict reader against \<open>json.loads\<close>\<close>

lemma strict_elems_Suc: "strict_elems (Suc f) s = Inr (xs, u) \<longleftrightarrow>
    (\<exists>x r c r1. strict_value f s = Inr (x, r) \<and> skip_ws r = c # r1 \<and>
      (c = 93 \<and> xs = [x] \<and> u = r1 \<or> c = 44 \<and> (\<exists>ys. strict_elems f (skip_ws r1) = Inr (ys, u) \<and> xs = x # ys)))"
proof (cases "strict_value f s")
  case (Inr p)
  obtain x r where "p = (x, r)" by (cases p)
  with Inr show ?thesis by (cases "skip_ws r") (auto simp: result_simps)
qed simp

lemma parse_elems_Suc: "parse_elems (Suc f) s = Some (xs, u) \<longleftrightarrow>
    (\<exists>x r c r1. parse_value f s = Some (x, r) \<and> skip_ws r = c # r1 \<and>
      (c = 93 \<and> xs = [x] \<and> u = r1 \<or> c = 44 \<and> (\<exists>ys. parse_elems f (skip_ws r1) = Some (ys, u) \<and> xs = x # ys)))"
proof (cases "parse_value f s")
  case (Some p)
  obtain x r where "p = (x, r)" by (cases p)
  with Some show ?thesis by (cases "skip_ws r") auto
qed simp

lemma strict_members_Suc: "strict_members (Suc f) s = Inr (kvs, u) \<longleftrightarrow>
    (\<exists>k r x r1 c r2. take 1 s = [34] \<and> parse_string (drop 1 s) = Some (k, r) \<and> take 1 (skip_ws r) = [58] \<and>
      strict_value f (skip_ws (drop 1 (skip_ws r))) = Inr (x, r1) \<and> skip_ws r1 = c # r2 \<and>
      (c = 125 \<and> kvs = [(k, x)] \<and> u = r2 \<or>
       c = 44 \<and> (\<exists>ys. strict_members f (skip_ws r2) = Inr (ys, u) \<and> kvs = (k, x) # ys)))"
proof (cases "take 1 s = [34] \<and> parse_string (drop 1 s) \<noteq> None")
  case True
  then obtain k r where k: "take 1 s = [34]" "parse_string (drop 1 s) = Some (k, r)" by auto
  show ?thesis
  proof (cases "take 1 (skip_ws r) = [58] \<and> is_ok (strict_value f (skip_ws (drop 1 (skip_ws r))))")
    case True
    then obtain x r1 where "take 1 (skip_ws r) = [58]" "strict_value f (skip_ws (drop 1 (skip_ws r))) = Inr (x, r1)"
      by (auto simp: is_ok_iff)
    with k show ?thesis by (cases "skip_ws r1") (auto simp: result_simps of_option_def)
  next
    case False
    with k show ?thesis by (auto simp: result_simps is_ok_iff of_option_def)
  qed
qed (auto simp: result_simps)

lemma parse_members_Suc: "parse_members (Suc f) s = Some (kvs, u) \<longleftrightarrow>
    (\<exists>k r x r1 c r2. take 1 s = [34] \<and> parse_string (drop 1 s) = Some (k, r) \<and> take 1 (skip_ws r) = [58] \<and>
      parse_value f (skip_ws (drop 1 (skip_ws r))) = Some (x, r1) \<and> skip_ws r1 = c # r2 \<and>
      (c = 125 \<and> kvs = [(k, x)] \<and> u = r2 \<or>
       c = 44 \<and> (\<exists>ys. parse_members f (skip_ws r2) = Some (ys, u) \<and> kvs = (k, x) # ys)))"
proof (cases "take 1 s = [34] \<and> parse_string (drop 1 s) \<noteq> None")
  case True
  then obtain k r where k: "take 1 s = [34]" "parse_string (drop 1 s) = Some (k, r)" by auto
  show ?thesis
  proof (cases "take 1 (skip_ws r) = [58] \<and> parse_value f (skip_ws (drop 1 (skip_ws r))) \<noteq> None")
    case True
    then obtain x r1 where "take 1 (skip_ws r) = [58]" "parse_value f (skip_ws (drop 1 (skip_ws r))) = Some (x, r1)"
      by auto
    with k show ?thesis by (cases "skip_ws r1") auto
  next
    case False
    with k show ?thesis by (auto split: option.splits)
  qed
qed (auto split: option.splits)

lemma parse_atom_dict_ok: "parse_atom s = Some (v, r) \<Longrightarrow> dict_ok v"
  by (auto simp: parse_atom_def parse_number_def Let_def split: if_splits)

text \<open>Keys once each and integers short, at every depth.\<close>

definition json_strict :: "json \<Rightarrow> bool" where
  "json_strict v \<longleftrightarrow> dict_ok v \<and> ints_readable v"

lemma json_strict_simps [simp]:
  "json_strict (JStr t)" "json_strict (JArr xs) \<longleftrightarrow> (\<forall>x \<in> set xs. json_strict x)"
  "json_strict (JObj kvs) \<longleftrightarrow> distinct (map fst kvs) \<and> (\<forall>kv \<in> set kvs. json_strict (snd kv))"
  by (auto simp: json_strict_def list_all_iff)

lemma parse_atom_strict: "parse_atom s = Some (v, r) \<Longrightarrow> json_strict v \<longleftrightarrow> ints_readable v"
  by (simp add: json_strict_def parse_atom_dict_ok)

lemma strict_iff:
  "strict_value f s = Inr (v, r) \<longleftrightarrow> parse_value f s = Some (v, r) \<and> json_strict v"
  "strict_elems f s = Inr (xs, r) \<longleftrightarrow> parse_elems f s = Some (xs, r) \<and> (\<forall>x \<in> set xs. json_strict x)"
  "strict_members f s = Inr (kvs, r) \<longleftrightarrow>
     parse_members f s = Some (kvs, r) \<and> (\<forall>kv \<in> set kvs. json_strict (snd kv))"
proof (induction f s and f s and f s arbitrary: v r and xs r and kvs r
    rule: strict_value_strict_elems_strict_members.induct)
  case (2 f s)
  show ?case
  proof (cases s)
    case (Cons c cs)
    consider "c = 34" | "c = 123" | "c = 91" | "c \<noteq> 34" "c \<noteq> 123" "c \<noteq> 91" by blast
    then show ?thesis
    proof cases
      case 1
      then show ?thesis using Cons by (auto simp: result_simps)
    next
      case 2
      then show ?thesis using Cons "2.IH"(1) [of c cs]
        by (auto simp: result_simps no_duplicate_keys_def)
    next
      case 3
      then show ?thesis using Cons "2.IH"(2) [of c cs] by (auto simp: result_simps)
    next
      case 4
      then show ?thesis using Cons
        by (auto simp: result_simps parse_atom_strict split: option.splits if_splits)
    qed
  qed simp
next
  case (4 f s)
  have "(strict_elems f (skip_ws w) = Inr (ys, u)) = (parse_elems f (skip_ws w) = Some (ys, u) \<and> (\<forall>x \<in> set ys. json_strict x))"
    if "strict_value f s = Inr (x, t)" "skip_ws t = 44 # w" for x t w ys u
    using that by (intro "4.IH"(2)) auto
  then show ?case unfolding strict_elems_Suc parse_elems_Suc by (auto simp: "4.IH"(1))
next
  case (6 f s)
  have v: "(strict_value f (skip_ws (drop 1 (skip_ws t))) = Inr (x, w)) =
      (parse_value f (skip_ws (drop 1 (skip_ws t))) = Some (x, w) \<and> json_strict x)"
    if "take 1 s = [34]" "parse_string (drop 1 s) = Some (k, t)" "take 1 (skip_ws t) = [58]" for k t x w
    using that by (intro "6.IH"(1)) (auto simp: of_option_def)
  have m: "(strict_members f (skip_ws w2) = Inr (ys, u)) =
      (parse_members f (skip_ws w2) = Some (ys, u) \<and> (\<forall>kv \<in> set ys. json_strict (snd kv)))"
    if "take 1 s = [34]" "parse_string (drop 1 s) = Some (k, t)" "take 1 (skip_ws t) = [58]"
      "strict_value f (skip_ws (drop 1 (skip_ws t))) = Inr (x, w)" "skip_ws w = 44 # w2" for k t x w w2 ys u
    using that by (intro "6.IH"(2)) (auto simp: of_option_def)
  show ?case unfolding strict_members_Suc parse_members_Suc
  proof (intro iffI; elim exE conjE disjE)
    fix k t x w c w2
    assume *: "take 1 s = [34]" "parse_string (drop 1 s) = Some (k, t)" "take 1 (skip_ws t) = [58]"
      "strict_value f (skip_ws (drop 1 (skip_ws t))) = Inr (x, w)" "skip_ws w = c # w2"
      "c = 125" "kvs = [(k, x)]" "r = w2"
    with v [OF *(1-3), of x w]
    show "(\<exists>k t x w c w2. take 1 s = [34] \<and> parse_string (drop 1 s) = Some (k, t) \<and> take 1 (skip_ws t) = [58] \<and>
      parse_value f (skip_ws (drop 1 (skip_ws t))) = Some (x, w) \<and> skip_ws w = c # w2 \<and>
      (c = 125 \<and> kvs = [(k, x)] \<and> r = w2 \<or>
       c = 44 \<and> (\<exists>ys. parse_members f (skip_ws w2) = Some (ys, r) \<and> kvs = (k, x) # ys))) \<and>
       (\<forall>kv \<in> set kvs. json_strict (snd kv))" by auto
  next
    fix k t x w c w2 ys
    assume *: "take 1 s = [34]" "parse_string (drop 1 s) = Some (k, t)" "take 1 (skip_ws t) = [58]"
      "strict_value f (skip_ws (drop 1 (skip_ws t))) = Inr (x, w)" "skip_ws w = c # w2"
      "c = 44" "strict_members f (skip_ws w2) = Inr (ys, r)" "kvs = (k, x) # ys"
    with v [OF *(1-3), of x w] m [OF *(1-4), of w2 ys r]
    show "(\<exists>k t x w c w2. take 1 s = [34] \<and> parse_string (drop 1 s) = Some (k, t) \<and> take 1 (skip_ws t) = [58] \<and>
      parse_value f (skip_ws (drop 1 (skip_ws t))) = Some (x, w) \<and> skip_ws w = c # w2 \<and>
      (c = 125 \<and> kvs = [(k, x)] \<and> r = w2 \<or>
       c = 44 \<and> (\<exists>ys. parse_members f (skip_ws w2) = Some (ys, r) \<and> kvs = (k, x) # ys))) \<and>
       (\<forall>kv \<in> set kvs. json_strict (snd kv))" by auto
  next
    fix k t x w c w2
    assume *: "\<forall>kv \<in> set kvs. json_strict (snd kv)"
      "take 1 s = [34]" "parse_string (drop 1 s) = Some (k, t)" "take 1 (skip_ws t) = [58]"
      "parse_value f (skip_ws (drop 1 (skip_ws t))) = Some (x, w)" "skip_ws w = c # w2"
      "c = 125" "kvs = [(k, x)]" "r = w2"
    with v [OF *(2-4), of x w]
    show "\<exists>k t x w c w2. take 1 s = [34] \<and> parse_string (drop 1 s) = Some (k, t) \<and> take 1 (skip_ws t) = [58] \<and>
      strict_value f (skip_ws (drop 1 (skip_ws t))) = Inr (x, w) \<and> skip_ws w = c # w2 \<and>
      (c = 125 \<and> kvs = [(k, x)] \<and> r = w2 \<or>
       c = 44 \<and> (\<exists>ys. strict_members f (skip_ws w2) = Inr (ys, r) \<and> kvs = (k, x) # ys))" by auto
  next
    fix k t x w c w2 ys
    assume *: "\<forall>kv \<in> set kvs. json_strict (snd kv)"
      "take 1 s = [34]" "parse_string (drop 1 s) = Some (k, t)" "take 1 (skip_ws t) = [58]"
      "parse_value f (skip_ws (drop 1 (skip_ws t))) = Some (x, w)" "skip_ws w = c # w2"
      "c = 44" "parse_members f (skip_ws w2) = Some (ys, r)" "kvs = (k, x) # ys"
    have x: "strict_value f (skip_ws (drop 1 (skip_ws t))) = Inr (x, w)" using v [OF *(2-4), of x w] * by simp
    from m [OF *(2-4) x, of w2 ys r] x *
    show "\<exists>k t x w c w2. take 1 s = [34] \<and> parse_string (drop 1 s) = Some (k, t) \<and> take 1 (skip_ws t) = [58] \<and>
      strict_value f (skip_ws (drop 1 (skip_ws t))) = Inr (x, w) \<and> skip_ws w = c # w2 \<and>
      (c = 125 \<and> kvs = [(k, x)] \<and> r = w2 \<or>
       c = 44 \<and> (\<exists>ys. strict_members f (skip_ws w2) = Inr (ys, r) \<and> kvs = (k, x) # ys))" by auto
  qed
qed simp_all

text \<open>A refusal: of the errors of the reader, one that the text gives rise to.\<close>

definition refused_for :: "bool \<Rightarrow> bool \<Rightarrow> rpc_error set" where
  "refused_for keys_ok ints_ok =
     (if keys_ok then {} else {Bundle DUPLICATE_JSON_KEY}) \<union> (if ints_ok then {} else {BadRequest})"

lemma refused_for_mono: "e \<in> refused_for a b \<Longrightarrow> (a' \<longrightarrow> a) \<Longrightarrow> (b' \<longrightarrow> b) \<Longrightarrow> e \<in> refused_for a' b'"
  by (auto simp: refused_for_def split: if_splits)

lemma refused_for_conj: "e \<in> refused_for a b \<Longrightarrow> e \<in> refused_for (a \<and> c) (b \<and> d)"
  "e \<in> refused_for c d \<Longrightarrow> e \<in> refused_for (a \<and> c) (b \<and> d)"
  by (auto simp: refused_for_def split: if_splits)

lemma strict_error:
  "strict_value f s = Inl e \<Longrightarrow> e \<in> insert (Bundle INVALID_JSON) (refused_for False False) \<and>
     (\<forall>v r. parse_value f s = Some (v, r) \<longrightarrow> e \<in> refused_for (dict_ok v) (ints_readable v))"
  "strict_elems f s = Inl e \<Longrightarrow> e \<in> insert (Bundle INVALID_JSON) (refused_for False False) \<and>
     (\<forall>xs r. parse_elems f s = Some (xs, r) \<longrightarrow> e \<in> refused_for (\<forall>x \<in> set xs. dict_ok x) (\<forall>x \<in> set xs. ints_readable x))"
  "strict_members f s = Inl e \<Longrightarrow> e \<in> insert (Bundle INVALID_JSON) (refused_for False False) \<and>
     (\<forall>kvs r. parse_members f s = Some (kvs, r) \<longrightarrow>
        e \<in> refused_for (\<forall>kv \<in> set kvs. dict_ok (snd kv)) (\<forall>kv \<in> set kvs. ints_readable (snd kv)))"
proof (induction f s and f s and f s arbitrary: e and e and e
    rule: strict_value_strict_elems_strict_members.induct)
  case (2 f s)
  show ?case
  proof (cases s)
    case Nil
    with 2 show ?thesis by simp
  next
    case (Cons c cs)
    consider "c = 34" | "c = 123" | "c = 91" | "c \<noteq> 34" "c \<noteq> 123" "c \<noteq> 91" by blast
    then show ?thesis
    proof cases
      case 1
      with 2 Cons show ?thesis by (auto simp: result_simps)
    next
      case 2
      with Cons "2.prems" have some: "take 1 (skip_ws cs) \<noteq> [125]" by auto
      note one = "2.IH"(1) [OF Cons _ 2 some]
      show ?thesis
      proof (cases "strict_members f (skip_ws cs)")
        case (Inl e')
        with Cons 2 some "2.prems" have "e' = e" by simp
        with Inl one 2 have i: "e \<in> insert (Bundle INVALID_JSON) (refused_for False False)"
          "parse_members f (skip_ws cs) = Some (kvs, r) \<Longrightarrow>
            e \<in> refused_for (\<forall>kv \<in> set kvs. dict_ok (snd kv)) (\<forall>kv \<in> set kvs. ints_readable (snd kv))" for kvs r
          by auto
        have "e \<in> refused_for (dict_ok v) (ints_readable v)" if v: "parse_value (Suc f) s = Some (v, r)" for v r
        proof -
          from v Cons 2 some obtain kvs where "parse_members f (skip_ws cs) = Some (kvs, r)" "v = JObj kvs" by auto
          then show ?thesis using i(2) by (simp add: list_all_iff case_prod_beta) (erule refused_for_mono, simp_all)
        qed
        with i(1) show ?thesis by blast
      next
        case (Inr p)
        then obtain kvs u where p: "strict_members f (skip_ws cs) = Inr (kvs, u)" by (cases p) auto
        with Cons 2 some "2.prems" have "e = Bundle DUPLICATE_JSON_KEY" "\<not> distinct (map fst kvs)"
          by (auto simp: no_duplicate_keys_def split: if_splits)
        moreover from p have "parse_members f (skip_ws cs) = Some (kvs, u)" by (simp add: strict_iff)
        ultimately show ?thesis using Cons 2 some by (auto simp: refused_for_def)
      qed
    next
      case 3
      then show ?thesis using Cons "2.prems" "2.IH"(2) [of c cs]
        by (auto simp: result_simps refused_for_def list_all_iff split: if_splits)
    next
      case 4
      then show ?thesis using Cons "2.prems"
        by (auto simp: refused_for_def dest: parse_atom_dict_ok split: option.splits if_splits)
    qed
  qed
next
  case (4 f s)
  show ?case
  proof (cases "strict_value f s")
    case (Inl e')
    with "4.prems" have "e' = e" by simp
    with Inl "4.IH"(1) have "e \<in> insert (Bundle INVALID_JSON) (refused_for False False)"
      "parse_value f s = Some (v, r) \<Longrightarrow> e \<in> refused_for (dict_ok v) (ints_readable v)" for v r by blast+
    then show ?thesis unfolding parse_elems_Suc by (auto intro: refused_for_conj)
  next
    case (Inr p)
    obtain x r where p: "p = (x, r)" by (cases p)
    with Inr have x: "parse_value f s = Some (x, r)" by (simp add: strict_iff)
    show ?thesis
    proof (cases "\<exists>r1. skip_ws r = 44 # r1")
      case True
      then obtain r1 where r1: "skip_ws r = 44 # r1" by blast
      with "4.prems" Inr p have "strict_elems f (skip_ws r1) = Inl e" by (auto simp: result_simps)
      from "4.IH"(2) [OF r1 _ refl this] show ?thesis
        unfolding parse_elems_Suc by (auto simp: x r1 intro: refused_for_conj)
    next
      case False
      with "4.prems" Inr p have "e = Bundle INVALID_JSON" "\<And>r1. skip_ws r \<noteq> 93 # r1"
        by (auto simp: result_simps split: list.splits if_splits)
      with False show ?thesis unfolding parse_elems_Suc by (auto simp: x)
    qed
  qed
next
  case (6 f s)
  show ?case
  proof (cases "take 1 s = [34] \<and> parse_string (drop 1 s) \<noteq> None")
    case True
    then obtain k t where k: "take 1 s = [34]" "parse_string (drop 1 s) = Some (k, t)" by auto
    then have o: "of_option (Bundle INVALID_JSON) (parse_string (drop 1 s)) = Inr (k, t)" by (simp add: of_option_def)
    show ?thesis
    proof (cases "take 1 (skip_ws t) = [58]")
      case colon: True
      let ?w = "skip_ws (drop 1 (skip_ws t))"
      show ?thesis
      proof (cases "strict_value f ?w")
        case (Inl e')
        with "6.prems" k o colon have "e' = e" by simp
        with Inl "6.IH"(1) [OF k(1) colon] have "e \<in> insert (Bundle INVALID_JSON) (refused_for False False)"
          "parse_value f ?w = Some (v, r) \<Longrightarrow> e \<in> refused_for (dict_ok v) (ints_readable v)" for v r by blast+
        then show ?thesis unfolding parse_members_Suc using k by (auto intro: refused_for_conj)
      next
        case (Inr p)
        obtain x r where p: "p = (x, r)" by (cases p)
        with Inr have x: "parse_value f ?w = Some (x, r)" by (simp add: strict_iff)
        show ?thesis
        proof (cases "\<exists>r2. skip_ws r = 44 # r2")
          case True
          then obtain r2 where r2: "skip_ws r = 44 # r2" by blast
          with "6.prems" Inr p k o colon have "strict_members f (skip_ws r2) = Inl e" by (auto simp: result_simps)
          from "6.IH"(2) [OF k(1) colon r2 _ refl this] show ?thesis
            unfolding parse_members_Suc using k by (auto simp: x [simplified] r2 intro: refused_for_conj)
        next
          case False
          with "6.prems" Inr p k o colon have "e = Bundle INVALID_JSON" "\<And>r2. skip_ws r \<noteq> 125 # r2"
            by (auto simp: result_simps split: list.splits if_splits)
          with False show ?thesis unfolding parse_members_Suc using k by (auto simp: x [simplified])
        qed
      qed
    next
      case False
      with "6.prems" k o have "e = Bundle INVALID_JSON" by simp
      with False k show ?thesis unfolding parse_members_Suc by auto
    qed
  next
    case False
    with "6.prems" have "e = Bundle INVALID_JSON"
      by (cases "take 1 s = [34]"; cases "parse_string (drop 1 s)") (simp_all add: of_option_def split: prod.splits)
    with False show ?thesis unfolding parse_members_Suc by auto
  qed
qed simp_all

lemma strict_loads_iff: "strict_loads s = Inr v \<longleftrightarrow> loads_pairs s = Some v \<and> json_strict v"
  unfolding strict_loads_def loads_pairs_def bind_result_Inr
  by (auto simp: strict_iff simp del: strict_value.simps parse_value.simps split: if_splits option.splits)

lemma strict_loads_error:
  "strict_loads s = Inl e \<Longrightarrow> e \<in> insert (Bundle INVALID_JSON) (refused_for False False)"
  "strict_loads s = Inl e \<Longrightarrow> loads_pairs s = Some v \<Longrightarrow> e \<in> refused_for (dict_ok v) (ints_readable v)"
proof -
  assume e: "strict_loads s = Inl e"
  show "e \<in> insert (Bundle INVALID_JSON) (refused_for False False)"
    using e strict_error(1) [of "Suc (length s)" "skip_ws s" e]
    by (auto simp: strict_loads_def result_simps simp del: strict_value.simps split: if_splits)
  assume "loads_pairs s = Some v"
  then obtain r where r: "parse_value (Suc (length s)) (skip_ws s) = Some (v, r)" "skip_ws r = []"
    by (auto simp: loads_pairs_def simp del: parse_value.simps split: option.splits if_splits)
  show "e \<in> refused_for (dict_ok v) (ints_readable v)"
  proof (cases "strict_value (Suc (length s)) (skip_ws s)")
    case (Inl e')
    with e strict_error(1) [OF Inl] r(1) show ?thesis by (auto simp: strict_loads_def simp del: strict_value.simps)
  next
    case (Inr p)
    obtain x t where p: "p = (x, t)" by (cases p)
    with Inr strict_iff(1) [of "Suc (length s)" "skip_ws s" x t] r(1) have "p = (v, r)" by simp
    with e Inr r(2) show ?thesis by (simp add: strict_loads_def del: strict_value.simps)
  qed
qed

subsection \<open>Properties\<close>

text \<open>
  C36 [strict_reader]: the strict reader accepts exactly the bytes that are UTF-8, that
  \<open>json.loads\<close> reads as an object, in which no object, at any depth, repeats a key, and whose
  integers have at most 4,300 digits; what it returns then is what \<open>json.loads\<close> returns. Text that is
  no JSON is refused in one of three ways. JSON is refused as invalid only when it is no object, as a repeated
  key only when a key is repeated, and with the plain \<open>ValueError\<close> of Python only for a longer integer. The
  interpreter's limit on the depth of nesting is not part of the model.
\<close>

theorem strict_reader:
  "(parse_strict_json_object raw = Inr v \<longleftrightarrow>
     (\<exists>s. utf8_decode raw = Some s \<and> loads_pairs s = Some v \<and> dict_ok v \<and> ints_readable v \<and>
        loads s = Some v \<and> is_obj v)) \<and>
   parse_strict_json_object raw \<in>
     (case utf8_decode raw of
        None \<Rightarrow> {Inl (Bundle INVALID_JSON)}
      | Some s \<Rightarrow>
          (case loads_pairs s of
             None \<Rightarrow> {Inl (Bundle INVALID_JSON), Inl (Bundle DUPLICATE_JSON_KEY), Inl BadRequest}
           | Some w \<Rightarrow>
               if dict_ok w \<and> ints_readable w then {if is_obj w then Inr w else Inl (Bundle INVALID_JSON)}
               else (if dict_ok w then {} else {Inl (Bundle DUPLICATE_JSON_KEY)}) \<union>
                 (if ints_readable w then {} else {Inl BadRequest})))"
proof (intro conjI)
  show "parse_strict_json_object raw = Inr v \<longleftrightarrow>
     (\<exists>s. utf8_decode raw = Some s \<and> loads_pairs s = Some v \<and> dict_ok v \<and> ints_readable v \<and>
        loads s = Some v \<and> is_obj v)"
    unfolding parse_strict_json_object_def
    by (auto simp: result_simps strict_loads_iff json_strict_def loads_def dict_of_pairs_id split: if_splits option.splits)
  let ?R = "\<lambda>s. case loads_pairs s of
             None \<Rightarrow> {Inl (Bundle INVALID_JSON), Inl (Bundle DUPLICATE_JSON_KEY), Inl BadRequest}
           | Some w \<Rightarrow>
               if dict_ok w \<and> ints_readable w then {if is_obj w then Inr w else Inl (Bundle INVALID_JSON)}
               else (if dict_ok w then {} else {Inl (Bundle DUPLICATE_JSON_KEY)}) \<union>
                 (if ints_readable w then {} else {Inl BadRequest})"
  have "bind_result (strict_loads s) (\<lambda>v. if is_obj v then Inr v else Inl (Bundle INVALID_JSON)) \<in> ?R s" for s
  proof (cases "strict_loads s")
    case (Inl e)
    have none: "\<not> json_strict w" if "loads_pairs s = Some w" for w
      using that strict_loads_iff [of s w] Inl by simp
    show ?thesis
    proof (cases "loads_pairs s")
      case None
      with Inl strict_loads_error(1) [OF Inl] show ?thesis by (auto simp: refused_for_def)
    next
      case (Some w)
      with Inl strict_loads_error(2) [OF Inl Some] none [OF Some] show ?thesis
        by (auto simp: refused_for_def json_strict_def split: if_splits)
    qed
  next
    case (Inr w)
    with strict_loads_iff [of s w] show ?thesis by (simp add: json_strict_def)
  qed
  then show "parse_strict_json_object raw \<in> (case utf8_decode raw of None \<Rightarrow> {Inl (Bundle INVALID_JSON)} | Some s \<Rightarrow> ?R s)"
    by (simp add: parse_strict_json_object_def split: option.splits)
qed

text \<open>
  C26 [approval_sound]: an accepted approval is one the rules allow. Its life is positive and at most a day,
  and the reference time lies in it; its roots are distinct and not empty; and it is either
  an NSA approval, for the NSA root alone, or a normal one, for normal roots only, as its
  flag and its classification both say.
\<close>

theorem approval_sound:
  assumes "parse_approval_strict h raw t = Inr a"
  shows "ap_issued_at a < ap_expires_at a \<and> ap_expires_at a - ap_issued_at a \<le> 24 * hour \<and>
    ap_issued_at a \<le> reference_time h t \<and> reference_time h t \<le> ap_expires_at a \<and>
    ap_allowed_roots a \<noteq> [] \<and> distinct (ap_allowed_roots a) \<and> thumbprint_pattern (ap_recipient_thumbprint a) \<and>
    (if ap_include_nsa a then set (ap_allowed_roots a) = NSA_ROOT \<and> classify_bundle_type a = lit ''nsa''
     else set (ap_allowed_roots a) \<subseteq> NORMAL_ROOTS \<and> classify_bundle_type a = lit ''normal'')"
proof -
  from assms obtain v where v: "validate_approval_record h v = Some a"
    and c: "ap_issued_at a < ap_expires_at a" "ap_expires_at a - ap_issued_at a \<le> MAX_APPROVAL_TTL"
      "ap_issued_at a \<le> reference_time h t" "reference_time h t \<le> ap_expires_at a"
      "set (ap_allowed_roots a) \<subseteq> ALL_ROOTS"
      "set (ap_allowed_roots a) \<inter> NSA_ROOT = {} \<or> set (ap_allowed_roots a) \<subseteq> NSA_ROOT"
      "(set (ap_allowed_roots a) = NSA_ROOT) = ap_include_nsa a"
    by (auto simp: parse_approval_strict_def result_simps Let_def split: if_splits)
  have r: "ap_allowed_roots a \<noteq> [] \<and> distinct (ap_allowed_roots a) \<and> thumbprint_pattern (ap_recipient_thumbprint a)"
    using v by (auto simp: validate_approval_record_def text_field_def split: if_splits option.splits)
  show ?thesis
  proof (cases "ap_include_nsa a")
    case True
    with c r show ?thesis by (simp add: MAX_APPROVAL_TTL_def classify_bundle_type_def)
  next
    case False
    have "set (ap_allowed_roots a) \<inter> NSA_ROOT = {}"
      using c(6,7) False r by (auto simp: NSA_ROOT_def subset_singleton_iff)
    with c r False show ?thesis
      by (auto simp: MAX_APPROVAL_TTL_def classify_bundle_type_def ALL_ROOTS_def)
  qed
qed

definition demo_host :: host where
  "demo_host = \<lparr>pydantic_datetime = (\<lambda>v. if v = JStr (lit ''A'') then Some (Datetime 0 (Some 0))
       else if v = JStr (lit ''B'') then Some (Datetime hour (Some 0)) else None),
     pydantic_bool = (\<lambda>v. case v of JBool b \<Rightarrow> Some b | _ \<Rightarrow> None), pydantic_int = (\<lambda>v. None),
     sha256_hexdigest = (\<lambda>b. []), b64decode = (\<lambda>s. None), fromisoformat = (\<lambda>s. None),
     str_of = (\<lambda>v. []), dump_instant = (\<lambda>t. []), clock = 1\<rparr>"

definition demo_approval_json :: json where
  "demo_approval_json = JObj
     [(lit ''schema_version'', JStr (lit ''1.0'')), (lit ''request_id'', JStr (lit ''r'')),
      (lit ''ticket_id'', JStr (lit ''t'')), (lit ''purpose'', JStr (lit ''p'')),
      (lit ''issued_at'', JStr (lit ''A'')), (lit ''expires_at'', JStr (lit ''B'')),
      (lit ''target_environment_id'', JStr (lit ''e'')),
      (lit ''recipient_thumbprint'', JStr (replicate 40 65)), (lit ''allowed_roots'', JArr [JStr (lit ''nsa'')]),
      (lit ''source_inventory_sha256'', JStr (replicate 64 97)), (lit ''include_nsa'', JBool True)]"

lemma demo_approval_valid: "\<exists>a. validate_approval_record demo_host demo_approval_json = Some a \<and>
    ap_schema_version a = lit ''1.0'' \<and> ap_issued_at a = 0 \<and> ap_expires_at a = hour \<and>
    ap_allowed_roots a = [lit ''nsa''] \<and> ap_include_nsa a"
  by (simp add: validate_approval_record_def demo_approval_json_def demo_host_def only_keys_def text_field_def
      instant_field_def list_field_def obj_get_def json_text_def json_list_def any_text_def non_empty_def
      thumbprint_pattern_def sha256_pattern_def is_upper_hex_def is_lower_hex_def is_digit_def to_utc_def)

lemma utf8_encode_total: "\<forall>c \<in> set s. c < 55296 \<Longrightarrow> utf8_encode s \<noteq> None"
proof -
  have "utf8_nums s \<noteq> None" if "\<forall>c \<in> set s. c < 55296"
    using that by (induction s) (auto simp: utf8_char_def is_surrogate_def split: option.splits)
  then show "\<forall>c \<in> set s. c < 55296 \<Longrightarrow> utf8_encode s \<noteq> None" by (auto simp: utf8_encode_def)
qed

lemma demo_approval_accepted:
  obtains raw a where "parse_approval_strict demo_host raw None = Inr a" "ap_include_nsa a"
proof -
  let ?text = "js_print Compact 0 demo_approval_json"
  have "\<forall>c \<in> set ?text. c < 55296"
    by (simp add: demo_approval_json_def js_string_def escape_char_def lit_def)
  then obtain raw where "utf8_encode ?text = Some raw" using utf8_encode_total by blast
  then have dec: "utf8_decode raw = Some ?text" by (rule utf8_roundtrip)
  have "loads_pairs ?text = Some demo_approval_json"
    by (rule loads_pairs_print) (simp add: demo_approval_json_def)
  moreover have "json_strict demo_approval_json" by (simp add: json_strict_def demo_approval_json_def)
  ultimately have "strict_loads ?text = Inr demo_approval_json"
    by (simp only: strict_loads_iff simp_thms)
  moreover have "is_obj demo_approval_json" by (simp add: demo_approval_json_def)
  ultimately have p: "parse_strict_json_object raw = Inr demo_approval_json"
    by (simp add: parse_strict_json_object_def dec)
  from demo_approval_valid obtain a where a: "validate_approval_record demo_host demo_approval_json = Some a"
    "ap_schema_version a = lit ''1.0''" "ap_issued_at a = 0" "ap_expires_at a = hour"
    "ap_allowed_roots a = [lit ''nsa'']" "ap_include_nsa a" by blast
  have "clock demo_host = 1" by (simp add: demo_host_def)
  then have "parse_approval_strict demo_host raw None = Inr a"
    using a by (simp add: parse_approval_strict_def p of_option_def SCHEMA_VERSION_def hour_def MAX_APPROVAL_TTL_def
        reference_time_def ALL_ROOTS_def NORMAL_ROOTS_def NSA_ROOT_def Let_def)
  with a(6) that show thesis by blast
qed

theorem approval_sound_witness:
  "\<exists>raw a. parse_approval_strict demo_host raw None = Inr a \<and> set (ap_allowed_roots a) = NSA_ROOT"
proof -
  obtain raw a where "parse_approval_strict demo_host raw None = Inr a" "ap_include_nsa a"
    by (rule demo_approval_accepted)
  with approval_sound [OF this(1)] show ?thesis by auto
qed

text \<open>
  C27 [dual_control]: a bundle is signed under dual control. The signatures pass exactly when there are
  two, by different certificates, in the two roles of the kind of bundle, each of which
  verifies, chains, is for signing documents and is within its validity.
\<close>

theorem dual_control:
  "validate_signers h kind sigs t = Inr () \<longleftrightarrow>
     (\<exists>s1 s2. sigs = [s1, s2] \<and> sig_thumbprint s1 \<noteq> sig_thumbprint s2 \<and>
        {sig_role s1, sig_role s2} =
          (if kind = lit ''nsa'' then {lit ''nsa_data_owner'', lit ''security_officer''}
           else {lit ''data_owner'', lit ''security_officer''}) \<and>
        sig_role s1 \<noteq> sig_role s2 \<and>
        list_all (\<lambda>s. sig_eku_oid s = DOCUMENT_SIGNING_EKU_OID \<and> signature_valid s \<and> chain_valid s \<and>
          sig_not_before s \<le> reference_time h t \<and> reference_time h t \<le> sig_not_after s) [s1, s2])"
proof -
  let ?roles = "if kind = lit ''nsa'' then NSA_SIGNER_ROLES else NORMAL_SIGNER_ROLES"
  have roles: "?roles = (if kind = lit ''nsa'' then {lit ''nsa_data_owner'', lit ''security_officer''}
           else {lit ''data_owner'', lit ''security_officer''})"
    by (simp add: NSA_SIGNER_ROLES_def NORMAL_SIGNER_ROLES_def)
  have two: "length (remdups [x, y]) = 2 \<longleftrightarrow> x \<noteq> y" for x y :: pystr by simp
  have one: "check_signature ex ref s = Inr () \<longleftrightarrow> sig_role s \<in> ex \<and> sig_eku_oid s = DOCUMENT_SIGNING_EKU_OID \<and>
      signature_valid s \<and> chain_valid s \<and> sig_not_before s \<le> ref \<and> ref \<le> sig_not_after s" for ex ref s
    by (auto simp: check_signature_def)
  have differ: "sig_role s1 \<noteq> sig_role s2" if "{sig_role s1, sig_role s2} = ?roles" for s1 s2 :: signature_evidence
    using that by (auto simp: roles doubleton_eq_iff split: if_splits)
  show ?thesis
  proof (cases "length sigs = 2")
    case True
    then obtain s1 s2 where s: "sigs = [s1, s2]" by (auto simp: length_Suc_conv numeral_2_eq_2)
    show ?thesis
      unfolding validate_signers_def Let_def s two roles [symmetric] using differ [of s1 s2]
      by (auto simp: one for_each_Inr simp del: for_each.simps)
  next
    case False
    then show ?thesis by (auto simp: validate_signers_def Let_def)
  qed
qed

text \<open>What an extractor makes of a relative path under a directory, with either separator.\<close>

fun walk :: "pystr list \<Rightarrow> pystr list \<Rightarrow> pystr list" where
  "walk dir [] = dir"
| "walk dir (p # ps) =
     walk (if p = [] \<or> p = lit ''.'' then dir else if p = lit ''..'' then butlast dir else dir @ [p]) ps"

definition extracted :: "pystr list \<Rightarrow> pystr \<Rightarrow> pystr list" where
  "extracted dir p = walk dir (split_on 47 (map (\<lambda>c. if c = 92 then 47 else c) p))"

lemma walk_plain: "\<forall>p \<in> set (filter (\<lambda>w. w \<noteq> []) ps). p \<noteq> lit ''.'' \<and> p \<noteq> lit ''..'' \<Longrightarrow>
    walk dir ps = dir @ filter (\<lambda>w. w \<noteq> []) ps"
  by (induction ps arbitrary: dir) auto

lemma target_root_contained:
  assumes "validate_target_root target roots = Inr root"
  shows "root \<in> set roots \<and> (\<exists>rest. \<forall>dir. extracted dir target = dir @ root # rest)"
proof -
  from assms have p: "path_parts target \<noteq> []" "\<forall>w \<in> set (path_parts target). w \<noteq> lit ''.'' \<and> w \<noteq> lit ''..''"
    "root = hd (path_parts target)" "root \<in> set roots"
    by (auto simp: validate_target_root_def Let_def split: if_splits)
  have "extracted dir target = dir @ path_parts target" for dir
    using walk_plain p(2) by (simp add: extracted_def path_parts_def)
  moreover have "path_parts target = root # tl (path_parts target)" using p(1,3) by simp
  ultimately have "\<forall>dir. extracted dir target = dir @ root # tl (path_parts target)" by metis
  with p(4) show ?thesis by blast
qed

text \<open>
  The content of an accepted envelope stays where it may be. Its entries are
  distinct, the approval and the inventory are among them, two are signatures, and every
  other one, extracted under any directory, lies below an allowed root of it, whichever
  separators and dots its name uses.
\<close>

theorem envelope_contained:
  assumes "validate_envelope_entries names roots = Inr ()"
  shows "distinct names \<and> REQUIRED_ENVELOPE_ENTRIES \<subseteq> set names \<and> length (filter is_signature_entry names) = 2 \<and>
    (\<forall>n \<in> set names. n \<in> REQUIRED_ENVELOPE_ENTRIES \<or> is_signature_entry n \<or>
       (\<exists>root \<in> set roots. \<exists>rest. \<forall>dir. extracted dir n = dir @ root # rest))"
proof -
  have "\<exists>root \<in> set roots. \<exists>rest. \<forall>dir. extracted dir n = dir @ root # rest"
    if "n \<in> set names" "n \<notin> REQUIRED_ENVELOPE_ENTRIES" "\<not> is_signature_entry n" for n
  proof -
    from assms that obtain root where "validate_target_root n roots = Inr root"
      by (auto simp: validate_envelope_entries_def result_simps split: if_splits)
    then show ?thesis using target_root_contained by blast
  qed
  with assms show ?thesis
    by (auto simp: validate_envelope_entries_def split: if_splits)
qed

definition demo_names :: "pystr list" where
  "demo_names = map lit [''approval.json'', ''inventory.json'', ''a.p7s'', ''b.p7s'', ''document/x'']"

lemma demo_names_accepted: "validate_envelope_entries demo_names [lit ''document''] = Inr ()"
proof -
  have "validate_target_root (lit ''document/x'') [lit ''document''] = Inr (lit ''document'')"
    by (simp add: validate_target_root_def path_parts_def starts_with_def lit_def)
  moreover have "is_signature_entry (lit ''a.p7s'')" "is_signature_entry (lit ''b.p7s'')"
    "\<not> is_signature_entry (lit ''document/x'')" "\<not> is_signature_entry (lit ''approval.json'')"
    "\<not> is_signature_entry (lit ''inventory.json'')"
    by (simp_all add: is_signature_entry_def starts_with_def lit_def)
  ultimately show ?thesis
    by (simp add: validate_envelope_entries_def demo_names_def REQUIRED_ENVELOPE_ENTRIES_def)
qed

theorem envelope_contained_witness:
  "validate_envelope_entries demo_names [lit ''document''] = Inr () \<and>
   REQUIRED_ENVELOPE_ENTRIES \<subseteq> set demo_names"
  using envelope_contained [OF demo_names_accepted] demo_names_accepted by blast

text \<open>
  The containment does not reach the signature entries. An envelope whose
  second signature names a path two levels above the extraction directory is accepted: the
  check of the target root, which refuses the name by itself, is applied to content entries
  only.
\<close>

theorem signature_names_unchecked:
  "validate_envelope_entries (map lit [''approval.json'', ''inventory.json'', ''a.p7s'', ''../../b.p7s'']) roots = Inr () \<and>
   validate_target_root (lit ''../../b.p7s'') roots = Inl PATH_TRAVERSAL \<and>
   extracted [lit ''tmp'', lit ''bundle''] (lit ''../../b.p7s'') = [lit ''b.p7s'']"
proof -
  have "is_signature_entry (lit ''a.p7s'')" "is_signature_entry (lit ''../../b.p7s'')"
    "\<not> is_signature_entry (lit ''approval.json'')" "\<not> is_signature_entry (lit ''inventory.json'')"
    by (simp_all add: is_signature_entry_def starts_with_def lit_def)
  moreover have "validate_target_root (lit ''../../b.p7s'') roots = Inl PATH_TRAVERSAL"
    by (simp add: validate_target_root_def path_parts_def starts_with_def lit_def)
  moreover have "extracted [lit ''tmp'', lit ''bundle''] (lit ''../../b.p7s'') = [lit ''b.p7s'']"
    by (simp add: extracted_def lit_def)
  ultimately show ?thesis
    by (simp add: validate_envelope_entries_def REQUIRED_ENVELOPE_ENTRIES_def)
qed

text \<open>
  The access list of the trust policy passes exactly when inheritance is off and it
  holds one explicit read entry for each of three distinct principals and nothing else.
\<close>

theorem acl_exact:
  "validate_trust_policy_acl aces off sys adm auth = Inr () \<longleftrightarrow>
     off \<and> length aces = 3 \<and> distinct (map identity_sid aces) \<and> set (map identity_sid aces) = {sys, adm, auth} \<and>
     distinct [sys, adm, auth] \<and> list_all (\<lambda>a. \<not> is_inherited a \<and> rights a = lit ''Read'') aces"
proof -
  let ?sids = "map identity_sid aces"
  let ?reads = "for_each (\<lambda>ace. require (rights ace = lit ''Read'') ACL_MISMATCH) aces"
  have unf: "validate_trust_policy_acl aces off sys adm auth = Inr () \<longleftrightarrow>
      off \<and> (\<forall>a \<in> set aces. \<not> is_inherited a) \<and> length aces = 3 \<and> set ?sids = {sys, adm, auth} \<and>
      length (remdups ?sids) = 3 \<and> ?reads = Inr ()"
    by (simp add: validate_trust_policy_acl_def Let_def del: for_each.simps length_remdups_card_conv) blast
  have reads: "?reads = Inr () \<longleftrightarrow> (\<forall>a \<in> set aces. rights a = lit ''Read'')"
    by (simp add: for_each_Inr require_Inr del: for_each.simps)
  have dist: "length (remdups ?sids) = 3 \<longleftrightarrow> distinct ?sids" if "length aces = 3"
    using that length_remdups_eq [of ?sids] by (simp only: length_map remdups_id_iff_distinct)
  have three: "distinct [sys, adm, auth]" if "length aces = 3" "distinct ?sids" "set ?sids = {sys, adm, auth}"
  proof -
    have "card {sys, adm, auth} = 3" using distinct_card [OF that(2)] that by simp
    then show ?thesis by (auto simp: card_insert_if split: if_splits)
  qed
  show ?thesis
  proof (cases "length aces = 3")
    case True
    show ?thesis unfolding unf reads dist [OF True] list_all_iff using three [OF True] by blast
  next
    case False
    then show ?thesis unfolding unf by blast
  qed
qed

end
