(* ===== verification/Office_Limits.thy ===== *)
theory Office_Limits
  imports Py_Text
begin

text \<open>
  The bounds that the Office uploads share (\<open>modules/office_tools/limits.py\<close>, first part):
  the decimal of a request header, read without building a number above its maximum, and
  the bound on the UTF-8 length of a file name, counted without encoding it. Both are shown
  equivalent to the direct computation they avoid.
\<close>

subsection \<open>Constants\<close>

definition OFFICE_STREAM_CHUNK_BYTES :: nat where "OFFICE_STREAM_CHUNK_BYTES = 64 * 1024"
definition MAX_ZIP_CENTRAL_DIRECTORY_BYTES :: nat where
  "MAX_ZIP_CENTRAL_DIRECTORY_BYTES = 2 * 1024 * 1024"
definition MAX_REPORT_ASSET_TOTAL_BYTES :: nat where
  "MAX_REPORT_ASSET_TOTAL_BYTES = 50 * 1024 * 1024"
definition SUPPORTED_ZIP_COMPRESSION_METHODS :: "nat set" where
  "SUPPORTED_ZIP_COMPRESSION_METHODS = {0, 8}"

subsection \<open>Bounded decimals\<close>

datatype decimal_error = Decimal_Value_Error | Decimal_Overflow_Error

text \<open>\<open>str\<close> refuses to print an integer of more than 4,300 digits.\<close>

definition bounded_decimal :: "bytes \<Rightarrow> int \<Rightarrow> (decimal_error, int) result" where
  "bounded_decimal value maximum =
     (let codes = map of_char value :: nat list
      in if maximum < 0 then Inl Decimal_Value_Error
         else if codes = [] \<or> (\<exists>c \<in> set codes. c < 48 \<or> 57 < c) then Inl Decimal_Value_Error
         else
           let stripped = dropWhile (\<lambda>c. c = 48) codes;
               normalized = (if stripped = [] then [48] else stripped);
               maximum_text = dec_digits (nat maximum)
           in if 4300 < length maximum_text then Inl Decimal_Value_Error
              else if length maximum_text < length normalized \<or>
                  length normalized = length maximum_text \<and> seq_less maximum_text normalized
                then Inl Decimal_Overflow_Error
              else Inr (int (dec_value normalized)))"

lemma dec_value_strip_zeros:
  "dec_value (dropWhile (\<lambda>c. c = 48) ds) = dec_value ds"
  by (induction ds) (simp_all add: dec_value_Cons)

lemma dec_value_zero: "dropWhile (\<lambda>c. c = 48) ds = [] \<Longrightarrow> dec_value [48] = dec_value ds"
  using dec_value_strip_zeros [of ds] by (simp add: dec_value_Cons del: dropWhile_eq_Nil_conv)

text \<open>A numeral of digits without a leading zero, or zero itself, as \<open>str\<close> prints it.\<close>

definition canonical_numeral :: "pystr \<Rightarrow> bool" where
  "canonical_numeral ds \<longleftrightarrow> ds \<noteq> [] \<and> (\<forall>c \<in> set ds. is_digit c) \<and> (hd ds = 48 \<longrightarrow> ds = [48])"

lemma canonical_dec_digits: "canonical_numeral (dec_digits n)"
  using hd_dec_digits [of n] dec_digits_are_digits [of _ n]
  by (cases "n = 0") (auto simp: canonical_numeral_def is_digit_def)

lemma canonical_longer:
  assumes "canonical_numeral xs" "canonical_numeral ys" "length xs < length ys"
  shows "dec_value xs < dec_value ys"
proof -
  have "hd ys \<noteq> 48" using assms by (auto simp: canonical_numeral_def)
  then have "10 ^ (length ys - 1) \<le> dec_value ys"
    using assms(2) by (intro dec_value_ge) (auto simp: canonical_numeral_def)
  moreover have "dec_value xs < 10 ^ length xs"
    using assms(1) by (intro dec_value_less) (auto simp: canonical_numeral_def)
  moreover have "(10::nat) ^ length xs \<le> 10 ^ (length ys - 1)"
    using assms(3) by (intro power_increasing) auto
  ultimately show ?thesis by linarith
qed

lemma canonical_less_iff:
  assumes "canonical_numeral xs" "canonical_numeral ys"
  shows "length xs < length ys \<or> length xs = length ys \<and> seq_less xs ys \<longleftrightarrow> dec_value xs < dec_value ys"
proof (cases "length xs" "length ys" rule: linorder_cases)
  case less
  with canonical_longer [OF assms] show ?thesis by simp
next
  case equal
  with assms seq_less_dec_value [of xs ys] show ?thesis by (auto simp: canonical_numeral_def)
next
  case greater
  with canonical_longer [OF assms(2,1)] show ?thesis by simp
qed

lemma canonical_normalized:
  assumes "ds \<noteq> []" "\<forall>c \<in> set ds. is_digit c"
  shows "canonical_numeral (if dropWhile (\<lambda>c. c = 48) ds = [] then [48] else dropWhile (\<lambda>c. c = 48) ds)"
  using assms hd_dropWhile [of "\<lambda>c. c = 48" ds]
  by (auto simp: canonical_numeral_def is_digit_def dest: set_dropWhileD simp del: dropWhile_eq_Nil_conv)

text \<open>
  The reader of decimals, which compares texts, agrees with the
  direct computation: it refuses what is no numeral, overflows exactly when the value is
  above the maximum, and otherwise returns the value. Leading zeros do not count, and a
  negative maximum, or one too long to be printed, is refused.
\<close>

theorem bounded_decimal_exact:
  "bounded_decimal value maximum =
     (let ds = map of_char value
      in if maximum < 0 \<or> 4300 < length (dec_digits (nat maximum)) \<or> ds = [] \<or> list_ex (\<lambda>c. c < 48 \<or> 57 < c) ds
         then Inl Decimal_Value_Error
         else if maximum < int (dec_value ds) then Inl Decimal_Overflow_Error
         else Inr (int (dec_value ds)))"
proof -
  define ds where "ds = (map of_char value :: nat list)"
  define norm where "norm = (if dropWhile (\<lambda>c. c = 48) ds = [] then [48] else dropWhile (\<lambda>c. c = 48) ds)"
  have digits: "(\<exists>c \<in> set ds. c < 48 \<or> 57 < c) \<longleftrightarrow> list_ex (\<lambda>c. c < 48 \<or> 57 < c) ds"
    by (simp add: list_ex_iff)
  have plain: "list_ex (\<lambda>c. c < 48 \<or> 57 < c) ds \<longleftrightarrow> \<not> list_all is_digit ds"
    by (simp add: list_all_iff list_ex_iff is_digit_def not_le)
  have val: "dec_value norm = dec_value ds"
    using dec_value_zero [of ds] dec_value_strip_zeros [of ds] by (simp only: norm_def split: if_split) blast
  show ?thesis
  proof (cases "maximum < 0 \<or> ds = [] \<or> list_ex (\<lambda>c. c < 48 \<or> 57 < c) ds")
    case True
    then show ?thesis
      unfolding bounded_decimal_def Let_def ds_def [symmetric] digits by auto
  next
    case False
    then have c: "canonical_numeral norm" and n: "0 \<le> maximum" "ds \<noteq> []" "list_all is_digit ds"
      using canonical_normalized [of ds] by (auto simp: norm_def plain list_all_iff)
    have "length (dec_digits (nat maximum)) < length norm \<or> length norm = length (dec_digits (nat maximum)) \<and>
        seq_less (dec_digits (nat maximum)) norm \<longleftrightarrow> maximum < int (dec_value ds)"
      using canonical_less_iff [OF canonical_dec_digits [of "nat maximum"] c] n(1) by (auto simp: val)
    then show ?thesis
      unfolding bounded_decimal_def Let_def ds_def [symmetric] digits norm_def [symmetric]
      using n val by (simp add: plain not_less)
  qed
qed

subsection \<open>The UTF-8 length of a file name\<close>

datatype filename_error = Limit_Below_One | Filename_Too_Long | Filename_Not_Utf8

definition utf8_width :: "nat \<Rightarrow> nat" where
  "utf8_width c = (if c < 128 then 1 else if c < 2048 then 2 else if c < 65536 then 3 else 4)"

fun filename_within :: "nat \<Rightarrow> nat \<Rightarrow> pystr \<Rightarrow> (filename_error, unit) result" where
  "filename_within limit used [] = Inr ()"
| "filename_within limit used (c # cs) =
     (if is_surrogate c then Inl Filename_Not_Utf8
      else if limit < used + utf8_width c then Inl Filename_Too_Long
      else filename_within limit (used + utf8_width c) cs)"

definition require_utf8_filename_within_limit :: "pystr \<Rightarrow> int \<Rightarrow> (filename_error, unit) result" where
  "require_utf8_filename_within_limit name max_filename_bytes =
     (if max_filename_bytes < 1 then Inl Limit_Below_One
      else filename_within (nat max_filename_bytes) 0 name)"

lemma utf8_char_width:
  "c < 1114112 \<Longrightarrow> utf8_char c = None \<longleftrightarrow> is_surrogate c"
  "utf8_char c = Some bs \<Longrightarrow> length bs = utf8_width c \<and> \<not> is_surrogate c"
  by (auto simp: utf8_char_def utf8_width_def split: if_splits)

lemma filename_within_encoded:
  assumes "\<forall>c \<in> set name. c < 1114112" "used \<le> limit"
  shows "filename_within limit used name = Inr () \<longleftrightarrow>
    (\<exists>bs. utf8_nums name = Some bs \<and> used + length bs \<le> limit)"
  using assms
proof (induction name arbitrary: used)
  case (Cons c cs)
  show ?case
  proof (cases "utf8_char c")
    case None
    with Cons.prems utf8_char_width(1) [of c] show ?thesis by simp
  next
    case (Some b)
    from utf8_char_width(2) [OF Some] have b: "length b = utf8_width c" "\<not> is_surrogate c" by auto
    show ?thesis
    proof (cases "limit < used + utf8_width c")
      case True
      with Some b show ?thesis by (auto split: option.splits)
    next
      case False
      with Some b Cons show ?thesis by (auto simp: add.assoc)
    qed
  qed
qed simp

text \<open>
  A file name passes exactly when the limit is at least one, the
  name has an encoding in UTF-8 and the encoding is no longer than the limit.
\<close>

theorem filename_limit_exact:
  assumes "\<forall>c \<in> set name. c < 1114112"
  shows "require_utf8_filename_within_limit name limit = Inr () \<longleftrightarrow>
    1 \<le> limit \<and> (\<exists>bs. utf8_encode name = Some bs \<and> int (length bs) \<le> limit)"
  using filename_within_encoded [OF assms, of 0 "nat limit"]
  by (auto simp: require_utf8_filename_within_limit_def utf8_encode_def)

theorem filename_limit_exact_witness:
  "require_utf8_filename_within_limit [97, 48149] 4 = Inr () \<and>
   require_utf8_filename_within_limit [97, 48149] 3 \<noteq> Inr ()"
proof -
  have c: "\<forall>c \<in> set [97, 48149::nat]. c < 1114112" by simp
  have e: "utf8_encode [97, 48149] = Some (map char_of [97, 235, 176, 149 :: nat])"
    by (simp add: utf8_encode_def utf8_char_def is_surrogate_def)
  show ?thesis
    using filename_limit_exact [OF c, of 4] filename_limit_exact [OF c, of 3] e by simp
qed

end
