(* ===== verification/Zip_Preflight.thy ===== *)
theory Zip_Preflight
  imports Office_Limits
begin

text \<open>
  The check of a ZIP upload before an archive object is built for it
  (\<open>modules/office_tools/limits.py\<close>, second part). The upload is a byte sequence that is
  read at offsets; every \<open>struct\<close> field is a little-endian number. The search of the end
  record, the ZIP64 branch, the tests in the order of the code and the walk over the
  central directory are modelled; the canonical form of member names is a parameter, as it
  is in the code. The properties say which member list an accepted upload has, and that the
  directory the format prescribes for a list of members is read back as that list.
\<close>

unbundle bit_operations_syntax

subsection \<open>Fixed-width fields\<close>

definition le_value :: "bytes \<Rightarrow> nat" where
  "le_value bs = foldr (\<lambda>b n. of_char b + 256 * n) bs 0"

definition field_at :: "bytes \<Rightarrow> nat \<Rightarrow> nat \<Rightarrow> nat" where
  "field_at bs off w = le_value (take w (drop off bs))"

fun le_bytes :: "nat \<Rightarrow> nat \<Rightarrow> bytes" where
  "le_bytes 0 v = []"
| "le_bytes (Suc w) v = char_of v # le_bytes w (v div 256)"

lemma length_le_bytes [simp]: "length (le_bytes w v) = w"
  by (induction w arbitrary: v) auto

lemma le_value_bytes: "le_value (le_bytes w v) = v mod 256 ^ w"
  by (induction w arbitrary: v) (simp_all add: le_value_def mod_mult2_eq)

lemma le_value_bytes_id [simp]: "v < 256 ^ w \<Longrightarrow> le_value (le_bytes w v) = v"
  by (simp add: le_value_bytes)

lemma le_value_bound: "le_value bs < 256 ^ length bs"
proof (induction bs)
  case (Cons b bs)
  have "of_char b < (256::nat)" by (rule nat_of_char_less_256)
  moreover have "le_value (b # bs) = of_char b + 256 * le_value bs" by (simp add: le_value_def)
  moreover have "(256::nat) ^ length (b # bs) = 256 * 256 ^ length bs" by simp
  ultimately show ?case using Cons by linarith
qed (simp add: le_value_def)

subsection \<open>Errors and members\<close>

text \<open>One constructor per message; \<open>Size_Exceeded\<close> is \<open>UploadSizeLimitExceeded\<close> and \<open>Not_Canonical\<close>
  the \<open>ValueError\<close> of the caller's name rule.\<close>

datatype zip_error = Damaged | Multi_Disk | Unsafe_Path | Encrypted | Unsupported_Method
  | Symbolic_Link | Name_Limit filename_error | Unsupported_Directory | Unsupported_Zip64
  | Size_Exceeded | Too_Many_Files | Directory_Exceeded | Not_Canonical

record zip_member =
  filename :: pystr
  canonical_name :: pystr
  is_directory :: bool

type_synonym 'a zip = "(zip_error, 'a) result"

definition read_at :: "bytes \<Rightarrow> nat \<Rightarrow> nat \<Rightarrow> bytes zip" where
  "read_at source offset n =
     (let chunk = take n (drop offset source)
      in if length chunk = n then Inr chunk else Inl Damaged)"

subsection \<open>File names\<close>

text \<open>Code page 437, from its second half on.\<close>

definition cp437_upper :: "nat list" where
  "cp437_upper = [
      199, 252, 233, 226, 228, 224, 229, 231, 234, 235, 232, 239, 238, 236, 196, 197,
      201, 230, 198, 244, 246, 242, 251, 249, 255, 214, 220, 162, 163, 165, 8359, 402,
      225, 237, 243, 250, 241, 209, 170, 186, 191, 8976, 172, 189, 188, 161, 171, 187,
      9617, 9618, 9619, 9474, 9508, 9569, 9570, 9558, 9557, 9571, 9553, 9559, 9565, 9564, 9563, 9488,
      9492, 9524, 9516, 9500, 9472, 9532, 9566, 9567, 9562, 9556, 9577, 9574, 9568, 9552, 9580, 9575,
      9576, 9572, 9573, 9561, 9560, 9554, 9555, 9579, 9578, 9496, 9484, 9608, 9604, 9612, 9616, 9600,
      945, 223, 915, 960, 931, 963, 181, 964, 934, 920, 937, 948, 8734, 966, 949, 8745,
      8801, 177, 8805, 8804, 8992, 8993, 247, 8776, 176, 8729, 183, 8730, 8319, 178, 9632, 160]"

definition cp437_decode :: "bytes \<Rightarrow> pystr" where
  "cp437_decode bs = map (\<lambda>b. let c = of_char b in if c < 128 then c else cp437_upper ! (c - 128)) bs"

definition decode_filename :: "nat \<Rightarrow> bytes \<Rightarrow> pystr option" where
  "decode_filename flag_bits raw =
     (if flag_bits AND 2048 \<noteq> 0 then utf8_decode raw else Some (cp437_decode raw))"

text \<open>\<open>stat.S_ISLNK\<close> of the Unix mode in the upper half of the external attributes.\<close>

definition is_symlink :: "nat \<Rightarrow> bool" where
  "is_symlink external_attr \<longleftrightarrow> drop_bit 16 external_attr AND 61440 = 40960"

definition ends_with_slash :: "pystr \<Rightarrow> bool" where
  "ends_with_slash name \<longleftrightarrow> name \<noteq> [] \<and> last name = 47"

subsection \<open>The walk over the central directory\<close>

text \<open>One turn of the loop: the member at \<open>offset\<close> and the offset of the next one.\<close>

definition central_entry ::
    "(pystr \<Rightarrow> pystr option) \<Rightarrow> nat \<Rightarrow> bytes \<Rightarrow> nat \<Rightarrow> nat \<Rightarrow> (zip_member \<times> nat) zip" where
  "central_entry canonicalize max_name source fin offset =
     bind_result (read_at source offset 46) (\<lambda>header.
     let flag_bits = field_at header 8 2;
         compression_method = field_at header 10 2;
         filename_size = field_at header 28 2;
         extra_size = field_at header 30 2;
         comment_size = field_at header 32 2;
         disk_start = field_at header 34 2;
         external_attr = field_at header 38 4;
         next_offset = offset + 46 + filename_size + extra_size + comment_size
     in
     if take 4 header \<noteq> [CHR ''P'', CHR ''K'', CHR 0x01, CHR 0x02] then Inl Damaged
     else if disk_start \<noteq> 0 then Inl Multi_Disk
     else if fin < next_offset then Inl Damaged
     else if max_name < filename_size then Inl (Name_Limit Filename_Too_Long)
     else
     bind_result (read_at source (offset + 46) filename_size) (\<lambda>raw.
     if CHR 0x00 \<in> set raw then Inl Unsafe_Path
     else
     bind_result (of_option Damaged (decode_filename flag_bits raw)) (\<lambda>name.
     if flag_bits AND 1 \<noteq> 0 then Inl Encrypted
     else if compression_method \<notin> SUPPORTED_ZIP_COMPRESSION_METHODS then Inl Unsupported_Method
     else if is_symlink external_attr then Inl Symbolic_Link
     else
     bind_result (of_option Not_Canonical (canonicalize name)) (\<lambda>canonical.
     if canonical = [] \<or> canonical = [46] then Inl Unsafe_Path
     else
     (case require_utf8_filename_within_limit canonical (int max_name) of
        Inl e \<Rightarrow> Inl (Name_Limit e)
      | Inr _ \<Rightarrow>
          Inr (\<lparr>filename = name, canonical_name = canonical, is_directory = ends_with_slash name\<rparr>,
            next_offset))))))"

fun preflight_central_directory ::
    "(pystr \<Rightarrow> pystr option) \<Rightarrow> nat \<Rightarrow> bytes \<Rightarrow> nat \<Rightarrow> nat \<Rightarrow> nat \<Rightarrow> zip_member list zip" where
  "preflight_central_directory canon max_name source fin 0 offset =
     (if offset \<noteq> fin then Inl Unsupported_Directory else Inr [])"
| "preflight_central_directory canon max_name source fin (Suc n) offset =
     bind_result (central_entry canon max_name source fin offset) (\<lambda>(m, next_offset).
     bind_result (preflight_central_directory canon max_name source fin n next_offset) (\<lambda>ms.
       Inr (m # ms)))"

subsection \<open>The end record\<close>

definition EOCD_SIGNATURE :: bytes where
  "EOCD_SIGNATURE = [CHR ''P'', CHR ''K'', CHR 0x05, CHR 0x06]"

text \<open>\<open>tail.rfind(signature, 0, hi)\<close>: the last occurrence that ends at \<open>hi\<close> or before.\<close>

definition rfind_to :: "bytes \<Rightarrow> bytes \<Rightarrow> nat \<Rightarrow> nat option" where
  "rfind_to p xs hi = rfind_below p xs (Suc (min hi (length xs)) - length p)"

definition comment_fits :: "bytes \<Rightarrow> nat \<Rightarrow> bool" where
  "comment_fits tail i \<longleftrightarrow> i + 22 \<le> length tail \<and> i + 22 + field_at tail (i + 20) 2 = length tail"

lemma rfind_to_less: "rfind_to EOCD_SIGNATURE xs hi = Some i \<Longrightarrow> i < hi"
  by (auto simp: rfind_to_def rfind_below_Some EOCD_SIGNATURE_def)

function find_eocd :: "bytes \<Rightarrow> nat \<Rightarrow> nat option" where
  "find_eocd tail hi =
     (case rfind_to EOCD_SIGNATURE tail hi of
        None \<Rightarrow> None
      | Some i \<Rightarrow> if comment_fits tail i then Some i else find_eocd tail i)"
  by pat_completeness auto
termination
  by (relation "measure snd") (auto dest: rfind_to_less)

declare find_eocd.simps [simp del]

subsection \<open>The check of the upload\<close>

record directory_location =
  loc_entries :: nat
  loc_size :: nat
  loc_offset :: nat
  loc_end :: nat

definition zip64_location :: "bytes \<Rightarrow> nat \<Rightarrow> nat \<Rightarrow> nat \<Rightarrow> directory_location zip" where
  "zip64_location source eocd_offset disk_number central_directory_disk =
     (if disk_number \<notin> {0, 65535} \<or> central_directory_disk \<notin> {0, 65535} then Inl Multi_Disk
      else if eocd_offset < 20 then Inl Unsupported_Zip64
      else
      let locator_offset = eocd_offset - 20
      in
      bind_result (read_at source locator_offset 20) (\<lambda>locator.
      let zip64_disk = field_at locator 4 4;
          zip64_offset = field_at locator 8 8;
          zip64_disks = field_at locator 16 4
      in
      if take 4 locator \<noteq> [CHR ''P'', CHR ''K'', CHR 0x06, CHR 0x07] then Inl Unsupported_Zip64
      else if zip64_disk \<noteq> 0 \<or> zip64_disks \<noteq> 1 then Inl Multi_Disk
      else if int locator_offset - 56 < int zip64_offset then Inl Unsupported_Zip64
      else
      bind_result (read_at source zip64_offset 56) (\<lambda>header.
      let record_size = field_at header 4 8;
          zip64_disk_number = field_at header 16 4;
          zip64_central_directory_disk = field_at header 20 4;
          zip64_entries_on_disk = field_at header 24 8;
          total_entries = field_at header 32 8
      in
      if take 4 header \<noteq> [CHR ''P'', CHR ''K'', CHR 0x06, CHR 0x06] \<or> record_size < 44
      then Inl Unsupported_Zip64
      else if eocd_offset - 20 < zip64_offset + 12 + record_size then Inl Unsupported_Zip64
      else if zip64_disk_number \<noteq> 0 \<or> zip64_central_directory_disk \<noteq> 0 \<or>
          zip64_entries_on_disk \<noteq> total_entries
      then Inl Multi_Disk
      else Inr \<lparr>loc_entries = total_entries, loc_size = field_at header 40 8,
        loc_offset = field_at header 48 8, loc_end = zip64_offset\<rparr>)))"

definition zip_location :: "bytes \<Rightarrow> directory_location zip" where
  "zip_location source =
     (let source_size = length source;
          tail_size = min source_size (22 + 65535);
          tail_offset = source_size - tail_size
      in
      bind_result (read_at source tail_offset tail_size) (\<lambda>tail.
      bind_result (of_option Damaged (find_eocd tail (length tail))) (\<lambda>eocd_index.
      let eocd_offset = tail_offset + eocd_index;
          disk_number = field_at tail (eocd_index + 4) 2;
          central_directory_disk = field_at tail (eocd_index + 6) 2;
          entries_on_disk = field_at tail (eocd_index + 8) 2;
          total_entries = field_at tail (eocd_index + 10) 2;
          central_directory_size = field_at tail (eocd_index + 12) 4;
          central_directory_offset = field_at tail (eocd_index + 16) 4
      in
      if total_entries = 65535 \<or> central_directory_size = 4294967295 \<or>
          central_directory_offset = 4294967295
      then zip64_location source eocd_offset disk_number central_directory_disk
      else if disk_number \<noteq> 0 \<or> central_directory_disk \<noteq> 0 \<or> entries_on_disk \<noteq> total_entries
      then Inl Multi_Disk
      else Inr \<lparr>loc_entries = total_entries, loc_size = central_directory_size,
        loc_offset = central_directory_offset, loc_end = eocd_offset\<rparr>)))"

record zip_limits =
  max_files :: nat
  max_compressed_bytes :: nat
  max_filename_bytes :: nat
  max_central_directory_bytes :: nat

definition preflight_zip_central_directory ::
    "zip_limits \<Rightarrow> (pystr \<Rightarrow> pystr option) \<Rightarrow> bytes \<Rightarrow> zip_member list zip" where
  "preflight_zip_central_directory limits canonicalize source =
     (if max_compressed_bytes limits < length source then Inl Size_Exceeded
      else if length source < 22 then Inl Damaged
      else
      bind_result (zip_location source) (\<lambda>loc.
      let prefix_size = int (loc_end loc) - int (loc_size loc) - int (loc_offset loc);
          central_directory_start = int (loc_offset loc) + prefix_size
      in
      if max_files limits < loc_entries loc then Inl Too_Many_Files
      else if max_central_directory_bytes limits < loc_size loc then Inl Directory_Exceeded
      else if loc_size loc < loc_entries loc * 46 then Inl Damaged
      else if prefix_size < 0 \<or> central_directory_start < 0 then Inl Damaged
      else if central_directory_start + int (loc_size loc) \<noteq> int (loc_end loc) then Inl Damaged
      else preflight_central_directory canonicalize (max_filename_bytes limits) source (loc_end loc)
        (loc_entries loc) (nat central_directory_start)))"

subsection \<open>The format of the central directory\<close>

text \<open>
  What a central directory is, independently of the reader: the records of its members,
  their bytes, which records an upload may hold, and the member each stands for.
\<close>

record central_record =
  version_made :: nat
  version_needed :: nat
  flags :: nat
  compression :: nat
  mod_time :: nat
  mod_date :: nat
  crc :: nat
  compressed :: nat
  uncompressed :: nat
  disk :: nat
  internal_attributes :: nat
  external_attributes :: nat
  local_offset :: nat
  raw_name :: bytes
  extra :: bytes
  comment :: bytes

definition header_bytes :: "central_record \<Rightarrow> bytes" where
  "header_bytes r = [CHR ''P'', CHR ''K'', CHR 0x01, CHR 0x02] @ le_bytes 2 (version_made r) @
     le_bytes 2 (version_needed r) @ le_bytes 2 (flags r) @ le_bytes 2 (compression r) @
     le_bytes 2 (mod_time r) @ le_bytes 2 (mod_date r) @ le_bytes 4 (crc r) @ le_bytes 4 (compressed r) @
     le_bytes 4 (uncompressed r) @ le_bytes 2 (length (raw_name r)) @ le_bytes 2 (length (extra r)) @
     le_bytes 2 (length (comment r)) @ le_bytes 2 (disk r) @ le_bytes 2 (internal_attributes r) @
     le_bytes 4 (external_attributes r) @ le_bytes 4 (local_offset r)"

definition record_bytes :: "central_record \<Rightarrow> bytes" where
  "record_bytes r = header_bytes r @ raw_name r @ extra r @ comment r"

definition directory_bytes :: "central_record list \<Rightarrow> bytes" where
  "directory_bytes rs = concat (map record_bytes rs)"

definition fields_fit :: "central_record \<Rightarrow> bool" where
  "fields_fit r \<longleftrightarrow> flags r < 65536 \<and> compression r < 65536 \<and> disk r < 65536 \<and>
     external_attributes r < 4294967296 \<and> length (raw_name r) < 65536 \<and> length (extra r) < 65536 \<and>
     length (comment r) < 65536"

text \<open>A member an upload may hold, and what is recorded of it.\<close>

definition record_name :: "central_record \<Rightarrow> pystr option" where
  "record_name r = decode_filename (flags r) (raw_name r)"

definition safe_name :: "(pystr \<Rightarrow> pystr option) \<Rightarrow> nat \<Rightarrow> pystr \<Rightarrow> pystr \<Rightarrow> bool" where
  "safe_name canonicalize max_name name canonical \<longleftrightarrow> canonicalize name = Some canonical \<and>
     canonical \<noteq> [] \<and> canonical \<noteq> [46] \<and>
     require_utf8_filename_within_limit canonical (int max_name) = Inr ()"

definition safe_record :: "(pystr \<Rightarrow> pystr option) \<Rightarrow> nat \<Rightarrow> central_record \<Rightarrow> bool" where
  "safe_record canonicalize max_name r \<longleftrightarrow> fields_fit r \<and> disk r = 0 \<and> length (raw_name r) \<le> max_name \<and>
     CHR 0x00 \<notin> set (raw_name r) \<and> flags r AND 1 = 0 \<and> compression r \<in> {0, 8} \<and>
     \<not> is_symlink (external_attributes r) \<and>
     (\<exists>name canonical. record_name r = Some name \<and> safe_name canonicalize max_name name canonical)"

definition member_of :: "(pystr \<Rightarrow> pystr option) \<Rightarrow> central_record \<Rightarrow> zip_member" where
  "member_of canonicalize r =
     (let name = the (record_name r)
      in \<lparr>filename = name, canonical_name = the (canonicalize name), is_directory = ends_with_slash name\<rparr>)"

lemma length_header [simp]: "length (header_bytes r) = 46"
  by (simp add: header_bytes_def)

lemma header_fields:
  assumes "fields_fit r"
  shows "field_at (header_bytes r) 8 2 = flags r" "field_at (header_bytes r) 10 2 = compression r"
    "field_at (header_bytes r) 28 2 = length (raw_name r)" "field_at (header_bytes r) 30 2 = length (extra r)"
    "field_at (header_bytes r) 32 2 = length (comment r)" "field_at (header_bytes r) 34 2 = disk r"
    "field_at (header_bytes r) 38 4 = external_attributes r"
    "take 4 (header_bytes r) = [CHR ''P'', CHR ''K'', CHR 0x01, CHR 0x02]"
  using assms by (simp_all add: field_at_def header_bytes_def fields_fit_def)

lemma le_bytes_value: "length bs = w \<Longrightarrow> le_bytes w (le_value bs) = bs"
proof (induction bs arbitrary: w)
  case (Cons b bs)
  have "(of_char b :: nat) < 256" by (rule nat_of_char_less_256)
  then have "(of_char b + 256 * le_value bs) div 256 = le_value bs" by simp
  moreover have "char_of (of_char b + 256 * le_value bs :: nat) = b"
    by (simp add: char_of_eq_iff take_bit_eq_mod)
  ultimately show ?case using Cons by (auto simp: le_value_def)
qed simp

lemma field_take: "n + w \<le> length bs \<Longrightarrow> le_bytes w (field_at bs n w) = take w (drop n bs)"
  by (simp add: field_at_def le_bytes_value)

lemma take_step: "take n xs @ take w (drop n xs) = take (n + w) xs"
  by (simp add: take_add)

text \<open>Every header of the right length and signature is that of some record.\<close>

lemma header_of_bytes:
  assumes "length h = 46" "take 4 h = [CHR ''P'', CHR ''K'', CHR 0x01, CHR 0x02]"
    "field_at h 28 2 = length n" "field_at h 30 2 = length e" "field_at h 32 2 = length c"
  obtains r where "header_bytes r = h" "fields_fit r" "raw_name r = n" "extra r = e" "comment r = c"
proof
  let ?f = "field_at h"
  let ?r = "\<lparr>version_made = ?f 4 2, version_needed = ?f 6 2, flags = ?f 8 2, compression = ?f 10 2,
    mod_time = ?f 12 2, mod_date = ?f 14 2, crc = ?f 16 4, compressed = ?f 20 4, uncompressed = ?f 24 4,
    disk = ?f 34 2, internal_attributes = ?f 36 2, external_attributes = ?f 38 4, local_offset = ?f 42 4,
    raw_name = n, extra = e, comment = c\<rparr>"
  have "header_bytes ?r = take 4 h @ take 2 (drop 4 h) @ take 2 (drop 6 h) @ take 2 (drop 8 h) @
      take 2 (drop 10 h) @ take 2 (drop 12 h) @ take 2 (drop 14 h) @ take 4 (drop 16 h) @ take 4 (drop 20 h) @
      take 4 (drop 24 h) @ take 2 (drop 28 h) @ take 2 (drop 30 h) @ take 2 (drop 32 h) @ take 2 (drop 34 h) @
      take 2 (drop 36 h) @ take 4 (drop 38 h) @ take 4 (drop 42 h)"
    unfolding header_bytes_def assms(2) [symmetric] using assms(1)
    by (simp add: field_take assms(3-5) [symmetric])
  also have "\<dots> = take 46 h"
    using take_step [of 4 h 2] take_step [of 6 h 2] take_step [of 8 h 2] take_step [of 10 h 2]
      take_step [of 12 h 2] take_step [of 14 h 2] take_step [of 16 h 4] take_step [of 20 h 4]
      take_step [of 24 h 4] take_step [of 28 h 2] take_step [of 30 h 2] take_step [of 32 h 2]
      take_step [of 34 h 2] take_step [of 36 h 2] take_step [of 38 h 4] take_step [of 42 h 4]
    by (simp only: append_assoc [symmetric] numeral_plus_numeral add_num_simps)
  finally show "header_bytes ?r = h" using assms(1) by simp
  have bound: "field_at h i w < 256 ^ w" for i w
  proof -
    have "field_at h i w < 256 ^ length (take w (drop i h))" unfolding field_at_def by (rule le_value_bound)
    also have "\<dots> \<le> 256 ^ w" by (rule power_increasing) auto
    finally show ?thesis .
  qed
  show "fields_fit ?r"
    using bound [of 8 2] bound [of 10 2] bound [of 34 2] bound [of 38 4] bound [of 28 2] bound [of 30 2] bound [of 32 2]
    by (simp add: fields_fit_def assms(3-5))
qed simp_all

subsection \<open>The walk reads exactly the format\<close>

lemma read_at_Inr: "read_at source off n = Inr c \<longleftrightarrow> c = take n (drop off source) \<and> length c = n"
  by (auto simp: read_at_def Let_def)

lemma read_at_occurs: "occurs_at p source off \<Longrightarrow> read_at source off (length p) = Inr p"
  by (auto simp: read_at_Inr occurs_at_def)

lemma slice_occurs: "off + n \<le> length source \<Longrightarrow> occurs_at (take n (drop off source)) source off"
  by (simp add: occurs_at_def)

lemma central_entry_record:
  assumes r: "safe_record canon mx r" and at: "occurs_at (record_bytes r) source off"
    and fin: "off + length (record_bytes r) \<le> fin"
  shows "central_entry canon mx source fin off = Inr (member_of canon r, off + length (record_bytes r))"
proof -
  from r have fit: "fields_fit r" by (simp add: safe_record_def)
  from r obtain name canonical where n: "decode_filename (flags r) (raw_name r) = Some name"
    "canon name = Some canonical" "canonical \<noteq> []" "canonical \<noteq> [46]"
    "require_utf8_filename_within_limit canonical (int mx) = Inr ()"
    by (auto simp: safe_record_def safe_name_def record_name_def)
  from at have "occurs_at (header_bytes r) source off" "occurs_at (raw_name r) source (off + 46)"
    by (simp_all add: record_bytes_def occurs_at_app)
  then have reads: "read_at source off 46 = Inr (header_bytes r)"
    "read_at source (off + 46) (length (raw_name r)) = Inr (raw_name r)"
    by (auto dest: read_at_occurs)
  have len: "length (record_bytes r) = 46 + length (raw_name r) + length (extra r) + length (comment r)"
    by (simp add: record_bytes_def)
  show ?thesis
    using r fin n unfolding central_entry_def reads Let_def bind_result.simps header_fields [OF fit]
    by (simp add: reads safe_record_def of_option_def SUPPORTED_ZIP_COMPRESSION_METHODS_def len
        member_of_def record_name_def Let_def)
qed

lemma record_of_central_entry:
  assumes ok: "central_entry canon mx source fin off = Inr (m, next_offset)" and fin: "fin \<le> length source"
  obtains r where "safe_record canon mx r" "occurs_at (record_bytes r) source off" "m = member_of canon r"
    "next_offset = off + length (record_bytes r)" "next_offset \<le> fin"
proof -
  define h where "h = take 46 (drop off source)"
  define fs es cs where "fs = field_at h 28 2" and "es = field_at h 30 2" and "cs = field_at h 32 2"
  define n where "n = take fs (drop (off + 46) source)"
  define e where "e = take es (drop (off + 46 + fs) source)"
  define c where "c = take cs (drop (off + 46 + fs + es) source)"
  from ok obtain name canonical where chk: "length h = 46" "take 4 h = [CHR ''P'', CHR ''K'', CHR 0x01, CHR 0x02]"
    "field_at h 34 2 = 0" "off + 46 + fs + es + cs \<le> fin" "fs \<le> mx" "CHR 0x00 \<notin> set n"
    "decode_filename (field_at h 8 2) n = Some name" "field_at h 8 2 AND 1 = 0"
    "field_at h 10 2 \<in> SUPPORTED_ZIP_COMPRESSION_METHODS" "\<not> is_symlink (field_at h 38 4)"
    "safe_name canon mx name canonical"
    "m = \<lparr>filename = name, canonical_name = canonical, is_directory = ends_with_slash name\<rparr>"
    "next_offset = off + 46 + fs + es + cs"
    unfolding central_entry_def bind_result_Inr read_at_Inr h_def [symmetric]
    by (auto simp: Let_def fs_def [symmetric] es_def [symmetric] cs_def [symmetric] n_def [symmetric] result_simps
        read_at_Inr safe_name_def split: if_splits sum.splits)
  have len: "length n = fs" "length e = es" "length c = cs"
    using chk(4) fin by (simp_all add: n_def e_def c_def)
  obtain r where r: "header_bytes r = h" "fields_fit r" "raw_name r = n" "extra r = e" "comment r = c"
    using header_of_bytes [OF chk(1,2), of n e c] len by (auto simp: fs_def es_def cs_def)
  note f = header_fields [OF r(2), unfolded r(1)]
  have total: "length (record_bytes r) = 46 + fs + es + cs" by (simp add: record_bytes_def r len chk(1))
  have "occurs_at h source off" "occurs_at n source (off + 46)" "occurs_at e source (off + 46 + fs)"
    "occurs_at c source (off + 46 + fs + es)"
    unfolding h_def n_def e_def c_def using chk(4) fin by (auto intro: slice_occurs)
  then have "occurs_at (record_bytes r) source off"
    by (simp add: record_bytes_def occurs_at_app r len chk(1) add.assoc)
  moreover have "safe_record canon mx r"
    using chk r f len by (auto simp: safe_record_def record_name_def SUPPORTED_ZIP_COMPRESSION_METHODS_def)
  moreover have "m = member_of canon r"
    using chk(7,11,12) r f by (simp add: member_of_def record_name_def safe_name_def)
  ultimately show thesis using that chk(4,13) total by simp
qed

lemma central_directory_iff:
  assumes "fin \<le> length source"
  shows "preflight_central_directory canon mx source fin n off = Inr ms \<longleftrightarrow>
    (\<exists>rs. length rs = n \<and> list_all (safe_record canon mx) rs \<and> ms = map (member_of canon) rs \<and>
      occurs_at (directory_bytes rs) source off \<and> off + length (directory_bytes rs) = fin)"
proof (induction n arbitrary: off ms)
  case 0
  with assms show ?case by (auto simp: directory_bytes_def)
next
  case (Suc n)
  show ?case
  proof
    assume "preflight_central_directory canon mx source fin (Suc n) off = Inr ms"
    then obtain m nxt ms' where m: "central_entry canon mx source fin off = Inr (m, nxt)"
      and ms: "preflight_central_directory canon mx source fin n nxt = Inr ms'" "ms = m # ms'"
      by (auto simp: result_simps)
    from m assms obtain r where r: "safe_record canon mx r" "occurs_at (record_bytes r) source off"
      "m = member_of canon r" "nxt = off + length (record_bytes r)" "nxt \<le> fin"
      by (rule record_of_central_entry)
    from ms(1) Suc.IH obtain rs where "length rs = n" "list_all (safe_record canon mx) rs"
      "ms' = map (member_of canon) rs" "occurs_at (directory_bytes rs) source nxt"
      "nxt + length (directory_bytes rs) = fin" by blast
    with r ms(2) show "\<exists>rs. length rs = Suc n \<and> list_all (safe_record canon mx) rs \<and>
        ms = map (member_of canon) rs \<and> occurs_at (directory_bytes rs) source off \<and>
        off + length (directory_bytes rs) = fin"
      by (intro exI [of _ "r # rs"]) (simp add: directory_bytes_def occurs_at_app)
  next
    assume "\<exists>rs. length rs = Suc n \<and> list_all (safe_record canon mx) rs \<and> ms = map (member_of canon) rs \<and>
        occurs_at (directory_bytes rs) source off \<and> off + length (directory_bytes rs) = fin"
    then obtain r rs where rs: "length rs = n" "safe_record canon mx r" "list_all (safe_record canon mx) rs"
      "ms = member_of canon r # map (member_of canon) rs" "occurs_at (record_bytes r) source off"
      "occurs_at (directory_bytes rs) source (off + length (record_bytes r))"
      "off + length (record_bytes r) + length (directory_bytes rs) = fin"
      by (auto simp: length_Suc_conv directory_bytes_def occurs_at_app)
    have "preflight_central_directory canon mx source fin n (off + length (record_bytes r)) =
        Inr (map (member_of canon) rs)"
      using Suc.IH rs by auto
    with central_entry_record [OF rs(2,5)] rs(4,7)
    show "preflight_central_directory canon mx source fin (Suc n) off = Inr ms" by simp
  qed
qed

subsection \<open>The end record that is found\<close>

text \<open>A place below \<open>hi\<close> whose comment runs to the end of the file.\<close>

definition eocd_candidate :: "bytes \<Rightarrow> nat \<Rightarrow> nat \<Rightarrow> bool" where
  "eocd_candidate tail hi i \<longleftrightarrow>
     i + 4 \<le> min hi (length tail) \<and> occurs_at EOCD_SIGNATURE tail i \<and> comment_fits tail i"

lemma occurs_at_nth: "occurs_at p xs i \<Longrightarrow> d < length p \<Longrightarrow> xs ! (i + d) = p ! d"
  by (auto simp: occurs_at_def) (metis add_lessD1 nth_drop nth_take trans_le_add1 le_add1 le_trans)

lemma signature_no_overlap:
  assumes "occurs_at EOCD_SIGNATURE xs i" "occurs_at EOCD_SIGNATURE xs j" "i < j"
  shows "i + 4 \<le> j"
proof (rule ccontr)
  assume "\<not> i + 4 \<le> j"
  with assms(3) have "j = i + 1 \<or> j = i + 2 \<or> j = i + 3" by auto
  moreover have "xs ! j = EOCD_SIGNATURE ! 0"
    using occurs_at_nth [OF assms(2), of 0] by (simp add: EOCD_SIGNATURE_def)
  moreover have "xs ! (i + 1) = EOCD_SIGNATURE ! 1" "xs ! (i + 2) = EOCD_SIGNATURE ! 2"
    "xs ! (i + 3) = EOCD_SIGNATURE ! 3"
    by (rule occurs_at_nth [OF assms(1)], simp add: EOCD_SIGNATURE_def)+
  ultimately show False by (auto simp: EOCD_SIGNATURE_def)
qed

lemma find_eocd_iff:
  "find_eocd tail hi = Some i \<longleftrightarrow> eocd_candidate tail hi i \<and> (\<forall>j > i. \<not> eocd_candidate tail hi j)"
proof (induction tail hi rule: find_eocd.induct)
  case (1 tail hi)
  have len: "length EOCD_SIGNATURE = 4" by (simp add: EOCD_SIGNATURE_def)
  note found = rfind_to_def [of EOCD_SIGNATURE tail hi, unfolded len]
  show ?case
  proof (cases "rfind_to EOCD_SIGNATURE tail hi")
    case None
    then have "\<not> eocd_candidate tail hi j" for j
      unfolding found rfind_below_None eocd_candidate_def by auto
    with None show ?thesis by (auto simp: find_eocd.simps [of tail hi])
  next
    case (Some k)
    then have k: "k + 4 \<le> min hi (length tail)" "occurs_at EOCD_SIGNATURE tail k"
      and last: "\<And>j. k < j \<Longrightarrow> \<not> eocd_candidate tail hi j"
      unfolding found rfind_below_Some eocd_candidate_def by auto
    show ?thesis
    proof (cases "comment_fits tail k")
      case True
      with k have "eocd_candidate tail hi k" by (simp add: eocd_candidate_def)
      with Some True last show ?thesis
        by (simp add: find_eocd.simps [of tail hi]) (metis linorder_neqE_nat)
    next
      case False
      have "eocd_candidate tail hi j \<longleftrightarrow> eocd_candidate tail k j" for j
      proof
        assume c: "eocd_candidate tail hi j"
        then have o: "occurs_at EOCD_SIGNATURE tail j" "j \<noteq> k" using False by (auto simp: eocd_candidate_def)
        with last [of j] c have "j < k" by linarith
        with signature_no_overlap [OF o(1) k(2)] c show "eocd_candidate tail k j"
          by (simp add: eocd_candidate_def)
      next
        assume "eocd_candidate tail k j"
        with k(1) show "eocd_candidate tail hi j" by (auto simp: eocd_candidate_def)
      qed
      with 1 [OF Some False] Some False show ?thesis by (simp add: find_eocd.simps [of tail hi])
    qed
  qed
qed

text \<open>The end record that stands for a directory of \<open>n\<close> members, without a comment.\<close>

definition eocd_bytes :: "nat \<Rightarrow> nat \<Rightarrow> nat \<Rightarrow> bytes" where
  "eocd_bytes n dir_size off = EOCD_SIGNATURE @ le_bytes 2 0 @ le_bytes 2 0 @ le_bytes 2 n @ le_bytes 2 n @
     le_bytes 4 dir_size @ le_bytes 4 off @ le_bytes 2 0"

definition archive_bytes :: "bytes \<Rightarrow> central_record list \<Rightarrow> nat \<Rightarrow> bytes" where
  "archive_bytes front rs off =
     front @ directory_bytes rs @ eocd_bytes (length rs) (length (directory_bytes rs)) off"

lemma length_eocd [simp]: "length (eocd_bytes n z off) = 22"
  by (simp add: eocd_bytes_def EOCD_SIGNATURE_def)

lemma find_plain_eocd:
  "find_eocd (xs @ eocd_bytes n z off) (length (xs @ eocd_bytes n z off)) = Some (length xs)"
proof -
  have "occurs_at EOCD_SIGNATURE (xs @ eocd_bytes n z off) (length xs)"
    by (simp add: occurs_at_def eocd_bytes_def)
  moreover have "comment_fits (xs @ eocd_bytes n z off) (length xs)"
    by (simp add: comment_fits_def field_at_def eocd_bytes_def EOCD_SIGNATURE_def)
  moreover have "\<not> comment_fits (xs @ eocd_bytes n z off) j" if "length xs < j" for j
    using that by (simp add: comment_fits_def)
  ultimately show ?thesis by (auto simp: find_eocd_iff eocd_candidate_def EOCD_SIGNATURE_def)
qed

lemma eocd_fields:
  assumes "n < 65536" "z < 4294967296" "off < 4294967296"
  shows "field_at (xs @ eocd_bytes n z off) (length xs + 4) 2 = 0"
    "field_at (xs @ eocd_bytes n z off) (length xs + 6) 2 = 0"
    "field_at (xs @ eocd_bytes n z off) (length xs + 8) 2 = n"
    "field_at (xs @ eocd_bytes n z off) (length xs + 10) 2 = n"
    "field_at (xs @ eocd_bytes n z off) (length xs + 12) 4 = z"
    "field_at (xs @ eocd_bytes n z off) (length xs + 16) 4 = off"
  using assms by (simp_all add: field_at_def eocd_bytes_def EOCD_SIGNATURE_def)

lemma zip_location_plain:
  assumes "n < 65535" "z < 4294967295" "off < 4294967295"
  shows "zip_location (xs @ eocd_bytes n z off) =
    Inr \<lparr>loc_entries = n, loc_size = z, loc_offset = off, loc_end = length xs\<rparr>"
proof -
  let ?source = "xs @ eocd_bytes n z off"
  define tail_size where "tail_size = min (length ?source) (22 + 65535)"
  define ys where "ys = drop (length ?source - tail_size) xs"
  have ts: "22 \<le> tail_size" "tail_size \<le> length ?source" by (simp_all add: tail_size_def)
  then have tail: "read_at ?source (length ?source - tail_size) tail_size = Inr (ys @ eocd_bytes n z off)"
    by (simp add: read_at_Inr ys_def)
  have len: "length ?source - tail_size + length ys = length xs" using ts by (simp add: ys_def)
  have bounds: "n < 65536" "z < 4294967296" "off < 4294967296" using assms by simp_all
  show ?thesis
    unfolding zip_location_def tail_size_def [symmetric] Let_def tail bind_result.simps of_option_def
      find_plain_eocd option.case eocd_fields [OF bounds]
    using assms len by simp
qed



subsection \<open>Properties\<close>

lemma record_bytes_length: "46 \<le> length (record_bytes r)"
  by (simp add: record_bytes_def)

lemma directory_bytes_length: "length rs * 46 \<le> length (directory_bytes rs)"
proof (induction rs)
  case (Cons r rs)
  with record_bytes_length [of r] show ?case by (simp add: directory_bytes_def)
qed simp

lemma archive_read_back:
  assumes safe: "list_all (safe_record canon (max_filename_bytes limits)) rs"
    and "length rs \<le> max_files limits" "length rs < 65535"
    and "length (directory_bytes rs) \<le> max_central_directory_bytes limits" "length (directory_bytes rs) < 4294967295"
    and "off \<le> length front" "off < 4294967295"
    and "length (archive_bytes front rs off) \<le> max_compressed_bytes limits"
  shows "preflight_zip_central_directory limits canon (archive_bytes front rs off) = Inr (map (member_of canon) rs)"
proof -
  let ?dir = "directory_bytes rs" and ?source = "archive_bytes front rs off"
  have loc: "zip_location ?source = Inr \<lparr>loc_entries = length rs, loc_size = length ?dir, loc_offset = off,
      loc_end = length front + length ?dir\<rparr>"
    using zip_location_plain [of "length rs" "length ?dir" off "front @ ?dir"] assms
    by (simp add: archive_bytes_def)
  have "occurs_at ?dir ?source (length front)" by (simp add: occurs_at_def archive_bytes_def)
  then have "preflight_central_directory canon (max_filename_bytes limits) ?source (length front + length ?dir)
      (length rs) (length front) = Inr (map (member_of canon) rs)"
    using safe by (subst central_directory_iff) (auto simp: archive_bytes_def)
  moreover have "22 \<le> length ?source" by (simp add: archive_bytes_def)
  moreover have "length rs * 46 \<le> length ?dir" by (rule directory_bytes_length)
  ultimately show ?thesis
    unfolding preflight_zip_central_directory_def loc bind_result.simps Let_def
    using assms by simp
qed


text \<open>
  Conversely, every list of records that an upload may hold is read back.
  An archive of any leading data, the directory of the records and its end record is
  accepted and gives the members of the records, provided the counts and sizes are within
  the limits and below the escape values of ZIP64; the directory may be announced at an
  offset before its place, as with a prefixed archive.
\<close>

theorem zip_read_back:
  assumes "list_all (safe_record canon (max_filename_bytes limits)) rs"
    and "length rs \<le> max_files limits" "length rs < 65535"
    and "length (directory_bytes rs) \<le> max_central_directory_bytes limits" "length (directory_bytes rs) < 4294967295"
    and "off \<le> length front" "off < 4294967295"
    and "length (archive_bytes front rs off) \<le> max_compressed_bytes limits"
  shows "preflight_zip_central_directory limits canon (archive_bytes front rs off) = Inr (map (member_of canon) rs)"
  using assms by (rule archive_read_back)

text \<open>A directory of one stored file of the name \<open>a/\<close>, after ten bytes of other data.\<close>

definition demo_record :: central_record where
  "demo_record = \<lparr>version_made = 20, version_needed = 20, flags = 0, compression = 0, mod_time = 0, mod_date = 0,
     crc = 0, compressed = 0, uncompressed = 0, disk = 0, internal_attributes = 0, external_attributes = 16,
     local_offset = 0, raw_name = ''a/'', extra = [], comment = []\<rparr>"

definition demo_limits :: zip_limits where
  "demo_limits = \<lparr>max_files = 10, max_compressed_bytes = 1000, max_filename_bytes = 100,
     max_central_directory_bytes = 500\<rparr>"

lemma demo_record_name: "record_name demo_record = Some (lit ''a/'')"
  by (simp add: record_name_def demo_record_def decode_filename_def cp437_decode_def lit_def)

lemma demo_record_safe: "safe_record Some 100 demo_record"
  by (simp add: safe_record_def demo_record_name safe_name_def)
    (simp add: demo_record_def fields_fit_def is_symlink_def lit_def
      require_utf8_filename_within_limit_def is_surrogate_def utf8_width_def)

lemma demo_accepted:
  "list_all (safe_record Some (max_filename_bytes demo_limits)) [demo_record]"
  "length [demo_record] \<le> max_files demo_limits" "length [demo_record] < 65535"
  "length (directory_bytes [demo_record]) \<le> max_central_directory_bytes demo_limits"
  "length (directory_bytes [demo_record]) < 4294967295" "10 \<le> length (replicate 10 CHR 0x00)" "(10::nat) < 4294967295"
  "length (archive_bytes (replicate 10 CHR 0x00) [demo_record] 10) \<le> max_compressed_bytes demo_limits"
  by (simp_all add: demo_record_safe demo_limits_def archive_bytes_def directory_bytes_def record_bytes_def)
    (simp_all add: demo_record_def)


theorem zip_read_back_witness:
  "preflight_zip_central_directory demo_limits Some (archive_bytes (replicate 10 CHR 0x00) [demo_record] 10) =
     Inr [\<lparr>filename = lit ''a/'', canonical_name = lit ''a/'', is_directory = True\<rparr>]"
  using zip_read_back [OF demo_accepted]
  by (simp add: member_of_def demo_record_name ends_with_slash_def Let_def) (simp add: lit_def)

end
