(* ===== verification/Multipart_Counter.thy ===== *)
theory Multipart_Counter
  imports Office_Limits
begin

text \<open>
  The bounded multipart state machine of \<open>modules/office_tools/upload_limits.py\<close>
  (\<open>_MultipartFileCounter\<close>): it is fed the body of an upload in pieces and counts the files
  and their bytes while it keeps only a tail of the input. The header parser of the
  \<open>python_multipart\<close> package is a parameter: it returns the option names of a header value,
  or \<open>None\<close> where it raises one of the errors the code catches. A reference parser that sees
  the whole body says what the machine must decide; the properties relate the two for every
  way of cutting the body into pieces.
\<close>

subsection \<open>Limits and errors\<close>

record multipart_limits =
  max_total_bytes :: nat
  max_file_bytes :: nat
  max_files :: nat

definition office_multipart_limits :: "int \<Rightarrow> int \<Rightarrow> int \<Rightarrow> multipart_limits option" where
  "office_multipart_limits t f n =
     (if t < 1 \<or> f < 1 \<or> n < 1 then None
      else Some \<lparr>max_total_bytes = nat t, max_file_bytes = nat f, max_files = nat n\<rparr>)"

datatype bound = Header_Size | File_Count | File_Size | Total_Size
datatype malformed = Bad_Boundary | Bad_Part_Header | Bad_Disposition | Aborted_Body | Bad_Body | Bad_Content_Type

text \<open>\<open>OfficeMultipartLimitExceeded\<close> and \<open>_MalformedOfficeUpload\<close>, with their messages.\<close>

datatype ingress_error = Exceeded bound | Malformed malformed

type_synonym 'a ingress = "(ingress_error, 'a) result"

definition MAX_PART_HEADER_BYTES :: nat where "MAX_PART_HEADER_BYTES = 16 * 1024"

definition CRLF :: bytes where "CRLF = [CHR 0x0D, CHR 0x0A]"
definition DASHES :: bytes where "DASHES = ''--''"

subsection \<open>Part headers\<close>

definition is_byte_space :: "char \<Rightarrow> bool" where
  "is_byte_space c \<longleftrightarrow> c \<in> {CHR '' '', CHR 0x09, CHR 0x0A, CHR 0x0B, CHR 0x0C, CHR 0x0D}"

definition bytes_strip :: "bytes \<Rightarrow> bytes" where
  "bytes_strip b = strip_of is_byte_space b"

definition bytes_lower :: "bytes \<Rightarrow> bytes" where
  "bytes_lower b = map (\<lambda>c. char_of (ascii_lower (of_char c))) b"

text \<open>\<open>line.partition(b':')\<close>: \<open>None\<close> when there is no separator.\<close>

definition partition_colon :: "bytes \<Rightarrow> (bytes \<times> bytes) option" where
  "partition_colon line =
     (case find_sub '':'' line of None \<Rightarrow> None | Some i \<Rightarrow> Some (take i line, drop (Suc i) line))"

type_synonym header_options = "bytes \<Rightarrow> bytes list option"

text \<open>The loop over the header lines, which keeps the last disposition.\<close>

fun scan_header_lines :: "bytes option \<Rightarrow> bytes list \<Rightarrow> bytes option ingress" where
  "scan_header_lines found [] = Inr found"
| "scan_header_lines found (line # ls) =
     (case partition_colon line of
        None \<Rightarrow> Inl (Malformed Bad_Part_Header)
      | Some (name, val) \<Rightarrow>
          if bytes_strip name = [] then Inl (Malformed Bad_Part_Header)
          else if bytes_lower (bytes_strip name) = ''content-disposition''
          then scan_header_lines (Some (bytes_strip val)) ls
          else scan_header_lines found ls)"

definition headers_describe_file :: "header_options \<Rightarrow> bytes \<Rightarrow> bool ingress" where
  "headers_describe_file options header_bytes =
     bind_result (scan_header_lines None (split_seq CRLF header_bytes)) (\<lambda>found.
     case found of
       None \<Rightarrow> Inr False
     | Some disposition \<Rightarrow>
         (case options disposition of
            None \<Rightarrow> Inl (Malformed Bad_Disposition)
          | Some names \<Rightarrow>
              Inr (\<exists>p \<in> set names. p = ''filename'' \<or> starts_with p ''filename*'')))"

subsection \<open>The state machine\<close>

datatype phase = Preamble | Headers | Body | Finished

record counter =
  initial_boundary :: bytes
  part_boundary :: bytes
  limits :: multipart_limits
  buffer :: bytes
  phase :: phase
  part_is_file :: bool
  file_bytes :: nat
  file_count :: nat

definition new_counter :: "bytes \<Rightarrow> multipart_limits \<Rightarrow> counter" where
  "new_counter boundary lim =
     \<lparr>initial_boundary = DASHES @ boundary, part_boundary = CRLF @ DASHES @ boundary, limits = lim,
      buffer = [], phase = Preamble, part_is_file = False, file_bytes = 0, file_count = 0\<rparr>"

definition consume_preamble :: "counter \<Rightarrow> counter ingress" where
  "consume_preamble c =
     (let needed = length (initial_boundary c) + 2
      in if length (buffer c) < needed then Inr c
         else if \<not> starts_with (buffer c) (initial_boundary c) then Inl (Malformed Bad_Boundary)
         else
           let suf = take 2 (drop (length (initial_boundary c)) (buffer c));
               c1 = c\<lparr>buffer := drop needed (buffer c)\<rparr>
           in if suf = DASHES then Inr (c1\<lparr>phase := Finished\<rparr>)
              else if suf = CRLF then Inr (c1\<lparr>phase := Headers\<rparr>)
              else Inl (Malformed Bad_Boundary))"

definition consume_headers :: "header_options \<Rightarrow> counter \<Rightarrow> counter ingress" where
  "consume_headers options c =
     (case find_sub (CRLF @ CRLF) (buffer c) of
        None \<Rightarrow>
          if MAX_PART_HEADER_BYTES < length (buffer c) then Inl (Exceeded Header_Size) else Inr c
      | Some marker_index \<Rightarrow>
          bind_result (headers_describe_file options (take marker_index (buffer c))) (\<lambda>is_file.
          let c1 = c\<lparr>buffer := drop (marker_index + 4) (buffer c), part_is_file := is_file, file_bytes := 0\<rparr>
          in if is_file then
               (let c2 = c1\<lparr>file_count := Suc (file_count c1)\<rparr>
                in if max_files (limits c) < file_count c2 then Inl (Exceeded File_Count)
                   else Inr (c2\<lparr>phase := Body\<rparr>))
             else Inr (c1\<lparr>phase := Body\<rparr>)))"

definition consume_file_bytes :: "nat \<Rightarrow> counter \<Rightarrow> counter ingress" where
  "consume_file_bytes n c =
     (if \<not> part_is_file c \<or> n = 0 then Inr c
      else
        let c1 = c\<lparr>file_bytes := file_bytes c + n\<rparr>
        in if max_file_bytes (limits c) < file_bytes c1 then Inl (Exceeded File_Size) else Inr c1)"

definition consume_body :: "counter \<Rightarrow> counter ingress" where
  "consume_body c =
     (case find_sub (part_boundary c) (buffer c) of
        Some marker_index \<Rightarrow>
          let boundary_end = marker_index + length (part_boundary c);
              suf = take 2 (drop boundary_end (buffer c))
          in if length (buffer c) < boundary_end + 2 then Inr c
             else if suf = DASHES then
               map_sum id (\<lambda>c1. c1\<lparr>buffer := drop (boundary_end + 2) (buffer c), phase := Finished\<rparr>)
                 (consume_file_bytes marker_index c)
             else if suf = CRLF then
               map_sum id (\<lambda>c1. c1\<lparr>buffer := drop (boundary_end + 2) (buffer c), part_is_file := False,
                   file_bytes := 0, phase := Headers\<rparr>)
                 (consume_file_bytes marker_index c)
             else
               map_sum id (\<lambda>c1. c1\<lparr>buffer := drop (Suc marker_index) (buffer c)\<rparr>)
                 (consume_file_bytes (Suc marker_index) c)
      | None \<Rightarrow>
          let safe_length = length (buffer c) - (length (part_boundary c) - 1)
          in if 0 < safe_length then
               map_sum id (\<lambda>c1. c1\<lparr>buffer := drop safe_length (buffer c)\<rparr>) (consume_file_bytes safe_length c)
             else Inr c)"

definition consume :: "header_options \<Rightarrow> counter \<Rightarrow> counter ingress" where
  "consume options c =
     (case phase c of
        Preamble \<Rightarrow> consume_preamble c
      | Headers \<Rightarrow> consume_headers options c
      | Body \<Rightarrow> consume_body c
      | Finished \<Rightarrow> Inr c)"

lemma consume_file_bytes_Inr:
  "consume_file_bytes n c = Inr d \<Longrightarrow>
     d = c\<lparr>file_bytes := if part_is_file c then file_bytes c + n else file_bytes c\<rparr>"
  by (auto simp: consume_file_bytes_def Let_def split: if_splits)

lemma map_sum_Inr: "map_sum id f r = Inr y \<longleftrightarrow> (\<exists>x. r = Inr x \<and> y = f x)"
  by (cases r) auto

text \<open>A turn of the loop that changes the phase or the length takes bytes off the buffer.\<close>

lemma consume_shrinks:
  assumes "consume options c = Inr d" "(phase d, length (buffer d)) \<noteq> (phase c, length (buffer c))"
  shows "length (buffer d) < length (buffer c)"
proof (cases "phase c")
  case Preamble
  with assms show ?thesis
    by (auto simp: consume_def consume_preamble_def Let_def split: if_splits)
next
  case Headers
  show ?thesis
  proof (cases "find_sub (CRLF @ CRLF) (buffer c)")
    case None
    with Headers assms show ?thesis by (auto simp: consume_def consume_headers_def split: if_splits)
  next
    case (Some i)
    then have "i + 4 \<le> length (buffer c)" by (auto simp: find_sub_Some occurs_at_def CRLF_def)
    with Headers assms Some show ?thesis
      by (auto simp: consume_def consume_headers_def Let_def bind_result_Inr split: if_splits)
  qed
next
  case Body
  show ?thesis
  proof (cases "find_sub (part_boundary c) (buffer c)")
    case None
    with Body assms show ?thesis
      by (auto simp: consume_def consume_body_def Let_def map_sum_Inr split: if_splits)
  next
    case (Some i)
    show ?thesis
    proof (cases "length (buffer c) < i + length (part_boundary c) + 2")
      case True
      with Some Body assms show ?thesis by (auto simp: consume_def consume_body_def Let_def)
    next
      case False
      with Some Body assms show ?thesis
        by (auto simp: consume_def consume_body_def Let_def map_sum_Inr split: if_splits)
    qed
  qed
next
  case Finished
  with assms show ?thesis by (auto simp: consume_def)
qed

text \<open>The loop of \<open>feed\<close>.\<close>

function feed_loop :: "header_options \<Rightarrow> counter \<Rightarrow> counter ingress" where
  "feed_loop options c =
     (if phase c = Finished then Inr c
      else
        (case consume options c of
           Inl e \<Rightarrow> Inl e
         | Inr d \<Rightarrow>
             if (phase d, length (buffer d)) = (phase c, length (buffer c)) then Inr d
             else feed_loop options d))"
  by pat_completeness auto
termination
  by (relation "measure (\<lambda>(options, c). length (buffer c))") (use consume_shrinks in auto)

declare feed_loop.simps [simp del]

definition feed :: "header_options \<Rightarrow> counter \<Rightarrow> bytes \<Rightarrow> counter ingress" where
  "feed options c body =
     (if phase c = Finished \<or> body = [] then Inr c
      else feed_loop options (c\<lparr>buffer := buffer c @ body\<rparr>))"

definition finish :: "counter \<Rightarrow> counter ingress" where
  "finish c =
     bind_result
       (if phase c = Body \<and> buffer c \<noteq> [] then
          map_sum id (\<lambda>c1. c1\<lparr>buffer := []\<rparr>) (consume_file_bytes (length (buffer c)) c)
        else Inr c)
       (\<lambda>c1. if phase c1 \<noteq> Finished then Inl (Malformed Bad_Boundary) else Inr c1)"

fun feed_all :: "header_options \<Rightarrow> counter \<Rightarrow> bytes list \<Rightarrow> counter ingress" where
  "feed_all options c [] = Inr c"
| "feed_all options c (b # bs) = bind_result (feed options c b) (\<lambda>d. feed_all options d bs)"

text \<open>The verdict on a body that arrives in pieces.\<close>

definition counter_accepts :: "header_options \<Rightarrow> bytes \<Rightarrow> multipart_limits \<Rightarrow> bytes list \<Rightarrow> bool" where
  "counter_accepts options boundary lim pieces =
     is_ok (bind_result (feed_all options (new_counter boundary lim) pieces) finish)"

subsection \<open>The reference parser\<close>

text \<open>
  The parts of a body that is seen as a whole. A part ends at the first delimiter after its
  headers: the part boundary, followed by the two dashes that close the body or by the line
  end that opens the next part.
\<close>

definition delimiter_at :: "bytes \<Rightarrow> bytes \<Rightarrow> nat \<Rightarrow> bool" where
  "delimiter_at pb s j \<longleftrightarrow> occurs_at (pb @ DASHES) s j \<or> occurs_at (pb @ CRLF) s j"

definition first_delimiter :: "bytes \<Rightarrow> bytes \<Rightarrow> nat option" where
  "first_delimiter pb s = find (delimiter_at pb s) [0..<length s]"

function reference_parts :: "bytes \<Rightarrow> bytes \<Rightarrow> (bytes \<times> bytes) list option" where
  "reference_parts pb s =
     (case find_sub (CRLF @ CRLF) s of
        None \<Rightarrow> None
      | Some i \<Rightarrow>
          (case first_delimiter pb (drop (i + 4) s) of
             None \<Rightarrow> None
           | Some j \<Rightarrow>
               let part = (take i s, take j (drop (i + 4) s))
               in if occurs_at (pb @ DASHES) (drop (i + 4) s) j then Some [part]
                  else map_option (\<lambda>ps. part # ps)
                    (reference_parts pb (drop (j + length pb + 2) (drop (i + 4) s)))))"
  by pat_completeness auto
termination
  by (relation "measure (\<lambda>(pb, s). length s)") (auto simp: find_sub_Some occurs_at_def CRLF_def)

declare reference_parts.simps [simp del]

definition opened_parts :: "bytes \<Rightarrow> bytes \<Rightarrow> bytes \<Rightarrow> (bytes \<times> bytes) list option" where
  "opened_parts ib pb s =
     (if starts_with s (ib @ DASHES) then Some []
      else if starts_with s (ib @ CRLF) then reference_parts pb (drop (length ib + 2) s)
      else None)"

definition multipart_parts :: "bytes \<Rightarrow> bytes \<Rightarrow> (bytes \<times> bytes) list option" where
  "multipart_parts boundary s = opened_parts (DASHES @ boundary) (CRLF @ DASHES @ boundary) s"

definition file_part :: "header_options \<Rightarrow> bytes \<times> bytes \<Rightarrow> bool" where
  "file_part options part \<longleftrightarrow> headers_describe_file options (fst part) = Inr True"

definition part_fine :: "header_options \<Rightarrow> multipart_limits \<Rightarrow> bytes \<times> bytes \<Rightarrow> bool" where
  "part_fine options lim part \<longleftrightarrow> is_ok (headers_describe_file options (fst part)) \<and>
     (if file_part options part then length (snd part) \<le> max_file_bytes lim else True)"

definition within_limits :: "header_options \<Rightarrow> multipart_limits \<Rightarrow> (bytes \<times> bytes) list \<Rightarrow> bool" where
  "within_limits options lim parts \<longleftrightarrow>
     list_all (part_fine options lim) parts \<and> length (filter (file_part options) parts) \<le> max_files lim"

subsection \<open>Delimiters\<close>

lemma delimiter_bound: "delimiter_at pb s j \<Longrightarrow> j + length pb + 2 \<le> length s"
  by (auto simp: delimiter_at_def occurs_at_def DASHES_def CRLF_def)

lemma first_delimiter_Some:
  "first_delimiter pb s = Some j \<longleftrightarrow> delimiter_at pb s j \<and> (\<forall>i < j. \<not> delimiter_at pb s i)"
proof
  assume *: "delimiter_at pb s j \<and> (\<forall>i < j. \<not> delimiter_at pb s i)"
  then have "j < length s" using delimiter_bound [of pb s j] by simp
  with * show "first_delimiter pb s = Some j"
    unfolding first_delimiter_def find_Some_iff by (intro exI [of _ j]) simp
qed (auto simp: first_delimiter_def find_Some_iff)

lemma first_delimiter_None: "first_delimiter pb s = None \<longleftrightarrow> (\<forall>j. \<not> delimiter_at pb s j)"
  using delimiter_bound [of pb s] by (fastforce simp: first_delimiter_def find_None_iff)

lemma delimiter_at_drop: "n \<le> length s \<Longrightarrow> delimiter_at pb (drop n s) j \<longleftrightarrow> delimiter_at pb s (n + j)"
  by (simp add: delimiter_at_def occurs_at_drop)

lemma first_delimiter_skip:
  assumes "n \<le> length s" "\<forall>i < n. \<not> delimiter_at pb s i"
  shows "first_delimiter pb s = map_option ((+) n) (first_delimiter pb (drop n s))"
proof (cases "first_delimiter pb (drop n s)")
  case None
  then have "\<not> delimiter_at pb s j" for j
    using assms by (cases "j < n") (auto simp: first_delimiter_None delimiter_at_drop dest: spec [of _ "j - n"])
  then have "first_delimiter pb s = None" by (simp add: first_delimiter_None)
  with None show ?thesis by simp
next
  case (Some j)
  then have d: "delimiter_at pb s (n + j)" "\<And>i. i < j \<Longrightarrow> \<not> delimiter_at pb s (n + i)"
    using assms(1) by (auto simp: first_delimiter_Some delimiter_at_drop)
  have "\<not> delimiter_at pb s i" if "i < n + j" for i
    using assms(2) d(2) [of "i - n"] that by (cases "i < n") auto
  with d(1) have "first_delimiter pb s = Some (n + j)" by (simp add: first_delimiter_Some)
  with Some show ?thesis by simp
qed

lemma delimiter_at_marker: "delimiter_at pb s j \<Longrightarrow> occurs_at pb s j"
  by (auto simp: delimiter_at_def occurs_at_app)

lemma delimiter_suffix:
  assumes "occurs_at pb s j" "j + length pb + 2 \<le> length s"
  shows "occurs_at (pb @ DASHES) s j \<longleftrightarrow> take 2 (drop (j + length pb) s) = DASHES"
    "occurs_at (pb @ CRLF) s j \<longleftrightarrow> take 2 (drop (j + length pb) s) = CRLF"
  using assms by (simp_all add: occurs_at_app) (simp_all add: occurs_at_def DASHES_def CRLF_def numeral_2_eq_2)

subsection \<open>The verdict from a state on\<close>

text \<open>
  \<open>accepts P options c s\<close> is what the reference parser says of the rest \<open>s\<close> of the input, the
  buffer included, when the machine is in state \<open>c\<close>; \<open>P\<close> is a further condition on the headers
  of the parts.
\<close>

definition parts_fine :: "(bytes \<Rightarrow> bool) \<Rightarrow> header_options \<Rightarrow> multipart_limits \<Rightarrow> nat \<Rightarrow> (bytes \<times> bytes) list \<Rightarrow> bool" where
  "parts_fine P options lim n parts \<longleftrightarrow> list_all (\<lambda>p. P (fst p) \<and> part_fine options lim p) parts \<and>
     n + length (filter (file_part options) parts) \<le> max_files lim"

definition accepts :: "(bytes \<Rightarrow> bool) \<Rightarrow> header_options \<Rightarrow> counter \<Rightarrow> bytes \<Rightarrow> bool" where
  "accepts P options c s \<longleftrightarrow>
     (case phase c of
        Preamble \<Rightarrow> (\<exists>ps. opened_parts (initial_boundary c) (part_boundary c) s = Some ps \<and>
            parts_fine P options (limits c) (file_count c) ps)
      | Headers \<Rightarrow> (\<exists>ps. reference_parts (part_boundary c) s = Some ps \<and>
            parts_fine P options (limits c) (file_count c) ps)
      | Body \<Rightarrow> (\<exists>j. first_delimiter (part_boundary c) s = Some j \<and>
            (part_is_file c \<longrightarrow> file_bytes c + j \<le> max_file_bytes (limits c)) \<and>
            (if occurs_at (part_boundary c @ DASHES) s j then file_count c \<le> max_files (limits c)
             else \<exists>ps. reference_parts (part_boundary c) (drop (j + length (part_boundary c) + 2) s) = Some ps \<and>
               parts_fine P options (limits c) (file_count c) ps))
      | Finished \<Rightarrow> file_count c \<le> max_files (limits c))"

lemma consume_file_bytes_Inl:
  "consume_file_bytes n c = Inl e \<Longrightarrow> part_is_file c \<and> max_file_bytes (limits c) < file_bytes c + n"
  by (auto simp: consume_file_bytes_def Let_def split: if_splits)

lemma consume_file_bytes_ok:
  "consume_file_bytes n c = Inr d \<Longrightarrow> file_bytes c \<le> max_file_bytes (limits c) \<or> 0 < n \<Longrightarrow>
     part_is_file c \<Longrightarrow> file_bytes c + n \<le> max_file_bytes (limits c)"
  by (auto simp: consume_file_bytes_def Let_def split: if_splits)

text \<open>What a turn of the loop leaves as it was, and the bound on the files of the state.\<close>

definition counter_ok :: "counter \<Rightarrow> bool" where
  "counter_ok c \<longleftrightarrow> part_boundary c \<noteq> [] \<and> file_count c \<le> max_files (limits c) \<and>
     (part_is_file c \<longrightarrow> file_bytes c \<le> max_file_bytes (limits c))"

lemma consume_file_bytes_counter:
  "consume_file_bytes n c = Inr d \<Longrightarrow> counter_ok c \<Longrightarrow> counter_ok d"
  by (auto simp: consume_file_bytes_def counter_ok_def Let_def split: if_splits)

lemma counter_ok_cong [simp]:
  "counter_ok (c\<lparr>buffer := b\<rparr>) = counter_ok c" "counter_ok (c\<lparr>phase := p\<rparr>) = counter_ok c"
  "counter_ok (c\<lparr>buffer := b, phase := p\<rparr>) = counter_ok c"
  by (simp_all add: counter_ok_def)

lemma counter_ok_reset: "counter_ok c \<Longrightarrow> counter_ok (c\<lparr>buffer := b, part_is_file := False, file_bytes := n\<rparr>)"
  by (simp add: counter_ok_def)

text \<open>The turns of the loop inside a part.\<close>

lemma consume_body_cases:
  assumes "consume_body c = Inr d"
  obtains (stay) "d = c"
  | (skip) n c1 where "consume_file_bytes n c = Inr c1" "d = c1\<lparr>buffer := drop n (buffer c)\<rparr>" "n \<le> length (buffer c)"
      "find_sub (part_boundary c) (buffer c) = None \<and> n + length (part_boundary c) = Suc (length (buffer c)) \<or>
       (\<exists>m. find_sub (part_boundary c) (buffer c) = Some m \<and> n = Suc m \<and>
          m + length (part_boundary c) + 2 \<le> length (buffer c) \<and>
          take 2 (drop (m + length (part_boundary c)) (buffer c)) \<notin> {DASHES, CRLF})"
  | (closed) m c1 where "consume_file_bytes m c = Inr c1" "find_sub (part_boundary c) (buffer c) = Some m"
      "m + length (part_boundary c) + 2 \<le> length (buffer c)"
      "take 2 (drop (m + length (part_boundary c)) (buffer c)) = DASHES"
      "d = c1\<lparr>buffer := drop (m + length (part_boundary c) + 2) (buffer c), phase := Finished\<rparr>"
  | (next_part) m c1 where "consume_file_bytes m c = Inr c1" "find_sub (part_boundary c) (buffer c) = Some m"
      "m + length (part_boundary c) + 2 \<le> length (buffer c)"
      "take 2 (drop (m + length (part_boundary c)) (buffer c)) = CRLF"
      "d = c1\<lparr>buffer := drop (m + length (part_boundary c) + 2) (buffer c), part_is_file := False,
         file_bytes := 0, phase := Headers\<rparr>"
proof (cases "find_sub (part_boundary c) (buffer c)")
  case None
  show ?thesis
  proof (cases "0 < length (buffer c) - (length (part_boundary c) - 1)")
    case True
    define n where "n = length (buffer c) - (length (part_boundary c) - 1)"
    from assms None True obtain c1 where c1: "consume_file_bytes n c = Inr c1" "d = c1\<lparr>buffer := drop n (buffer c)\<rparr>"
      by (auto simp: consume_body_def Let_def map_sum_Inr n_def)
    have "part_boundary c \<noteq> []" using None by (cases "buffer c") (auto simp: starts_with_def)
    then have "n + length (part_boundary c) = Suc (length (buffer c))" using True unfolding n_def
      by (cases "part_boundary c") auto
    with c1 None skip [of n c1] show ?thesis by (simp add: n_def)
  qed (use None assms stay in \<open>simp add: consume_body_def Let_def\<close>)
next
  case (Some m)
  then have e: "consume_body c = (let b = m + length (part_boundary c); suf = take 2 (drop b (buffer c))
          in if length (buffer c) < b + 2 then Inr c
             else if suf = DASHES then
               map_sum id (\<lambda>c1. c1\<lparr>buffer := drop (b + 2) (buffer c), phase := Finished\<rparr>) (consume_file_bytes m c)
             else if suf = CRLF then
               map_sum id (\<lambda>c1. c1\<lparr>buffer := drop (b + 2) (buffer c), part_is_file := False,
                   file_bytes := 0, phase := Headers\<rparr>) (consume_file_bytes m c)
             else map_sum id (\<lambda>c1. c1\<lparr>buffer := drop (Suc m) (buffer c)\<rparr>) (consume_file_bytes (Suc m) c))"
    by (simp add: consume_body_def)
  let ?b = "m + length (part_boundary c)"
  let ?suf = "take 2 (drop ?b (buffer c))"
  consider "length (buffer c) < ?b + 2" | "?b + 2 \<le> length (buffer c)" "?suf = DASHES"
    | "?b + 2 \<le> length (buffer c)" "?suf = CRLF" "?suf \<noteq> DASHES"
    | "?b + 2 \<le> length (buffer c)" "?suf \<noteq> DASHES" "?suf \<noteq> CRLF" by fastforce
  then show ?thesis
  proof cases
    case 1
    with e assms stay show ?thesis by (simp add: Let_def)
  next
    case 2
    from assms [unfolded e] 2 obtain c1 where "consume_file_bytes m c = Inr c1"
      "d = c1\<lparr>buffer := drop (?b + 2) (buffer c), phase := Finished\<rparr>"
      by (auto simp: Let_def map_sum_Inr)
    with 2 Some closed show ?thesis by blast
  next
    case 3
    from assms [unfolded e] 3 obtain c1 where "consume_file_bytes m c = Inr c1"
      "d = c1\<lparr>buffer := drop (?b + 2) (buffer c), part_is_file := False, file_bytes := 0, phase := Headers\<rparr>"
      by (auto simp: Let_def map_sum_Inr)
    with 3 Some next_part show ?thesis by blast
  next
    case 4
    from assms [unfolded e] 4 obtain c1 where "consume_file_bytes (Suc m) c = Inr c1" "d = c1\<lparr>buffer := drop (Suc m) (buffer c)\<rparr>"
      by (auto simp: Let_def map_sum_Inr)
    with 4 Some skip [of "Suc m" c1] show ?thesis by simp
  qed
qed

lemma consume_headers_ok:
  assumes "consume_headers options c = Inr d" "counter_ok c"
  shows "counter_ok d"
proof (cases "find_sub (CRLF @ CRLF) (buffer c)")
  case None
  with assms show ?thesis by (simp add: consume_headers_def split: if_splits)
next
  case (Some i)
  with assms(1) obtain f where "headers_describe_file options (take i (buffer c)) = Inr f"
    by (auto simp: consume_headers_def bind_result_Inr)
  with assms(1) Some have "d = c\<lparr>buffer := drop (i + 4) (buffer c), part_is_file := False, file_bytes := 0,
      phase := Body\<rparr> \<or> d = c\<lparr>buffer := drop (i + 4) (buffer c), part_is_file := True, file_bytes := 0,
      file_count := Suc (file_count c), phase := Body\<rparr> \<and> Suc (file_count c) \<le> max_files (limits c)"
    by (cases f) (auto simp: consume_headers_def Let_def not_less split: if_splits)
  with assms(2) show ?thesis by (auto simp: counter_ok_def)
qed

lemma consume_ok:
  assumes "consume options c = Inr d" "counter_ok c"
  shows "counter_ok d"
proof (cases "phase c")
  case Headers
  then show ?thesis
    using assms consume_headers_ok by (simp add: consume_def)
next
  case Body
  with assms(1) have "consume_body c = Inr d" by (simp add: consume_def)
  then show ?thesis
    by (rule consume_body_cases)
      (use assms(2) in \<open>auto dest: consume_file_bytes_counter intro: counter_ok_reset\<close>)
qed (use assms in \<open>auto simp: consume_def consume_preamble_def Let_def split: if_splits\<close>)

lemma consume_same:
  assumes "consume options c = Inr d" "(phase d, length (buffer d)) = (phase c, length (buffer c))"
  shows "d = c"
proof (cases "phase c")
  case Headers
  show ?thesis
  proof (cases "find_sub (CRLF @ CRLF) (buffer c)")
    case None
    with Headers assms(1) show ?thesis by (auto simp: consume_def consume_headers_def split: if_splits)
  next
    case (Some i)
    with Headers assms(1) have "phase d = Body"
      by (auto simp: consume_def consume_headers_def Let_def bind_result_Inr split: if_splits)
    with Headers assms(2) show ?thesis by simp
  qed
next
  case Body
  with assms(1) have "consume_body c = Inr d" by (simp add: consume_def)
  then show ?thesis
  proof (cases rule: consume_body_cases)
    case (skip n c1)
    then have "n = 0" using assms(2) by auto
    with skip show ?thesis by (auto simp: consume_file_bytes_def)
  qed (use assms(2) Body in auto)
next
  case Preamble
  with assms(1) have "d = c \<or> phase d \<noteq> Preamble"
    by (auto simp: consume_def consume_preamble_def Let_def split: if_splits)
  with Preamble assms(2) show ?thesis by simp
next
  case Finished
  with assms(1) show ?thesis by (simp add: consume_def)
qed

lemma no_marker_no_delimiter:
  assumes "find_sub pb buf = None" "i + length pb \<le> length buf"
  shows "\<not> delimiter_at pb (buf @ zs) i"
  using assms delimiter_at_marker [of pb "buf @ zs" i] by (auto simp: find_sub_None occurs_at_append_iff)

lemma before_marker_no_delimiter:
  assumes "find_sub pb buf = Some m" "i < m"
  shows "\<not> delimiter_at pb (buf @ zs) i"
proof -
  from assms have "i + length pb \<le> length buf" "\<not> occurs_at pb buf i"
    by (auto simp: find_sub_Some occurs_at_def)
  then show ?thesis using delimiter_at_marker [of pb "buf @ zs" i] by (auto simp: occurs_at_append_iff)
qed

lemma marker_delimiter:
  assumes "find_sub pb buf = Some m" "m + length pb + 2 \<le> length buf"
  shows "occurs_at (pb @ DASHES) (buf @ zs) m \<longleftrightarrow> take 2 (drop (m + length pb) buf) = DASHES"
    "occurs_at (pb @ CRLF) (buf @ zs) m \<longleftrightarrow> take 2 (drop (m + length pb) buf) = CRLF"
proof -
  from assms have o: "occurs_at pb (buf @ zs) m" by (auto simp: find_sub_Some intro: occurs_at_append)
  have t: "take 2 (drop (m + length pb) (buf @ zs)) = take 2 (drop (m + length pb) buf)" using assms(2) by simp
  show "occurs_at (pb @ DASHES) (buf @ zs) m \<longleftrightarrow> take 2 (drop (m + length pb) buf) = DASHES"
    "occurs_at (pb @ CRLF) (buf @ zs) m \<longleftrightarrow> take 2 (drop (m + length pb) buf) = CRLF"
    using delimiter_suffix [OF o] assms(2) by (simp_all only: t) simp_all
qed

text \<open>Skipping bytes of a part in which no delimiter can start does not change the verdict.\<close>

lemma accepts_skip:
  assumes "phase c = Body" "consume_file_bytes n c = Inr d" "n \<le> length s"
    and "\<forall>i < n. \<not> delimiter_at (part_boundary c) s i"
  shows "accepts P options (d\<lparr>buffer := b\<rparr>) (drop n s) \<longleftrightarrow> accepts P options c s"
proof (cases "first_delimiter (part_boundary c) (drop n s)")
  case None
  then show ?thesis
    using assms(1) first_delimiter_skip [OF assms(3,4)]
    by (simp add: accepts_def consume_file_bytes_Inr [OF assms(2)])
next
  case (Some j)
  then have first: "first_delimiter (part_boundary c) s = Some (n + j)"
    using first_delimiter_skip [OF assms(3,4)] by simp
  have rest: "drop (Suc (Suc (j + length (part_boundary c)))) (drop n s) =
      drop (Suc (Suc (j + (n + length (part_boundary c))))) s"
    by (simp add: ac_simps)
  show ?thesis
    unfolding accepts_def consume_file_bytes_Inr [OF assms(2)]
    by (simp add: assms(1) Some first rest occurs_at_drop [OF assms(3)] ac_simps del: drop_drop)
qed

lemma accepts_overrun:
  assumes "phase c = Body" "consume_file_bytes n c = Inl e" "n \<le> length s"
    and "\<forall>i < n. \<not> delimiter_at (part_boundary c) s i"
  shows "\<not> accepts P options c s"
  using consume_file_bytes_Inl [OF assms(2)] first_delimiter_skip [OF assms(3,4)] assms(1)
  by (auto simp: accepts_def)

subsection \<open>The machine follows the reference parser\<close>

lemma parts_fine_simps [simp]:
  "parts_fine P options lim n [] \<longleftrightarrow> n \<le> max_files lim"
  "parts_fine P options lim n (p # ps) \<longleftrightarrow> P (fst p) \<and> part_fine options lim p \<and>
     parts_fine P options lim (if file_part options p then Suc n else n) ps"
  by (auto simp: parts_fine_def)

lemma parts_fine_bound: "parts_fine P options lim n ps \<Longrightarrow> n \<le> max_files lim"
  by (simp add: parts_fine_def)

text \<open>The reference parser at the headers of a part.\<close>

lemma reference_headers:
  assumes i: "find_sub (CRLF @ CRLF) s = Some i"
  shows "(\<exists>ps. reference_parts pb s = Some ps \<and> parts_fine P options lim n ps) \<longleftrightarrow>
    P (take i s) \<and> (\<exists>f. headers_describe_file options (take i s) = Inr f \<and>
      (\<exists>j. first_delimiter pb (drop (i + 4) s) = Some j \<and> (f \<longrightarrow> j \<le> max_file_bytes lim) \<and>
        (let k = (if f then Suc n else n)
         in if occurs_at (pb @ DASHES) (drop (i + 4) s) j then k \<le> max_files lim
            else \<exists>ps. reference_parts pb (drop (j + length pb + 2) (drop (i + 4) s)) = Some ps \<and>
              parts_fine P options lim k ps)))"
proof (cases "first_delimiter pb (drop (i + 4) s)")
  case None
  then show ?thesis by (simp add: reference_parts.simps [of pb s] i)
next
  case (Some j)
  let ?rest = "drop (i + 4) s"
  have "j \<le> length ?rest"
    using Some delimiter_bound [of pb ?rest j] by (simp add: first_delimiter_Some)
  then have len: "length (take j ?rest) = j" by simp
  define part where "part = (take i s, take j ?rest)"
  have part: "fst part = take i s" "length (snd part) = j" using len by (simp_all add: part_def)
  have fine: "part_fine options lim part \<longleftrightarrow> (\<exists>f. headers_describe_file options (take i s) = Inr f \<and>
      (f \<longrightarrow> j \<le> max_file_bytes lim))"
    by (cases "headers_describe_file options (take i s)") (auto simp: part_fine_def file_part_def part)
  have isf: "file_part options part \<longleftrightarrow> headers_describe_file options (take i s) = Inr True"
    by (simp add: file_part_def part)
  have ref: "reference_parts pb s = (if occurs_at (pb @ DASHES) ?rest j then Some [part]
      else map_option (\<lambda>ps. part # ps) (reference_parts pb (drop (j + length pb + 2) ?rest)))"
    unfolding reference_parts.simps [of pb s] i option.case Some Let_def part_def by (rule refl)
  show ?thesis
  proof (cases "headers_describe_file options (take i s)")
    case (Inl e)
    then have "\<not> part_fine options lim part" by (simp add: fine)
    then show ?thesis unfolding ref by (auto simp: Inl)
  next
    case (Inr f)
    then have "part_fine options lim part \<longleftrightarrow> (f \<longrightarrow> j \<le> max_file_bytes lim)" "file_part options part \<longleftrightarrow> f"
      by (simp_all add: fine isf)
    then show ?thesis unfolding ref Let_def
      by (auto simp: Inr Some part(1) simp del: drop_drop)
  qed
qed

lemma accepts_headers:
  assumes "consume_headers options c = Inr d" "phase c = Headers" "d \<noteq> c"
  obtains h where "\<And>P zs. accepts P options c (buffer c @ zs) \<longleftrightarrow> P h \<and> accepts P options d (buffer d @ zs)"
proof -
  obtain i where i: "find_sub (CRLF @ CRLF) (buffer c) = Some i"
    using assms(1,3) by (auto simp: consume_headers_def split: option.splits if_splits)
  then obtain f where f: "headers_describe_file options (take i (buffer c)) = Inr f"
    and d: "d = c\<lparr>buffer := drop (i + 4) (buffer c), part_is_file := f, file_bytes := 0,
        file_count := (if f then Suc (file_count c) else file_count c), phase := Body\<rparr>"
    using assms(1) by (cases c) (auto simp: consume_headers_def Let_def bind_result_Inr split: if_splits)
  have il: "i + 4 \<le> length (buffer c)" using i by (auto simp: find_sub_Some occurs_at_def CRLF_def)
  have "accepts P options c (buffer c @ zs) \<longleftrightarrow> P (take i (buffer c)) \<and> accepts P options d (buffer d @ zs)" for P zs
    unfolding accepts_def
    using reference_headers [OF find_sub_append_Some [OF i, of zs], of "part_boundary c" P options "limits c" "file_count c"]
      il f assms(2)
    by (simp add: d Let_def del: drop_drop)
  with that show thesis by blast
qed

lemma skip_no_delimiter:
  assumes "find_sub pb buf = None \<and> n + length pb = Suc (length buf) \<or>
      (\<exists>m. find_sub pb buf = Some m \<and> n = Suc m \<and> m + length pb + 2 \<le> length buf \<and>
         take 2 (drop (m + length pb) buf) \<notin> {DASHES, CRLF})"
  shows "\<forall>i < n. \<not> delimiter_at pb (buf @ zs) i"
  using assms
proof
  assume "find_sub pb buf = None \<and> n + length pb = Suc (length buf)"
  then show ?thesis using no_marker_no_delimiter [of pb buf _ zs] by auto
next
  assume "\<exists>m. find_sub pb buf = Some m \<and> n = Suc m \<and> m + length pb + 2 \<le> length buf \<and>
      take 2 (drop (m + length pb) buf) \<notin> {DASHES, CRLF}"
  then obtain m where m: "find_sub pb buf = Some m" "n = Suc m" "m + length pb + 2 \<le> length buf"
    "take 2 (drop (m + length pb) buf) \<notin> {DASHES, CRLF}" by blast
  with marker_delimiter [OF m(1,3), of zs] before_marker_no_delimiter [OF m(1), of _ zs]
  show ?thesis by (auto simp: delimiter_at_def less_Suc_eq)
qed

lemma marker_first_delimiter:
  assumes "find_sub pb buf = Some m" "m + length pb + 2 \<le> length buf"
    "take 2 (drop (m + length pb) buf) \<in> {DASHES, CRLF}"
  shows "first_delimiter pb (buf @ zs) = Some m"
  using marker_delimiter [OF assms(1,2), of zs] before_marker_no_delimiter [OF assms(1), of _ zs] assms(3)
  by (auto simp: first_delimiter_Some delimiter_at_def)

lemma accepts_body:
  assumes "consume_body c = Inr d" "phase c = Body" "counter_ok c"
  shows "accepts P options c (buffer c @ zs) \<longleftrightarrow> accepts P options d (buffer d @ zs)"
  using assms(1)
proof (cases rule: consume_body_cases)
  case (skip n c1)
  have "accepts P options (c1\<lparr>buffer := drop n (buffer c)\<rparr>) (drop n (buffer c @ zs)) \<longleftrightarrow>
      accepts P options c (buffer c @ zs)"
    using accepts_skip [OF assms(2) skip(1), of "buffer c @ zs"] skip_no_delimiter [OF skip(4)] skip(3) by simp
  with skip show ?thesis by simp
next
  case (closed m c1)
  have f: "first_delimiter (part_boundary c) (buffer c @ zs) = Some m"
    by (rule marker_first_delimiter) (use closed in auto)
  have o: "occurs_at (part_boundary c @ DASHES) (buffer c @ zs) m"
    using marker_delimiter(1) [OF closed(2,3), of zs] closed(4) by simp
  show ?thesis
    using closed(1) f o assms(2,3) unfolding counter_ok_def closed(5) accepts_def
    by (auto simp: consume_file_bytes_Inr [OF closed(1)]) (auto simp: consume_file_bytes_def Let_def split: if_splits)
next
  case (next_part m c1)
  have f: "first_delimiter (part_boundary c) (buffer c @ zs) = Some m"
    by (rule marker_first_delimiter) (use next_part in auto)
  have o: "\<not> occurs_at (part_boundary c @ DASHES) (buffer c @ zs) m"
    using marker_delimiter(1) [OF next_part(2,3), of zs] next_part(4) by (simp add: DASHES_def CRLF_def)
  show ?thesis
    using next_part(1,3) f o assms(2,3) unfolding counter_ok_def next_part(5) accepts_def
    by (auto simp: consume_file_bytes_Inr [OF next_part(1)]) (auto simp: consume_file_bytes_def Let_def split: if_splits)
qed simp

lemma starts_with_append: "length p \<le> length s \<Longrightarrow> starts_with (s @ zs) p \<longleftrightarrow> starts_with s p"
  by (simp add: starts_with_def)

lemma starts_with_app: "starts_with s (p @ q) \<longleftrightarrow> starts_with s p \<and> starts_with (drop (length p) s) q"
  by (cases "length p \<le> length s")
    (auto simp: starts_with_occurs occurs_at_app occurs_at_drop dest: occurs_at_bound)

lemma opened_parts_buffer:
  assumes "length ib + 2 \<le> length buf"
  shows "opened_parts ib pb (buf @ zs) =
     (if \<not> starts_with buf ib then None
      else if take 2 (drop (length ib) buf) = DASHES then Some []
      else if take 2 (drop (length ib) buf) = CRLF then reference_parts pb (drop (length ib + 2) buf @ zs)
      else None)"
  using assms
  by (auto simp: opened_parts_def starts_with_append starts_with_app DASHES_def CRLF_def)
    (auto simp: starts_with_def numeral_2_eq_2)

lemma accepts_preamble:
  assumes "phase c = Preamble"
  shows "consume_preamble c = Inr d \<Longrightarrow> accepts P options c (buffer c @ zs) \<longleftrightarrow> accepts P options d (buffer d @ zs)"
    "consume_preamble c = Inl e \<Longrightarrow> \<not> accepts P options c (buffer c @ zs)"
proof -
  have long: "length (initial_boundary c) + 2 \<le> length (buffer c)"
    if "\<not> length (buffer c) < length (initial_boundary c) + 2" using that by simp
  show "consume_preamble c = Inr d \<Longrightarrow> accepts P options c (buffer c @ zs) \<longleftrightarrow> accepts P options d (buffer d @ zs)"
    "consume_preamble c = Inl e \<Longrightarrow> \<not> accepts P options c (buffer c @ zs)"
    using assms opened_parts_buffer [OF long]
    by (auto simp: consume_preamble_def accepts_def Let_def split: if_splits)
qed

text \<open>A turn of the loop keeps the verdict; a condition on headers can only be used up.\<close>

lemma accepts_consume:
  assumes "consume options c = Inr d" "counter_ok c"
  shows "accepts P options c (buffer c @ zs) \<Longrightarrow> accepts P options d (buffer d @ zs)"
    "accepts (\<lambda>_. True) options d (buffer d @ zs) \<Longrightarrow> accepts (\<lambda>_. True) options c (buffer c @ zs)"
proof -
  have "(accepts P options c (buffer c @ zs) \<longrightarrow> accepts P options d (buffer d @ zs)) \<and>
    (accepts (\<lambda>_. True) options d (buffer d @ zs) \<longrightarrow> accepts (\<lambda>_. True) options c (buffer c @ zs))"
  proof (cases "phase c")
    case Preamble
    with assms have "consume_preamble c = Inr d" by (simp add: consume_def)
    with accepts_preamble(1) [OF Preamble] show ?thesis by blast
  next
    case Headers
    show ?thesis
    proof (cases "d = c")
      case False
      from Headers assms(1) have "consume_headers options c = Inr d" by (simp add: consume_def)
      from accepts_headers [OF this Headers False] show ?thesis by metis
    qed simp
  next
    case Body
    with assms(1) have "consume_body c = Inr d" by (simp add: consume_def)
    from accepts_body [OF this Body assms(2)] show ?thesis by blast
  qed (use assms in \<open>simp add: consume_def\<close>)
  then show "accepts P options c (buffer c @ zs) \<Longrightarrow> accepts P options d (buffer d @ zs)"
    "accepts (\<lambda>_. True) options d (buffer d @ zs) \<Longrightarrow> accepts (\<lambda>_. True) options c (buffer c @ zs)"
    by blast+
qed

text \<open>A turn that raises does so on an input the reference parser refuses, or on long headers.\<close>

definition short_header :: "bytes \<Rightarrow> bool" where
  "short_header h \<longleftrightarrow> length h + 3 \<le> MAX_PART_HEADER_BYTES"

lemma consume_body_error:
  assumes "consume_body c = Inl e" "part_boundary c \<noteq> []"
  obtains n where "consume_file_bytes n c = Inl e" "n \<le> length (buffer c)"
    "\<And>zs. \<forall>i < n. \<not> delimiter_at (part_boundary c) (buffer c @ zs) i"
proof (cases "find_sub (part_boundary c) (buffer c)")
  case None
  define n where "n = length (buffer c) - (length (part_boundary c) - 1)"
  have inl: "map_sum id f r = Inl e \<longleftrightarrow> r = Inl e" for f :: "counter \<Rightarrow> counter" and r by (cases r) auto
  from None assms have n: "consume_file_bytes n c = Inl e" "0 < n"
    by (auto simp: consume_body_def n_def Let_def inl split: if_splits)
  then have "n + length (part_boundary c) = Suc (length (buffer c))"
    using assms(2) unfolding n_def by (cases "part_boundary c") auto
  with None n skip_no_delimiter [of "part_boundary c" "buffer c" n] that [of n] show ?thesis
    by (simp add: n_def)
next
  case (Some m)
  have inl: "map_sum id f r = Inl e \<longleftrightarrow> r = Inl e" for f :: "counter \<Rightarrow> counter" and r by (cases r) auto
  from Some assms(1) have b: "m + length (part_boundary c) + 2 \<le> length (buffer c)"
    by (auto simp: consume_body_def Let_def split: if_splits)
  let ?suf = "take 2 (drop (m + length (part_boundary c)) (buffer c))"
  show ?thesis
  proof (cases "?suf \<in> {DASHES, CRLF}")
    case True
    with Some assms(1) b have "consume_file_bytes m c = Inl e"
      by (auto simp: consume_body_def Let_def inl split: if_splits)
    with before_marker_no_delimiter [OF Some] b that [of m] show ?thesis by simp
  next
    case False
    with Some assms(1) b have "consume_file_bytes (Suc m) c = Inl e"
      by (auto simp: consume_body_def Let_def inl split: if_splits)
    with Some False b skip_no_delimiter [of "part_boundary c" "buffer c" "Suc m"] that [of "Suc m"] show ?thesis
      by simp
  qed
qed

lemma consume_headers_error:
  assumes "consume_headers options c = Inl e" "phase c = Headers"
  shows "\<not> accepts short_header options c (buffer c @ zs)"
proof (cases "find_sub (CRLF @ CRLF) (buffer c)")
  case None
  with assms(1) have long: "MAX_PART_HEADER_BYTES < length (buffer c)"
    by (auto simp: consume_headers_def split: if_splits)
  show ?thesis
  proof (cases "find_sub (CRLF @ CRLF) (buffer c @ zs)")
    case None
    then show ?thesis using assms(2) by (simp add: accepts_def reference_parts.simps)
  next
    case (Some i)
    then have o: "occurs_at (CRLF @ CRLF) (buffer c @ zs) i" by (simp add: find_sub_Some)
    have "length (buffer c) < i + 4"
    proof (rule ccontr)
      assume "\<not> ?thesis"
      with o have "occurs_at (CRLF @ CRLF) (buffer c) i" by (simp add: occurs_at_append_iff CRLF_def)
      with None show False by (simp add: find_sub_None)
    qed
    moreover have "i \<le> length (buffer c @ zs)" using o by (simp add: occurs_at_def)
    ultimately have "\<not> short_header (take i (buffer c @ zs))"
      using long unfolding short_header_def length_take by linarith
    with assms(2) show ?thesis by (simp add: accepts_def reference_headers [OF Some])
  qed
next
  case (Some i)
  have "i + 4 \<le> length (buffer c)" using Some by (auto simp: find_sub_Some occurs_at_def CRLF_def)
  then have t: "take i (buffer c @ zs) = take i (buffer c)" by simp
  show ?thesis
  proof (cases "headers_describe_file options (take i (buffer c))")
    case (Inl e')
    with assms(2) t show ?thesis
      by (simp add: accepts_def reference_headers [OF find_sub_append_Some [OF Some]] del: take_append drop_append)
  next
    case (Inr f)
    with assms(1) Some have "f" "max_files (limits c) < Suc (file_count c)"
      by (auto simp: consume_headers_def Let_def split: if_splits)
    with assms(2) t Inr show ?thesis
      by (auto simp: accepts_def reference_headers [OF find_sub_append_Some [OF Some]] Let_def
          simp del: take_append drop_append dest: parts_fine_bound split: if_splits)
  qed
qed

lemma consume_error:
  assumes "consume options c = Inl e" "counter_ok c"
  shows "\<not> accepts short_header options c (buffer c @ zs)"
proof (cases "phase c")
  case Preamble
  with assms show ?thesis using accepts_preamble(2) [OF Preamble] by (simp add: consume_def)
next
  case Headers
  with assms show ?thesis using consume_headers_error by (simp add: consume_def)
next
  case Body
  with assms have "consume_body c = Inl e" "part_boundary c \<noteq> []"
    by (simp_all add: consume_def counter_ok_def)
  then show ?thesis
    by (rule consume_body_error) (use accepts_overrun [OF Body, of _ e "buffer c @ zs"] in simp)
next
  case Finished
  with assms show ?thesis by (simp add: consume_def)
qed

lemma consume_body_progress:
  assumes "consume_body c = Inr d" "find_sub (part_boundary c) (buffer c) = Some m"
    "m + length (part_boundary c) + 2 \<le> length (buffer c)"
  shows "length (buffer d) < length (buffer c)"
  using assms by (auto simp: consume_body_def Let_def map_sum_Inr split: if_splits)

lemma consume_headers_progress:
  assumes "consume_headers options c = Inr d" "find_sub (CRLF @ CRLF) (buffer c) = Some m"
  shows "phase d = Body"
  using assms by (auto simp: consume_headers_def Let_def bind_result_Inr split: if_splits)

lemma consume_preamble_progress:
  assumes "consume_preamble c = Inr d" "length (initial_boundary c) + 2 \<le> length (buffer c)"
  shows "phase d \<noteq> Preamble"
  using assms by (auto simp: consume_preamble_def Let_def split: if_splits)

text \<open>A state in which the loop stands still: the input so far is not yet a whole body.\<close>

lemma stuck_not_accepted:
  assumes "consume options c = Inr c" "phase c \<noteq> Finished" "counter_ok c"
  shows "\<not> accepts P options c (buffer c)"
proof (cases "phase c")
  case Preamble
  have "length (buffer c) < length (initial_boundary c) + 2"
  proof (rule ccontr)
    assume "\<not> ?thesis"
    with Preamble assms(1) consume_preamble_progress [of c c] show False by (simp add: consume_def)
  qed
  then have "\<not> starts_with (buffer c) (initial_boundary c @ q)" if "length q = 2" for q
    using that by (auto simp: starts_with_def dest: arg_cong [where f = length])
  then show ?thesis using Preamble by (simp add: accepts_def opened_parts_def DASHES_def CRLF_def)
next
  case Headers
  have "find_sub (CRLF @ CRLF) (buffer c) = None"
  proof (rule ccontr)
    assume "find_sub (CRLF @ CRLF) (buffer c) \<noteq> None"
    with Headers assms(1) consume_headers_progress [of options c c] show False by (auto simp: consume_def)
  qed
  with Headers show ?thesis by (simp add: accepts_def reference_parts.simps)
next
  case Body
  let ?pb = "part_boundary c"
  have "\<not> delimiter_at ?pb (buffer c) j" for j
  proof
    assume d: "delimiter_at ?pb (buffer c) j"
    then obtain m where m: "find_sub ?pb (buffer c) = Some m" "m \<le> j"
      using delimiter_at_marker [OF d] by (cases "find_sub ?pb (buffer c)")
        (auto simp: find_sub_None find_sub_Some intro: leI)
    with delimiter_bound [OF d] have "m + length ?pb + 2 \<le> length (buffer c)" by linarith
    moreover have "consume_body c = Inr c" using Body assms(1) by (simp add: consume_def)
    ultimately show False using consume_body_progress m(1) by blast
  qed
  then show ?thesis using Body by (simp add: accepts_def first_delimiter_Some)
qed (use assms in simp)

definition settled :: "header_options \<Rightarrow> counter \<Rightarrow> bool" where
  "settled options c \<longleftrightarrow> counter_ok c \<and> (phase c = Finished \<or> consume options c = Inr c)"

text \<open>The loop, and with it \<open>feed\<close>, carries the verdict over to the settled state it ends in.\<close>

lemma feed_loop_sound:
  assumes "feed_loop options c = Inr d" "counter_ok c"
  shows "settled options d \<and>
    (accepts P options c (buffer c @ zs) \<longrightarrow> accepts P options d (buffer d @ zs)) \<and>
    (accepts (\<lambda>_. True) options d (buffer d @ zs) \<longrightarrow> accepts (\<lambda>_. True) options c (buffer c @ zs))"
  using assms
proof (induction options c rule: feed_loop.induct)
  case (1 options c)
  show ?case
  proof (cases "phase c = Finished")
    case True
    with 1 show ?thesis by (simp add: feed_loop.simps [of options c] settled_def)
  next
    case False
    with 1(2) obtain c1 where c1: "consume options c = Inr c1"
      by (auto simp: feed_loop.simps [of options c] split: sum.splits)
    note step = accepts_consume [OF c1 1(3)] and ok = consume_ok [OF c1 1(3)]
    show ?thesis
    proof (cases "(phase c1, length (buffer c1)) = (phase c, length (buffer c))")
      case True
      then have "c1 = c" using consume_same c1 by blast
      with 1(2,3) c1 False True show ?thesis by (simp add: feed_loop.simps [of options c] settled_def)
    next
      case diff: False
      with 1(2) c1 False have "feed_loop options c1 = Inr d"
        by (auto simp: feed_loop.simps [of options c] split: if_splits)
      with 1(1) [OF False c1 diff _ ok] step show ?thesis by blast
    qed
  qed
qed

lemma feed_loop_complete:
  assumes "feed_loop options c = Inl e" "counter_ok c"
  shows "\<not> accepts short_header options c (buffer c @ zs)"
  using assms
proof (induction options c rule: feed_loop.induct)
  case (1 options c)
  then have run: "phase c \<noteq> Finished" by (auto simp: feed_loop.simps [of options c])
  show ?case
  proof (cases "consume options c")
    case (Inl e')
    from consume_error [OF Inl 1(3)] show ?thesis .
  next
    case (Inr c1)
    with 1(2) run have diff: "(phase c1, length (buffer c1)) \<noteq> (phase c, length (buffer c))"
      and rest: "feed_loop options c1 = Inl e"
      by (auto simp: feed_loop.simps [of options c] split: if_splits)
    from 1(1) [OF run Inr diff rest consume_ok [OF Inr 1(3)]] accepts_consume(1) [OF Inr 1(3)]
    show ?thesis by blast
  qed
qed

lemma accepts_buffer [simp]: "accepts P options (c\<lparr>buffer := b\<rparr>) s = accepts P options c s"
  by (cases "phase c") (simp_all add: accepts_def)

lemma feed_sound:
  assumes "feed options c b = Inr d" "settled options c"
  shows "settled options d \<and>
    (accepts P options c (buffer c @ b @ zs) \<longrightarrow> accepts P options d (buffer d @ zs)) \<and>
    (accepts (\<lambda>_. True) options d (buffer d @ zs) \<longrightarrow> accepts (\<lambda>_. True) options c (buffer c @ b @ zs))"
proof (cases "phase c = Finished \<or> b = []")
  case True
  with assms have "d = c" by (simp add: feed_def)
  moreover have "accepts Q options c s \<longleftrightarrow> accepts Q options c t" if "phase c = Finished" for Q s t
    using that by (simp add: accepts_def)
  ultimately show ?thesis using True assms(2) by auto
next
  case False
  with assms have "feed_loop options (c\<lparr>buffer := buffer c @ b\<rparr>) = Inr d" by (simp add: feed_def)
  from feed_loop_sound [OF this, of P zs] assms(2) show ?thesis by (simp add: settled_def)
qed

lemma feed_complete:
  assumes "feed options c b = Inl e" "settled options c"
  shows "\<not> accepts short_header options c (buffer c @ b @ zs)"
  using assms feed_loop_complete [of options "c\<lparr>buffer := buffer c @ b\<rparr>" e zs]
  by (auto simp: feed_def settled_def split: if_splits)

lemma feed_all_sound:
  assumes "feed_all options c bs = Inr d" "settled options c"
  shows "settled options d \<and>
    (accepts P options c (buffer c @ concat bs @ zs) \<longrightarrow> accepts P options d (buffer d @ zs)) \<and>
    (accepts (\<lambda>_. True) options d (buffer d @ zs) \<longrightarrow> accepts (\<lambda>_. True) options c (buffer c @ concat bs @ zs))"
  using assms
proof (induction bs arbitrary: c)
  case (Cons b bs)
  then obtain c1 where c1: "feed options c b = Inr c1" "feed_all options c1 bs = Inr d" by (auto simp: bind_result_Inr)
  from feed_sound [OF c1(1) Cons.prems(2), of P "concat bs @ zs"] Cons.IH [OF c1(2)] show ?case by simp
qed simp

lemma feed_all_complete:
  assumes "feed_all options c bs = Inl e" "settled options c"
  shows "\<not> accepts short_header options c (buffer c @ concat bs @ zs)"
  using assms
proof (induction bs arbitrary: c)
  case (Cons b bs)
  show ?case
  proof (cases "feed options c b")
    case (Inl e')
    from feed_complete [OF Inl Cons.prems(2), of "concat bs @ zs"] show ?thesis by simp
  next
    case (Inr c1)
    with Cons.prems have "feed_all options c1 bs = Inl e" by simp
    with Cons.IH [of c1] feed_sound [OF Inr Cons.prems(2), of short_header "concat bs @ zs"] show ?thesis by simp
  qed
qed simp

lemma finish_ok: "is_ok (finish c) \<longleftrightarrow> phase c = Finished"
  by (auto simp: finish_def is_ok_iff bind_result_Inr map_sum_Inr dest!: consume_file_bytes_Inr split: if_splits)

lemma new_counter_settled: "settled options (new_counter boundary lim)"
  by (simp add: settled_def new_counter_def counter_ok_def consume_def consume_preamble_def CRLF_def Let_def)

lemma accepts_new_counter:
  "accepts P options (new_counter boundary lim) s \<longleftrightarrow>
     (\<exists>ps. multipart_parts boundary s = Some ps \<and> parts_fine P options lim 0 ps)"
  by (simp add: accepts_def new_counter_def multipart_parts_def)

lemma settled_verdict:
  assumes "settled options d"
  shows "accepts P options d (buffer d) \<longleftrightarrow> phase d = Finished"
proof (cases "phase d = Finished")
  case True
  with assms show ?thesis by (simp add: accepts_def settled_def counter_ok_def)
next
  case False
  with assms stuck_not_accepted [of options d P] show ?thesis by (simp add: settled_def)
qed

lemma counter_accepts_sound:
  assumes "counter_accepts options boundary lim pieces"
  shows "\<exists>ps. multipart_parts boundary (concat pieces) = Some ps \<and> within_limits options lim ps"
proof -
  from assms obtain d where d: "feed_all options (new_counter boundary lim) pieces = Inr d" "is_ok (finish d)"
    by (auto simp: counter_accepts_def is_ok_iff bind_result_Inr)
  note run = feed_all_sound [OF d(1) new_counter_settled, of "\<lambda>_. True" "[]"]
  from run have "settled options d" by blast
  from settled_verdict [OF this, of "\<lambda>_. True"] d(2) run
  have "accepts (\<lambda>_. True) options (new_counter boundary lim) (concat pieces)"
    by (simp add: finish_ok) (simp add: new_counter_def)
  then show ?thesis by (auto simp: accepts_new_counter parts_fine_def within_limits_def)
qed

lemma counter_accepts_complete:
  assumes "multipart_parts boundary (concat pieces) = Some ps" "within_limits options lim ps"
    and "\<forall>p \<in> set ps. short_header (fst p)"
  shows "counter_accepts options boundary lim pieces"
proof -
  have acc: "accepts short_header options (new_counter boundary lim) (concat pieces)"
    using assms by (auto simp: accepts_new_counter parts_fine_def within_limits_def list_all_iff)
  have b: "buffer (new_counter boundary lim) = []" by (simp add: new_counter_def)
  obtain d where d: "feed_all options (new_counter boundary lim) pieces = Inr d"
    using feed_all_complete [OF _ new_counter_settled, of options boundary lim pieces _ "[]"] acc b
    by (cases "feed_all options (new_counter boundary lim) pieces") auto
  from feed_all_sound [OF d new_counter_settled, of short_header "[]"] acc b
  have "settled options d" "accepts short_header options d (buffer d)" by simp_all
  then have "phase d = Finished" by (simp add: settled_verdict)
  with d show ?thesis by (simp add: counter_accepts_def finish_ok)
qed

subsection \<open>Properties\<close>

text \<open>
  C38 [multipart_limits_hold]: whatever the pieces in which a body arrives, if the machine
  accepts it then the body is a complete multipart body, and its parts, as a parser that
  sees it whole finds them, hold at most the allowed number of files and no file longer
  than allowed.
\<close>

theorem multipart_limits_hold:
  assumes "counter_accepts options boundary lim pieces"
  shows "\<exists>ps. multipart_parts boundary (concat pieces) = Some ps \<and> within_limits options lim ps"
  using assms by (rule counter_accepts_sound)

text \<open>
  C39 [multipart_pieces_irrelevant]: the machine agrees with the reference parser on every way
  to cut a body into pieces, as long as no part of the body has headers within three bytes
  of the bound of 16 KiB: it accepts exactly the complete bodies whose files are within the
  limits. In particular it does not depend on the pieces.
\<close>

theorem multipart_pieces_irrelevant:
  assumes "\<forall>p \<in> set (case multipart_parts boundary (concat pieces) of None \<Rightarrow> [] | Some ps \<Rightarrow> ps).
      length (fst p) + 3 \<le> MAX_PART_HEADER_BYTES"
  shows "counter_accepts options boundary lim pieces \<longleftrightarrow>
    (\<exists>ps. multipart_parts boundary (concat pieces) = Some ps \<and> within_limits options lim ps)"
proof (cases "multipart_parts boundary (concat pieces)")
  case None
  then show ?thesis using counter_accepts_sound by fastforce
next
  case (Some ps)
  with assms have "\<forall>p \<in> set ps. short_header (fst p)" by (simp add: short_header_def)
  with Some counter_accepts_complete [OF Some] counter_accepts_sound show ?thesis by fastforce
qed

text \<open>Three parts' worth of examples: a small file, and a part with long headers.\<close>

definition demo_body :: bytes where
  "demo_body = ''--b'' @ CRLF @ ''x:y'' @ CRLF @ CRLF @ ''data'' @ CRLF @ ''--b--''"

lemma demo_parts: "multipart_parts ''b'' demo_body = Some [(''x:y'', ''data'')]"
  by code_simp

definition demo_upload_limits :: multipart_limits where
  "demo_upload_limits = \<lparr>max_total_bytes = 100, max_file_bytes = 10, max_files = 1\<rparr>"

lemma demo_part_fine: "headers_describe_file options ''x:y'' = Inr False"
proof -
  have "scan_header_lines None (split_seq CRLF ''x:y'') = Inr None" by code_simp
  then show ?thesis by (simp add: headers_describe_file_def)
qed

lemma demo_within: "within_limits options demo_upload_limits [(''x:y'', ''data'')]"
  by (simp add: within_limits_def part_fine_def file_part_def demo_part_fine)

theorem multipart_limits_hold_witness:
  "multipart_parts ''b'' (concat [take 5 demo_body, drop 5 demo_body]) = Some [(''x:y'', ''data'')] \<and>
   within_limits (\<lambda>_. None) demo_upload_limits [(''x:y'', ''data'')]"
proof -
  have "concat [take 5 demo_body, drop 5 demo_body] = demo_body" by simp
  then have "counter_accepts (\<lambda>_. None) ''b'' demo_upload_limits [take 5 demo_body, drop 5 demo_body]"
    using demo_parts demo_within by (intro counter_accepts_complete) (auto simp: short_header_def MAX_PART_HEADER_BYTES_def)
  from multipart_limits_hold [OF this] show ?thesis by (simp add: demo_parts)
qed

theorem multipart_pieces_irrelevant_witness:
  "counter_accepts (\<lambda>_. None) ''b'' demo_upload_limits [take 5 demo_body, drop 5 demo_body] \<and>
   counter_accepts (\<lambda>_. None) ''b'' demo_upload_limits [demo_body]"
proof -
  have short: "\<forall>p \<in> set (case multipart_parts ''b'' (concat pieces) of None \<Rightarrow> [] | Some ps \<Rightarrow> ps).
      length (fst p) + 3 \<le> MAX_PART_HEADER_BYTES" if "concat pieces = demo_body" for pieces
    by (simp add: that demo_parts MAX_PART_HEADER_BYTES_def)
  show ?thesis
    using multipart_pieces_irrelevant [OF short, of "[take 5 demo_body, drop 5 demo_body]" "\<lambda>_. None" demo_upload_limits]
      multipart_pieces_irrelevant [OF short, of "[demo_body]" "\<lambda>_. None" demo_upload_limits] demo_within
    by (simp add: demo_parts)
qed

lemma find_sub_fresh:
  assumes "c \<notin> set xs"
  shows "find_sub (c # p) xs = None" "find_sub (c # p) (xs @ c # p @ ys) = Some (length xs)"
  using assms by (induction xs) (auto simp: starts_with_def)

text \<open>
  The bound on the headers of a part does depend on the pieces.
  A part with one header of 16,386 bytes is accepted when the body arrives in one piece and
  refused when the piece ends with the header.
\<close>

definition long_header :: bytes where "long_header = ''x:'' @ replicate 16384 CHR ''a''"

theorem header_bound_by_pieces:
  "counter_accepts (\<lambda>_. None) ''b'' demo_upload_limits
     [(''--b'' @ CRLF @ long_header) @ CRLF @ CRLF @ CRLF @ ''--b--''] \<and>
   \<not> counter_accepts (\<lambda>_. None) ''b'' demo_upload_limits
     [''--b'' @ CRLF @ long_header, CRLF @ CRLF @ CRLF @ ''--b--'']"
proof -
  define at_headers where "at_headers rest = (new_counter ''b'' demo_upload_limits)\<lparr>buffer := rest, phase := Headers\<rparr>" for rest
  have fresh: "CHR 0x0D \<notin> set long_header" by (simp add: long_header_def)
  have len: "length long_header = 16386" by (simp add: long_header_def)
  have pre: "feed (\<lambda>_. None) (new_counter ''b'' demo_upload_limits) (CHR ''-'' # CHR ''-'' # CHR ''b'' # CRLF @ rest) =
      feed_loop (\<lambda>_. None) (at_headers rest)" for rest
    by (simp add: feed_def new_counter_def feed_loop.simps [of _ "\<lparr>initial_boundary = _, part_boundary = _, limits = _,
        buffer = _, phase = Preamble, part_is_file = _, file_bytes = _, file_count = _\<rparr>"]
        consume_def consume_preamble_def starts_with_def DASHES_def CRLF_def at_headers_def)
  have "feed_loop (\<lambda>_. None) (at_headers long_header) = Inl (Exceeded Header_Size)"
    using find_sub_fresh(1) [OF fresh] len
    by (simp add: feed_loop.simps at_headers_def consume_def consume_headers_def CRLF_def MAX_PART_HEADER_BYTES_def
        new_counter_def)
  then have refused: "\<not> counter_accepts (\<lambda>_. None) ''b'' demo_upload_limits
      [''--b'' @ CRLF @ long_header, CRLF @ CRLF @ CRLF @ ''--b--'']"
    by (simp add: counter_accepts_def pre)
  have marker: "find_sub (CRLF @ CRLF) (long_header @ CRLF @ CRLF @ CRLF @ ''--b--'') = Some 16386"
    using find_sub_fresh(2) [OF fresh, of "CHR 0x0A # CRLF" "CRLF @ ''--b--''"] len by (simp add: CRLF_def)
  have "split_seq CRLF long_header = [long_header]"
    using find_sub_fresh(1) [OF fresh] by (simp add: split_seq.simps CRLF_def)
  moreover have "partition_colon long_header = Some (''x'', replicate 16384 CHR ''a'')"
    by (simp add: partition_colon_def long_header_def starts_with_def)
  moreover have "bytes_strip ''x'' = ''x''" "bytes_lower ''x'' = ''x''" by code_simp+
  ultimately have plain: "headers_describe_file (\<lambda>_. None) long_header = Inr False"
    by (simp add: headers_describe_file_def)
  define at_body where "at_body = (new_counter ''b'' demo_upload_limits)\<lparr>buffer := CRLF @ ''--b--'', phase := Body\<rparr>"
  have "consume (\<lambda>_. None) (at_headers (long_header @ CRLF @ CRLF @ CRLF @ ''--b--'')) = Inr at_body"
    using marker plain len
    by (simp add: consume_def consume_headers_def at_headers_def at_body_def new_counter_def) (simp add: CRLF_def)
  moreover have "phase at_body = Body" by (simp add: at_body_def)
  moreover have "feed_loop (\<lambda>_. None) at_body = Inr (at_body\<lparr>buffer := [], phase := Finished\<rparr>)"
    by (simp add: feed_loop.simps at_body_def consume_def consume_body_def new_counter_def starts_with_def CRLF_def
        DASHES_def consume_file_bytes_def)
  ultimately have "feed_loop (\<lambda>_. None) (at_headers (long_header @ CRLF @ CRLF @ CRLF @ ''--b--'')) =
      Inr (at_body\<lparr>buffer := [], phase := Finished\<rparr>)"
    by (simp add: feed_loop.simps [of _ "at_headers _"]) (simp add: at_headers_def)
  then show ?thesis
    using refused pre [of "long_header @ CRLF @ CRLF @ CRLF @ ''--b--''"]
    by (simp add: counter_accepts_def finish_def)
qed

end
