(* ===== verification/Upload_Ingress.thy ===== *)
theory Upload_Ingress
  imports Multipart_Counter Py_Json
begin

text \<open>
  The middleware in front of the Office uploads (\<open>OfficeMultipartIngressLimitMiddleware\<close> of
  \<open>modules/office_tools/upload_limits.py\<close>): the header checks, the loop that reads the
  messages of the server and feeds the counter, the replay buffer, and the error responses.
  The server is the list of the messages it delivers; when it delivers no more, the code
  waits (\<open>None\<close>). The option parser of \<open>python_multipart\<close> is a parameter.
\<close>

subsection \<open>Configured limits\<close>

definition MAX_CHART_UPLOAD_BYTES :: int where "MAX_CHART_UPLOAD_BYTES = 20 * 1024 * 1024"
definition MAX_REPORT_UPLOAD_BYTES :: int where "MAX_REPORT_UPLOAD_BYTES = 20 * 1024 * 1024"
definition CHART_MULTIPART_OVERHEAD_BYTES :: int where "CHART_MULTIPART_OVERHEAD_BYTES = 256 * 1024"
definition REPORT_MULTIPART_OVERHEAD_BYTES :: int where "REPORT_MULTIPART_OVERHEAD_BYTES = 512 * 1024"

definition CHART_MULTIPART_LIMITS :: "multipart_limits option" where
  "CHART_MULTIPART_LIMITS = office_multipart_limits
     (MAX_CHART_UPLOAD_BYTES + CHART_MULTIPART_OVERHEAD_BYTES) MAX_CHART_UPLOAD_BYTES 1"

definition REPORT_MULTIPART_LIMITS :: "multipart_limits option" where
  "REPORT_MULTIPART_LIMITS = office_multipart_limits
     (MAX_REPORT_UPLOAD_BYTES + 50 * 1024 * 1024 + REPORT_MULTIPART_OVERHEAD_BYTES) MAX_REPORT_UPLOAD_BYTES 201"

subsection \<open>Messages, requests and responses\<close>

record message =
  is_request :: bool
  message_body :: "bytes option"
  more_body :: bool

text \<open>\<open>message_body\<close> is \<open>None\<close> for a body that is not \<open>bytes\<close>; an absent one is the empty one.\<close>

record scope =
  scope_type :: pystr
  scope_method :: pystr
  scope_path :: pystr
  scope_headers :: "(bytes \<times> bytes) list"

record response =
  status :: nat
  response_headers :: "(bytes \<times> bytes) list"
  response_body :: bytes

fun bound_text :: "bound \<Rightarrow> pystr" where
  "bound_text Header_Size =
     [109, 117, 108, 116, 105, 112, 97, 114, 116, 32, 54028, 53944, 32, 54756, 45908,
      44032, 32, 54728, 50857, 32, 53356, 44592, 47484, 32, 52488, 44284, 54664, 49845,
      45768, 45796]"
| "bound_text File_Count =
     [50629, 47196, 46300, 32, 54028, 51068, 32, 49688, 44032, 32, 54728, 50857, 32,
      49345, 54620, 51012, 32, 52488, 44284, 54664, 49845, 45768, 45796]"
| "bound_text File_Size =
     [50629, 47196, 46300, 32, 54028, 51068, 51060, 32, 54728, 50857, 32, 53356, 44592,
      47484, 32, 52488, 44284, 54664, 49845, 45768, 45796]"
| "bound_text Total_Size =
     [50629, 47196, 46300, 32, 51204, 52404, 32, 53356, 44592, 44032, 32, 54728, 50857,
      32, 49345, 54620, 51012, 32, 52488, 44284, 54664, 49845, 45768, 45796]"

fun malformed_text :: "malformed \<Rightarrow> pystr" where
  "malformed_text Bad_Boundary =
     [51096, 47803, 46108, 32, 109, 117, 108, 116, 105, 112, 97, 114, 116, 32, 44221,
      44228, 51077, 45768, 45796]"
| "malformed_text Bad_Part_Header =
     [51096, 47803, 46108, 32, 109, 117, 108, 116, 105, 112, 97, 114, 116, 32, 54028,
      53944, 32, 54756, 45908, 51077, 45768, 45796]"
| "malformed_text Bad_Disposition =
     [51096, 47803, 46108, 32, 67, 111, 110, 116, 101, 110, 116, 45, 68, 105, 115, 112,
      111, 115, 105, 116, 105, 111, 110, 32, 54756, 45908, 51077, 45768, 45796]"
| "malformed_text Aborted_Body =
     [50629, 47196, 46300, 32, 50836, 52397, 32, 48376, 47928, 51060, 32, 51473, 45800,
      46104, 50632, 49845, 45768, 45796]"
| "malformed_text Bad_Body =
     [51096, 47803, 46108, 32, 50629, 47196, 46300, 32, 50836, 52397, 32, 48376, 47928,
      51077, 45768, 45796]"
| "malformed_text Bad_Content_Type =
     [51096, 47803, 46108, 32, 67, 111, 110, 116, 101, 110, 116, 45, 84, 121, 112, 101,
      32, 54756, 45908, 51077, 45768, 45796]"

definition BAD_CONTENT_LENGTH :: pystr where
  "BAD_CONTENT_LENGTH = [51096, 47803, 46108, 32, 67, 111, 110, 116, 101, 110, 116, 45, 76, 101, 110, 103,
      116, 104, 32, 54756, 45908, 51077, 45768, 45796]"

definition ONLY_MULTIPART :: pystr where
  "ONLY_MULTIPART = [109, 117, 108, 116, 105, 112, 97, 114, 116, 47, 102, 111, 114, 109, 45, 100, 97,
      116, 97, 32, 50836, 52397, 47564, 32, 51648, 50896, 54633, 45768, 45796]"

text \<open>\<open>json.dumps({'detail': detail}, ensure_ascii=False).encode('utf-8')\<close>.\<close>

definition detail_body :: "pystr \<Rightarrow> bytes" where
  "detail_body detail = the (utf8_encode (js_print Spaced 0 (JObj [(lit ''detail'', JStr detail)])))"

definition send_error_response :: "nat \<Rightarrow> pystr \<Rightarrow> response" where
  "send_error_response code detail =
     \<lparr>status = code,
      response_headers = [(''content-type'', ''application/json; charset=utf-8''),
        (''content-length'', the (utf8_encode (dec_digits (length (detail_body detail)))))],
      response_body = detail_body detail\<rparr>"

definition send_limit_response :: "pystr \<Rightarrow> response" where
  "send_limit_response detail = send_error_response 413 detail"

definition error_response :: "ingress_error \<Rightarrow> response" where
  "error_response e =
     (case e of
        Exceeded b \<Rightarrow> send_limit_response (bound_text b)
      | Malformed m \<Rightarrow> send_error_response 400 (malformed_text m))"

subsection \<open>Headers of the request\<close>

definition header_value :: "scope \<Rightarrow> bytes \<Rightarrow> bytes option" where
  "header_value sc name = map_option snd (find (\<lambda>(k, v). bytes_lower k = name) (scope_headers sc))"

record option_parser =
  content_type_options :: "bytes option \<Rightarrow> (bytes \<times> (bytes \<times> bytes) list) option"
  disposition_options :: "bytes \<Rightarrow> bytes list option"

definition parse_content_type :: "option_parser \<Rightarrow> bytes option \<Rightarrow> (bytes \<times> (bytes \<times> bytes) list) ingress" where
  "parse_content_type op content_type =
     (case content_type_options op content_type of
        None \<Rightarrow> Inl (Malformed Bad_Content_Type)
      | Some (media_type, parameters) \<Rightarrow> Inr (bytes_lower media_type, parameters))"

definition BOUNDARY_CHARS :: "char set" where
  "BOUNDARY_CHARS = set ''0123456789abcdefghijklmnopqrstuvwxyzABCDEFGHIJKLMNOPQRSTUVWXYZ'' \<union>
     {CHR 0x27} \<union> set ''()+_,-./:=? ''"

definition is_valid_boundary :: "bytes option \<Rightarrow> bool" where
  "is_valid_boundary boundary \<longleftrightarrow>
     (case boundary of
        None \<Rightarrow> False
      | Some b \<Rightarrow> b \<noteq> [] \<and> length b \<le> 70 \<and> last b \<noteq> CHR '' '' \<and> list_all (\<lambda>c. c \<in> BOUNDARY_CHARS) b)"

subsection \<open>Buffering the body\<close>

definition COUNTER_SLICE_BYTES :: nat where "COUNTER_SLICE_BYTES = OFFICE_STREAM_CHUNK_BYTES"
definition REPLAY_CHUNK_BYTES :: nat where "REPLAY_CHUNK_BYTES = OFFICE_STREAM_CHUNK_BYTES"

text \<open>\<open>for offset in range(0, len(frame), n)\<close>: the slices of the frame.\<close>

function slices :: "nat \<Rightarrow> bytes \<Rightarrow> bytes list" where
  "slices n body = (if body = [] \<or> n = 0 then [] else take n body # slices n (drop n body))"
  by pat_completeness auto
termination by (relation "measure (\<lambda>(n, body). length body)") auto

declare slices.simps [simp del]

text \<open>One slice: the counter, if there is one, then the replay buffer.\<close>

fun take_slices :: "header_options \<Rightarrow> counter option \<Rightarrow> bytes \<Rightarrow> bytes list \<Rightarrow> (counter option \<times> bytes) ingress" where
  "take_slices options cnt replay [] = Inr (cnt, replay)"
| "take_slices options cnt replay (b # bs) =
     (case cnt of
        None \<Rightarrow> take_slices options None (replay @ b) bs
      | Some c \<Rightarrow>
          bind_result (feed options c b) (\<lambda>c1. take_slices options (Some c1) (replay @ b) bs))"

fun buffer_request_body ::
    "header_options \<Rightarrow> multipart_limits \<Rightarrow> counter option \<Rightarrow> bytes \<Rightarrow> nat \<Rightarrow> message list \<Rightarrow> (bytes \<times> nat) ingress option" where
  "buffer_request_body options lim cnt replay received [] = None"
| "buffer_request_body options lim cnt replay received (m # ms) =
     (if \<not> is_request m then Some (Inl (Malformed Aborted_Body))
      else
        (case message_body m of
           None \<Rightarrow> Some (Inl (Malformed Bad_Body))
         | Some body \<Rightarrow>
             let received1 = received + length body
             in if max_total_bytes lim < received1 then Some (Inl (Exceeded Total_Size))
                else
                  (case take_slices options cnt replay (slices COUNTER_SLICE_BYTES body) of
                     Inl e \<Rightarrow> Some (Inl e)
                   | Inr (cnt1, replay1) \<Rightarrow>
                       if more_body m then buffer_request_body options lim cnt1 replay1 received1 ms
                       else
                         (case cnt1 of
                            None \<Rightarrow> Some (Inr (replay1, received1))
                          | Some c \<Rightarrow>
                              Some (bind_result (finish c) (\<lambda>_. Inr (replay1, received1)))))))"

subsection \<open>Replaying it\<close>

record replay =
  unread :: bytes
  remaining :: nat

text \<open>One \<open>receive()\<close> of the application; \<open>None\<close> is the \<open>RuntimeError\<close>.\<close>

definition replay_receive :: "replay \<Rightarrow> (message \<times> replay) option" where
  "replay_receive r =
     (if remaining r = 0 then Some (\<lparr>is_request = True, message_body = Some [], more_body = False\<rparr>, r)
      else
        let body = take (min REPLAY_CHUNK_BYTES (remaining r)) (unread r);
            left = remaining r - length body
        in if body = [] \<and> left \<noteq> 0 then None
           else Some (\<lparr>is_request = True, message_body = Some body, more_body = 0 < left\<rparr>,
             \<lparr>unread = drop (length body) (unread r), remaining = left\<rparr>))"

subsection \<open>The middleware\<close>

text \<open>The application is called with the server's own messages, or with the replay.\<close>

datatype verdict = Pass_Through | Forward replay | Respond response

definition announced_length :: "multipart_limits \<Rightarrow> scope \<Rightarrow> (decimal_error, int) result" where
  "announced_length lim sc =
     (case header_value sc ''content-length'' of
        None \<Rightarrow> Inr 0
      | Some v \<Rightarrow> bounded_decimal (bytes_strip v) (int (max_total_bytes lim)))"

definition limited_upload ::
    "option_parser \<Rightarrow> multipart_limits \<Rightarrow> scope \<Rightarrow> message list \<Rightarrow> verdict option" where
  "limited_upload op lim sc msgs =
     (let parsed = parse_content_type op (header_value sc ''content-type'');
          media_type = (case parsed of Inl e \<Rightarrow> [] | Inr (t, ps) \<Rightarrow> t);
          boundary = (case parsed of Inl e \<Rightarrow> None | Inr (t, ps) \<Rightarrow> map_of ps ''boundary'');
          content_type_error =
            (case parsed of
               Inl e \<Rightarrow> Some e
             | Inr _ \<Rightarrow> if media_type = ''multipart/form-data'' \<and> \<not> is_valid_boundary boundary
                 then Some (Malformed Bad_Boundary) else None);
          cnt = (if media_type = ''multipart/form-data'' \<and> is_valid_boundary boundary
                 then Some (new_counter (the boundary) lim) else None)
      in
      (case buffer_request_body (disposition_options op) lim cnt [] 0 msgs of
         None \<Rightarrow> None
       | Some (Inl e) \<Rightarrow> Some (Respond (error_response e))
       | Some (Inr (buffered, body_length)) \<Rightarrow>
           (case content_type_error of
              Some e \<Rightarrow> Some (Respond (error_response e))
            | None \<Rightarrow>
                if media_type \<noteq> ''multipart/form-data''
                then Some (Respond (send_error_response 415 ONLY_MULTIPART))
                else Some (Forward \<lparr>unread = buffered, remaining = body_length\<rparr>))))"

definition middleware ::
    "option_parser \<Rightarrow> (pystr \<times> multipart_limits) list \<Rightarrow> scope \<Rightarrow> message list \<Rightarrow> verdict option" where
  "middleware op limits_by_path sc msgs =
     (if scope_type sc \<noteq> lit ''http'' \<or> scope_method sc \<noteq> lit ''POST'' then Some Pass_Through
      else
        (case map_of limits_by_path (scope_path sc) of
           None \<Rightarrow> Some Pass_Through
         | Some lim \<Rightarrow>
             (case announced_length lim sc of
                Inl Decimal_Value_Error \<Rightarrow> Some (Respond (send_error_response 400 BAD_CONTENT_LENGTH))
              | Inl Decimal_Overflow_Error \<Rightarrow> Some (Respond (send_limit_response (bound_text Total_Size)))
              | Inr _ \<Rightarrow> limited_upload op lim sc msgs)))"

subsection \<open>What the loop has read when it returns\<close>

lemma concat_slices: "0 < n \<Longrightarrow> concat (slices n body) = body"
proof (induction n body rule: slices.induct)
  case (1 n body)
  then show ?case by (cases "body = []") (simp_all add: slices.simps [of n body] slices.simps [of n "[]"])
qed

lemma feed_all_append:
  "feed_all options c (xs @ ys) = bind_result (feed_all options c xs) (\<lambda>d. feed_all options d ys)"
proof (induction xs arbitrary: c)
  case (Cons x xs)
  then show ?case by (cases "feed options c x") simp_all
qed simp

lemma take_slices_None: "take_slices options None rep bs = Inr (None, rep @ concat bs)"
  by (induction bs arbitrary: rep) simp_all

lemma take_slices_Some:
  "take_slices options (Some c) rep bs =
     bind_result (feed_all options c bs) (\<lambda>d. Inr (Some d, rep @ concat bs))"
proof (induction bs arbitrary: c rep)
  case (Cons b bs)
  then show ?case by (cases "feed options c b") simp_all
qed simp

text \<open>The bodies of the messages up to the last one of the request.\<close>

fun delivered :: "message list \<Rightarrow> bytes list option" where
  "delivered [] = None"
| "delivered (m # ms) =
     (if \<not> is_request m then None
      else
        (case message_body m of
           None \<Rightarrow> None
         | Some b \<Rightarrow> if more_body m then map_option (\<lambda>bs. b # bs) (delivered ms) else Some [b]))"

definition pieces_of :: "bytes list \<Rightarrow> bytes list" where
  "pieces_of bs = concat (map (slices COUNTER_SLICE_BYTES) bs)"

lemma concat_pieces_of: "concat (pieces_of bs) = concat bs"
  by (induction bs) (simp_all add: pieces_of_def concat_slices COUNTER_SLICE_BYTES_def OFFICE_STREAM_CHUNK_BYTES_def)

definition counter_passes :: "header_options \<Rightarrow> counter option \<Rightarrow> bytes list \<Rightarrow> bool" where
  "counter_passes options cnt pieces =
     (case cnt of None \<Rightarrow> True | Some c \<Rightarrow> is_ok (bind_result (feed_all options c pieces) finish))"

lemma buffer_request_body_iff:
  "buffer_request_body options lim cnt rep n msgs = Some (Inr (rep1, n1)) \<longleftrightarrow>
     (\<exists>bs. delivered msgs = Some bs \<and> rep1 = rep @ concat bs \<and> n1 = n + length (concat bs) \<and>
        n1 \<le> max_total_bytes lim \<and> counter_passes options cnt (pieces_of bs))"
proof (induction msgs arbitrary: cnt rep n)
  case (Cons m ms)
  show ?case
  proof (cases "is_request m \<and> message_body m \<noteq> None")
    case False
    then show ?thesis by (auto split: option.splits)
  next
    case True
    then obtain body where m: "is_request m" "message_body m = Some body" by auto
    define ps where "ps = slices COUNTER_SLICE_BYTES body"
    have ps: "concat ps = body"
      by (simp add: ps_def concat_slices COUNTER_SLICE_BYTES_def OFFICE_STREAM_CHUNK_BYTES_def)
    have pieces: "pieces_of (body # bs) = ps @ pieces_of bs" for bs by (simp add: pieces_of_def ps_def)
    have none: "pieces_of [] = []" by (simp add: pieces_of_def)
    have ex: "(\<exists>bs. delivered (m # ms) = Some bs \<and> Q bs) \<longleftrightarrow>
        (if more_body m then \<exists>bs. delivered ms = Some bs \<and> Q (body # bs) else Q [body])" for Q
      using m by auto
    have add: "n + length (concat (body # bs)) = n + length body + length (concat bs)"
      "rep @ concat (body # bs) = (rep @ body) @ concat bs" for bs by simp_all
    show ?thesis
    proof (cases cnt)
      case None
      have e: "buffer_request_body options lim None rep n (m # ms) =
          (if max_total_bytes lim < n + length body then Some (Inl (Exceeded Total_Size))
           else if more_body m then buffer_request_body options lim None (rep @ body) (n + length body) ms
           else Some (Inr (rep @ body, n + length body)))"
        using m by (simp add: Let_def ps_def [symmetric] take_slices_None ps)
      have p: "counter_passes options None x" for x by (simp add: counter_passes_def)
      show ?thesis
        unfolding None e ex add
        by (cases "more_body m"; cases "max_total_bytes lim < n + length body")
          (auto simp: Cons.IH p)
    next
      case (Some c)
      show ?thesis
      proof (cases "feed_all options c ps")
        case (Inl e)
        have "\<not> counter_passes options (Some c) (pieces_of (body # bs))" for bs
          by (simp add: counter_passes_def pieces feed_all_append Inl)
        moreover have "buffer_request_body options lim cnt rep n (m # ms) \<noteq> Some (Inr (rep1, n1))"
          using m Some Inl by (simp add: Let_def ps_def [symmetric] take_slices_Some)
        ultimately show ?thesis unfolding ex using Some by simp
      next
        case (Inr d)
        have pass: "counter_passes options (Some c) (pieces_of (body # bs)) \<longleftrightarrow>
            counter_passes options (Some d) (pieces_of bs)" for bs
          by (simp add: counter_passes_def pieces feed_all_append Inr)
        have last: "bind_result (finish d) (\<lambda>_. Inr (rep @ body, n + length body)) = Inr (rep1, n1) \<longleftrightarrow>
            rep1 = rep @ body \<and> n1 = n + length body \<and> counter_passes options (Some d) (pieces_of [])"
          by (auto simp: counter_passes_def none is_ok_iff bind_result_Inr)
        have e: "buffer_request_body options lim (Some c) rep n (m # ms) =
            (if max_total_bytes lim < n + length body then Some (Inl (Exceeded Total_Size))
             else if more_body m then buffer_request_body options lim (Some d) (rep @ body) (n + length body) ms
             else Some (bind_result (finish d) (\<lambda>_. Inr (rep @ body, n + length body))))"
          using m Inr by (simp add: Let_def ps_def [symmetric] take_slices_Some ps)
        show ?thesis
          unfolding Some e ex add pass
          by (cases "more_body m"; cases "max_total_bytes lim < n + length body")
            (auto simp: Cons.IH last)
      qed
    qed
  qed
qed simp

text \<open>Reading the replay to its end.\<close>

lemma replay_receive_progress:
  "replay_receive r = Some (m, r1) \<Longrightarrow> more_body m \<Longrightarrow> remaining r1 < remaining r"
  by (auto simp: replay_receive_def Let_def split: if_splits)

function replay_all :: "replay \<Rightarrow> bytes option" where
  "replay_all r =
     (case replay_receive r of
        None \<Rightarrow> None
      | Some (m, r1) \<Rightarrow>
          if more_body m then map_option (\<lambda>rest. the (message_body m) @ rest) (replay_all r1)
          else message_body m)"
  by pat_completeness auto
termination
  by (relation "measure remaining") (auto dest: replay_receive_progress)

declare replay_all.simps [simp del]

lemma replay_all_whole: "replay_all \<lparr>unread = body, remaining = length body\<rparr> = Some body"
proof (induction "length body" arbitrary: body rule: less_induct)
  case less
  show ?case
  proof (cases "length body \<le> REPLAY_CHUNK_BYTES")
    case True
    then show ?thesis
      by (subst replay_all.simps) (auto simp: replay_receive_def Let_def)
  next
    case False
    have pos: "0 < REPLAY_CHUNK_BYTES" by (simp add: REPLAY_CHUNK_BYTES_def OFFICE_STREAM_CHUNK_BYTES_def)
    let ?rest = "drop REPLAY_CHUNK_BYTES body"
    have r: "replay_receive \<lparr>unread = body, remaining = length body\<rparr> =
        Some (\<lparr>is_request = True, message_body = Some (take REPLAY_CHUNK_BYTES body), more_body = True\<rparr>,
          \<lparr>unread = ?rest, remaining = length ?rest\<rparr>)"
      using False pos by (auto simp: replay_receive_def Let_def min_def)
    have "replay_all \<lparr>unread = ?rest, remaining = length ?rest\<rparr> = Some ?rest"
      using less.hyps [of ?rest] False pos by simp
    then show ?thesis by (subst replay_all.simps) (simp add: r)
  qed
qed

subsection \<open>Properties\<close>

lemma limited_upload_Forward:
  "limited_upload op lim sc msgs = Some (Forward r) \<longleftrightarrow>
     (\<exists>ps b bs. parse_content_type op (header_value sc ''content-type'') = Inr (''multipart/form-data'', ps) \<and>
        map_of ps ''boundary'' = Some b \<and> is_valid_boundary (Some b) \<and>
        delivered msgs = Some bs \<and> r = \<lparr>unread = concat bs, remaining = length (concat bs)\<rparr> \<and>
        length (concat bs) \<le> max_total_bytes lim \<and>
        counter_accepts (disposition_options op) b lim (pieces_of bs))"
  (is "?L \<longleftrightarrow> ?R")
proof
  assume ?L
  obtain mt ps where ct: "parse_content_type op (header_value sc ''content-type'') = Inr (mt, ps)"
    using \<open>?L\<close> by (cases "parse_content_type op (header_value sc ''content-type'')")
      (auto simp: limited_upload_def Let_def split: option.splits sum.splits)
  have mt: "mt = ''multipart/form-data''"
    using \<open>?L\<close> ct by (auto simp: limited_upload_def Let_def split: option.splits sum.splits if_splits)
  have "is_valid_boundary (map_of ps ''boundary'')"
    using \<open>?L\<close> ct mt by (auto simp: limited_upload_def Let_def split: option.splits sum.splits if_splits)
  then obtain b where b: "map_of ps ''boundary'' = Some b" "is_valid_boundary (Some b)"
    by (cases "map_of ps ''boundary''") (auto simp: is_valid_boundary_def)
  obtain body n where run: "buffer_request_body (disposition_options op) lim (Some (new_counter b lim)) [] 0 msgs =
      Some (Inr (body, n))" and r: "r = \<lparr>unread = body, remaining = n\<rparr>"
    using \<open>?L\<close> ct mt b by (auto simp: limited_upload_def Let_def split: option.splits sum.splits if_splits)
  from run [unfolded buffer_request_body_iff] ct mt b r show ?R
    by (auto simp: counter_passes_def counter_accepts_def)
next
  assume ?R
  then obtain ps b bs where
    ct: "parse_content_type op (header_value sc ''content-type'') = Inr (''multipart/form-data'', ps)"
    and b: "map_of ps ''boundary'' = Some b" "is_valid_boundary (Some b)"
    and bs: "delivered msgs = Some bs" "r = \<lparr>unread = concat bs, remaining = length (concat bs)\<rparr>"
      "length (concat bs) \<le> max_total_bytes lim" "counter_accepts (disposition_options op) b lim (pieces_of bs)"
    by blast
  have "buffer_request_body (disposition_options op) lim (Some (new_counter b lim)) [] 0 msgs =
      Some (Inr (concat bs, length (concat bs)))"
    unfolding buffer_request_body_iff using bs by (auto simp: counter_passes_def counter_accepts_def)
  with ct b bs(2) show ?L by (simp add: limited_upload_def Let_def)
qed

lemma middleware_cases:
  "middleware op paths sc msgs =
     (if scope_type sc \<noteq> lit ''http'' \<or> scope_method sc \<noteq> lit ''POST'' \<or> map_of paths (scope_path sc) = None
      then Some Pass_Through
      else if announced_length (the (map_of paths (scope_path sc))) sc = Inl Decimal_Value_Error
      then Some (Respond (send_error_response 400 BAD_CONTENT_LENGTH))
      else if announced_length (the (map_of paths (scope_path sc))) sc = Inl Decimal_Overflow_Error
      then Some (Respond (send_limit_response (bound_text Total_Size)))
      else limited_upload op (the (map_of paths (scope_path sc))) sc msgs)"
  by (auto simp: middleware_def split: option.splits sum.splits decimal_error.splits)

lemma announced_ok: "is_ok r \<longleftrightarrow> r \<noteq> Inl Decimal_Value_Error \<and> r \<noteq> Inl Decimal_Overflow_Error"
proof (cases r)
  case (Inl e)
  then show ?thesis by (cases e) auto
qed simp

lemma middleware_Forward:
  "middleware op paths sc msgs = Some (Forward r) \<longleftrightarrow>
     scope_type sc = lit ''http'' \<and> scope_method sc = lit ''POST'' \<and>
     (\<exists>lim. map_of paths (scope_path sc) = Some lim \<and> is_ok (announced_length lim sc) \<and>
        limited_upload op lim sc msgs = Some (Forward r))"
  unfolding middleware_cases announced_ok by auto

text \<open>
  C40 [forwarded_upload_safe]: what reaches the application from a limited path is safe and
  whole. Its \<open>receive\<close> delivers exactly the body the server delivered, which is no longer than
  the path allows, and which, cut at the boundary that the request's own content type names, is a
  complete multipart body with at most the allowed number of files, none longer than allowed.
\<close>

theorem forwarded_upload_safe:
  assumes "middleware op paths sc msgs = Some (Forward r)"
  shows "\<exists>lim options b bs ps. map_of paths (scope_path sc) = Some lim \<and>
    parse_content_type op (header_value sc ''content-type'') = Inr (''multipart/form-data'', options) \<and>
    map_of options ''boundary'' = Some b \<and> is_valid_boundary (Some b) \<and>
    delivered msgs = Some bs \<and> replay_all r = Some (concat bs) \<and> length (concat bs) \<le> max_total_bytes lim \<and>
    multipart_parts b (concat bs) = Some ps \<and> within_limits (disposition_options op) lim ps"
proof -
  from assms [unfolded middleware_Forward limited_upload_Forward] obtain lim options b bs where
    "map_of paths (scope_path sc) = Some lim"
    "parse_content_type op (header_value sc ''content-type'') = Inr (''multipart/form-data'', options)"
    "map_of options ''boundary'' = Some b" "is_valid_boundary (Some b)" "delivered msgs = Some bs"
    "r = \<lparr>unread = concat bs, remaining = length (concat bs)\<rparr>" "length (concat bs) \<le> max_total_bytes lim"
    "counter_accepts (disposition_options op) b lim (pieces_of bs)" by blast
  moreover from this(8) obtain ps where "multipart_parts b (concat bs) = Some ps"
    "within_limits (disposition_options op) lim ps"
    using counter_accepts_sound [of "disposition_options op" b lim "pieces_of bs"] by (auto simp: concat_pieces_of)
  ultimately show ?thesis using replay_all_whole [of "concat bs"] by blast
qed

text \<open>
  An upload that keeps the rules gets through, in whatever
  messages the server delivers it: the announced length, when there is one, is a number
  within the total, the content type is multipart with a valid boundary, the body is a
  complete multipart body within the limits, and its part headers are short.
\<close>

theorem good_upload_forwarded:
  assumes "scope_type sc = lit ''http''" "scope_method sc = lit ''POST''" "map_of paths (scope_path sc) = Some lim"
    and "is_ok (announced_length lim sc)"
    and "parse_content_type op (header_value sc ''content-type'') = Inr (''multipart/form-data'', params)"
    and "map_of params ''boundary'' = Some b" "is_valid_boundary (Some b)"
    and "delivered msgs = Some bs" "length (concat bs) \<le> max_total_bytes lim"
    and "multipart_parts b (concat bs) = Some ps" "within_limits (disposition_options op) lim ps"
    and "\<forall>p \<in> set ps. length (fst p) + 3 \<le> MAX_PART_HEADER_BYTES"
  shows "middleware op paths sc msgs = Some (Forward \<lparr>unread = concat bs, remaining = length (concat bs)\<rparr>)"
  unfolding middleware_Forward limited_upload_Forward
  using assms counter_accepts_complete [of b "pieces_of bs" ps "disposition_options op" lim]
  by (auto simp: concat_pieces_of short_header_def)

text \<open>
  The replay ends and gives back the buffered body, whatever its
  length; the application never sees the \<open>RuntimeError\<close>.
\<close>

theorem replay_roundtrip: "replay_all \<lparr>unread = body, remaining = length body\<rparr> = Some body"
  by (rule replay_all_whole)

text \<open>
  Every POST to a limited path, and no other request, is checked; a
  refusal is one of the three documented statuses, and a request whose announced length is
  a number above the total is refused with 413 before any message is read.
\<close>

lemma error_status: "status (error_response e) \<in> {400, 413}"
  by (cases e) (simp_all add: error_response_def send_limit_response_def send_error_response_def)

lemma limited_upload_outcome:
  "case limited_upload op lim sc msgs of
     None \<Rightarrow> True | Some Pass_Through \<Rightarrow> False | Some (Forward r) \<Rightarrow> True | Some (Respond r) \<Rightarrow> status r \<in> {400, 413, 415}"
proof -
  define bdy where "bdy cnt = buffer_request_body (disposition_options op) lim cnt [] 0 msgs" for cnt
  define err where "err = (\<lambda>parsed media_type boundary. case parsed of Inl e \<Rightarrow> Some e
      | Inr _ \<Rightarrow> if media_type = ''multipart/form-data'' \<and> \<not> is_valid_boundary boundary
                 then Some (Malformed Bad_Boundary) else None)"
  have "case (case b of None \<Rightarrow> None | Some (Inl e) \<Rightarrow> Some (Respond (error_response e))
       | Some (Inr (buffered, body_length)) \<Rightarrow>
           (case c of Some e \<Rightarrow> Some (Respond (error_response e))
            | None \<Rightarrow> if q then Some (Respond (send_error_response 415 ONLY_MULTIPART))
                else Some (Forward \<lparr>unread = buffered, remaining = body_length\<rparr>))) of
     None \<Rightarrow> True | Some Pass_Through \<Rightarrow> False | Some (Forward r) \<Rightarrow> True | Some (Respond r) \<Rightarrow> status r \<in> {400, 413, 415}"
    for b c q
    using error_status by (auto simp: send_error_response_def split: option.splits sum.splits)
  then show ?thesis unfolding limited_upload_def Let_def .
qed

theorem ingress_outcomes:
  "(middleware op paths sc msgs = Some Pass_Through \<longleftrightarrow>
      \<not> (scope_type sc = lit ''http'' \<and> scope_method sc = lit ''POST'' \<and> scope_path sc \<in> fst ` set paths)) \<and>
   (case middleware op paths sc msgs of Some (Respond r) \<Rightarrow> status r \<in> {400, 413, 415} | _ \<Rightarrow> True) \<and>
   (if scope_type sc = lit ''http'' \<and> scope_method sc = lit ''POST'' \<and> map_of paths (scope_path sc) = Some lim \<and>
       announced_length lim sc = Inl Decimal_Overflow_Error
    then \<exists>r. middleware op paths sc [] = Some (Respond r) \<and> status r = 413 else True)"
proof (intro conjI)
  note out = limited_upload_outcome [of op "the (map_of paths (scope_path sc))" sc msgs]
  show "middleware op paths sc msgs = Some Pass_Through \<longleftrightarrow>
      \<not> (scope_type sc = lit ''http'' \<and> scope_method sc = lit ''POST'' \<and> scope_path sc \<in> fst ` set paths)"
    using out unfolding middleware_cases map_of_eq_None_iff by auto
  show "case middleware op paths sc msgs of Some (Respond r) \<Rightarrow> status r \<in> {400, 413, 415} | _ \<Rightarrow> True"
    using out unfolding middleware_cases
    by (auto simp: send_limit_response_def send_error_response_def split: option.splits verdict.splits)
  show "if scope_type sc = lit ''http'' \<and> scope_method sc = lit ''POST'' \<and>
        map_of paths (scope_path sc) = Some lim \<and> announced_length lim sc = Inl Decimal_Overflow_Error
      then \<exists>r. middleware op paths sc [] = Some (Respond r) \<and> status r = 413 else True"
    unfolding middleware_cases by (simp add: send_limit_response_def send_error_response_def)
qed

definition demo_scope :: scope where
  "demo_scope = \<lparr>scope_type = lit ''http'', scope_method = lit ''POST'', scope_path = lit ''/upload'',
     scope_headers = []\<rparr>"

definition demo_parser :: option_parser where
  "demo_parser = \<lparr>content_type_options = (\<lambda>_. Some (''Multipart/Form-Data'', [(''boundary'', ''b'')])),
     disposition_options = (\<lambda>_. None)\<rparr>"

definition demo_messages :: "message list" where
  "demo_messages = [\<lparr>is_request = True, message_body = Some (take 5 demo_body), more_body = True\<rparr>,
     \<lparr>is_request = True, message_body = Some (drop 5 demo_body), more_body = False\<rparr>]"

lemma demo_request:
  "scope_type demo_scope = lit ''http''" "scope_method demo_scope = lit ''POST''"
  "map_of [(lit ''/upload'', demo_upload_limits)] (scope_path demo_scope) = Some demo_upload_limits"
  by (simp_all add: demo_scope_def)

lemma demo_announced: "is_ok (announced_length demo_upload_limits demo_scope)"
  by (simp add: announced_length_def header_value_def demo_scope_def)

lemma demo_content_type:
  "parse_content_type demo_parser (header_value demo_scope ''content-type'') =
     Inr (''multipart/form-data'', [(''boundary'', ''b'')])"
  "map_of [(''boundary'', ''b'')] ''boundary'' = Some ''b''"
proof -
  have "bytes_lower ''Multipart/Form-Data'' = ''multipart/form-data''"
    by (simp add: bytes_lower_def ascii_lower_def char_of_eq_iff)
  then show "parse_content_type demo_parser (header_value demo_scope ''content-type'') =
     Inr (''multipart/form-data'', [(''boundary'', ''b'')])"
    by (simp add: parse_content_type_def demo_parser_def)
qed simp

lemma demo_boundary: "is_valid_boundary (Some ''b'')"
  by code_simp

lemma demo_delivery:
  "delivered demo_messages = Some [take 5 demo_body, drop 5 demo_body]"
  "length (concat [take 5 demo_body, drop 5 demo_body]) \<le> max_total_bytes demo_upload_limits"
  "multipart_parts ''b'' (concat [take 5 demo_body, drop 5 demo_body]) = Some [(''x:y'', ''data'')]"
  "within_limits (disposition_options demo_parser) demo_upload_limits [(''x:y'', ''data'')]"
  "\<forall>p \<in> set [(''x:y'', ''data'')]. length (fst p) + 3 \<le> MAX_PART_HEADER_BYTES"
  by (simp_all add: demo_messages_def demo_parts demo_within MAX_PART_HEADER_BYTES_def)
    (simp add: demo_body_def demo_upload_limits_def CRLF_def)

lemma demo_forwarded:
  "middleware demo_parser [(lit ''/upload'', demo_upload_limits)] demo_scope demo_messages =
     Some (Forward \<lparr>unread = demo_body, remaining = length demo_body\<rparr>)"
proof -
  have "counter_accepts (disposition_options demo_parser) ''b'' demo_upload_limits
      (pieces_of [take 5 demo_body, drop 5 demo_body])"
    using counter_accepts_complete [of "''b''" "pieces_of [take 5 demo_body, drop 5 demo_body]"
        "[(''x:y'', ''data'')]" "disposition_options demo_parser" demo_upload_limits] demo_delivery(3,4,5)
    by (simp add: concat_pieces_of short_header_def)
  then have "limited_upload demo_parser demo_upload_limits demo_scope demo_messages =
      Some (Forward \<lparr>unread = demo_body, remaining = length demo_body\<rparr>)"
    unfolding limited_upload_Forward using demo_content_type demo_boundary demo_delivery(1,2)
    by (intro exI [of _ "[(''boundary'', ''b'')]"] exI [of _ "''b''"]
        exI [of _ "[take 5 demo_body, drop 5 demo_body]"]) simp
  then show ?thesis unfolding middleware_Forward using demo_request demo_announced by blast
qed

theorem forwarded_upload_safe_witness:
  "\<exists>r. middleware demo_parser [(lit ''/upload'', demo_upload_limits)] demo_scope demo_messages = Some (Forward r) \<and>
     replay_all r = Some demo_body"
  using forwarded_upload_safe [OF demo_forwarded] demo_forwarded demo_delivery(1) by auto

theorem good_upload_forwarded_witness:
  "middleware demo_parser [(lit ''/upload'', demo_upload_limits)] demo_scope demo_messages =
     Some (Forward \<lparr>unread = demo_body, remaining = length demo_body\<rparr>)"
  using good_upload_forwarded [OF demo_request demo_announced demo_content_type demo_boundary demo_delivery] by simp

end
