(* ===== verification/Credential_Store.thy ===== *)
theory Credential_Store
  imports Py_Json
begin

text \<open>
  The store of provider credentials (\<open>operations/provider_credential_store.py\<close>): one file per
  credential below a directory of the current user, with the binding version and the time in
  the clear and the secret under DPAPI. The answers of Windows about the directory, its
  access list and each file, DPAPI itself, the clock and the random names are parameters
  (\<open>store_host\<close>); the state is the content of the directory. The properties are the laws of
  a vault: what is put under a reference is what is read back, other references are not
  touched, and a failed write changes nothing that can be read.
\<close>

unbundle bit_operations_syntax

subsection \<open>Errors and envelopes\<close>

datatype store_code = SID_RESOLUTION_FAILED | ROOT_UNREADABLE | ROOT_REPARSE_POINT | ROOT_OWNER_MISMATCH
  | ROOT_DACL_MISSING | ROOT_DACL_TOO_BROAD | ROOT_SECURITY_QUERY_FAILED | FILE_REPARSE_POINT | FILE_HARDLINKED
  | FILE_UNREADABLE | ENVELOPE_CORRUPT | BINDING_VERSION_IMMUTABLE | STAGE_WRITE_FAILED | CREDENTIAL_NOT_FOUND
  | INVALID_REF

fun store_code_value :: "store_code \<Rightarrow> string" where
  "store_code_value SID_RESOLUTION_FAILED = ''sid-resolution-failed''"
| "store_code_value ROOT_UNREADABLE = ''root-unreadable''"
| "store_code_value ROOT_REPARSE_POINT = ''root-reparse-point''"
| "store_code_value ROOT_OWNER_MISMATCH = ''root-owner-mismatch''"
| "store_code_value ROOT_DACL_MISSING = ''root-dacl-missing''"
| "store_code_value ROOT_DACL_TOO_BROAD = ''root-dacl-too-broad''"
| "store_code_value ROOT_SECURITY_QUERY_FAILED = ''root-security-query-failed''"
| "store_code_value FILE_REPARSE_POINT = ''file-reparse-point''"
| "store_code_value FILE_HARDLINKED = ''file-hardlinked''"
| "store_code_value FILE_UNREADABLE = ''file-unreadable''"
| "store_code_value ENVELOPE_CORRUPT = ''envelope-corrupt''"
| "store_code_value BINDING_VERSION_IMMUTABLE = ''binding-version-immutable''"
| "store_code_value STAGE_WRITE_FAILED = ''stage-write-failed''"
| "store_code_value CREDENTIAL_NOT_FOUND = ''credential-not-found''"
| "store_code_value INVALID_REF = ''invalid-ref''"

text \<open>\<open>ProviderCredentialStoreError\<close>, or an exception the store lets through.\<close>

datatype store_failure = Store_Error store_code | Dpapi_Error | Os_Error

type_synonym 'a stored = "(store_failure, 'a) result"

text \<open>A float is kept as its text, as \<open>str\<close> prints it.\<close>

record envelope =
  credential_ref :: pystr
  credential_binding_version :: int
  created_at :: pystr

subsection \<open>What Windows answers\<close>

datatype ace_answer = Ace_Unreadable | Ace nat "pystr option"

record directory_answers =
  dir_attributes :: "nat option"
  security_read :: bool
  owner_sid :: "pystr option"
  dacl :: "ace_answer list option option"

text \<open>\<open>dacl\<close> is \<open>None\<close> for a null list and \<open>Some None\<close> where its size cannot be read; an entry has
  its type and the text of its SID, when it can be converted.\<close>

record blob =
  blob_content :: bytes
  blob_attributes :: nat
  blob_links :: "nat option"

text \<open>\<open>blob_links\<close> is \<open>None\<close> where the file cannot be opened or queried.\<close>

type_synonym files = "pystr \<Rightarrow> blob option"

record store_host =
  root_override :: bool
  skip_host_validation :: bool
  sid_provider :: "pystr stored"
  mkdir_ok :: bool
  directory :: directory_answers
  protect :: "bytes \<Rightarrow> bytes option"
  unprotect :: "bytes \<Rightarrow> bytes option"
  clock_text :: pystr
  float_text :: "pystr \<Rightarrow> pystr option"
  staging_token :: pystr
  new_blob :: "bytes \<Rightarrow> blob"
  write_ok :: bool
  replace_ok :: bool
  unlink_ok :: bool

definition store_init_ok :: "store_host \<Rightarrow> bool" where
  "store_init_ok h \<longleftrightarrow> \<not> (skip_host_validation h \<and> \<not> root_override h)"

subsection \<open>Checks of the host\<close>

definition WELL_KNOWN_SAFE_SID_SUFFIXES :: "pystr set" where
  "WELL_KNOWN_SAFE_SID_SUFFIXES = {lit ''S-1-5-18'', lit ''S-1-5-32-544''}"

definition FILE_ATTRIBUTE_REPARSE_POINT :: nat where "FILE_ATTRIBUTE_REPARSE_POINT = 1024"
definition ACCESS_ALLOWED_ACE_TYPE :: nat where "ACCESS_ALLOWED_ACE_TYPE = 0"

definition sid_string :: "pystr option \<Rightarrow> pystr stored" where
  "sid_string s = of_option (Store_Error SID_RESOLUTION_FAILED) s"

definition check_ace :: "pystr set \<Rightarrow> ace_answer \<Rightarrow> unit stored" where
  "check_ace allowed a =
     (case a of
        Ace_Unreadable \<Rightarrow> Inl (Store_Error ROOT_SECURITY_QUERY_FAILED)
      | Ace ace_type sid \<Rightarrow>
          if ace_type \<noteq> ACCESS_ALLOWED_ACE_TYPE then Inr ()
          else bind_result (sid_string sid) (\<lambda>trustee.
            require (trustee \<in> allowed) (Store_Error ROOT_DACL_TOO_BROAD)))"

definition validate_dacl :: "ace_answer list option option \<Rightarrow> pystr \<Rightarrow> unit stored" where
  "validate_dacl d expected_owner_sid =
     (case d of
        None \<Rightarrow> Inl (Store_Error ROOT_DACL_MISSING)
      | Some None \<Rightarrow> Inl (Store_Error ROOT_SECURITY_QUERY_FAILED)
      | Some (Some aces) \<Rightarrow>
          for_each (check_ace (insert expected_owner_sid WELL_KNOWN_SAFE_SID_SUFFIXES)) aces)"

definition validate_directory_security :: "directory_answers \<Rightarrow> pystr \<Rightarrow> unit stored" where
  "validate_directory_security d expected_owner_sid =
     (case dir_attributes d of
        None \<Rightarrow> Inl (Store_Error ROOT_UNREADABLE)
      | Some attrs \<Rightarrow>
          if attrs AND FILE_ATTRIBUTE_REPARSE_POINT \<noteq> 0 then Inl (Store_Error ROOT_REPARSE_POINT)
          else if \<not> security_read d then Inl (Store_Error ROOT_SECURITY_QUERY_FAILED)
          else bind_result (sid_string (owner_sid d)) (\<lambda>owner.
            if owner \<notin> insert expected_owner_sid WELL_KNOWN_SAFE_SID_SUFFIXES
            then Inl (Store_Error ROOT_OWNER_MISMATCH)
            else validate_dacl (dacl d) expected_owner_sid))"

definition reject_reparse_or_hardlink_file :: "blob option \<Rightarrow> unit stored" where
  "reject_reparse_or_hardlink_file f =
     (case f of
        None \<Rightarrow> Inr ()
      | Some b \<Rightarrow>
          if blob_attributes b AND FILE_ATTRIBUTE_REPARSE_POINT \<noteq> 0 then Inl (Store_Error FILE_REPARSE_POINT)
          else
            (case blob_links b of
               None \<Rightarrow> Inl (Store_Error FILE_UNREADABLE)
             | Some n \<Rightarrow> if 1 < n then Inl (Store_Error FILE_HARDLINKED) else Inr ()))"

definition prepare_root :: "store_host \<Rightarrow> unit stored" where
  "prepare_root h =
     bind_result (if root_override h then Inr () else map_sum id (\<lambda>_. ()) (sid_provider h)) (\<lambda>_.
     if \<not> mkdir_ok h then Inl Os_Error
     else if \<not> root_override h \<or> \<not> skip_host_validation h
       then bind_result (sid_provider h) (validate_directory_security (directory h))
     else Inr ())"

subsection \<open>References and paths\<close>

definition is_ref_char :: "nat \<Rightarrow> bool" where
  "is_ref_char c \<longleftrightarrow> is_digit c \<or> 65 \<le> c \<and> c \<le> 90 \<or> 97 \<le> c \<and> c \<le> 122 \<or> c = 95 \<or> c = 45"

text \<open>\<open>^[A-Za-z0-9_-]{1,128}$\<close> with \<open>match\<close>, where \<open>$\<close> also matches before a final line end.\<close>

definition ref_pattern :: "pystr \<Rightarrow> bool" where
  "ref_pattern r \<longleftrightarrow>
     (let s = (if r \<noteq> [] \<and> last r = 10 then butlast r else r)
      in 1 \<le> length s \<and> length s \<le> 128 \<and> list_all is_ref_char s)"

definition safe_ref :: "pystr \<Rightarrow> pystr stored" where
  "safe_ref r = (if \<not> ref_pattern r then Inl (Store_Error INVALID_REF) else Inr r)"

definition blob_path :: "store_host \<Rightarrow> pystr \<Rightarrow> pystr stored" where
  "blob_path h r =
     bind_result (prepare_root h) (\<lambda>_. bind_result (safe_ref r) (\<lambda>s. Inr (s @ lit ''.dpapi'')))"

definition staging_path :: "store_host \<Rightarrow> pystr \<Rightarrow> pystr" where
  "staging_path h target = target @ lit ''.staging-'' @ staging_token h"

subsection \<open>The bytes of a file\<close>

definition ENVELOPE_MAGIC :: bytes where
  "ENVELOPE_MAGIC = ''AEROONE-PCV1'' @ [CHR 0x0A]"

definition ascii_encode :: "pystr \<Rightarrow> bytes" where
  "ascii_encode s = map char_of s"

definition ascii_decode :: "bytes \<Rightarrow> pystr option" where
  "ascii_decode bs = (if list_all (\<lambda>b. of_char b < (128::nat)) bs then Some (map of_char bs) else None)"

definition envelope_bytes :: "int \<Rightarrow> pystr \<Rightarrow> bytes \<Rightarrow> bytes" where
  "envelope_bytes version time_text ciphertext =
     ENVELOPE_MAGIC @ ascii_encode (js_int version) @ [CHR 0x0A] @ ascii_encode time_text @ [CHR 0x0A] @ ciphertext"

definition cut_line :: "bytes \<Rightarrow> (bytes \<times> bytes) option" where
  "cut_line bs = (if CHR 0x0A \<in> set bs
     then Some (takeWhile (\<lambda>c. c \<noteq> CHR 0x0A) bs, tl (dropWhile (\<lambda>c. c \<noteq> CHR 0x0A) bs)) else None)"

text \<open>\<open>a, b, c = rest.split(b'\n', 2)\<close>; \<open>None\<close> where there are fewer than three fields.\<close>

definition split_two :: "bytes \<Rightarrow> (bytes \<times> bytes \<times> bytes) option" where
  "split_two bs =
     (case cut_line bs of
        None \<Rightarrow> None
      | Some (a, r) \<Rightarrow> map_option (\<lambda>(b, c). (a, b, c)) (cut_line r))"

subsection \<open>The operations\<close>

definition parse_envelope :: "store_host \<Rightarrow> pystr \<Rightarrow> bytes \<Rightarrow> envelope stored" where
  "parse_envelope h r raw =
     (if \<not> starts_with raw ENVELOPE_MAGIC then Inl (Store_Error ENVELOPE_CORRUPT)
      else
        (case split_two (drop (length ENVELOPE_MAGIC) raw) of
           None \<Rightarrow> Inl (Store_Error ENVELOPE_CORRUPT)
         | Some (version_bytes, time_bytes, ciphertext) \<Rightarrow>
             (case (Option.bind (ascii_decode version_bytes) py_int,
                    Option.bind (ascii_decode time_bytes) (float_text h)) of
                (Some v, Some t) \<Rightarrow>
                  Inr \<lparr>credential_ref = r, credential_binding_version = v, created_at = t\<rparr>
              | _ \<Rightarrow> Inl (Store_Error ENVELOPE_CORRUPT))))"

definition read_envelope :: "store_host \<Rightarrow> pystr \<Rightarrow> files \<Rightarrow> envelope stored" where
  "read_envelope h r fs =
     bind_result (blob_path h r) (\<lambda>path.
     case fs path of
       None \<Rightarrow> Inl (Store_Error CREDENTIAL_NOT_FOUND)
     | Some b \<Rightarrow>
         bind_result (reject_reparse_or_hardlink_file (Some b)) (\<lambda>_. parse_envelope h r (blob_content b)))"

definition get_envelope :: "store_host \<Rightarrow> pystr \<Rightarrow> files \<Rightarrow> envelope option stored" where
  "get_envelope h r fs =
     (case read_envelope h r fs of
        Inr e \<Rightarrow> Inr (Some e)
      | Inl (Store_Error CREDENTIAL_NOT_FOUND) \<Rightarrow> Inr None
      | Inl e \<Rightarrow> Inl e)"

definition load_plaintext :: "store_host \<Rightarrow> pystr \<Rightarrow> files \<Rightarrow> bytes stored" where
  "load_plaintext h r fs =
     bind_result (blob_path h r) (\<lambda>path.
     case fs path of
       None \<Rightarrow> Inl (Store_Error CREDENTIAL_NOT_FOUND)
     | Some b \<Rightarrow>
         bind_result (reject_reparse_or_hardlink_file (Some b)) (\<lambda>_.
         let raw = blob_content b
         in if \<not> starts_with raw ENVELOPE_MAGIC then Inl (Store_Error ENVELOPE_CORRUPT)
            else
              (case split_two (drop (length ENVELOPE_MAGIC) raw) of
                 None \<Rightarrow> Inl (Store_Error ENVELOPE_CORRUPT)
               | Some (version_bytes, time_bytes, ciphertext) \<Rightarrow>
                   of_option (Store_Error ENVELOPE_CORRUPT) (unprotect h ciphertext))))"

text \<open>The stage and the promotion. Names are compared as texts: two references that differ in
  case only, which NTFS takes for one file, are two files here (the references the service
  draws are lower-case hexadecimal). The removal of a staging file that could not be written or
  promoted is taken to succeed; one that fails the check of links is left behind, as in the
  code.\<close>

definition stage_and_promote :: "store_host \<Rightarrow> pystr \<Rightarrow> bytes \<Rightarrow> files \<Rightarrow> unit stored \<times> files" where
  "stage_and_promote h target payload fs =
     (let staging = staging_path h target;
          b = new_blob h payload
      in if \<not> write_ok h then (Inl (Store_Error STAGE_WRITE_FAILED), fs(staging := None))
         else
           (case reject_reparse_or_hardlink_file (Some b) of
              Inl e \<Rightarrow> (Inl e, fs(staging := Some b))
            | Inr _ \<Rightarrow>
                if \<not> replace_ok h then (Inl (Store_Error STAGE_WRITE_FAILED), fs(staging := None))
                else (Inr (), fs(staging := None, target := Some b))))"

text \<open>The check of an existing file; a new one must not have a binding yet.\<close>

definition binding_agrees :: "store_host \<Rightarrow> pystr \<Rightarrow> pystr \<Rightarrow> int \<Rightarrow> int option \<Rightarrow> files \<Rightarrow> unit stored" where
  "binding_agrees h target r binding_version existing_binding_version fs =
     (case fs target of
        Some b \<Rightarrow>
          bind_result (reject_reparse_or_hardlink_file (Some b)) (\<lambda>_.
          bind_result (read_envelope h r fs) (\<lambda>current.
          if existing_binding_version \<noteq> Some (credential_binding_version current) \<or>
              binding_version \<noteq> credential_binding_version current
          then Inl (Store_Error BINDING_VERSION_IMMUTABLE) else Inr ()))
      | None \<Rightarrow>
          if existing_binding_version \<noteq> None then Inl (Store_Error CREDENTIAL_NOT_FOUND) else Inr ())"

definition store_credential ::
    "store_host \<Rightarrow> pystr \<Rightarrow> bytes \<Rightarrow> int \<Rightarrow> int option \<Rightarrow> files \<Rightarrow> envelope stored \<times> files" where
  "store_credential h r plaintext binding_version existing_binding_version fs =
     (case bind_result (blob_path h r) (\<lambda>target.
             bind_result (binding_agrees h target r binding_version existing_binding_version fs)
               (\<lambda>_. bind_result (of_option Dpapi_Error (protect h plaintext)) (\<lambda>ciphertext. Inr (target, ciphertext)))) of
        Inl e \<Rightarrow> (Inl e, fs)
      | Inr (target, ciphertext) \<Rightarrow>
          (case stage_and_promote h target (envelope_bytes binding_version (clock_text h) ciphertext) fs of
             (Inl e, fs1) \<Rightarrow> (Inl e, fs1)
           | (Inr _, fs1) \<Rightarrow>
               (Inr \<lparr>credential_ref = r, credential_binding_version = binding_version, created_at = clock_text h\<rparr>,
                fs1)))"

definition delete_credential :: "store_host \<Rightarrow> pystr \<Rightarrow> files \<Rightarrow> unit stored \<times> files" where
  "delete_credential h r fs =
     (case blob_path h r of
        Inl e \<Rightarrow> (Inl e, fs)
      | Inr path \<Rightarrow>
          if fs path = None then (Inr (), fs)
          else
            (case reject_reparse_or_hardlink_file (fs path) of
               Inl e \<Rightarrow> (Inl e, fs)
             | Inr _ \<Rightarrow>
                 if \<not> unlink_ok h then (Inl (Store_Error STAGE_WRITE_FAILED), fs)
                 else (Inr (), fs(path := None))))"

subsection \<open>Files that are written and read back\<close>

lemma ascii_decode_encode: "list_all (\<lambda>c. c < 128) s \<Longrightarrow> ascii_decode (ascii_encode s) = Some s"
proof -
  assume "list_all (\<lambda>c. c < 128) s"
  then have "\<And>c. c \<in> set s \<Longrightarrow> of_char (char_of c :: char) = c \<and> c < 128" by (auto simp: list_all_iff)
  then show ?thesis by (auto simp: ascii_decode_def ascii_encode_def list_all_iff intro!: map_idI)
qed

lemma newline_encode: "list_all (\<lambda>c. c < 128 \<and> c \<noteq> 10) s \<Longrightarrow> CHR 0x0A \<notin> set (ascii_encode s)"
proof
  assume s: "list_all (\<lambda>c. c < 128 \<and> c \<noteq> 10) s" and "CHR 0x0A \<in> set (ascii_encode s)"
  then obtain c where c: "c \<in> set s" and eq: "char_of c = CHR 0x0A" by (auto simp: ascii_encode_def)
  from s c have "c < 128" "c \<noteq> 10" by (auto simp: list_all_iff)
  moreover from eq have "of_char (char_of c :: char) = (10 :: nat)" by simp
  ultimately show False by simp
qed

lemma cut_line_append: "CHR 0x0A \<notin> set a \<Longrightarrow> cut_line (a @ CHR 0x0A # r) = Some (a, r)"
  by (simp add: cut_line_def takeWhile_upto dropWhile_upto)

lemma js_int_chars: "list_all (\<lambda>c. c < 128 \<and> c \<noteq> 10) (js_int v)"
  by (auto simp: js_int_def list_all_iff is_digit_def dest!: dec_digits_are_digits)

lemma split_envelope:
  assumes "list_all (\<lambda>c. c < 128 \<and> c \<noteq> 10) t"
  shows "split_two (drop (length ENVELOPE_MAGIC) (envelope_bytes v t c)) = Some (ascii_encode (js_int v), ascii_encode t, c)"
  unfolding envelope_bytes_def split_two_def
  by (simp add: cut_line_append newline_encode [OF js_int_chars] newline_encode [OF assms])

lemma magic_envelope: "starts_with (envelope_bytes v t c) ENVELOPE_MAGIC"
  by (simp add: envelope_bytes_def starts_with_def)

text \<open>Binding versions are printed and read back; the bound is far above the database's.\<close>

definition version_ok :: "int \<Rightarrow> bool" where
  "version_ok v \<longleftrightarrow> 0 \<le> v \<and> v < 2 ^ 64"

lemma length_dec_digits: "0 < n \<Longrightarrow> n < 10 ^ k \<Longrightarrow> length (dec_digits n) \<le> k"
proof -
  assume n: "0 < n" "n < 10 ^ k"
  have "\<forall>c \<in> set (dec_digits n). is_digit c" using dec_digits_are_digits by auto
  with n(1) have "10 ^ (length (dec_digits n) - 1) \<le> dec_value (dec_digits n)"
    by (intro dec_value_ge hd_dec_digits) auto
  then have "(10::nat) ^ (length (dec_digits n) - 1) < 10 ^ k"
    using n(2) unfolding dec_value_digits by (rule le_less_trans)
  then have "length (dec_digits n) - 1 < k" by (subst (asm) power_strict_increasing_iff) simp_all
  then show ?thesis by linarith
qed

lemma read_version:
  assumes "version_ok v"
  shows "Option.bind (ascii_decode (ascii_encode (js_int v))) py_int = Some v"
proof -
  have "list_all (\<lambda>c. c < 128) (js_int v)" using js_int_chars [of v] by (auto simp: list_all_iff)
  then have "ascii_decode (ascii_encode (js_int v)) = Some (js_int v)" by (rule ascii_decode_encode)
  moreover have "length (dec_digits (nat v)) \<le> 20"
  proof (cases "nat v = 0")
    case False
    from assms have "nat v < 10 ^ 20" by (simp add: version_ok_def nat_less_iff)
    with False show ?thesis by (intro length_dec_digits) simp
  qed simp
  then have "py_int (dec_digits (nat v)) = Some (int (nat v))" by (intro py_int_print) simp
  ultimately show ?thesis using assms by (simp add: js_int_def version_ok_def)
qed

subsection \<open>The paths of references\<close>

lemma blob_path_Inr: "blob_path h r = Inr p \<longleftrightarrow> prepare_root h = Inr () \<and> ref_pattern r \<and> p = r @ lit ''.dpapi''"
  by (cases "prepare_root h") (auto simp: blob_path_def safe_ref_def)

lemma ref_no_dot: "ref_pattern r \<Longrightarrow> 46 \<notin> set r"
proof
  assume r: "ref_pattern r" and dot: "46 \<in> set r"
  show False
  proof (cases "r \<noteq> [] \<and> last r = 10")
    case True
    then have "r = butlast r @ [10]" using append_butlast_last_id [of r] by simp
    with dot have "46 \<in> set (butlast r @ [10])" by metis
    then have "46 \<in> set (butlast r)" by simp
    with r True show False by (auto simp: ref_pattern_def list_all_iff is_ref_char_def is_digit_def Let_def)
  next
    case False
    with r dot show False by (auto simp: ref_pattern_def list_all_iff is_ref_char_def is_digit_def Let_def split: if_splits)
  qed
qed

lemma staging_is_no_blob:
  assumes "ref_pattern r" "ref_pattern s"
  shows "staging_path h (r @ lit ''.dpapi'') \<noteq> s @ lit ''.dpapi''"
proof
  assume eq: "staging_path h (r @ lit ''.dpapi'') = s @ lit ''.dpapi''"
  have tw: "takeWhile (\<lambda>c. c \<noteq> 46) (x @ lit ''.dpapi'' @ y) = x" if "ref_pattern x" for x y
    using ref_no_dot [OF that] by (simp add: lit_def takeWhile_upto)
  have "r = takeWhile (\<lambda>c. c \<noteq> 46) (staging_path h (r @ lit ''.dpapi''))"
    using tw [OF assms(1), of "lit ''.staging-'' @ staging_token h"] by (simp add: staging_path_def)
  also have "\<dots> = s" using tw [OF assms(2), of "[]"] by (simp add: eq)
  finally show False using eq by (simp add: staging_path_def lit_def)
qed

subsection \<open>What an operation did\<close>

lemma stage_and_promote_cases:
  assumes "stage_and_promote h p bs fs = (r, fs')"
  obtains (stored) "r = Inr ()" "reject_reparse_or_hardlink_file (Some (new_blob h bs)) = Inr ()"
      "fs' = fs(staging_path h p := None, p := Some (new_blob h bs))"
    | (failed) e where "r = Inl e" "\<And>q. q \<noteq> staging_path h p \<Longrightarrow> fs' q = fs q"
proof (cases "write_ok h \<and> reject_reparse_or_hardlink_file (Some (new_blob h bs)) = Inr () \<and> replace_ok h")
  case True
  with assms show thesis by (intro stored) (auto simp: stage_and_promote_def Let_def)
next
  case False
  then have "\<exists>e. r = Inl e" "\<And>q. q \<noteq> staging_path h p \<Longrightarrow> fs' q = fs q"
    using assms by (cases "reject_reparse_or_hardlink_file (Some (new_blob h bs))";
        auto simp: stage_and_promote_def Let_def split: if_splits)+
  then show thesis using failed by blast
qed

lemma store_credential_cases:
  assumes "store_credential h r k v w fs = (x, fs')"
  obtains (refused) e where "x = Inl e" "fs' = fs"
    | (ready) c y where "prepare_root h = Inr ()" "ref_pattern r" "binding_agrees h (r @ lit ''.dpapi'') r v w fs = Inr ()"
      "protect h k = Some c"
      "stage_and_promote h (r @ lit ''.dpapi'') (envelope_bytes v (clock_text h) c) fs = (y, fs')"
      "x = map_sum id (\<lambda>_. \<lparr>credential_ref = r, credential_binding_version = v, created_at = clock_text h\<rparr>) y"
proof (cases "blob_path h r")
  case (Inl e)
  with assms have "x = Inl e" "fs' = fs" by (simp_all add: store_credential_def)
  then show thesis by (rule refused)
next
  case (Inr p)
  then have p: "prepare_root h = Inr ()" "ref_pattern r" "p = r @ lit ''.dpapi''" unfolding blob_path_Inr by blast+
  have st: "store_credential h r k v w fs =
      (case bind_result (binding_agrees h (r @ lit ''.dpapi'') r v w fs) (\<lambda>_. of_option Dpapi_Error (protect h k)) of
         Inl e \<Rightarrow> (Inl e, fs)
       | Inr c \<Rightarrow>
          (case stage_and_promote h p (envelope_bytes v (clock_text h) c) fs of
             (Inl e, fs1) \<Rightarrow> (Inl e, fs1)
           | (Inr _, fs1) \<Rightarrow>
               (Inr \<lparr>credential_ref = r, credential_binding_version = v, created_at = clock_text h\<rparr>, fs1)))"
    unfolding store_credential_def Inr bind_result.simps p(3)
    by (cases "binding_agrees h (r @ lit ''.dpapi'') r v w fs"; cases "protect h k") (auto simp: of_option_def)
  show thesis
  proof (cases "bind_result (binding_agrees h (r @ lit ''.dpapi'') r v w fs) (\<lambda>_. of_option Dpapi_Error (protect h k))")
    case (Inl e)
    with st assms have "x = Inl e" "fs' = fs" by simp_all
    then show thesis by (rule refused)
  next
    case c: (Inr c)
    then have c': "binding_agrees h (r @ lit ''.dpapi'') r v w fs = Inr ()" "protect h k = Some c"
      by (auto simp: bind_result_Inr of_option_Inr)
    obtain y fs1 where y: "stage_and_promote h p (envelope_bytes v (clock_text h) c) fs = (y, fs1)" by fastforce
    with st assms c have "fs' = fs1" "x = map_sum id (\<lambda>_. \<lparr>credential_ref = r, credential_binding_version = v,
        created_at = clock_text h\<rparr>) y"
      by (auto split: sum.splits)
    with y c' p show thesis by (intro ready) auto
  qed
qed

subsection \<open>The store as a vault\<close>

text \<open>What a host \<open>g\<close> reads back: the binding version and the secret of every reference.\<close>

definition vault_view :: "store_host \<Rightarrow> files \<Rightarrow> pystr \<Rightarrow> (int \<times> bytes) option" where
  "vault_view g fs r =
     (case (get_envelope g r fs, load_plaintext g r fs) of
        (Inr (Some e), Inr k) \<Rightarrow> Some (credential_binding_version e, k)
      | _ \<Rightarrow> None)"

text \<open>\<open>g\<close> can use the directory and reads what \<open>h\<close> writes: DPAPI gives the secret back, \<open>float\<close>
  reads the time \<open>str\<close> printed, and a file holds the bytes that were written.\<close>

definition reads :: "store_host \<Rightarrow> store_host \<Rightarrow> bool" where
  "reads g h \<longleftrightarrow> prepare_root g = Inr () \<and> (\<forall>k c. protect h k = Some c \<longrightarrow> unprotect g c = Some k) \<and>
     float_text g (clock_text h) = Some (clock_text h) \<and> list_all (\<lambda>c. c < 128 \<and> c \<noteq> 10) (clock_text h) \<and>
     (\<forall>bs. blob_content (new_blob h bs) = bs)"

lemma view_unprepared: "\<not> (prepare_root g = Inr () \<and> ref_pattern r) \<Longrightarrow> vault_view g fs r = None"
proof -
  assume "\<not> (prepare_root g = Inr () \<and> ref_pattern r)"
  then obtain e where "blob_path g r = Inl e" by (cases "blob_path g r") (auto simp: blob_path_Inr)
  then show ?thesis by (simp add: vault_view_def load_plaintext_def split: sum.splits option.splits)
qed

lemma view_cong:
  assumes "fs (r @ lit ''.dpapi'') = fs' (r @ lit ''.dpapi'')"
  shows "vault_view g fs r = vault_view g fs' r"
proof (cases "prepare_root g = Inr () \<and> ref_pattern r")
  case True
  then have "blob_path g r = Inr (r @ lit ''.dpapi'')" by (simp add: blob_path_Inr)
  with assms show ?thesis by (simp add: vault_view_def get_envelope_def load_plaintext_def read_envelope_def)
next
  case False
  then show ?thesis using view_unprepared by metis
qed

lemma view_absent: "fs (r @ lit ''.dpapi'') = None \<Longrightarrow> vault_view g fs r = None"
proof (cases "prepare_root g = Inr () \<and> ref_pattern r")
  case True
  moreover assume "fs (r @ lit ''.dpapi'') = None"
  ultimately have "load_plaintext g r fs = Inl (Store_Error CREDENTIAL_NOT_FOUND)"
    by (simp add: load_plaintext_def blob_path_Inr [THEN iffD2])
  then show ?thesis by (simp add: vault_view_def split: sum.splits option.splits)
qed (rule view_unprepared)

text \<open>A file one host wrote, as another reads it.\<close>

lemma read_written:
  assumes "reads g h" "ref_pattern r" "version_ok v" "protect h k = Some c"
    and "fs (r @ lit ''.dpapi'') = Some (new_blob h (envelope_bytes v (clock_text h) c))"
    and "reject_reparse_or_hardlink_file (Some (new_blob h (envelope_bytes v (clock_text h) c))) = Inr ()"
  shows "read_envelope g r fs = Inr \<lparr>credential_ref = r, credential_binding_version = v, created_at = clock_text h\<rparr>"
    and "load_plaintext g r fs = Inr k"
proof -
  from assms have p: "blob_path g r = Inr (r @ lit ''.dpapi'')" by (simp add: blob_path_Inr reads_def)
  from assms(1) have t: "list_all (\<lambda>c. c < 128 \<and> c \<noteq> 10) (clock_text h)"
    and f: "float_text g (clock_text h) = Some (clock_text h)" and u: "unprotect g c = Some k"
    and b: "blob_content (new_blob h bs) = bs" for bs
    using assms(4) by (auto simp: reads_def)
  then have "ascii_decode (ascii_encode (clock_text h)) = Some (clock_text h)"
    by (intro ascii_decode_encode) (auto simp: list_all_iff)
  with p f b assms(3,5,6) show "read_envelope g r fs = Inr \<lparr>credential_ref = r, credential_binding_version = v, created_at = clock_text h\<rparr>"
    by (simp add: read_envelope_def parse_envelope_def magic_envelope split_envelope [OF t] read_version Let_def del: bind_eq_Some_conv)
  from p u b assms(5,6) show "load_plaintext g r fs = Inr k"
    by (simp add: load_plaintext_def magic_envelope split_envelope [OF t] of_option_def Let_def)
qed

lemma view_written:
  assumes "reads g h" "ref_pattern r" "version_ok v" "protect h k = Some c"
    and "fs (r @ lit ''.dpapi'') = Some (new_blob h (envelope_bytes v (clock_text h) c))"
    and "reject_reparse_or_hardlink_file (Some (new_blob h (envelope_bytes v (clock_text h) c))) = Inr ()"
  shows "vault_view g fs r = Some (v, k)"
  using read_written [where fs = fs, OF assms] by (simp add: vault_view_def get_envelope_def)

text \<open>The version a file holds does not depend on the host that reads it.\<close>

lemma parse_envelope_Inr:
  assumes "parse_envelope h r raw = Inr a"
  shows "credential_ref a = r \<and> (\<exists>vb tb c. split_two (drop (length ENVELOPE_MAGIC) raw) = Some (vb, tb, c) \<and>
    Option.bind (ascii_decode vb) py_int = Some (credential_binding_version a))"
  using assms unfolding parse_envelope_def by (auto simp del: bind_eq_Some_conv split: option.split_asm if_split_asm prod.split_asm)

lemma read_envelope_Inr:
  assumes "read_envelope h r fs = Inr a"
  obtains b where "fs (r @ lit ''.dpapi'') = Some b" "parse_envelope h r (blob_content b) = Inr a"
  using assms unfolding read_envelope_def bind_result_Inr blob_path_Inr
  by (auto simp: bind_result_Inr split: option.split_asm)

lemma read_envelope_ref: "read_envelope h r fs = Inr a \<Longrightarrow> credential_ref a = r"
  by (elim read_envelope_Inr) (simp add: parse_envelope_Inr)

lemma read_envelope_version:
  assumes "read_envelope g r fs = Inr a" "read_envelope h r fs = Inr b"
  shows "credential_binding_version a = credential_binding_version b"
proof -
  obtain x where x: "fs (r @ lit ''.dpapi'') = Some x" "parse_envelope g r (blob_content x) = Inr a"
    using assms(1) by (rule read_envelope_Inr)
  obtain y where y: "fs (r @ lit ''.dpapi'') = Some y" "parse_envelope h r (blob_content y) = Inr b"
    using assms(2) by (rule read_envelope_Inr)
  from parse_envelope_Inr [OF x(2)] parse_envelope_Inr [OF y(2)] x(1) y(1) show ?thesis by auto
qed

lemma view_SomeD:
  assumes "vault_view g fs r = Some (v, k)"
  shows "prepare_root g = Inr () \<and> ref_pattern r \<and>
    (\<exists>e. read_envelope g r fs = Inr e \<and> credential_binding_version e = v) \<and> load_plaintext g r fs = Inr k"
proof -
  have "prepare_root g = Inr () \<and> ref_pattern r" using assms view_unprepared [of g r fs] by (cases "prepare_root g = Inr () \<and> ref_pattern r") auto
  with assms show ?thesis
    by (auto simp: vault_view_def get_envelope_def split: sum.splits option.splits store_failure.splits store_code.splits)
qed

lemma store_view:
  assumes "reads g h" "version_ok v" "store_credential h r k v w fs = (Inr e, fs')"
  shows "vault_view g fs' = (vault_view g fs)(r \<mapsto> (v, k))"
    and "vault_view g fs r = Some (v0, k0) \<Longrightarrow> v0 = v \<and> w = Some v"
proof -
  let ?p = "r @ lit ''.dpapi''"
  from assms(3) obtain c y where c: "ref_pattern r" "binding_agrees h ?p r v w fs = Inr ()" "protect h k = Some c"
      "stage_and_promote h ?p (envelope_bytes v (clock_text h) c) fs = (y, fs')" and y: "y = Inr ()"
    by (cases rule: store_credential_cases) (auto simp: map_sum_def split: sum.splits)
  define b where "b = new_blob h (envelope_bytes v (clock_text h) c)"
  from c(4) y have fs': "fs' = fs(staging_path h ?p := None, ?p := Some b)"
    and b: "reject_reparse_or_hardlink_file (Some b) = Inr ()"
    by (cases rule: stage_and_promote_cases, simp_all add: b_def)+
  show "vault_view g fs' = (vault_view g fs)(r \<mapsto> (v, k))"
  proof
    fix s
    show "vault_view g fs' s = ((vault_view g fs)(r \<mapsto> (v, k))) s"
    proof (cases "s = r")
      case True
      from fs' have "fs' ?p = Some b" by simp
      with view_written [OF assms(1) c(1) assms(2) c(3), of fs'] b True show ?thesis by (simp add: b_def)
    next
      case s: False
      show ?thesis
      proof (cases "ref_pattern s")
        case True
        then have "fs' (s @ lit ''.dpapi'') = fs (s @ lit ''.dpapi'')"
          using s staging_is_no_blob [OF c(1) True, of h] fs' by auto
        with s show ?thesis using view_cong [of fs' s fs g] by simp
      next
        case False
        with s show ?thesis by (simp add: view_unprepared)
      qed
    qed
  qed
  assume "vault_view g fs r = Some (v0, k0)"
  with view_absent [of fs r g] obtain b0 where "fs ?p = Some b0" by (cases "fs ?p") auto
  with c(2) obtain a where "read_envelope h r fs = Inr a" "w = Some (credential_binding_version a)"
      "v = credential_binding_version a"
    by (auto simp: binding_agrees_def bind_result_Inr split: if_splits)
  moreover obtain a' where "read_envelope g r fs = Inr a'" "credential_binding_version a' = v0"
    using view_SomeD [OF \<open>vault_view g fs r = Some (v0, k0)\<close>] by auto
  ultimately show "v0 = v \<and> w = Some v" using read_envelope_version by blast
qed

lemma store_failed_view:
  assumes "store_credential h r k v w fs = (Inl e, fs')"
  shows "vault_view g fs' = vault_view g fs"
  using assms
proof (cases rule: store_credential_cases)
  case (ready c y)
  then obtain e' where "y = Inl e'" by (cases y) auto
  with ready(5) have same: "fs' q = fs q" if "q \<noteq> staging_path h (r @ lit ''.dpapi'')" for q
    using that by (cases rule: stage_and_promote_cases) auto
  show ?thesis
  proof
    fix s
    show "vault_view g fs' s = vault_view g fs s"
    proof (cases "ref_pattern s")
      case True
      then have "fs' (s @ lit ''.dpapi'') = fs (s @ lit ''.dpapi'')"
        using same staging_is_no_blob [OF ready(2) True, of h] by metis
      then show ?thesis by (rule view_cong)
    qed (simp add: view_unprepared)
  qed
qed simp

lemma delete_view:
  assumes "delete_credential h r fs = (x, fs')"
  shows "vault_view g fs' = (if x = Inr () then (vault_view g fs)(r := None) else vault_view g fs)"
proof (cases "x = Inr ()")
  case True
  with assms have fs': "fs' = fs(r @ lit ''.dpapi'' := None)"
    by (auto simp: delete_credential_def blob_path_Inr fun_upd_idem split: sum.splits if_splits)
  show ?thesis
  proof
    fix s
    have "fs' (s @ lit ''.dpapi'') = fs (s @ lit ''.dpapi'')" if "s \<noteq> r" using that fs' by auto
    then show "vault_view g fs' s = (if x = Inr () then (vault_view g fs)(r := None) else vault_view g fs) s"
      using True view_cong [of fs' s fs g] view_absent [of fs' r g] fs' by auto
  qed
next
  case False
  with assms have "fs' = fs" by (auto simp: delete_credential_def split: sum.splits if_splits)
  with False show ?thesis by simp
qed

subsection \<open>What a client of the vault relies on\<close>

text \<open>
  A vault: \<open>look\<close> is what can be read, \<open>put\<close> and \<open>drop_ref\<close> answer whether they succeeded; \<open>fit\<close>
  holds of the circumstances under which what is written can be read.
\<close>

datatype 'h vault_call = Put 'h pystr bytes int "int option" | Drop 'h pystr

fun vault_spec :: "'h vault_call \<Rightarrow> (pystr \<Rightarrow> (int \<times> bytes) option) \<Rightarrow> (pystr \<Rightarrow> (int \<times> bytes) option) option" where
  "vault_spec (Put h r k v w) m =
     (case m r of
        None \<Rightarrow> Some (m(r \<mapsto> (v, k)))
      | Some (v0, k0) \<Rightarrow> if v0 = v \<and> w = Some v then Some (m(r \<mapsto> (v, k))) else None)"
| "vault_spec (Drop h r) m = Some (m(r := None))"

lemma put_spec: "vault_spec (Put h r k v w) m = Some m' \<Longrightarrow> m' = m(r \<mapsto> (v, k)) \<and> (m r = None \<or> fst (the (m r)) = v)"
  by (auto split: option.splits if_splits)

lemma drop_spec: "vault_spec (Drop h r) m = Some m' \<Longrightarrow> m' = m(r := None)"
  by simp

text \<open>The calls of a sequence that succeeded, run on the specification.\<close>

fun spec_run :: "('h vault_call \<times> bool) list \<Rightarrow> (pystr \<Rightarrow> (int \<times> bytes) option) \<Rightarrow>
    (pystr \<Rightarrow> (int \<times> bytes) option) option" where
  "spec_run [] m = Some m"
| "spec_run ((c, ok) # cs) m = (if ok then Option.bind (vault_spec c m) (spec_run cs) else spec_run cs m)"

fun run_vault :: "('h vault_call \<Rightarrow> 's \<Rightarrow> bool \<times> 's) \<Rightarrow> 'h vault_call list \<Rightarrow> 's \<Rightarrow> ('h vault_call \<times> bool) list \<times> 's" where
  "run_vault act [] s = ([], s)"
| "run_vault act (c # cs) s =
     (let (ok, s1) = act c s; (outs, s2) = run_vault act cs s1 in ((c, ok) # outs, s2))"

locale vault =
  fixes look :: "'s \<Rightarrow> pystr \<Rightarrow> (int \<times> bytes) option"
    and act :: "'h vault_call \<Rightarrow> 's \<Rightarrow> bool \<times> 's"
    and fit :: "'h vault_call \<Rightarrow> bool"
  assumes act_done: "fit c \<Longrightarrow> act c s = (True, s') \<Longrightarrow> vault_spec c (look s) = Some (look s')"
    and act_failed: "act c s = (False, s') \<Longrightarrow> look s' = look s"
begin

lemma run_refines:
  "list_all fit cs \<Longrightarrow> run_vault act cs s = (outs, s') \<Longrightarrow> spec_run outs (look s) = Some (look s')"
proof (induction cs arbitrary: s outs)
  case (Cons c cs)
  obtain ok s1 where a: "act c s = (ok, s1)" by fastforce
  obtain rest s2 where r: "run_vault act cs s1 = (rest, s2)" by fastforce
  with Cons.prems a have d: "outs = (c, ok) # rest" and s2: "s2 = s'" and fit: "fit c" "list_all fit cs" by simp_all
  from Cons.IH [OF fit(2) r [unfolded s2]] have IH: "spec_run rest (look s1) = Some (look s')" .
  show ?case
  proof (cases ok)
    case True
    with act_done [OF fit(1)] a have "vault_spec c (look s) = Some (look s1)" by simp
    with IH d True show ?thesis by simp
  next
    case False
    with act_failed a have "look s1 = look s" by simp
    with IH d False show ?thesis by simp
  qed
qed simp

lemma put_keeps_binding:
  assumes "fit (Put h r k v w)" "act (Put h r k v w) s = (True, s')" "look s r = Some (v0, k0)"
  shows "v0 = v"
  using put_spec [OF act_done [OF assms(1,2)]] assms(3) by simp

lemma put_other:
  assumes "fit (Put h r k v w)" "act (Put h r k v w) s = (ok, s')" "r' \<noteq> r"
  shows "look s' r' = look s r'"
proof (cases ok)
  case True
  with assms(2) have "act (Put h r k v w) s = (True, s')" by simp
  from put_spec [OF act_done [OF assms(1) this]] assms(3) show ?thesis by simp
next
  case False
  with act_failed assms(2) show ?thesis by simp
qed

lemma put_reads_back:
  assumes "fit (Put h r k v w)" "act (Put h r k v w) s = (True, s')"
  shows "look s' r = Some (v, k)"
  using put_spec [OF act_done [OF assms]] by simp

text \<open>What is bound to a version can only be replaced by a call that names this version.\<close>

lemma put_bound:
  assumes "fit (Put h r k v w)" "act (Put h r k v w) s = (ok, s')" "look s' r' = Some (v', k')"
    "r' \<noteq> r \<or> v' \<noteq> v"
  shows "look s r' = Some (v', k')"
proof (cases "r' = r")
  case True
  with assms have "\<not> ok" using put_reads_back by fastforce
  with assms(2,3) act_failed show ?thesis by simp
next
  case False
  with put_other [OF assms(1,2)] assms(3) show ?thesis by simp
qed

lemma drop_bound:
  assumes "fit (Drop h r)" "act (Drop h r) s = (ok, s')" "look s' r' = Some x"
  shows "look s r' = Some x"
proof (cases ok)
  case True
  with assms(2) have "act (Drop h r) s = (True, s')" by simp
  from drop_spec [OF act_done [OF assms(1) this]] assms(3) show ?thesis by (simp split: if_splits)
next
  case False
  with act_failed assms(2,3) show ?thesis by simp
qed

end

text \<open>The store, as a vault that \<open>g\<close> reads.\<close>

fun store_act :: "store_host vault_call \<Rightarrow> files \<Rightarrow> bool \<times> files" where
  "store_act (Put h r k v w) fs = map_prod is_ok id (store_credential h r k v w fs)"
| "store_act (Drop h r) fs = map_prod is_ok id (delete_credential h r fs)"

fun call_fits :: "store_host \<Rightarrow> store_host vault_call \<Rightarrow> bool" where
  "call_fits g (Put h r k v w) = (reads g h \<and> version_ok v)"
| "call_fits g (Drop h r) = True"

interpretation store: vault "vault_view g" store_act "call_fits g" for g
proof
  fix c fs fs'
  assume fit: "call_fits g c" and act: "store_act c fs = (True, fs')"
  show "vault_spec c (vault_view g fs) = Some (vault_view g fs')"
  proof (cases c)
    case (Put h r k v w)
    with act obtain e where e: "store_credential h r k v w fs = (Inr e, fs')"
      by (cases "store_credential h r k v w fs") (auto simp: is_ok_iff)
    from fit Put have f: "reads g h" "version_ok v" by simp_all
    from store_view [OF f e] Put show ?thesis by (auto split: option.splits)
  next
    case (Drop h r)
    with act have "delete_credential h r fs = (Inr (), fs')"
      by (cases "delete_credential h r fs") (auto simp: is_ok_iff)
    with delete_view [OF this, of g] Drop show ?thesis by simp
  qed
next
  fix c fs fs'
  assume act: "store_act c fs = (False, fs')"
  show "vault_view g fs' = vault_view g fs"
  proof (cases c)
    case (Put h r k v w)
    with act obtain e where "store_credential h r k v w fs = (Inl e, fs')"
      by (cases "store_credential h r k v w fs"; cases "fst (store_credential h r k v w fs)") auto
    then show ?thesis by (rule store_failed_view)
  next
    case (Drop h r)
    with act obtain x where "delete_credential h r fs = (x, fs')" "x \<noteq> Inr ()"
      by (cases "delete_credential h r fs") (auto simp: is_ok_iff)
    with delete_view [OF this(1), of g] show ?thesis by simp
  qed
qed

subsection \<open>Properties of the store\<close>

definition sample_host :: store_host where
  "sample_host = \<lparr>root_override = True, skip_host_validation = True, sid_provider = Inr (lit ''S-1-5-21''),
     mkdir_ok = True, directory = \<lparr>dir_attributes = Some 16, security_read = True, owner_sid = Some (lit ''S-1-5-21''),
       dacl = Some (Some [Ace 0 (Some (lit ''S-1-5-18''))])\<rparr>,
     protect = (\<lambda>k. Some (rev k)), unprotect = (\<lambda>c. Some (rev c)), clock_text = lit ''1.5'',
     float_text = Some, staging_token = lit ''0f'',
     new_blob = (\<lambda>bs. \<lparr>blob_content = bs, blob_attributes = 32, blob_links = Some 1\<rparr>),
     write_ok = True, replace_ok = True, unlink_ok = True\<rparr>"

lemma sample_reads: "reads sample_host sample_host"
  by (simp add: reads_def sample_host_def prepare_root_def lit_def)

text \<open>
  C6 [vault_refines]: the store implements a vault. In every sequence of writes and
  removals, by hosts whose writing \<open>g\<close> can read, the calls that succeeded are steps of the
  abstract vault (a write binds the reference to its version and secret, and replaces a
  readable credential only under the version it already has; a removal unbinds it), and
  what \<open>g\<close> reads at the end is what the abstract vault holds: failed calls, staging files and
  other references change nothing.
\<close>

theorem vault_refines:
  assumes "list_all (call_fits g) cs" and "run_vault store_act cs fs = (outs, fs')"
  shows "spec_run outs (vault_view g fs) = Some (vault_view g fs')"
  using assms by (rule store.run_refines)

definition sample_calls :: "store_host vault_call list" where
  "sample_calls = [Put sample_host (lit ''a'') ''key'' 1 None, Put sample_host (lit ''a'') ''new'' 2 (Some 1),
     Drop sample_host (lit ''b'')]"

lemma vault_refines_witness:
  "spec_run (fst (run_vault store_act sample_calls (\<lambda>_. None))) (vault_view sample_host (\<lambda>_. None)) =
     Some (vault_view sample_host (snd (run_vault store_act sample_calls (\<lambda>_. None))))"
proof -
  have "list_all (call_fits sample_host) sample_calls"
    by (simp add: sample_calls_def sample_reads version_ok_def)
  then show ?thesis by (rule vault_refines) simp
qed

text \<open>A host on which nothing but the state of the vault can make a write fail.\<close>

definition able :: "store_host \<Rightarrow> bool" where
  "able h \<longleftrightarrow> prepare_root h = Inr () \<and> write_ok h \<and> replace_ok h \<and>
     (\<forall>bs. reject_reparse_or_hardlink_file (Some (new_blob h bs)) = Inr ()) \<and> (\<forall>k. protect h k \<noteq> None)"

lemma envelope_missing_iff:
  assumes "prepare_root h = Inr ()" "ref_pattern r"
  shows "read_envelope h r fs = Inl (Store_Error CREDENTIAL_NOT_FOUND) \<longleftrightarrow> fs (r @ lit ''.dpapi'') = None"
proof -
  have "blob_path h r = Inr (r @ lit ''.dpapi'')" using assms by (simp add: blob_path_Inr)
  then show ?thesis
    by (auto simp: read_envelope_def parse_envelope_def reject_reparse_or_hardlink_file_def bind_result_Inl Let_def
        split: option.splits if_splits)
qed

lemma store_succeeds_iff:
  assumes "able h"
  shows "is_ok (fst (store_credential h r k v w fs)) \<longleftrightarrow>
    (case get_envelope h r fs of
       Inr None \<Rightarrow> w = None
     | Inr (Some e) \<Rightarrow> w = Some (credential_binding_version e) \<and> v = credential_binding_version e
     | Inl _ \<Rightarrow> False)"
proof (cases "ref_pattern r")
  case False
  then obtain e where "safe_ref r = Inl e" "e = Store_Error INVALID_REF" by (simp add: safe_ref_def)
  then have "blob_path h r = Inl (Store_Error INVALID_REF)" using assms by (simp add: blob_path_def able_def)
  then show ?thesis by (simp add: store_credential_def get_envelope_def read_envelope_def)
next
  case True
  let ?p = "r @ lit ''.dpapi''"
  have p: "blob_path h r = Inr ?p" using assms True by (simp add: blob_path_Inr able_def)
  obtain c where c: "protect h k = Some c" using assms by (auto simp: able_def)
  have "fst (stage_and_promote h ?p bs fs) = Inr ()" for bs
    using assms by (simp add: stage_and_promote_def able_def Let_def)
  then have "is_ok (fst (store_credential h r k v w fs)) \<longleftrightarrow> is_ok (binding_agrees h ?p r v w fs)"
    by (cases "binding_agrees h ?p r v w fs")
      (auto simp: store_credential_def p c of_option_def split: prod.splits sum.splits dest: fstI)
  also have "\<dots> \<longleftrightarrow> (case get_envelope h r fs of
       Inr None \<Rightarrow> w = None
     | Inr (Some e) \<Rightarrow> w = Some (credential_binding_version e) \<and> v = credential_binding_version e
     | Inl _ \<Rightarrow> False)"
  proof (cases "fs ?p")
    case None
    with envelope_missing_iff [of h r fs] assms True have "get_envelope h r fs = Inr None"
      by (simp add: get_envelope_def able_def)
    with None show ?thesis by (simp add: binding_agrees_def)
  next
    case (Some b)
    have "read_envelope h r fs \<noteq> Inl (Store_Error CREDENTIAL_NOT_FOUND)"
      using envelope_missing_iff [of h r fs] assms True Some by (simp add: able_def)
    then have g: "get_envelope h r fs = map_sum id Some (read_envelope h r fs)"
      by (auto simp: get_envelope_def split: sum.splits store_failure.splits store_code.splits)
    have "is_ok (reject_reparse_or_hardlink_file (Some b))" if "read_envelope h r fs = Inr e" for e
      using that by (auto simp: read_envelope_def p Some bind_result_Inr is_ok_iff)
    with g Some show ?thesis
      by (cases "read_envelope h r fs") (auto simp: binding_agrees_def is_ok_iff bind_result_Inr)
  qed
  finally show ?thesis .
qed

text \<open>
  On a working host a write succeeds exactly when the state allows it: no
  credential is stored under the reference and the caller expects none, or the stored one
  has the version the caller expects and writes; an unsafe reference, a corrupt file and a
  wrong version are refused.
\<close>

theorem store_accepts:
  assumes "able h"
  shows "is_ok (fst (store_credential h r k v w fs)) \<longleftrightarrow>
    (case get_envelope h r fs of
       Inr None \<Rightarrow> w = None
     | Inr (Some e) \<Rightarrow> w = Some (credential_binding_version e) \<and> v = credential_binding_version e
     | Inl _ \<Rightarrow> False)"
  using assms by (rule store_succeeds_iff)

lemma store_accepts_witness:
  "is_ok (fst (store_credential sample_host (lit ''a'') ''k'' 1 None (\<lambda>_. None)))"
proof -
  have "able sample_host"
    by (simp add: able_def sample_host_def prepare_root_def reject_reparse_or_hardlink_file_def
        FILE_ATTRIBUTE_REPARSE_POINT_def)
  moreover have "get_envelope sample_host (lit ''a'') (\<lambda>_. None) = Inr None" by code_simp
  ultimately show ?thesis by (simp add: store_accepts)
qed

text \<open>Who may own the directory and be allowed into it.\<close>

fun ace_trusted :: "pystr set \<Rightarrow> ace_answer \<Rightarrow> bool" where
  "ace_trusted A Ace_Unreadable = False"
| "ace_trusted A (Ace t s) = (\<not> (t = ACCESS_ALLOWED_ACE_TYPE \<and> s \<notin> Some ` A))"

definition directory_trusted :: "directory_answers \<Rightarrow> pystr \<Rightarrow> bool" where
  "directory_trusted d me \<longleftrightarrow>
     (case dir_attributes d of None \<Rightarrow> False | Some a \<Rightarrow> a AND FILE_ATTRIBUTE_REPARSE_POINT = 0) \<and>
     security_read d \<and> owner_sid d \<in> Some ` insert me WELL_KNOWN_SAFE_SID_SUFFIXES \<and>
     (case dacl d of
        Some (Some aces) \<Rightarrow> list_all (ace_trusted (insert me WELL_KNOWN_SAFE_SID_SUFFIXES)) aces
      | _ \<Rightarrow> False)"

lemma check_ace_ok: "check_ace A a = Inr () \<longleftrightarrow> ace_trusted A a"
  by (cases a) (auto simp: check_ace_def sid_string_def of_option_def require_def split: option.splits)

lemma validate_trusted: "validate_directory_security d me = Inr () \<longleftrightarrow> directory_trusted d me"
proof -
  have "validate_dacl l me = Inr () \<longleftrightarrow> (case l of
        Some (Some aces) \<Rightarrow> list_all (ace_trusted (insert me WELL_KNOWN_SAFE_SID_SUFFIXES)) aces
      | _ \<Rightarrow> False)" for l
    by (simp add: validate_dacl_def for_each_Inr check_ace_ok list_all_iff split: option.splits)
  then show ?thesis
    by (auto simp: validate_directory_security_def directory_trusted_def sid_string_def of_option_def
        split: option.splits)
qed

text \<open>
  Without the seam of the tests no operation touches a
  directory that others may use. Unless the directory is no reparse point, is owned by the
  current user, LocalSystem or the administrators and its access list lets in nobody else,
  every operation ends with an error and no file is changed.
\<close>

theorem foreign_directory_refused:
  assumes "store_init_ok h" "\<not> skip_host_validation h" "sid_provider h = Inr me"
    and "\<not> directory_trusted (directory h) me"
  shows "(\<exists>e. store_credential h r k v w fs = (Inl e, fs)) \<and> (\<exists>e. delete_credential h r fs = (Inl e, fs)) \<and>
    (\<exists>e. get_envelope h r fs = Inl e) \<and> (\<exists>e. load_plaintext h r fs = Inl e)"
proof -
  have "prepare_root h \<noteq> Inr ()"
    using assms validate_trusted [of "directory h" me] by (auto simp: prepare_root_def bind_result_Inr split: if_splits)
  then obtain e where e: "blob_path h r = Inl e" by (cases "blob_path h r") (auto simp: blob_path_Inr)
  have "e \<noteq> Store_Error CREDENTIAL_NOT_FOUND"
  proof
    assume "e = Store_Error CREDENTIAL_NOT_FOUND"
    with e assms(3) show False
      by (auto simp: blob_path_def prepare_root_def safe_ref_def bind_result_Inl validate_directory_security_def
          sid_string_def of_option_def validate_dacl_def check_ace_def require_def
          split: if_splits option.splits ace_answer.splits dest!: for_each_Inl)
  qed
  with e have "get_envelope h r fs = Inl e"
    by (auto simp: get_envelope_def read_envelope_def split: store_failure.splits store_code.splits)
  with e show ?thesis by (auto simp: store_credential_def delete_credential_def load_plaintext_def)
qed

definition shared_host :: store_host where
  "shared_host = sample_host\<lparr>root_override := False, skip_host_validation := False,
     directory := \<lparr>dir_attributes = Some 16, security_read = True, owner_sid = Some (lit ''S-1-5-21''),
       dacl = Some (Some [Ace 0 (Some (lit ''S-1-1-0''))])\<rparr>\<rparr>"

lemma foreign_directory_refused_witness:
  "\<exists>e. load_plaintext shared_host (lit ''a'') (\<lambda>_. None) = Inl e"
proof -
  have "store_init_ok shared_host" "\<not> skip_host_validation shared_host"
    "sid_provider shared_host = Inr (lit ''S-1-5-21'')"
    "\<not> directory_trusted (directory shared_host) (lit ''S-1-5-21'')"
    by (simp_all add: shared_host_def store_init_ok_def sample_host_def directory_trusted_def
        WELL_KNOWN_SAFE_SID_SUFFIXES_def ACCESS_ALLOWED_ACE_TYPE_def image_iff)
  from foreign_directory_refused [OF this] show ?thesis by blast
qed

text \<open>A final line end is let through by the pattern of references.\<close>

lemma ref_newline_accepted:
  "list_all is_ref_char r \<Longrightarrow> 1 \<le> length r \<Longrightarrow> length r \<le> 128 \<Longrightarrow> safe_ref (r @ [10]) = Inr (r @ [10])"
  by (simp add: safe_ref_def ref_pattern_def)

end
