(* ===== verification/Provider_Config.thy ===== *)
theory Provider_Config
  imports Auth Credential_Store
begin

text \<open>
  The configuration of the AI provider: the singleton row and its journal
  (\<open>modules/admin/models.py\<close>), the service that writes, tests, selects, activates, removes and
  reconciles the OpenAI-compatible candidate (\<open>modules/ai/provider_config_service.py\<close>) over
  the credential store, and the routes of \<open>modules/admin/api.py\<close> that call it. The state is
  what is committed (row and journal), the files of the store, which no rollback undoes, and
  the probes sent. The check of addresses (\<open>canonicalize_endpoint\<close>) and the transport below
  \<open>probe_models\<close> are parameters, as are the clock, the random tokens and the crash points.
\<close>

subsection \<open>Rows\<close>

datatype provider_kind = Ollama | Openai_Compatible
datatype compatible_status = Absent | Unverified | Verified
datatype provider_operation = Op_Select | Op_Test | Op_Rotate | Op_Delete | Op_Reconcile
datatype journal_result = Success | Failure

fun kind_text :: "provider_kind \<Rightarrow> pystr" where
  "kind_text Ollama = lit ''ollama''"
| "kind_text Openai_Compatible = lit ''openai_compatible''"

fun status_text :: "compatible_status \<Rightarrow> pystr" where
  "status_text Absent = lit ''absent''"
| "status_text Unverified = lit ''unverified''"
| "status_text Verified = lit ''verified''"

record provider_row =
  selected_kind :: provider_kind
  compatible_state :: compatible_status
  compatible_canonical_url :: "pystr option"
  compatible_display_url :: "pystr option"
  compatible_model :: "pystr option"
  compatible_generation :: "pystr option"
  compatible_credential_ref :: "pystr option"
  compatible_credential_binding_version :: "int option"
  compatible_test_proof_ref :: "pystr option"
  compatible_test_proof_at :: "int option"
  compatible_test_proof_canonical_url :: "pystr option"
  compatible_test_proof_model :: "pystr option"
  compatible_test_proof_generation :: "pystr option"
  config_version :: int

text \<open>The check constraints, and what an \<open>INTEGER\<close> column can hold.\<close>

definition candidate_columns :: "provider_row \<Rightarrow> bool list" where
  "candidate_columns row =
     [compatible_canonical_url row \<noteq> None, compatible_display_url row \<noteq> None, compatible_model row \<noteq> None,
      compatible_generation row \<noteq> None, compatible_credential_ref row \<noteq> None,
      compatible_credential_binding_version row \<noteq> None]"

definition proof_columns :: "provider_row \<Rightarrow> bool list" where
  "proof_columns row =
     [compatible_test_proof_ref row \<noteq> None, compatible_test_proof_at row \<noteq> None,
      compatible_test_proof_canonical_url row \<noteq> None, compatible_test_proof_model row \<noteq> None,
      compatible_test_proof_generation row \<noteq> None]"

definition fits_integer :: "int \<Rightarrow> bool" where
  "fits_integer i \<longleftrightarrow> - (2 ^ 63) \<le> i \<and> i < 2 ^ 63"

definition row_checks :: "provider_row \<Rightarrow> bool" where
  "row_checks row \<longleftrightarrow>
     list_all (\<lambda>present. present = (compatible_state row \<noteq> Absent)) (candidate_columns row) \<and>
     list_all (\<lambda>present. present = (compatible_state row = Verified)) (proof_columns row) \<and>
     fits_integer (config_version row) \<and>
     (case compatible_credential_binding_version row of None \<Rightarrow> True | Some v \<Rightarrow> fits_integer v)"

record journal_row =
  operation :: provider_operation
  journal_kind :: provider_kind
  journal_result :: journal_result
  reason_code :: "pystr option"
  journal_actor_user_id :: int
  config_version_before :: "int option"
  config_version_after :: "int option"

text \<open>A probe that was sent: address, model, key, and whether it was answered as it should.\<close>

type_synonym probe = "pystr \<times> pystr \<times> pystr \<times> bool"

record provider_world =
  config :: "provider_row option"
  journal :: "journal_row list"
  vault_files :: files
  probes :: "probe list"

subsection \<open>Requests and responses\<close>

record write_request =
  wr_canonical_url :: pystr
  wr_display_url :: pystr
  wr_model :: pystr
  wr_generation :: pystr
  wr_api_key :: pystr
  wr_expected_config_version :: int

definition write_request_ok :: "write_request \<Rightarrow> bool" where
  "write_request_ok p \<longleftrightarrow> 1 \<le> length (wr_canonical_url p) \<and> length (wr_canonical_url p) \<le> 500 \<and>
     1 \<le> length (wr_display_url p) \<and> length (wr_display_url p) \<le> 500 \<and>
     1 \<le> length (wr_model p) \<and> length (wr_model p) \<le> 160 \<and>
     1 \<le> length (wr_generation p) \<and> length (wr_generation p) \<le> 60 \<and> 1 \<le> length (wr_api_key p)"

record test_request =
  tr_canonical_url :: pystr
  tr_model :: pystr
  tr_generation :: pystr

definition test_request_ok :: "test_request \<Rightarrow> bool" where
  "test_request_ok p \<longleftrightarrow> 1 \<le> length (tr_canonical_url p) \<and> length (tr_canonical_url p) \<le> 500 \<and>
     1 \<le> length (tr_model p) \<and> length (tr_model p) \<le> 160 \<and>
     1 \<le> length (tr_generation p) \<and> length (tr_generation p) \<le> 60"

record config_response =
  cr_selected_kind :: provider_kind
  cr_compatible_state :: compatible_status
  cr_compatible_display_url :: "pystr option"
  cr_compatible_model :: "pystr option"
  cr_compatible_generation :: "pystr option"
  cr_compatible_test_proof_at :: "int option"
  cr_compatible_test_proof_model :: "pystr option"
  cr_config_version :: int

definition config_response_of :: "provider_row \<Rightarrow> config_response" where
  "config_response_of row = \<lparr>cr_selected_kind = selected_kind row, cr_compatible_state = compatible_state row,
     cr_compatible_display_url = compatible_display_url row, cr_compatible_model = compatible_model row,
     cr_compatible_generation = compatible_generation row,
     cr_compatible_test_proof_at = compatible_test_proof_at row,
     cr_compatible_test_proof_model = compatible_test_proof_model row, cr_config_version = config_version row\<rparr>"

record test_response =
  ts_success :: bool
  ts_reason_code :: "pystr option"
  ts_tested_at :: int
  ts_canonical_url :: "pystr option"
  ts_model :: "pystr option"
  ts_generation :: "pystr option"

record reconcile_response =
  rr_reconciled :: bool
  rr_compatible_state :: compatible_status
  rr_config_version :: int

subsection \<open>Errors\<close>

text \<open>The errors of the service, and any other exception that leaves it.\<close>

datatype provider_failure = Candidate_Invalid | Upstream_Unavailable | Selection_Invalid | Credential_Unavailable
  | Version_Conflict | Proof_Missing | Proof_Mismatch | Other_Exception

fun failure_code :: "provider_failure \<Rightarrow> string" where
  "failure_code Candidate_Invalid = ''candidate_invalid''"
| "failure_code Upstream_Unavailable = ''upstream_unavailable''"
| "failure_code Selection_Invalid = ''selection_invalid''"
| "failure_code Credential_Unavailable = ''credential_unavailable''"
| "failure_code Version_Conflict = ''config_version_conflict''"
| "failure_code Proof_Missing = ''proof_missing''"
| "failure_code Proof_Mismatch = ''proof_mismatch''"
| "failure_code Other_Exception = ''ai_provider_error''"

fun failure_status :: "provider_failure \<Rightarrow> int" where
  "failure_status Candidate_Invalid = 422"
| "failure_status Selection_Invalid = 422"
| "failure_status Version_Conflict = 409"
| "failure_status Proof_Missing = 409"
| "failure_status Proof_Mismatch = 409"
| "failure_status Credential_Unavailable = 409"
| "failure_status Upstream_Unavailable = 503"
| "failure_status Other_Exception = 409"

definition provider_http_error :: "provider_failure \<Rightarrow> error" where
  "provider_http_error f = HTTPException (failure_status f) (msg (failure_code f))"

text \<open>An error of the store as the service turns it: its own errors become
  \<open>credential_unavailable\<close>, any other exception passes.\<close>

fun store_failure_of :: "store_failure \<Rightarrow> provider_failure" where
  "store_failure_of (Store_Error c) = Credential_Unavailable"
| "store_failure_of Dpapi_Error = Other_Exception"
| "store_failure_of Os_Error = Other_Exception"

subsection \<open>The environment of a request\<close>

record egress_outcome =
  outcome_ok :: bool
  error_code :: "pystr option"
  payload :: "json option"

text \<open>\<open>egress url method path body key\<close> is \<open>_execute\<close>; \<open>None\<close> where it raises.\<close>

record provider_env =
  host :: store_host
  canonicalize :: "pystr \<Rightarrow> pystr option"
  egress :: "pystr \<Rightarrow> string \<Rightarrow> string \<Rightarrow> json option \<Rightarrow> pystr \<Rightarrow> egress_outcome option"
  fresh_ref :: pystr
  fresh_proof :: pystr
  tested_now :: int
  failpoint :: "string \<Rightarrow> bool"

text \<open>\<open>probe_models\<close>: the answer must list the model.\<close>

definition UPSTREAM_SHAPE_INVALID :: pystr where
  "UPSTREAM_SHAPE_INVALID = lit ''upstream-shape-invalid''"

definition listed_ids :: "json list \<Rightarrow> pystr list" where
  "listed_ids data = concat (map (\<lambda>entry. case obj_get (lit ''id'') entry of Some (JStr i) \<Rightarrow> [i] | _ \<Rightarrow> []) data)"

definition probe_models :: "provider_env \<Rightarrow> pystr \<Rightarrow> pystr \<Rightarrow> pystr \<Rightarrow> egress_outcome option" where
  "probe_models e url model key =
     (case egress e url ''GET'' ''/v1/models'' None key of
        None \<Rightarrow> None
      | Some out \<Rightarrow>
          (case payload out of
             None \<Rightarrow> Some out
           | Some doc \<Rightarrow>
               if \<not> outcome_ok out then Some out
               else
                 (let bad = out\<lparr>outcome_ok := False, error_code := Some UPSTREAM_SHAPE_INVALID, payload := None\<rparr>
                  in case obj_get (lit ''data'') doc of
                       Some (JArr data) \<Rightarrow> if model \<in> set (listed_ids data) then Some out else Some bad
                     | _ \<Rightarrow> Some bad)))"

subsection \<open>The service\<close>

text \<open>
  An operation gives the world it leaves, whether it committed the session, and its result.
  What it assigns to the row before a commit is lost when it raises; the files of the store
  and the probes sent are not.
\<close>

type_synonym 'a served = "provider_world \<times> bool \<times> (provider_failure, 'a) result"

definition initial_row :: provider_row where
  "initial_row = \<lparr>selected_kind = Ollama, compatible_state = Absent, compatible_canonical_url = None,
     compatible_display_url = None, compatible_model = None, compatible_generation = None,
     compatible_credential_ref = None, compatible_credential_binding_version = None,
     compatible_test_proof_ref = None, compatible_test_proof_at = None,
     compatible_test_proof_canonical_url = None, compatible_test_proof_model = None,
     compatible_test_proof_generation = None, config_version = 1\<rparr>"

definition current_row :: "provider_world \<Rightarrow> provider_row" where
  "current_row w = (case config w of None \<Rightarrow> initial_row | Some row \<Rightarrow> row)"

definition journal_entry ::
  "provider_operation \<Rightarrow> provider_kind \<Rightarrow> journal_result \<Rightarrow> pystr option \<Rightarrow> user \<Rightarrow> int \<Rightarrow> int option \<Rightarrow> journal_row" where
  "journal_entry op kind res reason actor before after =
     \<lparr>operation = op, journal_kind = kind, journal_result = res, reason_code = reason,
      journal_actor_user_id = user_id actor, config_version_before = Some before, config_version_after = after\<rparr>"

definition commit :: "journal_row list \<Rightarrow> provider_row \<Rightarrow> provider_world \<Rightarrow> provider_world" where
  "commit js row w = w\<lparr>config := Some row, journal := journal w @ js\<rparr>"

definition clear_proof :: "provider_row \<Rightarrow> provider_row" where
  "clear_proof row = row\<lparr>compatible_test_proof_ref := None, compatible_test_proof_at := None,
     compatible_test_proof_canonical_url := None, compatible_test_proof_model := None,
     compatible_test_proof_generation := None\<rparr>"

definition get_state :: "provider_world \<Rightarrow> config_response served" where
  "get_state w = (commit [] (current_row w) w, True, Inr (config_response_of (current_row w)))"

definition envelope_matches :: "provider_row \<Rightarrow> envelope option \<Rightarrow> bool" where
  "envelope_matches row env =
     (case env of
        None \<Rightarrow> False
      | Some en \<Rightarrow> Some (credential_ref en) = compatible_credential_ref row \<and>
          Some (credential_binding_version en) = compatible_credential_binding_version row)"

definition load_bound_plaintext :: "store_host \<Rightarrow> provider_row \<Rightarrow> files \<Rightarrow> (provider_failure, bytes) result" where
  "load_bound_plaintext h row fs =
     (case compatible_credential_ref row of
        None \<Rightarrow> Inl Credential_Unavailable
      | Some r \<Rightarrow>
          (case get_envelope h r fs of
             Inl f \<Rightarrow> Inl (store_failure_of f)
           | Inr env \<Rightarrow>
               if \<not> envelope_matches row env then Inl Credential_Unavailable
               else map_sum store_failure_of id (load_plaintext h r fs)))"

definition written_row :: "write_request \<Rightarrow> pystr \<Rightarrow> envelope \<Rightarrow> provider_row \<Rightarrow> provider_row" where
  "written_row p url en row =
     clear_proof (row\<lparr>compatible_canonical_url := Some url, compatible_display_url := Some (wr_display_url p),
       compatible_model := Some (wr_model p), compatible_generation := Some (wr_generation p),
       compatible_credential_ref := Some (credential_ref en),
       compatible_credential_binding_version := Some (credential_binding_version en),
       compatible_state := Unverified, config_version := config_version row + 1\<rparr>)"

text \<open>The removal of a credential the row no longer names: an error of the store is ignored.\<close>

definition drop_old :: "provider_env \<Rightarrow> pystr option \<Rightarrow> provider_world \<Rightarrow> provider_world \<times> bool" where
  "drop_old e old w =
     (case old of
        None \<Rightarrow> (w, True)
      | Some r \<Rightarrow>
          (case delete_credential (host e) r (vault_files w) of
             (x, fs) \<Rightarrow> (w\<lparr>vault_files := fs\<rparr>, (case x of Inl Os_Error \<Rightarrow> False | Inl Dpapi_Error \<Rightarrow> False | _ \<Rightarrow> True))))"

text \<open>\<open>_write_candidate\<close> after the credential is stored.\<close>

definition finish_write ::
  "provider_env \<Rightarrow> write_request \<Rightarrow> user \<Rightarrow> pystr \<Rightarrow> envelope \<Rightarrow> provider_row \<Rightarrow> provider_world \<Rightarrow> config_response served" where
  "finish_write e p actor url en row w =
     (let row' = written_row p url en row; old = compatible_credential_ref row
      in if failpoint e ''write_candidate.pre_commit'' then (w, False, Inl Other_Exception)
         else if \<not> row_checks row' then (w, False, Inl Other_Exception)
         else
           (let w1 = commit [journal_entry Op_Rotate Openai_Compatible Success None actor (config_version row)
                       (Some (config_version row'))] row' w;
                (w2, ok) = drop_old e (if old = Some (fresh_ref e) then None else old) w1
            in (w2, True, if ok then Inr (config_response_of row') else Inl Other_Exception)))"

definition write_candidate ::
  "provider_env \<Rightarrow> write_request \<Rightarrow> user \<Rightarrow> int \<Rightarrow> provider_world \<Rightarrow> config_response served" where
  "write_candidate e p actor expected w =
     (let row = current_row w
      in if config_version row \<noteq> expected then (w, False, Inl Version_Conflict)
         else
           (case canonicalize e (wr_canonical_url p) of
              None \<Rightarrow> (w, False, Inl Candidate_Invalid)
            | Some url \<Rightarrow>
                (case utf8_encode (wr_api_key p) of
                   None \<Rightarrow> (w, False, Inl Other_Exception)
                 | Some key \<Rightarrow>
                     (let next = (case compatible_credential_binding_version row of None \<Rightarrow> 0 | Some v \<Rightarrow> v) + 1;
                          (res, fs) = store_credential (host e) (fresh_ref e) key next None (vault_files w);
                          w1 = w\<lparr>vault_files := fs\<rparr>
                      in case res of
                           Inl (Store_Error c) \<Rightarrow>
                             (commit [journal_entry Op_Rotate Openai_Compatible Failure (Some (lit (store_code_value c)))
                                actor (config_version row) None] row w1, True, Inl Credential_Unavailable)
                         | Inl _ \<Rightarrow> (w1, False, Inl Other_Exception)
                         | Inr en \<Rightarrow> finish_write e p actor url en row w1))))"

definition rotate_credential :: "provider_env \<Rightarrow> write_request \<Rightarrow> user \<Rightarrow> provider_world \<Rightarrow> config_response served" where
  "rotate_credential e p actor w = write_candidate e p actor (wr_expected_config_version p) w"

definition test_response_of :: "bool \<Rightarrow> pystr option \<Rightarrow> int \<Rightarrow> provider_row \<Rightarrow> test_response" where
  "test_response_of ok reason tested row = \<lparr>ts_success = ok, ts_reason_code = reason, ts_tested_at = tested,
     ts_canonical_url = compatible_canonical_url row, ts_model = compatible_model row,
     ts_generation = compatible_generation row\<rparr>"

definition proven_row :: "provider_env \<Rightarrow> provider_row \<Rightarrow> provider_row" where
  "proven_row e row = row\<lparr>compatible_state := Verified, compatible_test_proof_ref := Some (fresh_proof e),
     compatible_test_proof_at := Some (tested_now e),
     compatible_test_proof_canonical_url := compatible_canonical_url row,
     compatible_test_proof_model := compatible_model row,
     compatible_test_proof_generation := compatible_generation row, config_version := config_version row + 1\<rparr>"

text \<open>\<open>test_candidate\<close> once the probe has been answered.\<close>

definition finish_test ::
  "provider_env \<Rightarrow> user \<Rightarrow> egress_outcome \<Rightarrow> provider_row \<Rightarrow> provider_world \<Rightarrow> test_response served" where
  "finish_test e actor out row w =
     (if \<not> outcome_ok out then
        (commit [journal_entry Op_Test Openai_Compatible Failure (error_code out) actor (config_version row)
           (Some (config_version row))] row w,
         True, Inr (test_response_of False (error_code out) (tested_now e) row))
      else if failpoint e ''test_compatible.pre_commit'' then (w, False, Inl Other_Exception)
      else if \<not> row_checks (proven_row e row) then (w, False, Inl Other_Exception)
      else
        (commit [journal_entry Op_Test Openai_Compatible Success None actor (config_version row)
           (Some (config_version row + 1))] (proven_row e row) w,
         True, Inr (test_response_of True None (tested_now e) (proven_row e row))))"

definition test_candidate :: "provider_env \<Rightarrow> test_request \<Rightarrow> user \<Rightarrow> provider_world \<Rightarrow> test_response served" where
  "test_candidate e p actor w =
     (let row = current_row w
      in case (compatible_canonical_url row, compatible_credential_ref row) of
           (Some url, Some r) \<Rightarrow>
             if compatible_state row = Absent then (w, False, Inl Candidate_Invalid)
             else
               (case canonicalize e (tr_canonical_url p) of
                  None \<Rightarrow> (w, False, Inl Candidate_Invalid)
                | Some candidate \<Rightarrow>
                    if candidate \<noteq> url \<or> Some (tr_model p) \<noteq> compatible_model row \<or>
                        Some (tr_generation p) \<noteq> compatible_generation row
                    then (w, False, Inl Candidate_Invalid)
                    else
                      (case load_bound_plaintext (host e) row (vault_files w) of
                         Inl f \<Rightarrow> (w, False, Inl f)
                       | Inr key \<Rightarrow>
                           (case utf8_decode key of
                              None \<Rightarrow> (w, False, Inl Other_Exception)
                            | Some secret \<Rightarrow>
                                (case probe_models e url (tr_model p) secret of
                                   None \<Rightarrow> (w\<lparr>probes := probes w @ [(url, tr_model p, secret, False)]\<rparr>, False, Inl Other_Exception)
                                 | Some out \<Rightarrow>
                                     finish_test e actor out row
                                       (w\<lparr>probes := probes w @ [(url, tr_model p, secret, outcome_ok out)]\<rparr>)))))
         | _ \<Rightarrow> (w, False, Inl Candidate_Invalid))"

definition compatible_proof_bound :: "provider_row \<Rightarrow> bool" where
  "compatible_proof_bound row \<longleftrightarrow> compatible_state row = Verified \<and>
     compatible_test_proof_canonical_url row = compatible_canonical_url row \<and>
     compatible_test_proof_model row = compatible_model row \<and>
     compatible_test_proof_generation row = compatible_generation row"

definition selected_row :: "provider_kind \<Rightarrow> provider_row \<Rightarrow> provider_row" where
  "selected_row kind row = row\<lparr>selected_kind := kind, config_version := config_version row + 1\<rparr>"

definition set_selection ::
  "provider_env \<Rightarrow> provider_kind \<Rightarrow> int \<Rightarrow> user \<Rightarrow> provider_world \<Rightarrow> config_response served" where
  "set_selection e kind expected actor w =
     (let row = current_row w; v = config_version row; row' = selected_row kind row
      in if v \<noteq> expected then (w, False, Inl Version_Conflict)
         else if kind = Openai_Compatible \<and> \<not> compatible_proof_bound row then
           (commit [journal_entry Op_Select Openai_Compatible Failure (Some (lit ''proof-not-bound'')) actor v (Some v)]
              row w, True, Inl Selection_Invalid)
         else if failpoint e ''set_selection.pre_commit'' then (w, False, Inl Other_Exception)
         else if \<not> row_checks row' then (w, False, Inl Other_Exception)
         else
           (commit [journal_entry Op_Select kind Success None actor v (Some (v + 1))] row' w, True,
            Inr (config_response_of row')))"

definition activate :: "int \<Rightarrow> user \<Rightarrow> provider_world \<Rightarrow> config_response served" where
  "activate expected actor w =
     (let row = current_row w; v = config_version row;
          entry = (\<lambda>res reason. journal_entry Op_Select Openai_Compatible res reason actor v (Some v))
      in if v \<noteq> expected then (w, False, Inl Version_Conflict)
         else if compatible_state row \<noteq> Verified then
           (commit [entry Failure (Some (lit ''proof-missing''))] row w, True, Inl Proof_Missing)
         else if \<not> compatible_proof_bound row then
           (commit [entry Failure (Some (lit ''proof-mismatch''))] row w, True, Inl Proof_Mismatch)
         else (commit [entry Success None] row w, True, Inr (config_response_of row)))"

definition removed_row :: "provider_row \<Rightarrow> provider_row" where
  "removed_row row =
     clear_proof (row\<lparr>compatible_state := Absent, compatible_canonical_url := None, compatible_display_url := None,
       compatible_model := None, compatible_generation := None, compatible_credential_ref := None,
       compatible_credential_binding_version := None, config_version := config_version row + 1\<rparr>)"

definition delete_provider_credential ::
  "provider_env \<Rightarrow> int \<Rightarrow> user \<Rightarrow> provider_world \<Rightarrow> config_response served" where
  "delete_provider_credential e expected actor w =
     (let row = current_row w; v = config_version row; row' = removed_row row
      in if v \<noteq> expected then (w, False, Inl Version_Conflict)
         else if failpoint e ''delete_candidate.pre_commit'' then (w, False, Inl Other_Exception)
         else if \<not> row_checks row' then (w, False, Inl Other_Exception)
         else
           (let w1 = commit [journal_entry Op_Delete Openai_Compatible Success None actor v (Some (v + 1))] row' w;
                (w2, ok) = drop_old e (compatible_credential_ref row) w1
            in (w2, True, if ok then Inr (config_response_of row') else Inl Other_Exception)))"

text \<open>\<open>reconcile\<close>: \<open>None\<close> where looking for the envelope raises an exception of its own.\<close>

definition credential_bound :: "store_host \<Rightarrow> provider_row \<Rightarrow> files \<Rightarrow> bool option" where
  "credential_bound h row fs =
     (case compatible_credential_ref row of
        None \<Rightarrow> Some True
      | Some r \<Rightarrow>
          (case get_envelope h r fs of
             Inr env \<Rightarrow> Some (envelope_matches row env)
           | Inl (Store_Error c) \<Rightarrow> Some (envelope_matches row None)
           | Inl _ \<Rightarrow> None))"

definition drifted_row :: "provider_row \<Rightarrow> provider_row" where
  "drifted_row row =
     clear_proof (row\<lparr>compatible_state :=
         (if compatible_state row = Verified then Unverified else compatible_state row),
       config_version := config_version row + 1\<rparr>)"

definition reconcile :: "provider_env \<Rightarrow> user \<Rightarrow> provider_world \<Rightarrow> reconcile_response served" where
  "reconcile e actor w =
     (let row = current_row w; v = config_version row;
          finish = (\<lambda>ok row'. (commit [journal_entry Op_Reconcile (selected_kind row')
              (if ok then Success else Failure) (if ok then None else Some (lit ''credential-drift'')) actor v
              (Some (config_version row'))] row' w, True,
            Inr \<lparr>rr_reconciled = ok, rr_compatible_state = compatible_state row',
                 rr_config_version = config_version row'\<rparr>))
      in case credential_bound (host e) row (vault_files w) of
           None \<Rightarrow> (w, False, Inl Other_Exception)
         | Some True \<Rightarrow> finish True row
         | Some False \<Rightarrow>
             if failpoint e ''reconcile.pre_commit'' then (w, False, Inl Other_Exception)
             else if \<not> row_checks (drifted_row row) then (w, False, Inl Other_Exception)
             else finish False (drifted_row row))"

record active_binding =
  ab_canonical_url :: pystr
  ab_model :: pystr
  ab_api_key :: bytes

definition load_active_compatible_binding ::
  "store_host \<Rightarrow> provider_world \<Rightarrow> (provider_failure, active_binding) result" where
  "load_active_compatible_binding h w =
     (let row = current_row w
      in if selected_kind row \<noteq> Openai_Compatible \<or> \<not> compatible_proof_bound row \<or>
           compatible_credential_ref row = None
         then Inl Selection_Invalid
         else
           (case (compatible_canonical_url row, compatible_model row) of
              (Some url, Some model) \<Rightarrow>
                map_sum id (\<lambda>key. \<lparr>ab_canonical_url = url, ab_model = model, ab_api_key = key\<rparr>)
                  (load_bound_plaintext h row (vault_files w))
            | _ \<Rightarrow> Inl Selection_Invalid))"

subsection \<open>The routes\<close>

text \<open>The dependencies of a route: authentication, the permission, the CSRF check, the body.\<close>

definition provider_guards :: "env \<Rightarrow> request \<Rightarrow> string \<Rightarrow> bool \<Rightarrow> bool \<Rightarrow> db \<Rightarrow> (error, db \<times> user) result" where
  "provider_guards ev req perm csrf body_ok d =
     bind_result (current_user_from_request ev req d) (\<lambda>(d1, actor, payload).
     bind_result (require_permission d1 actor perm) (\<lambda>_.
     bind_result (if csrf then require_csrf ev req payload else Inr ()) (\<lambda>_.
     bind_result (require body_ok RequestValidationError) (\<lambda>_. Inr (d1, actor)))))"

text \<open>A handler: an error of the service becomes a fixed answer, and what the session did is
  kept only if the service committed; after a result the audit record is written.\<close>

definition provider_route ::
  "env \<Rightarrow> request \<Rightarrow> bool \<Rightarrow> (user \<Rightarrow> provider_world \<Rightarrow> 'a served) \<Rightarrow> (user \<Rightarrow> 'a \<Rightarrow> audit_args) \<Rightarrow>
     db \<times> provider_world \<Rightarrow> (db \<times> provider_world) \<times> (error, 'a) result" where
  "provider_route ev req body_ok service_call audit_of s =
     (let (d, w) = s
      in case provider_guards ev req ''admin.ai.manage'' True body_ok d of
           Inl err \<Rightarrow> (s, Inl err)
         | Inr (d1, actor) \<Rightarrow>
             (case service_call actor w of
                (w', committed, Inl f) \<Rightarrow> ((if committed then d1 else d, w'), Inl (provider_http_error f))
              | (w', committed, Inr r) \<Rightarrow>
                  (case audit d1 (audit_of actor r) of
                     Inl err \<Rightarrow> ((d1, w'), Inl err)
                   | Inr d2 \<Rightarrow> ((d2, w'), Inr r))))"

definition provider_audit_call :: "user \<Rightarrow> string \<Rightarrow> request \<Rightarrow> json \<Rightarrow> audit_args" where
  "provider_audit_call actor act req metadata =
     (audit_call actor act ''ai_provider_config'' (Some (lit ''singleton'')) req)\<lparr>arg_metadata := Some metadata\<rparr>"

definition audit_ai_provider :: "string \<Rightarrow> string \<Rightarrow> request \<Rightarrow> user \<Rightarrow> config_response \<Rightarrow> audit_args" where
  "audit_ai_provider act op req actor r =
     provider_audit_call actor act req
       (build_ai_provider_audit_metadata (lit op) (lit ''success'') (lit ''ok'') None
         (Some (kind_text (cr_selected_kind r))) (Some (status_text (cr_compatible_state r)))
         (Some (cr_config_version r)))"

definition get_ai_provider_config ::
  "env \<Rightarrow> request \<Rightarrow> db \<times> provider_world \<Rightarrow> (db \<times> provider_world) \<times> (error, config_response) result" where
  "get_ai_provider_config ev req s =
     (case provider_guards ev req ''admin.ai.read'' False True (fst s) of
        Inl err \<Rightarrow> (s, Inl err)
      | Inr (d1, actor) \<Rightarrow>
          (case get_state (snd s) of (w', _, r) \<Rightarrow> ((d1, w'), map_sum provider_http_error id r)))"

definition write_ai_provider_config ::
  "env \<Rightarrow> provider_env \<Rightarrow> request \<Rightarrow> write_request \<Rightarrow> db \<times> provider_world \<Rightarrow>
     (db \<times> provider_world) \<times> (error, config_response) result" where
  "write_ai_provider_config ev e req p =
     provider_route ev req (write_request_ok p)
       (\<lambda>actor. write_candidate e p actor (wr_expected_config_version p))
       (audit_ai_provider ''ai_provider.write'' ''select'' req)"

definition test_ai_provider_candidate ::
  "env \<Rightarrow> provider_env \<Rightarrow> request \<Rightarrow> test_request \<Rightarrow> db \<times> provider_world \<Rightarrow>
     (db \<times> provider_world) \<times> (error, test_response) result" where
  "test_ai_provider_candidate ev e req p =
     provider_route ev req (test_request_ok p) (test_candidate e p)
       (\<lambda>actor r. provider_audit_call actor ''ai_provider.test'' req
         (build_ai_provider_audit_metadata (lit ''test'') (lit (if ts_success r then ''success'' else ''failure''))
           (case ts_reason_code r of Some c \<Rightarrow> if c = [] then lit ''ok'' else c | None \<Rightarrow> lit ''ok'') None None None None))"

definition activate_ai_provider ::
  "env \<Rightarrow> request \<Rightarrow> int \<Rightarrow> db \<times> provider_world \<Rightarrow> (db \<times> provider_world) \<times> (error, config_response) result" where
  "activate_ai_provider ev req expected =
     provider_route ev req True (activate expected) (audit_ai_provider ''ai_provider.activate'' ''select'' req)"

definition select_ai_provider ::
  "env \<Rightarrow> provider_env \<Rightarrow> request \<Rightarrow> provider_kind \<Rightarrow> int \<Rightarrow> db \<times> provider_world \<Rightarrow>
     (db \<times> provider_world) \<times> (error, config_response) result" where
  "select_ai_provider ev e req kind expected =
     provider_route ev req True (set_selection e kind expected) (audit_ai_provider ''ai_provider.selection'' ''select'' req)"

definition rotate_ai_provider_credential ::
  "env \<Rightarrow> provider_env \<Rightarrow> request \<Rightarrow> write_request \<Rightarrow> db \<times> provider_world \<Rightarrow>
     (db \<times> provider_world) \<times> (error, config_response) result" where
  "rotate_ai_provider_credential ev e req p =
     provider_route ev req (write_request_ok p) (rotate_credential e p) (audit_ai_provider ''ai_provider.rotate'' ''rotate'' req)"

definition delete_ai_provider_credential ::
  "env \<Rightarrow> provider_env \<Rightarrow> request \<Rightarrow> int \<Rightarrow> db \<times> provider_world \<Rightarrow>
     (db \<times> provider_world) \<times> (error, config_response) result" where
  "delete_ai_provider_credential ev e req expected =
     provider_route ev req True (delete_provider_credential e expected)
       (audit_ai_provider ''ai_provider.delete'' ''delete'' req)"

definition reconcile_audit :: "request \<Rightarrow> user \<Rightarrow> reconcile_response \<Rightarrow> audit_args" where
  "reconcile_audit req actor r =
     provider_audit_call actor ''ai_provider.reconcile'' req
       (build_ai_provider_audit_metadata (lit ''reconcile'') (lit ''success'')
         (lit (if rr_reconciled r then ''reconciled'' else ''noop'')) None None
         (Some (status_text (rr_compatible_state r))) (Some (rr_config_version r)))"

definition reconcile_ai_provider ::
  "env \<Rightarrow> provider_env \<Rightarrow> request \<Rightarrow> db \<times> provider_world \<Rightarrow>
     (db \<times> provider_world) \<times> (error, reconcile_response) result" where
  "reconcile_ai_provider ev e req = provider_route ev req True (reconcile e) (reconcile_audit req)"

end
