(* ===== verification/Provider_Safety.thy ===== *)
theory Provider_Safety
  imports Provider_Config
begin

text \<open>
  What holds of the configuration of the AI provider in every sequence of operations: the
  row keeps its constraints, its version counts the journal, and the binding that serves
  requests is one whose address, model and key a probe has confirmed. The facts about the
  files come from the vault the store implements.
\<close>

subsection \<open>What an operation did\<close>

lemma current_row_commit [simp]: "current_row (commit js row w) = row"
  by (simp add: commit_def current_row_def)

lemma commit_parts [simp]:
  "config (commit js row w) = Some row" "journal (commit js row w) = journal w @ js"
  "vault_files (commit js row w) = vault_files w" "probes (commit js row w) = probes w"
  by (simp_all add: commit_def)

lemma current_row_files [simp]: "current_row (w\<lparr>vault_files := fs\<rparr>) = current_row w"
  by (simp add: current_row_def)

lemma current_row_probes [simp]: "current_row (w\<lparr>probes := ps\<rparr>) = current_row w"
  by (simp add: current_row_def)

lemma drop_old_cases:
  assumes "drop_old e old w = (w', ok)"
  obtains fs where "w' = w\<lparr>vault_files := fs\<rparr>"
    "\<And>g. vault_view g fs = vault_view g (vault_files w) \<or>
      (\<exists>r. old = Some r \<and> vault_view g fs = (vault_view g (vault_files w))(r := None))"
proof (cases old)
  case None
  with assms that [of "vault_files w"] show thesis by (simp add: drop_old_def)
next
  case (Some r)
  obtain x fs where d: "delete_credential (host e) r (vault_files w) = (x, fs)" by fastforce
  with assms Some have "w' = w\<lparr>vault_files := fs\<rparr>" by (simp add: drop_old_def)
  moreover from delete_view [OF d] Some
  have "vault_view g fs = vault_view g (vault_files w) \<or>
      (\<exists>r. old = Some r \<and> vault_view g fs = (vault_view g (vault_files w))(r := None))" for g
    by (cases "x = Inr ()") auto
  ultimately show thesis by (rule that)
qed

definition next_binding :: "provider_row \<Rightarrow> int" where
  "next_binding row = (case compatible_credential_binding_version row of None \<Rightarrow> 0 | Some v \<Rightarrow> v) + 1"

lemma finish_write_cases:
  assumes "finish_write e p actor url en row w = (w', c, r)"
  obtains (crashed) "w' = w" "c = False" "r = Inl Other_Exception"
    | (written) ok where "row_checks (written_row p url en row)" "c = True"
      "r = (if ok then Inr (config_response_of (written_row p url en row)) else Inl Other_Exception)"
      "drop_old e (if compatible_credential_ref row = Some (fresh_ref e) then None else compatible_credential_ref row)
         (commit [journal_entry Op_Rotate Openai_Compatible Success None actor (config_version row)
           (Some (config_version row + 1))] (written_row p url en row) w) = (w', ok)"
proof (cases "failpoint e ''write_candidate.pre_commit'' \<or> \<not> row_checks (written_row p url en row)")
  case True
  with assms have "w' = w \<and> c = False \<and> r = Inl Other_Exception"
    by (cases "failpoint e ''write_candidate.pre_commit''") (simp_all add: finish_write_def)
  with crashed show thesis by blast
next
  case False
  have v: "config_version (written_row p url en row) = config_version row + 1"
    by (simp add: written_row_def clear_proof_def)
  obtain w2 ok where d: "drop_old e (if compatible_credential_ref row = Some (fresh_ref e) then None
      else compatible_credential_ref row) (commit [journal_entry Op_Rotate Openai_Compatible Success None actor
        (config_version row) (Some (config_version row + 1))] (written_row p url en row) w) = (w2, ok)"
    by fastforce
  with assms False v have "w2 = w'" "c = True"
    "r = (if ok then Inr (config_response_of (written_row p url en row)) else Inl Other_Exception)"
    by (auto simp: finish_write_def Let_def)
  with d False show thesis by (intro written) auto
qed

lemma write_candidate_cases:
  assumes "write_candidate e p actor x w = (w', c, r)"
  obtains (refused) f where "w' = w" "c = False" "r = Inl f"
    | (not_stored) key err fs f where
      "store_credential (host e) (fresh_ref e) key (next_binding (current_row w)) None (vault_files w) = (Inl err, fs)"
      "w' = w\<lparr>vault_files := fs\<rparr> \<or> (\<exists>reason. w' = commit [journal_entry Op_Rotate Openai_Compatible Failure reason actor
         (config_version (current_row w)) None] (current_row w) (w\<lparr>vault_files := fs\<rparr>))"
      "r = Inl f"
    | (stored) url key en fs where "config_version (current_row w) = x" "canonicalize e (wr_canonical_url p) = Some url"
      "utf8_encode (wr_api_key p) = Some key"
      "store_credential (host e) (fresh_ref e) key (next_binding (current_row w)) None (vault_files w) = (Inr en, fs)"
      "finish_write e p actor url en (current_row w) (w\<lparr>vault_files := fs\<rparr>) = (w', c, r)"
proof (cases "config_version (current_row w) = x")
  case False
  with assms have "w' = w \<and> c = False \<and> (\<exists>f. r = Inl f)" by (auto simp: write_candidate_def Let_def)
  with refused show thesis by blast
next
  case v: True
  show thesis
  proof (cases "canonicalize e (wr_canonical_url p)")
    case None
    with assms v have "w' = w \<and> c = False \<and> (\<exists>f. r = Inl f)" by (auto simp: write_candidate_def Let_def)
    with refused show thesis by blast
  next
    case url: (Some url)
    show thesis
    proof (cases "utf8_encode (wr_api_key p)")
      case None
      with assms v url have "w' = w \<and> c = False \<and> (\<exists>f. r = Inl f)" by (auto simp: write_candidate_def Let_def)
      with refused show thesis by blast
    next
      case key: (Some key)
      obtain res fs where s: "store_credential (host e) (fresh_ref e) key (next_binding (current_row w)) None
          (vault_files w) = (res, fs)" by fastforce
      show thesis
      proof (cases res)
        case (Inl err)
        with assms v url key s have "(w' = w\<lparr>vault_files := fs\<rparr> \<or> (\<exists>reason. w' = commit [journal_entry Op_Rotate
            Openai_Compatible Failure reason actor (config_version (current_row w)) None] (current_row w)
            (w\<lparr>vault_files := fs\<rparr>))) \<and> (\<exists>f. r = Inl f)"
          by (cases err) (auto simp: write_candidate_def Let_def next_binding_def)
        with s Inl not_stored show thesis by blast
      next
        case (Inr en)
        with assms v url key s have "finish_write e p actor url en (current_row w) (w\<lparr>vault_files := fs\<rparr>) = (w', c, r)"
          by (simp add: write_candidate_def Let_def next_binding_def)
        with v url key s Inr stored show thesis by blast
      qed
    qed
  qed
qed

lemma test_candidate_cases:
  assumes "test_candidate e p actor w = (w', c, r)"
  obtains (refused) f where "w' = w" "c = False" "r = Inl f"
    | (raised) q f where "w' = w\<lparr>probes := probes w @ [q]\<rparr>" "c = False" "r = Inl f"
    | (probed) url key secret out where "compatible_canonical_url (current_row w) = Some url"
      "compatible_model (current_row w) = Some (tr_model p)" "compatible_state (current_row w) \<noteq> Absent"
      "load_bound_plaintext (host e) (current_row w) (vault_files w) = Inr key" "utf8_decode key = Some secret"
      "probe_models e url (tr_model p) secret = Some out"
      "finish_test e actor out (current_row w)
         (w\<lparr>probes := probes w @ [(url, tr_model p, secret, outcome_ok out)]\<rparr>) = (w', c, r)"
  using assms unfolding test_candidate_def Let_def
  by (auto split: option.splits if_splits sum.splits)

lemma finish_test_cases:
  assumes "finish_test e actor out row w = (w', c, r)"
  obtains (failed) "outcome_ok out = False" "w' = commit [journal_entry Op_Test Openai_Compatible Failure (error_code out) actor
        (config_version row) (Some (config_version row))] row w"
    | (crashed) "w' = w" "c = False" "r = Inl Other_Exception"
    | (proven) "outcome_ok out" "row_checks (proven_row e row)" "w' = commit [journal_entry Op_Test Openai_Compatible Success None actor
        (config_version row) (Some (config_version row + 1))] (proven_row e row) w" "c = True"
        "r = Inr (test_response_of True None (tested_now e) (proven_row e row))"
  using assms unfolding finish_test_def by (auto split: if_splits)

lemma set_selection_cases:
  assumes "set_selection e kind x actor w = (w', c, r)"
  obtains (refused) f where "w' = w" "c = False" "r = Inl f"
    | (unbound) "kind = Openai_Compatible" "\<not> compatible_proof_bound (current_row w)" "r = Inl Selection_Invalid"
      "w' = commit [journal_entry Op_Select Openai_Compatible Failure (Some (lit ''proof-not-bound'')) actor
        (config_version (current_row w)) (Some (config_version (current_row w)))] (current_row w) w"
    | (selected) "kind = Openai_Compatible \<longrightarrow> compatible_proof_bound (current_row w)" "row_checks (selected_row kind (current_row w))"
      "w' = commit [journal_entry Op_Select kind Success None actor (config_version (current_row w))
        (Some (config_version (current_row w) + 1))] (selected_row kind (current_row w)) w" "c = True"
      "r = Inr (config_response_of (selected_row kind (current_row w)))"
proof -
  let ?row = "current_row w"
  have st: "set_selection e kind x actor w =
     (if config_version ?row \<noteq> x then (w, False, Inl Version_Conflict)
      else if kind = Openai_Compatible \<and> \<not> compatible_proof_bound ?row then
        (commit [journal_entry Op_Select Openai_Compatible Failure (Some (lit ''proof-not-bound'')) actor
          (config_version ?row) (Some (config_version ?row))] ?row w, True, Inl Selection_Invalid)
      else if failpoint e ''set_selection.pre_commit'' \<or> \<not> row_checks (selected_row kind ?row)
      then (w, False, Inl Other_Exception)
      else (commit [journal_entry Op_Select kind Success None actor (config_version ?row)
          (Some (config_version ?row + 1))] (selected_row kind ?row) w, True,
        Inr (config_response_of (selected_row kind ?row))))"
    by (simp add: set_selection_def Let_def)
  consider "config_version ?row \<noteq> x \<or> (\<not> (kind = Openai_Compatible \<and> \<not> compatible_proof_bound ?row)) \<and>
        (failpoint e ''set_selection.pre_commit'' \<or> \<not> row_checks (selected_row kind ?row))"
    | "config_version ?row = x" "kind = Openai_Compatible" "\<not> compatible_proof_bound ?row"
    | "config_version ?row = x" "\<not> (kind = Openai_Compatible \<and> \<not> compatible_proof_bound ?row)"
      "\<not> (failpoint e ''set_selection.pre_commit'' \<or> \<not> row_checks (selected_row kind ?row))"
    by blast
  then show thesis
  proof cases
    case 1
    with assms st have "(w', c, r) = (w, False, Inl Version_Conflict) \<or> (w', c, r) = (w, False, Inl Other_Exception)"
      by (simp split: if_splits)
    with refused show thesis by blast
  next
    case 2
    with assms st unbound show thesis by simp
  next
    case 3
    with assms st have "(w', c, r) = (commit [journal_entry Op_Select kind Success None actor (config_version ?row)
          (Some (config_version ?row + 1))] (selected_row kind ?row) w, True, Inr (config_response_of (selected_row kind ?row)))"
      by (simp only: if_not_P if_P simp_thms)
    with 3 show thesis by (intro selected) auto
  qed
qed

lemma activate_cases:
  assumes "activate x actor w = (w', c, r)"
  obtains (refused) f where "w' = w" "c = False" "r = Inl f"
    | (confirmed) res reason where "w' = commit [journal_entry Op_Select Openai_Compatible res reason actor
        (config_version (current_row w)) (Some (config_version (current_row w)))] (current_row w) w"
  using assms unfolding activate_def Let_def by (auto split: if_splits)

lemma delete_cases:
  assumes "delete_provider_credential e x actor w = (w', c, r)"
  obtains (refused) f where "w' = w" "c = False" "r = Inl f"
    | (removed) ok where "row_checks (removed_row (current_row w))"
      "drop_old e (compatible_credential_ref (current_row w)) (commit [journal_entry Op_Delete Openai_Compatible Success None
        actor (config_version (current_row w)) (Some (config_version (current_row w) + 1))] (removed_row (current_row w)) w) = (w', ok)"
  using assms unfolding delete_provider_credential_def Let_def by (auto split: if_splits prod.splits)

lemma reconcile_cases:
  assumes "reconcile e actor w = (w', c, r)"
  obtains (refused) f where "w' = w" "c = False" "r = Inl f"
    | (agreed) "credential_bound (host e) (current_row w) (vault_files w) = Some True"
      "w' = commit [journal_entry Op_Reconcile (selected_kind (current_row w)) Success None actor
        (config_version (current_row w)) (Some (config_version (current_row w)))] (current_row w) w"
      "r = Inr \<lparr>rr_reconciled = True, rr_compatible_state = compatible_state (current_row w),
        rr_config_version = config_version (current_row w)\<rparr>"
    | (drifted) "credential_bound (host e) (current_row w) (vault_files w) = Some False"
      "row_checks (drifted_row (current_row w))"
      "w' = commit [journal_entry Op_Reconcile (selected_kind (current_row w)) Failure (Some (lit ''credential-drift'')) actor
        (config_version (current_row w)) (Some (config_version (current_row w) + 1))] (drifted_row (current_row w)) w"
      "r = Inr \<lparr>rr_reconciled = False, rr_compatible_state = compatible_state (drifted_row (current_row w)),
        rr_config_version = config_version (current_row w) + 1\<rparr>"
proof (cases "credential_bound (host e) (current_row w) (vault_files w)")
  case None
  with assms have "(w', c, r) = (w, False, Inl Other_Exception)" by (simp add: reconcile_def)
  with refused show thesis by blast
next
  case (Some ok)
  have v: "config_version (drifted_row (current_row w)) = config_version (current_row w) + 1"
    "selected_kind (drifted_row (current_row w)) = selected_kind (current_row w)"
    by (simp_all add: drifted_row_def clear_proof_def)
  show thesis
  proof (cases ok)
    case True
    with assms Some agreed show thesis by (simp add: reconcile_def Let_def)
  next
    case ok: False
    show thesis
    proof (cases "failpoint e ''reconcile.pre_commit'' \<or> \<not> row_checks (drifted_row (current_row w))")
      case True
      with assms Some ok have "(w', c, r) = (w, False, Inl Other_Exception)"
        by (cases "failpoint e ''reconcile.pre_commit''") (simp_all add: reconcile_def Let_def)
      with refused show thesis by blast
    next
      case False
      with assms Some ok v drifted show thesis by (simp add: reconcile_def Let_def)
    qed
  qed
qed

subsection \<open>The row\<close>

text \<open>What every stored row satisfies: its constraints, versions from 1 on, and a proof of
  exactly the candidate it holds where it is verified.\<close>

definition row_ok :: "provider_row \<Rightarrow> bool" where
  "row_ok row \<longleftrightarrow> row_checks row \<and> 1 \<le> config_version row \<and>
     (case compatible_credential_binding_version row of None \<Rightarrow> True | Some v \<Rightarrow> 1 \<le> v) \<and>
     (compatible_state row = Verified \<longrightarrow> compatible_proof_bound row)"

lemma row_ok_initial [simp]: "row_ok initial_row"
  by (simp add: row_ok_def row_checks_def initial_row_def candidate_columns_def proof_columns_def fits_integer_def)

lemma row_ok_verified:
  assumes "row_ok row" "compatible_state row = Verified"
  obtains u m r v where "compatible_canonical_url row = Some u" "compatible_model row = Some m"
    "compatible_credential_ref row = Some r" "compatible_credential_binding_version row = Some v" "1 \<le> v"
  using assms by (auto simp: row_ok_def row_checks_def candidate_columns_def)

lemma stored_envelope:
  assumes "store_credential h r k v w fs = (Inr en, fs')"
  shows "credential_ref en = r \<and> credential_binding_version en = v"
  using assms by (cases rule: store_credential_cases) (auto simp: map_sum_def split: sum.splits)

lemma row_ok_written:
  assumes "row_ok row" "row_checks (written_row p url en row)" "credential_binding_version en = next_binding row"
  shows "row_ok (written_row p url en row)"
  using assms by (auto simp: row_ok_def written_row_def clear_proof_def next_binding_def split: option.splits)

lemma row_ok_proven: "row_ok row \<Longrightarrow> row_checks (proven_row e row) \<Longrightarrow> row_ok (proven_row e row)"
  by (auto simp: row_ok_def proven_row_def compatible_proof_bound_def split: option.splits)

lemma row_ok_selected: "row_ok row \<Longrightarrow> row_checks (selected_row k row) \<Longrightarrow> row_ok (selected_row k row)"
  by (auto simp: row_ok_def selected_row_def compatible_proof_bound_def split: option.splits)

lemma row_ok_removed: "row_ok row \<Longrightarrow> row_checks (removed_row row) \<Longrightarrow> row_ok (removed_row row)"
  by (auto simp: row_ok_def removed_row_def clear_proof_def)

lemma row_ok_drifted: "row_ok row \<Longrightarrow> row_checks (drifted_row row) \<Longrightarrow> row_ok (drifted_row row)"
  by (auto simp: row_ok_def drifted_row_def clear_proof_def split: option.splits)

subsection \<open>The version and the journal\<close>

text \<open>A journal entry that records a change of the row.\<close>

definition records_change :: "journal_row \<Rightarrow> bool" where
  "records_change j \<longleftrightarrow> config_version_after j \<noteq> None \<and> config_version_after j \<noteq> config_version_before j"

definition version_counts :: "provider_world \<Rightarrow> bool" where
  "version_counts w \<longleftrightarrow> config_version (current_row w) = 1 + int (length (filter records_change (journal w)))"

lemma records_change_entry [simp]:
  "records_change (journal_entry op k res reason actor v (Some (v + 1)))"
  "\<not> records_change (journal_entry op k res reason actor v (Some v))"
  "\<not> records_change (journal_entry op k res reason actor v None)"
  by (simp_all add: records_change_def journal_entry_def)

text \<open>What an operation may do to what is committed: nothing, an entry without a change, or a
  change of the row with its entry.\<close>

definition committed_change :: "provider_world \<Rightarrow> provider_world \<Rightarrow> bool" where
  "committed_change w w' \<longleftrightarrow>
     (let row = current_row w; row' = current_row w'
      in row' = row \<and> (\<exists>js. journal w' = journal w @ js \<and> \<not> list_ex records_change js) \<or>
         (\<exists>j. journal w' = journal w @ [j] \<and> config_version_before j = Some (config_version row) \<and>
            config_version_after j = Some (config_version row') \<and> config_version row' = config_version row + 1) \<and>
         row_checks row' \<and> (row_ok row \<longrightarrow> row_ok row'))"

lemma unchanged_commit: "current_row w' = current_row w \<Longrightarrow> journal w' = journal w @ js \<Longrightarrow> \<not> list_ex records_change js \<Longrightarrow>
    committed_change w w'"
  by (auto simp: committed_change_def Let_def)

lemma changed_commit:
  assumes "current_row w' = row'" "config_version row' = config_version (current_row w) + 1"
    "journal w' = journal w @ [journal_entry op k res reason actor (config_version (current_row w))
       (Some (config_version (current_row w) + 1))]"
    "row_checks row'" "row_ok (current_row w) \<Longrightarrow> row_ok row'"
  shows "committed_change w w'"
  using assms by (auto simp: committed_change_def Let_def journal_entry_def)

lemma committed_change_counts: "committed_change w w' \<Longrightarrow> version_counts w \<Longrightarrow> version_counts w'"
  by (auto simp: committed_change_def Let_def version_counts_def records_change_def list_ex_iff filter_empty_conv)

lemma committed_change_row_ok: "committed_change w w' \<Longrightarrow> row_ok (current_row w) \<Longrightarrow> row_ok (current_row w')"
  by (auto simp: committed_change_def Let_def)

lemma committed_get_state: "committed_change w (fst (get_state w))"
  by (rule unchanged_commit [where js = "[]"]) (simp_all add: get_state_def)

lemma version_rows [simp]:
  "config_version (written_row p url en row) = config_version row + 1"
  "config_version (proven_row e row) = config_version row + 1"
  "config_version (selected_row k row) = config_version row + 1"
  "config_version (removed_row row) = config_version row + 1"
  "config_version (drifted_row row) = config_version row + 1"
  by (simp_all add: written_row_def proven_row_def selected_row_def removed_row_def drifted_row_def clear_proof_def)

lemma committed_write: "committed_change w (fst (write_candidate e p actor x w))"
proof -
  obtain w' c r where e: "write_candidate e p actor x w = (w', c, r)" by (cases "write_candidate e p actor x w") auto
  then have "committed_change w w'"
  proof (cases rule: write_candidate_cases)
    case (refused f)
    then show ?thesis by (intro unchanged_commit [where js = "[]"]) simp_all
  next
    case (not_stored key err fs f)
    then consider "w' = w\<lparr>vault_files := fs\<rparr>" | reason where
      "w' = commit [journal_entry Op_Rotate Openai_Compatible Failure reason actor
         (config_version (current_row w)) None] (current_row w) (w\<lparr>vault_files := fs\<rparr>)" by blast
    then show ?thesis
    proof cases
      case 1
      then show ?thesis by (intro unchanged_commit [where js = "[]"]) simp_all
    next
      case 2
      then show ?thesis by - (rule unchanged_commit, simp, simp, simp)
    qed
  next
    case (stored url key en fs)
    have en: "credential_binding_version en = next_binding (current_row w)" using stored_envelope [OF stored(4)] by simp
    from stored(5) show ?thesis
    proof (cases rule: finish_write_cases)
      case crashed
      then show ?thesis by (intro unchanged_commit [where js = "[]"]) simp_all
    next
      case (written ok)
      from written(4) obtain fs2 where "w' = (commit [journal_entry Op_Rotate Openai_Compatible Success None actor
          (config_version (current_row w)) (Some (config_version (current_row w) + 1))]
          (written_row p url en (current_row w)) (w\<lparr>vault_files := fs\<rparr>))\<lparr>vault_files := fs2\<rparr>"
        by (rule drop_old_cases)
      then show ?thesis using written(1) row_ok_written [OF _ written(1) en] by (intro changed_commit) simp_all
    qed
  qed
  with e show ?thesis by simp
qed

lemma committed_test: "committed_change w (fst (test_candidate e p actor w))"
proof -
  obtain w' c r where e: "test_candidate e p actor w = (w', c, r)" by (cases "test_candidate e p actor w") auto
  then have "committed_change w w'"
  proof (cases rule: test_candidate_cases)
    case (refused f)
    then show ?thesis by (intro unchanged_commit [where js = "[]"]) simp_all
  next
    case (raised q f)
    then show ?thesis by (intro unchanged_commit [where js = "[]"]) simp_all
  next
    case (probed url key secret out)
    from probed(7) show ?thesis
    proof (cases rule: finish_test_cases)
      case failed
      then show ?thesis by - (rule unchanged_commit, simp, simp, simp)
    next
      case crashed
      then show ?thesis by (intro unchanged_commit [where js = "[]"]) simp_all
    next
      case proven
      then show ?thesis using row_ok_proven [OF _ proven(2)] by (intro changed_commit) simp_all
    qed
  qed
  with e show ?thesis by simp
qed

lemma committed_select: "committed_change w (fst (set_selection e k x actor w))"
proof -
  obtain w' c r where e: "set_selection e k x actor w = (w', c, r)" by (cases "set_selection e k x actor w") auto
  then have "committed_change w w'"
  proof (cases rule: set_selection_cases)
    case (refused f)
    then show ?thesis by (intro unchanged_commit [where js = "[]"]) simp_all
  next
    case unbound
    then show ?thesis by - (rule unchanged_commit, simp, simp, simp)
  next
    case selected
    then show ?thesis using row_ok_selected [OF _ selected(2)] by (intro changed_commit) simp_all
  qed
  with e show ?thesis by simp
qed

lemma committed_activate: "committed_change w (fst (activate x actor w))"
proof -
  obtain w' c r where e: "activate x actor w = (w', c, r)" by (cases "activate x actor w") auto
  then have "committed_change w w'"
  proof (cases rule: activate_cases)
    case (refused f)
    then show ?thesis by (intro unchanged_commit [where js = "[]"]) simp_all
  next
    case (confirmed res reason)
    then show ?thesis by - (rule unchanged_commit, simp, simp, simp)
  qed
  with e show ?thesis by simp
qed

lemma committed_delete: "committed_change w (fst (delete_provider_credential e x actor w))"
proof -
  obtain w' c r where e: "delete_provider_credential e x actor w = (w', c, r)"
    by (cases "delete_provider_credential e x actor w") auto
  then have "committed_change w w'"
  proof (cases rule: delete_cases)
    case (refused f)
    then show ?thesis by (intro unchanged_commit [where js = "[]"]) simp_all
  next
    case (removed ok)
    from removed(2) obtain fs where "w' = (commit [journal_entry Op_Delete Openai_Compatible Success None actor
        (config_version (current_row w)) (Some (config_version (current_row w) + 1))] (removed_row (current_row w)) w)
        \<lparr>vault_files := fs\<rparr>"
      by (rule drop_old_cases)
    then show ?thesis using removed(1) row_ok_removed [OF _ removed(1)] by (intro changed_commit) simp_all
  qed
  with e show ?thesis by simp
qed

lemma committed_reconcile: "committed_change w (fst (reconcile e actor w))"
proof -
  obtain w' c r where e: "reconcile e actor w = (w', c, r)" by (cases "reconcile e actor w") auto
  then have "committed_change w w'"
  proof (cases rule: reconcile_cases)
    case (refused f)
    then show ?thesis by (intro unchanged_commit [where js = "[]"]) simp_all
  next
    case agreed
    then show ?thesis by - (rule unchanged_commit, simp, simp, simp)
  next
    case drifted
    then show ?thesis using row_ok_drifted [OF _ drifted(2)] by (intro changed_commit) simp_all
  qed
  with e show ?thesis by simp
qed

subsection \<open>Every sequence of operations\<close>

text \<open>The hosts of all operations are one machine and user, as \<open>g\<close> sees them.\<close>

definition env_fits :: "store_host \<Rightarrow> provider_env \<Rightarrow> bool" where
  "env_fits g e \<longleftrightarrow> reads g (host e) \<and> unprotect (host e) = unprotect g \<and> float_text (host e) = float_text g"

text \<open>An operation of the service, or a file of the store that is lost.\<close>

inductive provider_step :: "store_host \<Rightarrow> provider_world \<Rightarrow> provider_world \<Rightarrow> bool" for g where
  step_get: "provider_step g w (fst (get_state w))"
| step_write: "env_fits g e \<Longrightarrow> provider_step g w (fst (write_candidate e p actor x w))"
| step_rotate: "env_fits g e \<Longrightarrow> provider_step g w (fst (rotate_credential e p actor w))"
| step_test: "env_fits g e \<Longrightarrow> provider_step g w (fst (test_candidate e tp actor w))"
| step_select: "env_fits g e \<Longrightarrow> provider_step g w (fst (set_selection e k x actor w))"
| step_activate: "provider_step g w (fst (activate x actor w))"
| step_delete: "env_fits g e \<Longrightarrow> provider_step g w (fst (delete_provider_credential e x actor w))"
| step_reconcile: "env_fits g e \<Longrightarrow> provider_step g w (fst (reconcile e actor w))"
| step_lost: "provider_step g w (w\<lparr>vault_files := (vault_files w)(path := None)\<rparr>)"

text \<open>A database with the row the service or the migration creates, and no probe sent yet; the
  directory may hold anything.\<close>

definition provider_start :: "provider_world \<Rightarrow> bool" where
  "provider_start w \<longleftrightarrow> current_row w = initial_row \<and> journal w = [] \<and> probes w = []"

definition provider_reach :: "store_host \<Rightarrow> provider_world \<Rightarrow> bool" where
  "provider_reach g w \<longleftrightarrow> (\<exists>w0. provider_start w0 \<and> (provider_step g)\<^sup>*\<^sup>* w0 w)"

lemma provider_reach_induct [consumes 1, case_names start step]:
  assumes "provider_reach g w"
    and "\<And>w. provider_start w \<Longrightarrow> P w"
    and "\<And>w w'. provider_reach g w \<Longrightarrow> P w \<Longrightarrow> provider_step g w w' \<Longrightarrow> P w'"
  shows "P w"
proof -
  from assms(1) obtain w0 where s: "provider_start w0" and r: "(provider_step g)\<^sup>*\<^sup>* w0 w"
    by (auto simp: provider_reach_def)
  from r have "P w \<and> provider_reach g w"
  proof (induction rule: rtranclp_induct)
    case base
    with s assms(2) show ?case by (auto simp: provider_reach_def)
  next
    case (step y z)
    then have "provider_reach g z" by (auto simp: provider_reach_def intro: rtranclp.rtrancl_into_rtrancl)
    with step assms(3) show ?case by blast
  qed
  then show ?thesis ..
qed

lemma committed_step: "provider_step g w w' \<Longrightarrow> committed_change w w'"
proof (induction rule: provider_step.induct)
  case (step_lost w path)
  show ?case by (rule unchanged_commit [where js = "[]"]) simp_all
qed (simp_all add: committed_get_state committed_write committed_test committed_select committed_activate
    committed_delete committed_reconcile rotate_credential_def)

lemma reach_row_ok: "provider_reach g w \<Longrightarrow> row_ok (current_row w) \<and> version_counts w"
proof (induction rule: provider_reach_induct)
  case (start w)
  then show ?case by (simp add: provider_start_def version_counts_def initial_row_def [THEN arg_cong [where f = config_version]])
next
  case (step w w')
  then show ?case using committed_step committed_change_counts committed_change_row_ok by blast
qed

subsection \<open>The key that was probed\<close>

lemma loaded_view:
  assumes "load_bound_plaintext h row fs = Inr k"
  obtains r v where "compatible_credential_ref row = Some r" "compatible_credential_binding_version row = Some v"
    "vault_view h fs r = Some (v, k)"
proof -
  from assms obtain r where r: "compatible_credential_ref row = Some r"
    by (cases "compatible_credential_ref row") (auto simp: load_bound_plaintext_def)
  with assms obtain env where env: "get_envelope h r fs = Inr env" "envelope_matches row env"
      "map_sum store_failure_of id (load_plaintext h r fs) = Inr k"
    by (auto simp: load_bound_plaintext_def split: sum.splits if_splits)
  then obtain en where en: "env = Some en" "Some (credential_binding_version en) = compatible_credential_binding_version row"
    by (cases env) (auto simp: envelope_matches_def)
  from env(3) have "load_plaintext h r fs = Inr k" by (cases "load_plaintext h r fs") auto
  with env(1) en(1) have "vault_view h fs r = Some (credential_binding_version en, k)" by (simp add: vault_view_def)
  with r en(2) show thesis by (intro that) auto
qed

lemma views_agree:
  assumes "env_fits g e"
  shows "vault_view (host e) fs r = Some x \<Longrightarrow> vault_view g fs r = Some x"
proof -
  assume v: "vault_view (host e) fs r = Some x"
  then have "prepare_root (host e) = Inr ()" "ref_pattern r"
    using view_SomeD by (metis surj_pair)+
  then have p: "blob_path (host e) r = Inr (r @ lit ''.dpapi'')" "blob_path g r = Inr (r @ lit ''.dpapi'')"
    using assms by (simp_all add: blob_path_Inr env_fits_def reads_def)
  from assms have u: "unprotect (host e) = unprotect g" and f: "float_text (host e) = float_text g"
    by (simp_all add: env_fits_def)
  have "read_envelope g r fs = read_envelope (host e) r fs" unfolding read_envelope_def parse_envelope_def p f ..
  moreover have "load_plaintext g r fs = load_plaintext (host e) r fs" unfolding load_plaintext_def p u ..
  ultimately have "vault_view g fs r = vault_view (host e) fs r" by (simp add: vault_view_def get_envelope_def)
  with v show ?thesis by simp
qed

text \<open>What the file of a verified candidate gives as key has been probed, with the address and
  the model of the row.\<close>

definition key_probed :: "store_host \<Rightarrow> provider_world \<Rightarrow> bool" where
  "key_probed g w \<longleftrightarrow>
     (let row = current_row w
      in compatible_state row = Verified \<longrightarrow>
           (\<forall>u m r v k. compatible_canonical_url row = Some u \<longrightarrow> compatible_model row = Some m \<longrightarrow>
              compatible_credential_ref row = Some r \<longrightarrow> compatible_credential_binding_version row = Some v \<longrightarrow>
              vault_view g (vault_files w) r = Some (v, k) \<longrightarrow>
              (\<exists>s. utf8_decode k = Some s \<and> (u, m, s, True) \<in> set (probes w))))"

lemma key_probed_keep:
  assumes "key_probed g w"
    and "\<And>r v k. compatible_credential_ref (current_row w) = Some r \<Longrightarrow>
      compatible_credential_binding_version (current_row w) = Some v \<Longrightarrow>
      vault_view g (vault_files w') r = Some (v, k) \<Longrightarrow> vault_view g (vault_files w) r = Some (v, k)"
    and "set (probes w) \<subseteq> set (probes w')"
    and "compatible_state (current_row w') = Verified \<Longrightarrow> compatible_state (current_row w) = Verified \<and>
      compatible_canonical_url (current_row w') = compatible_canonical_url (current_row w) \<and>
      compatible_model (current_row w') = compatible_model (current_row w) \<and>
      compatible_credential_ref (current_row w') = compatible_credential_ref (current_row w) \<and>
      compatible_credential_binding_version (current_row w') = compatible_credential_binding_version (current_row w)"
  shows "key_probed g w'"
  unfolding key_probed_def Let_def
proof (intro impI allI)
  fix u m r v k
  assume a: "compatible_state (current_row w') = Verified" "compatible_canonical_url (current_row w') = Some u"
    "compatible_model (current_row w') = Some m" "compatible_credential_ref (current_row w') = Some r"
    "compatible_credential_binding_version (current_row w') = Some v" "vault_view g (vault_files w') r = Some (v, k)"
  with assms(4) [OF a(1)] assms(2) have "vault_view g (vault_files w) r = Some (v, k)" by simp
  with assms(1) assms(4) [OF a(1)] a obtain s where "utf8_decode k = Some s" "(u, m, s, True) \<in> set (probes w)"
    unfolding key_probed_def Let_def by metis
  with assms(3) show "\<exists>s. utf8_decode k = Some s \<and> (u, m, s, True) \<in> set (probes w')" by blast
qed

lemma key_probed_unverified: "compatible_state (current_row w) \<noteq> Verified \<Longrightarrow> key_probed g w"
  by (simp add: key_probed_def)

lemma key_probed_same: "key_probed g w \<Longrightarrow> current_row w' = current_row w \<Longrightarrow> vault_files w' = vault_files w \<Longrightarrow>
    set (probes w) \<subseteq> set (probes w') \<Longrightarrow> key_probed g w'"
  by (rule key_probed_keep) simp_all

lemma put_elsewhere:
  assumes "env_fits g e" "version_ok v" "store_credential (host e) r k v w fs = (x, fs')"
    "v' \<noteq> v" "vault_view g fs' r' = Some (v', k')"
  shows "vault_view g fs r' = Some (v', k')"
proof (rule store.put_bound)
  show "call_fits g (Put (host e) r k v w)" using assms(1,2) by (simp add: env_fits_def)
  show "store_act (Put (host e) r k v w) fs = (is_ok x, fs')" using assms(3) by simp
qed (use assms(4,5) in auto)

lemma key_probed_write:
  assumes k: "key_probed g w" and row: "row_ok (current_row w)" and env: "env_fits g e"
  shows "key_probed g (fst (write_candidate e p actor x w))"
proof -
  have v: "version_ok (next_binding (current_row w))"
    using row by (auto simp: row_ok_def row_checks_def next_binding_def version_ok_def fits_integer_def split: option.splits)
  have keep: "key_probed g w'" if s: "store_credential (host e) (fresh_ref e) key (next_binding (current_row w)) None
      (vault_files w) = (y, vault_files w')" and w': "current_row w' = current_row w" "probes w' = probes w" for w' key y
  proof (rule key_probed_keep [OF k])
    fix r b kk
    assume "compatible_credential_binding_version (current_row w) = Some b" "vault_view g (vault_files w') r = Some (b, kk)"
    then show "vault_view g (vault_files w) r = Some (b, kk)"
      by (intro put_elsewhere [OF env v s]) (simp_all add: next_binding_def)
  qed (simp_all add: w')
  obtain w' c r where e: "write_candidate e p actor x w = (w', c, r)" by (cases "write_candidate e p actor x w") auto
  then have "key_probed g w'"
  proof (cases rule: write_candidate_cases)
    case (refused f)
    with k show ?thesis by simp
  next
    case (not_stored key err fs f)
    then show ?thesis by (elim disjE exE) (rule keep [of key "Inl err"]; simp)+
  next
    case (stored url key en fs)
    from stored(5) show ?thesis
    proof (cases rule: finish_write_cases)
      case crashed
      with stored(4) show ?thesis by (intro keep [of key "Inr en"]) simp_all
    next
      case (written ok)
      from written(4) have "current_row w' = written_row p url en (current_row w)"
        by (rule drop_old_cases) simp
      then show ?thesis by (intro key_probed_unverified) (simp add: written_row_def clear_proof_def)
    qed
  qed
  with e show ?thesis by simp
qed

lemma key_probed_test:
  assumes k: "key_probed g w" and env: "env_fits g e"
  shows "key_probed g (fst (test_candidate e p actor w))"
proof -
  obtain w' c r where e: "test_candidate e p actor w = (w', c, r)" by (cases "test_candidate e p actor w") auto
  then have "key_probed g w'"
  proof (cases rule: test_candidate_cases)
    case (refused f)
    with k show ?thesis by simp
  next
    case (raised q f)
    then show ?thesis by (intro key_probed_same [OF k]) auto
  next
    case (probed url key secret out)
    from probed(7) show ?thesis
    proof (cases rule: finish_test_cases)
      case failed
      then show ?thesis by (intro key_probed_same [OF k]) auto
    next
      case crashed
      then show ?thesis by (intro key_probed_same [OF k]) auto
    next
      case proven
      obtain r0 v0 where r0: "compatible_credential_ref (current_row w) = Some r0"
          "compatible_credential_binding_version (current_row w) = Some v0"
          "vault_view (host e) (vault_files w) r0 = Some (v0, key)"
        using probed(4) by (rule loaded_view)
      from views_agree [OF env r0(3)] have "vault_view g (vault_files w) r0 = Some (v0, key)" .
      with probed r0 proven show ?thesis
        unfolding key_probed_def Let_def by (simp add: proven_row_def)
    qed
  qed
  with e show ?thesis by simp
qed

lemma key_probed_step:
  assumes "provider_step g w w'" "key_probed g w" "row_ok (current_row w)"
  shows "key_probed g w'"
  using assms
proof (cases rule: provider_step.cases)
  case step_get
  with assms(2) show ?thesis by (intro key_probed_same [OF assms(2)]) (simp_all add: get_state_def)
next
  case (step_write e p actor x)
  with key_probed_write [OF assms(2,3)] show ?thesis by simp
next
  case (step_rotate e p actor)
  with key_probed_write [OF assms(2,3)] show ?thesis by (simp add: rotate_credential_def)
next
  case (step_test e tp actor)
  with key_probed_test [OF assms(2)] show ?thesis by simp
next
  case (step_select e k x actor)
  obtain w'' c r where e: "set_selection e k x actor w = (w'', c, r)" by (cases "set_selection e k x actor w") auto
  then have "key_probed g w''"
    by (cases rule: set_selection_cases)
      (use assms(2) in \<open>auto intro!: key_probed_keep [OF assms(2)] simp: selected_row_def\<close>)
  with e step_select show ?thesis by simp
next
  case (step_activate x actor)
  obtain w'' c r where e: "activate x actor w = (w'', c, r)" by (cases "activate x actor w") auto
  then have "key_probed g w''"
    by (cases rule: activate_cases) (use assms(2) in \<open>auto intro!: key_probed_keep [OF assms(2)]\<close>)
  with e step_activate show ?thesis by simp
next
  case (step_delete e x actor)
  obtain w'' c r where e: "delete_provider_credential e x actor w = (w'', c, r)"
    by (cases "delete_provider_credential e x actor w") auto
  then have "key_probed g w''"
  proof (cases rule: delete_cases)
    case (refused f)
    with assms(2) show ?thesis by simp
  next
    case (removed ok)
    from removed(2) have "current_row w'' = removed_row (current_row w)" by (rule drop_old_cases) simp
    then show ?thesis by (intro key_probed_unverified) (simp add: removed_row_def clear_proof_def)
  qed
  with e step_delete show ?thesis by simp
next
  case (step_reconcile e actor)
  obtain w'' c r where e: "reconcile e actor w = (w'', c, r)" by (cases "reconcile e actor w") auto
  then have "key_probed g w''"
  proof (cases rule: reconcile_cases)
    case (refused f)
    with assms(2) show ?thesis by simp
  next
    case agreed
    then show ?thesis by (intro key_probed_keep [OF assms(2)]) simp_all
  next
    case drifted
    then show ?thesis by (intro key_probed_unverified) (simp add: drifted_row_def clear_proof_def)
  qed
  with e step_reconcile show ?thesis by simp
next
  case (step_lost path)
  show ?thesis unfolding step_lost
  proof (rule key_probed_keep [OF assms(2)])
    fix r v k
    assume "vault_view g (vault_files (w\<lparr>vault_files := (vault_files w)(path := None)\<rparr>)) r = Some (v, k)"
    then have v: "vault_view g ((vault_files w)(path := None)) r = Some (v, k)" by simp
    with view_absent [of "(vault_files w)(path := None)" r g] have "r @ lit ''.dpapi'' \<noteq> path" by auto
    then have "((vault_files w)(path := None)) (r @ lit ''.dpapi'') = vault_files w (r @ lit ''.dpapi'')" by simp
    then have "vault_view g ((vault_files w)(path := None)) r = vault_view g (vault_files w) r" by (rule view_cong)
    with v show "vault_view g (vault_files w) r = Some (v, k)" by simp
  qed simp_all
qed

lemma reach_key_probed: "provider_reach g w \<Longrightarrow> key_probed g w"
proof (induction rule: provider_reach_induct)
  case (start w)
  then show ?case by (intro key_probed_unverified) (simp add: provider_start_def initial_row_def)
next
  case (step w w')
  then show ?case using key_probed_step reach_row_ok by blast
qed

subsection \<open>A working configuration\<close>

text \<open>An environment in which nothing crashes, and the transport answers.\<close>

definition calm :: "provider_env \<Rightarrow> bool" where
  "calm e \<longleftrightarrow> able (host e) \<and> env_fits (host e) e \<and> ref_pattern (fresh_ref e) \<and>
     list_all (\<lambda>st. \<not> failpoint e st) [''write_candidate.pre_commit'', ''test_compatible.pre_commit'', ''set_selection.pre_commit'']"

lemma view_loaded:
  assumes "compatible_credential_ref row = Some r" "compatible_credential_binding_version row = Some v"
    "vault_view h fs r = Some (v, k)"
  shows "load_bound_plaintext h row fs = Inr k"
proof -
  from view_SomeD [OF assms(3)] obtain en where en: "read_envelope h r fs = Inr en" "credential_binding_version en = v"
      "load_plaintext h r fs = Inr k" by auto
  from en(1) have "credential_ref en = r" by (rule read_envelope_ref)
  with en assms(1,2) show ?thesis by (simp add: load_bound_plaintext_def get_envelope_def envelope_matches_def)
qed

lemma calm_write:
  assumes "calm e" "row_ok (current_row w)" "fits_integer (config_version (current_row w) + 1)"
    "fits_integer (next_binding (current_row w))" "canonicalize e (wr_canonical_url p) = Some u"
    "utf8_encode (wr_api_key p) = Some key" "get_envelope (host e) (fresh_ref e) (vault_files w) = Inr None"
    "config_version (current_row w) = x"
  obtains en where "current_row (fst (write_candidate e p actor x w)) = written_row p u en (current_row w)"
    "credential_ref en = fresh_ref e" "credential_binding_version en = next_binding (current_row w)"
    "vault_view (host e) (vault_files (fst (write_candidate e p actor x w))) (fresh_ref e) =
       Some (next_binding (current_row w), key)"
proof -
  let ?h = "host e" and ?b = "next_binding (current_row w)"
  have fit: "able ?h" "reads ?h ?h" "version_ok ?b"
    using assms(1,2,4) by (auto simp: calm_def env_fits_def version_ok_def fits_integer_def row_ok_def next_binding_def
        split: option.splits)
  obtain res fs where s: "store_credential ?h (fresh_ref e) key ?b None (vault_files w) = (res, fs)" by fastforce
  with store_succeeds_iff [OF fit(1), of "fresh_ref e" key ?b None "vault_files w"] assms(7) have "is_ok res" by simp
  with s obtain en where en: "store_credential ?h (fresh_ref e) key ?b None (vault_files w) = (Inr en, fs)"
    by (auto simp: is_ok_iff)
  from stored_envelope [OF en] have ref: "credential_ref en = fresh_ref e" "credential_binding_version en = ?b" by simp_all
  from store_view(1) [OF fit(2,3) en] have v: "vault_view ?h fs (fresh_ref e) = Some (?b, key)" by simp
  have row: "row_checks (written_row p u en (current_row w))"
    using assms(3,4) ref by (simp add: row_checks_def candidate_columns_def proof_columns_def written_row_def clear_proof_def)
  obtain w' c r where f: "finish_write e p actor u en (current_row w) (w\<lparr>vault_files := fs\<rparr>) = (w', c, r)"
    by (cases "finish_write e p actor u en (current_row w) (w\<lparr>vault_files := fs\<rparr>)") auto
  have "write_candidate e p actor x w = (w', c, r)"
    using assms(5,6,8) en f by (simp add: write_candidate_def next_binding_def [symmetric] Let_def)
  moreover from f have "current_row w' = written_row p u en (current_row w) \<and>
      vault_view ?h (vault_files w') (fresh_ref e) = Some (?b, key)"
  proof (cases rule: finish_write_cases)
    case crashed
    with f row assms(1) show ?thesis by (simp add: finish_write_def calm_def Let_def split: prod.splits)
  next
    case (written ok)
    from written(4) show ?thesis
    proof (rule drop_old_cases)
      fix fs2
      assume w': "w' = (commit [journal_entry Op_Rotate Openai_Compatible Success None actor (config_version (current_row w))
          (Some (config_version (current_row w) + 1))] (written_row p u en (current_row w)) (w\<lparr>vault_files := fs\<rparr>))
          \<lparr>vault_files := fs2\<rparr>"
        and d: "\<And>g. vault_view g fs2 = vault_view g (vault_files (commit [journal_entry Op_Rotate Openai_Compatible Success
            None actor (config_version (current_row w)) (Some (config_version (current_row w) + 1))]
            (written_row p u en (current_row w)) (w\<lparr>vault_files := fs\<rparr>))) \<or>
          (\<exists>r. (if compatible_credential_ref (current_row w) = Some (fresh_ref e) then None
              else compatible_credential_ref (current_row w)) = Some r \<and>
            vault_view g fs2 = (vault_view g (vault_files (commit [journal_entry Op_Rotate Openai_Compatible Success
            None actor (config_version (current_row w)) (Some (config_version (current_row w) + 1))]
            (written_row p u en (current_row w)) (w\<lparr>vault_files := fs\<rparr>))))(r := None))"
      from d [of ?h] v have "vault_view ?h fs2 (fresh_ref e) = Some (?b, key)" by (auto split: if_splits)
      with w' show ?thesis by simp
    qed
  qed
  ultimately show thesis using ref by (intro that) auto
qed

lemma calm_test:
  assumes "calm e" "row_checks (current_row w)" "fits_integer (config_version (current_row w) + 1)"
    "compatible_state (current_row w) \<noteq> Absent" "compatible_canonical_url (current_row w) = Some u"
    "compatible_model (current_row w) = Some (tr_model p)" "compatible_generation (current_row w) = Some (tr_generation p)"
    "load_bound_plaintext (host e) (current_row w) (vault_files w) = Inr k" "utf8_decode k = Some s"
    "canonicalize e (tr_canonical_url p) = Some u" "probe_models e u (tr_model p) s = Some out" "outcome_ok out"
  shows "current_row (fst (test_candidate e p actor w)) = proven_row e (current_row w)"
    and "vault_files (fst (test_candidate e p actor w)) = vault_files w"
proof -
  from assms(2,4) obtain r where r: "compatible_credential_ref (current_row w) = Some r"
    by (auto simp: row_checks_def candidate_columns_def)
  have "row_checks (proven_row e (current_row w))"
    using assms(2-7) r by (auto simp: row_checks_def candidate_columns_def proof_columns_def proven_row_def)
  moreover have "\<not> failpoint e ''test_compatible.pre_commit''" using assms(1) by (simp add: calm_def)
  ultimately have f: "fst (finish_test e actor out (current_row w) w') = commit [journal_entry Op_Test Openai_Compatible
      Success None actor (config_version (current_row w)) (Some (config_version (current_row w) + 1))]
      (proven_row e (current_row w)) w'" for w'
    using assms(12) by (simp add: finish_test_def)
  show "current_row (fst (test_candidate e p actor w)) = proven_row e (current_row w)"
    "vault_files (fst (test_candidate e p actor w)) = vault_files w"
    using assms(4-11) r f by (simp_all add: test_candidate_def Let_def)
qed

lemma calm_select:
  assumes "calm e" "row_checks (current_row w)" "fits_integer (config_version (current_row w) + 1)"
    "compatible_proof_bound (current_row w)" "config_version (current_row w) = x"
  shows "current_row (fst (set_selection e k x actor w)) = selected_row k (current_row w)"
    and "vault_files (fst (set_selection e k x actor w)) = vault_files w"
proof -
  have "row_checks (selected_row k (current_row w))"
    using assms(2,3) by (simp add: row_checks_def candidate_columns_def proof_columns_def selected_row_def)
  then show "current_row (fst (set_selection e k x actor w)) = selected_row k (current_row w)"
    "vault_files (fst (set_selection e k x actor w)) = vault_files w"
    using assms(1,4,5) by (simp_all add: set_selection_def calm_def Let_def)
qed

text \<open>A candidate that is written, tested and selected serves requests with the key written.\<close>

lemma configured_binding:
  assumes "calm e" "row_ok (current_row w)" "fits_integer (config_version (current_row w) + 3)"
    "fits_integer (next_binding (current_row w))" "canonicalize e (wr_canonical_url p) = Some u"
    "utf8_encode (wr_api_key p) = Some key" "get_envelope (host e) (fresh_ref e) (vault_files w) = Inr None"
    "config_version (current_row w) = x" "tr_model t = wr_model p" "tr_generation t = wr_generation p"
    "canonicalize e (tr_canonical_url t) = Some u" "probe_models e u (wr_model p) (wr_api_key p) = Some out" "outcome_ok out"
    and w1: "w1 = fst (write_candidate e p actor x w)" and w2: "w2 = fst (test_candidate e t actor w1)"
    and w3: "w3 = fst (set_selection e Openai_Compatible (x + 2) actor w2)"
  shows "load_active_compatible_binding (host e) w3 =
    Inr \<lparr>ab_canonical_url = u, ab_model = wr_model p, ab_api_key = key\<rparr>"
proof -
  have pos: "1 \<le> config_version (current_row w)" using assms(2) by (simp add: row_ok_def)
  then have fi: "fits_integer (config_version (current_row w) + 1)" "fits_integer (config_version (current_row w) + 1 + 1)"
    "fits_integer (config_version (current_row w) + 1 + 1 + 1)"
    using assms(3) by (simp_all add: fits_integer_def)
  obtain en where en: "current_row w1 = written_row p u en (current_row w)"
      "credential_ref en = fresh_ref e" "credential_binding_version en = next_binding (current_row w)"
      "vault_view (host e) (vault_files w1) (fresh_ref e) = Some (next_binding (current_row w), key)"
    using calm_write [OF assms(1,2) fi(1) assms(4-8), of actor] unfolding w1 by blast
  note row1 = en(1) [unfolded written_row_def clear_proof_def]
  have l1: "load_bound_plaintext (host e) (current_row w1) (vault_files w1) = Inr key"
    by (rule view_loaded [OF _ _ en(4)]) (simp_all add: row1 en(2,3))
  have c1: "row_checks (current_row w1)"
    using fi(1) assms(4) by (simp add: row1 en(2,3) row_checks_def candidate_columns_def proof_columns_def)
  have "utf8_decode key = Some (wr_api_key p)" using assms(6) by (rule utf8_roundtrip)
  note t = calm_test [OF assms(1) c1 _ _ _ _ _ l1 this, of u t out actor]
  have r2: "current_row w2 = proven_row e (current_row w1)" "vault_files w2 = vault_files w1"
    unfolding w2 using t fi(2) assms(9-13) by (simp_all add: row1)
  have c2: "row_checks (current_row w2)" "compatible_proof_bound (current_row w2)"
    using c1 fi(2) by (simp_all add: r2 row1 row_checks_def candidate_columns_def proof_columns_def proven_row_def
        compatible_proof_bound_def)
  have r3: "current_row w3 = selected_row Openai_Compatible (current_row w2)" "vault_files w3 = vault_files w2"
    unfolding w3 using calm_select [OF assms(1) c2(1) _ c2(2), of "x + 2"] fi(3) assms(8) by (simp_all add: r2 row1 proven_row_def)
  have "load_bound_plaintext (host e) (current_row w3) (vault_files w3) = Inr key"
    unfolding r3 r2 by (rule view_loaded [OF _ _ en(4)]) (simp_all add: row1 en(2,3) selected_row_def proven_row_def)
  then show ?thesis
    by (simp add: load_active_compatible_binding_def r3 r2 row1 selected_row_def proven_row_def compatible_proof_bound_def Let_def)
qed

end
