(* ===== verification/Provider_Properties.thy ===== *)
theory Provider_Properties
  imports Provider_Safety
begin

text \<open>
  The properties of the provider configuration and of its routes.
\<close>

subsection \<open>A concrete run\<close>

definition sample_actor :: user where
  "sample_actor = \<lparr>user_id = 1, username = lit ''root'', email = None, display_name = None, password_hash = [],
     role = lit ''admin'', is_active = True, session_version = 1, password_changed_at = None, last_login_at = None\<rparr>"

definition sample_listing :: json where
  "sample_listing = JObj [(lit ''data'', JArr [JObj [(lit ''id'', JStr (lit ''m''))]])]"

definition sample_env :: provider_env where
  "sample_env = \<lparr>host = sample_host, canonicalize = Some,
     egress = (\<lambda>url method path body key. Some \<lparr>outcome_ok = True, error_code = None, payload = Some sample_listing\<rparr>),
     fresh_ref = lit ''ab'', fresh_proof = lit ''cd'', tested_now = 7, failpoint = (\<lambda>_. False)\<rparr>"

definition sample_write :: write_request where
  "sample_write = \<lparr>wr_canonical_url = lit ''https://h/'', wr_display_url = lit ''h'', wr_model = lit ''m'',
     wr_generation = lit ''g'', wr_api_key = lit ''sk'', wr_expected_config_version = 1\<rparr>"

definition sample_test :: test_request where
  "sample_test = \<lparr>tr_canonical_url = lit ''https://h/'', tr_model = lit ''m'', tr_generation = lit ''g''\<rparr>"

definition world0 :: provider_world where
  "world0 = \<lparr>config = None, journal = [], vault_files = (\<lambda>_. None), probes = []\<rparr>"

definition world1 :: provider_world where
  "world1 = fst (write_candidate sample_env sample_write sample_actor 1 world0)"

definition world2 :: provider_world where
  "world2 = fst (test_candidate sample_env sample_test sample_actor world1)"

definition world3 :: provider_world where
  "world3 = fst (set_selection sample_env Openai_Compatible 3 sample_actor world2)"

lemma sample_env_fits: "env_fits sample_host sample_env"
  using sample_reads by (simp add: env_fits_def sample_env_def)

lemma world0_reach: "provider_reach sample_host world0"
  by (auto simp: provider_reach_def provider_start_def world0_def current_row_def intro!: exI [of _ world0])

lemma provider_reach_step: "provider_reach g w \<Longrightarrow> provider_step g w w' \<Longrightarrow> provider_reach g w'"
  by (auto simp: provider_reach_def intro: rtranclp.rtrancl_into_rtrancl)

lemma world3_reach: "provider_reach sample_host world3"
  unfolding world3_def world2_def world1_def
  by (intro provider_reach_step [OF _ step_select] provider_reach_step [OF _ step_test]
      provider_reach_step [OF _ step_write] world0_reach sample_env_fits)

lemma sample_calm: "calm sample_env"
  using sample_env_fits by (simp add: calm_def sample_env_def able_def sample_host_def prepare_root_def
    reject_reparse_or_hardlink_file_def FILE_ATTRIBUTE_REPARSE_POINT_def ref_pattern_def is_ref_char_def
    is_digit_def lit_def)

lemma sample_facts:
  "row_ok (current_row world0)" "config_version (current_row world0) = 1" "next_binding (current_row world0) = 1"
  "canonicalize sample_env (wr_canonical_url sample_write) = Some (lit ''https://h/'')"
  "utf8_encode (wr_api_key sample_write) = Some ''sk''"
  "get_envelope (host sample_env) (fresh_ref sample_env) (vault_files world0) = Inr None"
  "probe_models sample_env (lit ''https://h/'') (wr_model sample_write) (wr_api_key sample_write) =
     Some \<lparr>outcome_ok = True, error_code = None, payload = Some sample_listing\<rparr>"
proof -
  have w0: "current_row world0 = initial_row" by (simp add: world0_def current_row_def)
  show "row_ok (current_row world0)" by (simp add: w0)
  show "config_version (current_row world0) = 1" "next_binding (current_row world0) = 1"
    by (simp_all add: w0 initial_row_def next_binding_def)
  show "canonicalize sample_env (wr_canonical_url sample_write) = Some (lit ''https://h/'')"
    by (simp add: sample_env_def sample_write_def)
  show "utf8_encode (wr_api_key sample_write) = Some ''sk''"
    by (simp add: sample_write_def utf8_encode_lit_chars)
  have "ref_pattern (fresh_ref sample_env)" "prepare_root (host sample_env) = Inr ()"
    using sample_calm by (simp_all add: calm_def able_def)
  then show "get_envelope (host sample_env) (fresh_ref sample_env) (vault_files world0) = Inr None"
    by (simp add: get_envelope_def world0_def envelope_missing_iff [THEN iffD2])
  show "probe_models sample_env (lit ''https://h/'') (wr_model sample_write) (wr_api_key sample_write) =
     Some \<lparr>outcome_ok = True, error_code = None, payload = Some sample_listing\<rparr>"
    by (simp add: probe_models_def sample_env_def sample_write_def sample_listing_def obj_get_def listed_ids_def Let_def)
qed

lemma sample_binding: "load_active_compatible_binding sample_host world3 =
    Inr \<lparr>ab_canonical_url = lit ''https://h/'', ab_model = lit ''m'', ab_api_key = ''sk''\<rparr>"
proof -
  have "host sample_env = sample_host" "wr_model sample_write = lit ''m''" "tr_model sample_test = wr_model sample_write"
    "tr_generation sample_test = wr_generation sample_write"
    "canonicalize sample_env (tr_canonical_url sample_test) = Some (lit ''https://h/'')"
    by (simp_all add: sample_env_def sample_write_def sample_test_def)
  then show ?thesis
    using configured_binding [OF sample_calm sample_facts(1) _ _ sample_facts(4-6,2) _ _ _ sample_facts(7), of sample_test,
        OF _ _ _ _ _ _ world1_def world2_def] sample_facts(2,3)
    by (simp add: fits_integer_def world3_def)
qed

subsection \<open>The properties\<close>

text \<open>
  C4 [active_binding_probed]: after any sequence of operations, requests are only served with
  an address, a model and a key that one successful probe has confirmed together, whatever
  happened in between: rotations, removals, crashes before a commit, lost files.
\<close>

theorem active_binding_probed:
  assumes "provider_reach g w" "env_fits g e" "load_active_compatible_binding (host e) w = Inr b"
  shows "\<exists>s. utf8_decode (ab_api_key b) = Some s \<and> (ab_canonical_url b, ab_model b, s, True) \<in> set (probes w)"
proof -
  let ?row = "current_row w"
  from assms(3) obtain u m where u: "compatible_proof_bound ?row" "compatible_canonical_url ?row = Some u"
      "compatible_model ?row = Some m" "ab_canonical_url b = u" "ab_model b = m"
      "load_bound_plaintext (host e) ?row (vault_files w) = Inr (ab_api_key b)"
    by (auto simp: load_active_compatible_binding_def Let_def map_sum_def split: if_splits option.splits sum.splits)
  from u(6) obtain r v where r: "compatible_credential_ref ?row = Some r" "compatible_credential_binding_version ?row = Some v"
      "vault_view (host e) (vault_files w) r = Some (v, ab_api_key b)"
    by (rule loaded_view)
  from views_agree [OF assms(2) r(3)] have "vault_view g (vault_files w) r = Some (v, ab_api_key b)" .
  with reach_key_probed [OF assms(1)] u r show ?thesis
    by (auto simp: key_probed_def compatible_proof_bound_def Let_def)
qed

lemma active_binding_probed_witness:
  "\<exists>s. utf8_decode ''sk'' = Some s \<and> (lit ''https://h/'', lit ''m'', s, True) \<in> set (probes world3)"
proof -
  have h: "host sample_env = sample_host" by (simp add: sample_env_def)
  show ?thesis
    using active_binding_probed [OF world3_reach sample_env_fits sample_binding [folded h]] by simp
qed

text \<open>
  In an environment in which nothing fails, a candidate that is written,
  tested with the same address, model and generation, and selected at the versions these
  operations leave serves requests with exactly the key that was submitted.
\<close>

theorem configured_serves:
  assumes "calm e" "row_ok (current_row w)" "fits_integer (config_version (current_row w) + 3)"
    "fits_integer (next_binding (current_row w))" "canonicalize e (wr_canonical_url p) = Some u"
    "utf8_encode (wr_api_key p) = Some key" "get_envelope (host e) (fresh_ref e) (vault_files w) = Inr None"
    "config_version (current_row w) = x" "tr_model t = wr_model p" "tr_generation t = wr_generation p"
    "canonicalize e (tr_canonical_url t) = Some u" "probe_models e u (wr_model p) (wr_api_key p) = Some out" "outcome_ok out"
  shows "load_active_compatible_binding (host e)
      (fst (set_selection e Openai_Compatible (x + 2) actor (fst (test_candidate e t actor
        (fst (write_candidate e p actor x w)))))) =
    Inr \<lparr>ab_canonical_url = u, ab_model = wr_model p, ab_api_key = key\<rparr>"
  using configured_binding [OF assms refl refl refl] .

lemma configured_serves_witness:
  "load_active_compatible_binding (host sample_env)
      (fst (set_selection sample_env Openai_Compatible (1 + 2) sample_actor (fst (test_candidate sample_env sample_test sample_actor
        (fst (write_candidate sample_env sample_write sample_actor 1 world0)))))) =
    Inr \<lparr>ab_canonical_url = lit ''https://h/'', ab_model = wr_model sample_write, ab_api_key = ''sk''\<rparr>"
proof -
  have "tr_model sample_test = wr_model sample_write" "tr_generation sample_test = wr_generation sample_write"
    "canonicalize sample_env (tr_canonical_url sample_test) = Some (lit ''https://h/'')"
    by (simp_all add: sample_env_def sample_write_def sample_test_def)
  then show ?thesis
    using sample_facts(2,3)
    by (intro configured_serves [OF sample_calm sample_facts(1) _ _ sample_facts(4-6,2) _ _ _ sample_facts(7)])
      (simp_all add: fits_integer_def)
qed

text \<open>
  C32 [provider_rows_sound]: the stored row always satisfies its table's constraints: the
  candidate's columns are set exactly when there is one, the proof's exactly when it is
  verified, and a verified row carries the proof of exactly the candidate it holds, so that an
  activation never finds a proof of something else.
\<close>

theorem provider_rows_sound:
  assumes "provider_reach g w"
  shows "row_checks (current_row w) \<and> (compatible_state (current_row w) = Verified) = compatible_proof_bound (current_row w) \<and>
    snd (snd (activate x actor w)) \<noteq> Inl Proof_Mismatch"
proof -
  from reach_row_ok [OF assms] have r: "row_ok (current_row w)" by blast
  then have b: "(compatible_state (current_row w) = Verified) = compatible_proof_bound (current_row w)"
    by (auto simp: row_ok_def compatible_proof_bound_def)
  then have "snd (snd (activate x actor w)) \<noteq> Inl Proof_Mismatch" by (simp add: activate_def Let_def)
  with r b show ?thesis by (simp add: row_ok_def)
qed

lemma provider_rows_sound_witness: "row_checks (current_row world3)"
  using provider_rows_sound [OF world3_reach] by blast

text \<open>
  The version of the configuration is one more than the number of
  journal entries that record a change: no change of the row goes without its entry, none is
  recorded twice, and an operation that is refused or crashes moves neither.
\<close>

theorem version_counts_changes:
  assumes "provider_reach g w"
  shows "config_version (current_row w) = 1 + int (length (filter records_change (journal w)))"
  using reach_row_ok [OF assms] by (simp add: version_counts_def)

lemma version_counts_changes_witness:
  "config_version (current_row world3) = 1 + int (length (filter records_change (journal world3)))"
  by (rule version_counts_changes [OF world3_reach])

text \<open>
  No operation but the selection changes which provider serves
  requests, and the selection of the compatible one takes effect only while the row carries a
  proof of its candidate.
\<close>

theorem selection_is_explicit:
  "selected_kind (current_row (fst (write_candidate e p actor x w))) = selected_kind (current_row w) \<and>
   selected_kind (current_row (fst (test_candidate e t actor w))) = selected_kind (current_row w) \<and>
   selected_kind (current_row (fst (activate x actor w))) = selected_kind (current_row w) \<and>
   selected_kind (current_row (fst (delete_provider_credential e x actor w))) = selected_kind (current_row w) \<and>
   selected_kind (current_row (fst (reconcile e actor w))) = selected_kind (current_row w) \<and>
   selected_kind (current_row (fst (set_selection e k x actor w))) \<in>
     (if k = Openai_Compatible \<and> \<not> compatible_proof_bound (current_row w) then {selected_kind (current_row w)}
      else {selected_kind (current_row w), k})"
proof (intro conjI)
  obtain w' c r where e: "write_candidate e p actor x w = (w', c, r)" by (cases "write_candidate e p actor x w") auto
  then have "selected_kind (current_row w') = selected_kind (current_row w)"
    by (cases rule: write_candidate_cases)
      (auto simp: written_row_def clear_proof_def elim!: finish_write_cases drop_old_cases)
  with e show "selected_kind (current_row (fst (write_candidate e p actor x w))) = selected_kind (current_row w)" by simp
next
  obtain w' c r where e: "test_candidate e t actor w = (w', c, r)" by (cases "test_candidate e t actor w") auto
  then have "selected_kind (current_row w') = selected_kind (current_row w)"
    by (cases rule: test_candidate_cases) (auto simp: proven_row_def elim!: finish_test_cases)
  with e show "selected_kind (current_row (fst (test_candidate e t actor w))) = selected_kind (current_row w)" by simp
next
  obtain w' c r where e: "activate x actor w = (w', c, r)" by (cases "activate x actor w") auto
  then have "selected_kind (current_row w') = selected_kind (current_row w)"
    by (cases rule: activate_cases) (auto)
  with e show "selected_kind (current_row (fst (activate x actor w))) = selected_kind (current_row w)" by simp
next
  obtain w' c r where e: "delete_provider_credential e x actor w = (w', c, r)"
    by (cases "delete_provider_credential e x actor w") auto
  then have "selected_kind (current_row w') = selected_kind (current_row w)"
    by (cases rule: delete_cases) (auto simp: removed_row_def clear_proof_def elim!: drop_old_cases)
  with e show "selected_kind (current_row (fst (delete_provider_credential e x actor w))) = selected_kind (current_row w)" by simp
next
  obtain w' c r where e: "reconcile e actor w = (w', c, r)" by (cases "reconcile e actor w") auto
  then have "selected_kind (current_row w') = selected_kind (current_row w)"
    by (cases rule: reconcile_cases) (auto simp: drifted_row_def clear_proof_def)
  with e show "selected_kind (current_row (fst (reconcile e actor w))) = selected_kind (current_row w)" by simp
next
  obtain w' c r where e: "set_selection e k x actor w = (w', c, r)" by (cases "set_selection e k x actor w") auto
  then have "selected_kind (current_row w') \<in>
     (if k = Openai_Compatible \<and> \<not> compatible_proof_bound (current_row w) then {selected_kind (current_row w)}
      else {selected_kind (current_row w), k})"
    by (cases rule: set_selection_cases) (auto simp: selected_row_def)
  with e show "selected_kind (current_row (fst (set_selection e k x actor w))) \<in>
     (if k = Openai_Compatible \<and> \<not> compatible_proof_bound (current_row w) then {selected_kind (current_row w)}
      else {selected_kind (current_row w), k})" by simp
qed

text \<open>
  A write, a rotation, a selection, an activation or a removal that
  names another version than the stored one is refused with \<open>config_version_conflict\<close>: no
  file, row or journal entry changes and nothing is sent.
\<close>

theorem stale_version_refused:
  assumes "x \<noteq> config_version (current_row w)"
  shows "write_candidate e p actor x w = (w, False, Inl Version_Conflict) \<and>
    rotate_credential e (p\<lparr>wr_expected_config_version := x\<rparr>) actor w = (w, False, Inl Version_Conflict) \<and>
    set_selection e k x actor w = (w, False, Inl Version_Conflict) \<and>
    activate x actor w = (w, False, Inl Version_Conflict) \<and>
    delete_provider_credential e x actor w = (w, False, Inl Version_Conflict) \<and>
    provider_http_error Version_Conflict = HTTPException 409 (msg ''config_version_conflict'')"
  using assms by (auto simp: write_candidate_def rotate_credential_def set_selection_def activate_def
      delete_provider_credential_def provider_http_error_def Let_def)

lemma stale_version_refused_witness: "activate 5 sample_actor world0 = (world0, False, Inl Version_Conflict)"
  using stale_version_refused [of 5 world0] sample_facts(2) by simp

subsection \<open>Failures\<close>

text \<open>
  What an operation that raises may have done. It may not have committed: then the stored configuration and the
  journal are as they were. It may have committed a refusal: the same configuration and one entry of a failure. Or it
  did all it was asked for, with the entry of a success, and raised afterwards: the file of the former credential
  could not be removed for a reason that is no error of the store.
\<close>

definition refusal_journaled :: "provider_world \<Rightarrow> provider_world \<Rightarrow> provider_failure \<Rightarrow> bool" where
  "refusal_journaled w w' f \<longleftrightarrow>
     f \<in> {Credential_Unavailable, Selection_Invalid, Proof_Missing, Proof_Mismatch} \<and> config w' = Some (current_row w) \<and>
     (\<exists>j. journal w' = journal w @ [j] \<and> journal_result j = Failure \<and> \<not> records_change j)"

definition done_and_raised :: "provider_env \<Rightarrow> provider_world \<Rightarrow> provider_world \<Rightarrow> provider_failure \<Rightarrow> provider_row \<Rightarrow> bool" where
  "done_and_raised e w w' f row' \<longleftrightarrow>
     f = Other_Exception \<and> config w' = Some row' \<and>
     (\<exists>j. journal w' = journal w @ [j] \<and> journal_result j = Success \<and>
        config_version_before j = Some (config_version (current_row w)) \<and> config_version_after j = Some (config_version row')) \<and>
     (\<exists>r fs. compatible_credential_ref (current_row w) = Some r \<and>
        fst (delete_credential (host e) r fs) \<in> {Inl Os_Error, Inl Dpapi_Error})"

definition failure_outcome ::
    "(provider_world \<Rightarrow> provider_failure \<Rightarrow> bool) \<Rightarrow> provider_world \<Rightarrow> 'a served \<Rightarrow> bool" where
  "failure_outcome late w s =
     (case s of
        (w', committed, Inr r) \<Rightarrow> True
      | (w', committed, Inl f) \<Rightarrow>
          failure_status f \<in> {409, 422} \<and>
          (if committed then refusal_journaled w w' f \<or> late w' f
           else config w' = config w \<and> journal w' = journal w))"

lemma failure_outcome_simps [simp]:
  "failure_outcome late w (w', c, Inr r)"
  "failure_outcome late w (w', False, Inl f) \<longleftrightarrow>
     failure_status f \<in> {409, 422} \<and> config w' = config w \<and> journal w' = journal w"
  "failure_outcome late w (w', True, Inl f) \<longleftrightarrow>
     failure_status f \<in> {409, 422} \<and> (refusal_journaled w w' f \<or> late w' f)"
  by (simp_all add: failure_outcome_def)

lemma drop_old_raised:
  assumes "drop_old e old w = (w', False)"
  shows "config w' = config w \<and> journal w' = journal w \<and>
    (\<exists>r fs. old = Some r \<and> fst (delete_credential (host e) r fs) \<in> {Inl Os_Error, Inl Dpapi_Error})"
proof (cases old)
  case (Some r)
  obtain x fs where d: "delete_credential (host e) r (vault_files w) = (x, fs)" by fastforce
  with assms Some have "x \<in> {Inl Os_Error, Inl Dpapi_Error}"
    by (auto simp: drop_old_def split: sum.splits store_failure.splits)
  with assms Some d show ?thesis by (auto simp: drop_old_def intro!: exI [of _ "vault_files w"])
qed (use assms in \<open>simp add: drop_old_def\<close>)

lemma refusal_journaled_commit:
  "f \<in> {Credential_Unavailable, Selection_Invalid, Proof_Missing, Proof_Mismatch} \<Longrightarrow> after = None \<or> after = Some v \<Longrightarrow>
    journal w1 = journal w \<Longrightarrow>
    refusal_journaled w (commit [journal_entry op k Failure reason actor v after] (current_row w) w1) f"
  by (auto simp: refusal_journaled_def journal_entry_def records_change_def)

lemma finish_write_outcome:
  assumes "config w1 = config w" "journal w1 = journal w"
  shows "failure_outcome (\<lambda>w' f. done_and_raised e w w' f (written_row p url en (current_row w))) w
    (finish_write e p actor url en (current_row w) w1)"
proof -
  obtain w' c r where f: "finish_write e p actor url en (current_row w) w1 = (w', c, r)" by (metis prod_cases3)
  from f show ?thesis
  proof (cases rule: finish_write_cases)
    case crashed
    with f assms show ?thesis by simp
  next
    case (written ok)
    show ?thesis
    proof (cases ok)
      case True
      with f written show ?thesis by simp
    next
      case False
      have v: "config_version (written_row p url en (current_row w)) = config_version (current_row w) + 1"
        by (simp add: written_row_def clear_proof_def)
      from False written drop_old_raised [of e _ _ w'] have "done_and_raised e w w' Other_Exception (written_row p url en (current_row w))"
        using v assms(2) by (fastforce simp: done_and_raised_def journal_entry_def split: if_splits)
      with f written False show ?thesis by simp
    qed
  qed
qed

lemma write_outcome:
  "failure_outcome (\<lambda>w' f. \<exists>url en. done_and_raised e w w' f (written_row p url en (current_row w))) w
    (write_candidate e p actor x w)"
proof -
  have more: "failure_outcome (\<lambda>w' f. \<exists>url en. done_and_raised e w w' f (written_row p url en (current_row w))) w s"
    if "failure_outcome (\<lambda>w' f. done_and_raised e w w' f (written_row p url en (current_row w))) w s" for s url en
    using that by (auto simp: failure_outcome_def split: prod.splits sum.splits if_splits)
  show ?thesis unfolding write_candidate_def Let_def
    by (auto simp: refusal_journaled_commit intro!: more finish_write_outcome
      split: option.splits sum.splits prod.splits store_failure.splits)
qed

lemma load_bound_failure: "load_bound_plaintext h row fs = Inl f \<Longrightarrow> failure_status f \<in> {409, 422}"
proof -
  have "failure_status (store_failure_of x) = 409" for x by (cases x) simp_all
  then show "load_bound_plaintext h row fs = Inl f \<Longrightarrow> failure_status f \<in> {409, 422}"
    by (auto simp: load_bound_plaintext_def map_sum_def split: option.splits sum.splits if_splits)
qed

lemma test_outcome: "failure_outcome (\<lambda>_ _. False) w (test_candidate e p actor w)"
proof -
  have "failure_outcome (\<lambda>_ _. False) w (finish_test e actor out (current_row w) (w\<lparr>probes := ps\<rparr>))" for out ps
    by (simp add: finish_test_def)
  then show ?thesis unfolding test_candidate_def Let_def
    by (auto dest!: load_bound_failure split: option.splits sum.splits)
qed

lemma select_outcome: "failure_outcome (\<lambda>_ _. False) w (set_selection e k x actor w)"
  unfolding set_selection_def Let_def by (auto simp: refusal_journaled_commit)

lemma activate_outcome: "failure_outcome (\<lambda>_ _. False) w (activate x actor w)"
  unfolding activate_def Let_def by (auto simp: refusal_journaled_commit)

lemma reconcile_outcome: "failure_outcome (\<lambda>_ _. False) w (reconcile e actor w)"
  unfolding reconcile_def Let_def by (auto split: option.splits bool.splits)

lemma delete_outcome:
  "failure_outcome (\<lambda>w' f. done_and_raised e w w' f (removed_row (current_row w))) w (delete_provider_credential e x actor w)"
proof -
  have v: "config_version (removed_row (current_row w)) = config_version (current_row w) + 1"
    by (simp add: removed_row_def clear_proof_def)
  have "done_and_raised e w w' Other_Exception (removed_row (current_row w))"
    if "drop_old e (compatible_credential_ref (current_row w)) (commit [journal_entry Op_Delete Openai_Compatible Success None
      actor (config_version (current_row w)) (Some (config_version (current_row w) + 1))] (removed_row (current_row w)) w) = (w', False)" for w'
    using drop_old_raised [OF that] v by (fastforce simp: done_and_raised_def journal_entry_def)
  then show ?thesis unfolding delete_provider_credential_def Let_def by (auto split: prod.splits)
qed

lemma drop_old_raises_iff:
  "snd (drop_old e old w) = False \<longleftrightarrow> (\<exists>r. old = Some r) \<and> prepare_root (host e) \<in> {Inl Os_Error, Inl Dpapi_Error}"
proof (cases old)
  case (Some r)
  have "fst (delete_credential (host e) r (vault_files w)) \<in> {Inl Os_Error, Inl Dpapi_Error} \<longleftrightarrow>
      prepare_root (host e) \<in> {Inl Os_Error, Inl Dpapi_Error}"
    by (cases "prepare_root (host e)")
      (auto simp: delete_credential_def blob_path_def safe_ref_def reject_reparse_or_hardlink_file_def
        split: option.splits sum.splits if_splits)
  moreover have "snd (drop_old e old w) = False \<longleftrightarrow>
      fst (delete_credential (host e) r (vault_files w)) \<in> {Inl Os_Error, Inl Dpapi_Error}"
    using Some by (auto simp: drop_old_def split: prod.splits sum.splits store_failure.splits)
  ultimately show ?thesis using Some by simp
qed (simp add: drop_old_def)

lemma delete_raises_late:
  "(\<exists>w' f. delete_provider_credential e x actor w = (w', True, Inl f)) \<longleftrightarrow>
     config_version (current_row w) = x \<and> \<not> failpoint e ''delete_candidate.pre_commit'' \<and>
     row_checks (removed_row (current_row w)) \<and> (\<exists>r. compatible_credential_ref (current_row w) = Some r) \<and>
     prepare_root (host e) \<in> {Inl Os_Error, Inl Dpapi_Error}"
proof -
  let ?w1 = "commit [journal_entry Op_Delete Openai_Compatible Success None actor (config_version (current_row w))
    (Some (config_version (current_row w) + 1))] (removed_row (current_row w)) w"
  have "(\<exists>w' f. delete_provider_credential e x actor w = (w', True, Inl f)) \<longleftrightarrow>
     config_version (current_row w) = x \<and> \<not> failpoint e ''delete_candidate.pre_commit'' \<and>
     row_checks (removed_row (current_row w)) \<and>
     snd (drop_old e (compatible_credential_ref (current_row w)) ?w1) = False"
    by (auto simp: delete_provider_credential_def Let_def split: prod.splits)
  then show ?thesis unfolding drop_old_raises_iff by simp
qed

text \<open>
  C35 [failures_accounted]: whatever an operation of the service raises, the database tells what happened. If it did
  not commit, the configuration and the journal are as they were. If it did, it either left the configuration as it
  was and journaled one failure, or it is a write, a rotation or a removal that took full effect, is journaled as a
  success, and raised because the file of the former credential could not be removed; the removal does so exactly
  when there is a former credential and the directory of the store cannot be made. The administrator is
  answered 409 or 422 in every case: these operations never give the 503 of an unavailable provider.
\<close>

theorem failures_accounted:
  "failure_outcome (\<lambda>w' f. \<exists>url en. done_and_raised e w w' f (written_row p url en (current_row w))) w
     (write_candidate e p actor x w) \<and>
   failure_outcome (\<lambda>w' f. \<exists>url en. done_and_raised e w w' f (written_row p url en (current_row w))) w
     (rotate_credential e p actor w) \<and>
   failure_outcome (\<lambda>w' f. done_and_raised e w w' f (removed_row (current_row w))) w (delete_provider_credential e x actor w) \<and>
   failure_outcome (\<lambda>_ _. False) w (test_candidate e t actor w) \<and>
   failure_outcome (\<lambda>_ _. False) w (set_selection e k x actor w) \<and>
   failure_outcome (\<lambda>_ _. False) w (activate x actor w) \<and> failure_outcome (\<lambda>_ _. False) w (reconcile e actor w) \<and>
   ((\<exists>w' f. delete_provider_credential e x actor w = (w', True, Inl f)) \<longleftrightarrow>
      config_version (current_row w) = x \<and> \<not> failpoint e ''delete_candidate.pre_commit'' \<and>
      row_checks (removed_row (current_row w)) \<and> (\<exists>r. compatible_credential_ref (current_row w) = Some r) \<and>
      prepare_root (host e) \<in> {Inl Os_Error, Inl Dpapi_Error})"
  unfolding rotate_credential_def delete_raises_late
  by (intro conjI write_outcome delete_outcome test_outcome select_outcome activate_outcome reconcile_outcome refl)

text \<open>
  Once a new candidate is written or the credential is removed,
  no request is served with the compatible provider until it is tested again, although the
  selection stays where it was (the introduction of the service says it is set back).
\<close>

theorem replacement_stops_service:
  assumes "write_candidate e p actor x w = (w', True, Inr r) \<or> delete_provider_credential e x actor w = (w', True, Inr r)"
  shows "load_active_compatible_binding h w' = Inl Selection_Invalid \<and>
    selected_kind (current_row w') = selected_kind (current_row w)"
proof -
  from assms have "(\<exists>p url en. current_row w' = written_row p url en (current_row w)) \<or> current_row w' = removed_row (current_row w)"
  proof
    assume "write_candidate e p actor x w = (w', True, Inr r)"
    then have "\<exists>url en. current_row w' = written_row p url en (current_row w)"
    proof (cases rule: write_candidate_cases)
      case (stored url key en fs)
      from stored(5) have "current_row w' = written_row p url en (current_row w)"
        by (cases rule: finish_write_cases) (auto elim!: drop_old_cases)
      then show ?thesis by blast
    qed simp_all
    then show ?thesis by blast
  next
    assume "delete_provider_credential e x actor w = (w', True, Inr r)"
    then show ?thesis by (cases rule: delete_cases) (auto elim!: drop_old_cases)
  qed
  then show ?thesis
    by (auto simp: load_active_compatible_binding_def compatible_proof_bound_def written_row_def removed_row_def
        clear_proof_def Let_def)
qed

lemma sample_removal: "\<exists>w' r. delete_provider_credential sample_env 1 sample_actor world0 = (w', True, Inr r)"
proof -
  have "config_version (current_row world0) = 1" by (rule sample_facts)
  moreover have "compatible_credential_ref (current_row world0) = None" "row_checks (removed_row (current_row world0))"
    by (simp_all add: world0_def current_row_def initial_row_def row_checks_def candidate_columns_def proof_columns_def
        removed_row_def clear_proof_def fits_integer_def)
  ultimately show ?thesis
    by (simp add: delete_provider_credential_def drop_old_def sample_env_def Let_def)
qed

lemma replacement_stops_service_witness:
  "load_active_compatible_binding sample_host (fst (delete_provider_credential sample_env 1 sample_actor world0)) =
     Inl Selection_Invalid"
proof -
  obtain w' r where "delete_provider_credential sample_env 1 sample_actor world0 = (w', True, Inr r)"
    using sample_removal by blast
  then show ?thesis using replacement_stops_service [OF disjI2] by simp
qed

text \<open>The audit record of a reconciliation: its reason is \<open>reconciled\<close> exactly when nothing had to
  be done, and \<open>noop\<close> when the proof was taken back.\<close>

lemma reconcile_audit_inverted:
  assumes "reconcile e actor w = (w', c, Inr r)"
  shows "arg_metadata (reconcile_audit req actor r) = Some m \<Longrightarrow>
    obj_get (lit ''reason_code'') m =
      Some (JStr (lit (if current_row w' = current_row w then ''reconciled'' else ''noop'')))"
proof -
  have ne: "drifted_row (current_row w) \<noteq> current_row w"
    using version_rows(5) [of "current_row w"] by (metis add_cancel_right_right one_neq_zero)
  from assms have "rr_reconciled r = (current_row w' = current_row w)"
    by (cases rule: reconcile_cases) (auto simp: ne)
  then show "arg_metadata (reconcile_audit req actor r) = Some m \<Longrightarrow> ?thesis"
    by (auto simp: reconcile_audit_def provider_audit_call_def build_ai_provider_audit_metadata_def obj_get_def)
qed

end
