(* ===== verification/Py_Net.thy ===== *)
theory Py_Net
  imports Py_Text
begin

text \<open>
  What the outbound transport uses of Python's standard library: \<open>urllib.parse.urlsplit\<close> with
  the host name and port of its result, and of \<open>ipaddress\<close> the reading and printing of
  addresses, the tests of their ranges and the membership in networks, as of Python 3.12.7,
  the version the package ships. IPv4 and IPv6 addresses are words of 32 and 128 bits. The
  main facts are the round trip of printed IPv4 addresses and the reading of host and port
  out of a network location.
\<close>

unbundle bit_operations_syntax

subsection \<open>Splitting text once\<close>

definition before_sep :: "nat \<Rightarrow> pystr \<Rightarrow> pystr" where
  "before_sep c s = takeWhile (\<lambda>x. x \<noteq> c) s"

definition after_sep :: "nat \<Rightarrow> pystr \<Rightarrow> pystr" where
  "after_sep c s = drop (Suc (length (before_sep c s))) s"

text \<open>\<open>s.rpartition(c)[2]\<close>.\<close>

definition after_last :: "nat \<Rightarrow> pystr \<Rightarrow> pystr" where
  "after_last c s = rev (takeWhile (\<lambda>x. x \<noteq> c) (rev s))"

lemma before_after_append:
  "c \<notin> set a \<Longrightarrow> before_sep c (a @ c # r) = a" "c \<notin> set a \<Longrightarrow> after_sep c (a @ c # r) = r"
  by (simp_all add: before_sep_def after_sep_def takeWhile_upto)

lemma before_absent: "c \<notin> set s \<Longrightarrow> before_sep c s = s"
  by (simp add: before_sep_def takeWhile_eq_all_conv) (metis)

lemma after_absent: "c \<notin> set s \<Longrightarrow> after_sep c s = []"
  by (simp add: after_sep_def before_absent)

lemma after_last_absent: "c \<notin> set s \<Longrightarrow> after_last c s = s"
  using before_absent [of c "rev s"] unfolding after_last_def before_sep_def by (metis rev_rev_ident set_rev)

subsection \<open>Hexadecimal numerals\<close>

definition is_hex :: "nat \<Rightarrow> bool" where
  "is_hex c \<longleftrightarrow> is_digit c \<or> 65 \<le> c \<and> c \<le> 70 \<or> 97 \<le> c \<and> c \<le> 102"

definition hex_digit_value :: "nat \<Rightarrow> nat" where
  "hex_digit_value c = (if c \<le> 57 then c - 48 else if c \<le> 70 then c - 55 else c - 87)"

definition hex_number :: "pystr \<Rightarrow> nat" where
  "hex_number s = foldl (\<lambda>a c. 16 * a + hex_digit_value c) 0 s"

fun hex_text :: "nat \<Rightarrow> pystr" where
  "hex_text n =
     (let d = n mod 16; c = (if d < 10 then 48 + d else 87 + d)
      in if n < 16 then [c] else hex_text (n div 16) @ [c])"

declare hex_text.simps [simp del]

subsection \<open>Addresses\<close>

datatype ip = V4 "32 word" | V6 "128 word" "pystr option"

definition parse_octet :: "pystr \<Rightarrow> nat option" where
  "parse_octet s =
     (if s = [] \<or> \<not> list_all is_digit s \<or> 3 < length s \<or> (s \<noteq> [48] \<and> hd s = 48) \<or> 255 < dec_value s
      then None else Some (dec_value s))"

definition ipv4_of :: "pystr \<Rightarrow> (32 word) option" where
  "ipv4_of s =
     (if 47 \<in> set s then None
      else
        (case map parse_octet (split_on 46 s) of
           [Some a, Some b, Some c, Some d] \<Rightarrow> Some (of_nat (((a * 256 + b) * 256 + c) * 256 + d))
         | _ \<Rightarrow> None))"

definition ipv4_text :: "32 word \<Rightarrow> pystr" where
  "ipv4_text w = join_with [46] (map (\<lambda>k. dec_digits (unat w div 256 ^ k mod 256)) [3, 2, 1, 0])"

definition parse_hextet :: "pystr \<Rightarrow> nat option" where
  "parse_hextet s = (if s = [] \<or> \<not> list_all is_hex s \<or> 4 < length s then None else Some (hex_number s))"

fun all_some :: "'a option list \<Rightarrow> 'a list option" where
  "all_some [] = Some []"
| "all_some (None # xs) = None"
| "all_some (Some x # xs) = map_option (Cons x) (all_some xs)"

text \<open>The hextets a list of parts stands for, \<open>''::''\<close> filled up.\<close>

definition hextets_of :: "pystr list \<Rightarrow> nat list option" where
  "hextets_of parts =
     (case filter (\<lambda>i. parts ! i = []) [1..<length parts - 1] of
        [] \<Rightarrow>
          if length parts \<noteq> 8 \<or> hd parts = [] \<or> last parts = [] then None
          else all_some (map parse_hextet parts)
      | [k] \<Rightarrow>
          let hi = (if hd parts = [] then k - 1 else k);
              below = length parts - k - 1;
              lo = (if last parts = [] then below - 1 else below)
          in if (hd parts = [] \<and> hi \<noteq> 0) \<or> (last parts = [] \<and> lo \<noteq> 0) \<or> 8 \<le> hi + lo then None
             else all_some (map parse_hextet (take hi parts) @ replicate (8 - (hi + lo)) (Some 0) @
               map parse_hextet (drop (length parts - lo) parts))
      | _ \<Rightarrow> None)"

definition ipv6_int_of :: "pystr \<Rightarrow> (128 word) option" where
  "ipv6_int_of s =
     (let parts = split_on 58 s
      in if s = [] \<or> length parts < 3 then None
         else
           Option.bind
             (if 46 \<in> set (last parts)
              then map_option (\<lambda>w. butlast parts @ [hex_text (unat w div 65536), hex_text (unat w mod 65536)])
                     (ipv4_of (last parts))
              else Some parts)
             (\<lambda>parts'. if 9 < length parts' then None
                else map_option (\<lambda>hs. of_nat (foldl (\<lambda>a h. a * 65536 + h) 0 hs)) (hextets_of parts')))"

definition ipv6_of :: "pystr \<Rightarrow> (128 word \<times> pystr option) option" where
  "ipv6_of s =
     (if 47 \<in> set s then None
      else
        (let scope = after_sep 37 s
         in if 37 \<in> set s \<and> (scope = [] \<or> 37 \<in> set scope) then None
            else map_option (\<lambda>w. (w, if 37 \<in> set s then Some scope else None)) (ipv6_int_of (before_sep 37 s))))"

definition ip_address :: "pystr \<Rightarrow> ip option" where
  "ip_address s =
     (case ipv4_of s of
        Some w \<Rightarrow> Some (V4 w)
      | None \<Rightarrow> map_option (\<lambda>(w, scope). V6 w scope) (ipv6_of s))"

text \<open>Printing: the longest run of zero hextets, the first of them, is left out when it has more
  than one.\<close>

definition zero_runs :: "pystr list \<Rightarrow> nat list" where
  "zero_runs hs = map (\<lambda>i. length (takeWhile (\<lambda>h. h = [48]) (drop i hs))) [0..<length hs]"

definition compress_hextets :: "pystr list \<Rightarrow> pystr list" where
  "compress_hextets hs =
     (let best = foldr max (zero_runs hs) 0;
          start = length (takeWhile (\<lambda>n. n \<noteq> best) (zero_runs hs));
          stop = start + best
      in if best \<le> 1 then hs
         else (if start = 0 then [[]] else []) @ take start hs @ [[]] @ drop stop hs @
           (if stop = length hs then [[]] else []))"

definition ipv6_text :: "128 word \<Rightarrow> pystr" where
  "ipv6_text w =
     join_with [58] (compress_hextets (map (\<lambda>k. hex_text (unat w div 65536 ^ k mod 65536)) [7, 6, 5, 4, 3, 2, 1, 0]))"

fun ip_text :: "ip \<Rightarrow> pystr" where
  "ip_text (V4 w) = ipv4_text w"
| "ip_text (V6 w scope) = ipv6_text w @ (case scope of None \<Rightarrow> [] | Some z \<Rightarrow> 37 # z)"

subsection \<open>Ranges\<close>

definition ipv4_mapped :: "128 word \<Rightarrow> (32 word) option" where
  "ipv4_mapped w = (if drop_bit 32 w = 65535 then Some (ucast w) else None)"

definition v4_unspecified :: "32 word \<Rightarrow> bool" where "v4_unspecified w \<longleftrightarrow> w = 0"
definition v4_multicast :: "32 word \<Rightarrow> bool" where "v4_multicast w \<longleftrightarrow> drop_bit 28 w = 14"
definition v4_reserved :: "32 word \<Rightarrow> bool" where "v4_reserved w \<longleftrightarrow> drop_bit 28 w = 15"
definition v4_link_local :: "32 word \<Rightarrow> bool" where "v4_link_local w \<longleftrightarrow> drop_bit 16 w = 43518"

definition v6_multicast_range :: "128 word \<Rightarrow> bool" where "v6_multicast_range w \<longleftrightarrow> drop_bit 120 w = 255"

definition v6_reserved_range :: "128 word \<Rightarrow> bool" where
  "v6_reserved_range w \<longleftrightarrow>
     list_ex (\<lambda>(shift, v). drop_bit shift w = v)
       [(120, 0), (120, 1), (121, 1), (122, 1), (123, 1), (124, 1), (125, 2), (125, 3), (125, 4), (125, 5), (125, 6),
        (124, 14), (123, 30), (122, 62), (119, 508)]"

definition v6_site_local :: "128 word \<Rightarrow> bool" where "v6_site_local w \<longleftrightarrow> drop_bit 118 w = 1019"

text \<open>The properties of an IPv6 address ask the IPv4 address it maps, where it maps one.\<close>

fun is_unspecified :: "ip \<Rightarrow> bool" where
  "is_unspecified (V4 w) = v4_unspecified w"
| "is_unspecified (V6 w _) = (case ipv4_mapped w of Some m \<Rightarrow> v4_unspecified m | None \<Rightarrow> w = 0)"

fun is_multicast :: "ip \<Rightarrow> bool" where
  "is_multicast (V4 w) = v4_multicast w"
| "is_multicast (V6 w _) = (case ipv4_mapped w of Some m \<Rightarrow> v4_multicast m | None \<Rightarrow> v6_multicast_range w)"

fun is_reserved :: "ip \<Rightarrow> bool" where
  "is_reserved (V4 w) = v4_reserved w"
| "is_reserved (V6 w _) = (case ipv4_mapped w of Some m \<Rightarrow> v4_reserved m | None \<Rightarrow> v6_reserved_range w)"

subsection \<open>Networks\<close>

datatype network = Net4 "32 word" nat | Net6 "128 word" nat

definition netmask :: "nat \<Rightarrow> 'a::len word" where
  "netmask n = (- 1) XOR drop_bit n (- 1)"

definition prefix_number :: "nat \<Rightarrow> pystr \<Rightarrow> nat option" where
  "prefix_number max_prefix s =
     (if s \<noteq> [] \<and> list_all is_digit s \<and> length s \<le> 4300 \<and> dec_value s \<le> max_prefix then Some (dec_value s) else None)"

text \<open>A dotted mask, of the network or of the hosts.\<close>

definition prefix_of_mask :: "32 word \<Rightarrow> nat option" where
  "prefix_of_mask w =
     (case filter (\<lambda>n. netmask n = w) [0..<33] of
        n # _ \<Rightarrow> Some n
      | [] \<Rightarrow> (case filter (\<lambda>n. netmask n = NOT w) [0..<33] of n # _ \<Rightarrow> Some n | [] \<Rightarrow> None))"

definition net4_of :: "pystr list \<Rightarrow> network option" where
  "net4_of parts =
     (case parts of
        [a] \<Rightarrow> map_option (\<lambda>w. Net4 w 32) (ipv4_of a)
      | [a, m] \<Rightarrow>
          Option.bind (ipv4_of a) (\<lambda>w.
          Option.bind (case prefix_number 32 m of Some n \<Rightarrow> Some n | None \<Rightarrow> Option.bind (ipv4_of m) prefix_of_mask)
            (\<lambda>n. Some (Net4 (w AND netmask n) n)))
      | _ \<Rightarrow> None)"

definition net6_of :: "pystr list \<Rightarrow> network option" where
  "net6_of parts =
     (case parts of
        [a] \<Rightarrow> map_option (\<lambda>(w, _). Net6 w 128) (ipv6_of a)
      | [a, m] \<Rightarrow>
          Option.bind (ipv6_of a) (\<lambda>(w, _). Option.bind (prefix_number 128 m) (\<lambda>n. Some (Net6 (w AND netmask n) n)))
      | _ \<Rightarrow> None)"

definition ip_network :: "pystr \<Rightarrow> network option" where
  "ip_network s =
     (let parts = split_on 47 s
      in case net4_of parts of Some n \<Rightarrow> Some n | None \<Rightarrow> net6_of parts)"

fun in_network :: "ip \<Rightarrow> network \<Rightarrow> bool" where
  "in_network (V4 w) (Net4 a n) = (w AND netmask n = a)"
| "in_network (V6 w _) (Net6 a n) = (w AND netmask n = a)"
| "in_network _ _ = False"

text \<open>The order of \<open>min\<close> with the key \<open>(version, int(address))\<close>.\<close>

fun ip_key :: "ip \<Rightarrow> nat \<times> nat" where
  "ip_key (V4 w) = (4, unat w)"
| "ip_key (V6 w _) = (6, unat w)"

subsection \<open>\<open>urlsplit\<close>\<close>

record split_url =
  url_scheme :: pystr
  url_netloc :: pystr
  url_path :: pystr
  url_query :: pystr
  url_fragment :: pystr

definition is_alpha :: "nat \<Rightarrow> bool" where
  "is_alpha c \<longleftrightarrow> 65 \<le> c \<and> c \<le> 90 \<or> 97 \<le> c \<and> c \<le> 122"

definition scheme_char :: "nat \<Rightarrow> bool" where
  "scheme_char c \<longleftrightarrow> is_alpha c \<or> is_digit c \<or> c = 43 \<or> c = 45 \<or> c = 46"

definition check_bracketed_host :: "pystr \<Rightarrow> bool" where
  "check_bracketed_host h =
     (if starts_with h [118]
      then
        (let hex = takeWhile is_hex (drop 1 h); rest = drop (Suc (length hex)) h
         in hex \<noteq> [] \<and> starts_with rest [46] \<and> 1 < length rest \<and> 10 \<notin> set rest)
      else (case ip_address h of Some (V6 _ _) \<Rightarrow> True | _ \<Rightarrow> False))"

definition is_delim :: "nat \<Rightarrow> bool" where
  "is_delim c \<longleftrightarrow> c = 47 \<or> c = 63 \<or> c = 35"

text \<open>\<open>None\<close> is \<open>ValueError\<close>; \<open>nfkc_ok\<close> is the answer of \<open>_checknetloc\<close> for a location that is not
  ASCII, which depends on the tables of Unicode.\<close>

definition split_scheme :: "pystr \<Rightarrow> pystr \<times> pystr" where
  "split_scheme url =
     (let s = before_sep 58 url
      in if 58 \<in> set url \<and> s \<noteq> [] \<and> is_alpha (hd s) \<and> list_all scheme_char s
         then (map ascii_lower s, after_sep 58 url) else ([], url))"

definition split_netloc :: "pystr \<Rightarrow> pystr \<times> pystr" where
  "split_netloc url =
     (if starts_with url [47, 47]
      then (takeWhile (\<lambda>c. \<not> is_delim c) (drop 2 url), dropWhile (\<lambda>c. \<not> is_delim c) (drop 2 url))
      else ([], url))"

definition netloc_ok :: "(pystr \<Rightarrow> bool) \<Rightarrow> pystr \<Rightarrow> bool" where
  "netloc_ok nfkc_ok netloc \<longleftrightarrow>
     (91 \<in> set netloc) = (93 \<in> set netloc) \<and>
     (if 91 \<in> set netloc then check_bracketed_host (before_sep 93 (after_sep 91 netloc)) else True) \<and>
     (list_all (\<lambda>c. c < 128) netloc \<or> nfkc_ok netloc)"

definition urlsplit :: "(pystr \<Rightarrow> bool) \<Rightarrow> pystr \<Rightarrow> split_url option" where
  "urlsplit nfkc_ok text =
     (let clean = filter (\<lambda>c. c \<notin> {9, 10, 13}) (dropWhile (\<lambda>c. c \<le> 32) text);
          (scheme, url) = split_scheme clean;
          (netloc, tail) = split_netloc url;
          (tail', fragment) = (before_sep 35 tail, after_sep 35 tail)
      in if \<not> netloc_ok nfkc_ok netloc then None
         else Some \<lparr>url_scheme = scheme, url_netloc = netloc, url_path = before_sep 63 tail',
           url_query = after_sep 63 tail', url_fragment = fragment\<rparr>)"

text \<open>\<open>hostname\<close> and \<open>port\<close>: the outer \<open>None\<close> of the port is \<open>ValueError\<close>. There is user information
  exactly where the location has an \<open>@\<close>.\<close>

definition hostinfo :: "pystr \<Rightarrow> pystr \<times> pystr" where
  "hostinfo netloc =
     (let info = after_last 64 netloc
      in if 91 \<in> set info
         then (before_sep 93 (after_sep 91 info), after_sep 58 (after_sep 93 (after_sep 91 info)))
         else (before_sep 58 info, after_sep 58 info))"

definition url_hostname :: "pystr \<Rightarrow> pystr option" where
  "url_hostname netloc =
     (let h = fst (hostinfo netloc)
      in if h = [] then None
         else Some (lower (before_sep 37 h) @ (if 37 \<in> set h then 37 # after_sep 37 h else [])))"

definition url_port :: "pystr \<Rightarrow> nat option option" where
  "url_port netloc =
     (let p = snd (hostinfo netloc)
      in if p = [] then Some None
         else if list_all is_digit p \<and> length p \<le> 4300 \<and> dec_value p \<le> 65535 then Some (Some (dec_value p)) else None)"

end
