(* ===== verification/Egress.thy ===== *)
theory Egress
  imports Py_Net Py_Json
begin

text \<open>
  The outbound transport of the OpenAI-compatible provider (\<open>modules/ai/egress_transport.py\<close>):
  the canonical form of an endpoint, the choice of the one address a connection may go to,
  one bounded JSON exchange over it, and the checks of the answers of the three calls.
  Name resolution, sockets, TLS and the HTTP library are parameters (\<open>net\<close>), and so are the
  Unicode tables of \<open>idna\<close> and \<open>urlsplit\<close>; the requests that are put on the wire are a result
  of the exchange.
\<close>

unbundle bit_operations_syntax

subsection \<open>Errors\<close>

datatype egress_code = URL_INVALID | URL_UNSAFE_COMPONENT | SCHEME_NOT_ALLOWED | HOST_INVALID | HOST_AMBIGUOUS
  | PORT_NOT_ALLOWED | PEER_POLICY_DENIED | DNS_RESOLUTION_FAILED | PEER_EQUALITY_FAILED | TLS_VERIFICATION_FAILED
  | CONNECT_FAILED | REDIRECT_REJECTED | REQUEST_TOO_LARGE | RESPONSE_TOO_LARGE | INVALID_JSON | HTTP_ERROR
  | SHAPE_INVALID

fun egress_code_value :: "egress_code \<Rightarrow> string" where
  "egress_code_value URL_INVALID = ''url-invalid''"
| "egress_code_value URL_UNSAFE_COMPONENT = ''url-unsafe-component''"
| "egress_code_value SCHEME_NOT_ALLOWED = ''scheme-not-allowed''"
| "egress_code_value HOST_INVALID = ''host-invalid''"
| "egress_code_value HOST_AMBIGUOUS = ''host-ambiguous''"
| "egress_code_value PORT_NOT_ALLOWED = ''port-not-allowed''"
| "egress_code_value PEER_POLICY_DENIED = ''peer-policy-denied''"
| "egress_code_value DNS_RESOLUTION_FAILED = ''dns-resolution-failed''"
| "egress_code_value PEER_EQUALITY_FAILED = ''peer-equality-failed''"
| "egress_code_value TLS_VERIFICATION_FAILED = ''tls-verification-failed''"
| "egress_code_value CONNECT_FAILED = ''connect-failed''"
| "egress_code_value REDIRECT_REJECTED = ''redirect-rejected''"
| "egress_code_value REQUEST_TOO_LARGE = ''request-too-large''"
| "egress_code_value RESPONSE_TOO_LARGE = ''response-too-large''"
| "egress_code_value INVALID_JSON = ''invalid-json''"
| "egress_code_value HTTP_ERROR = ''http-error''"
| "egress_code_value SHAPE_INVALID = ''upstream-shape-invalid''"

text \<open>\<open>EgressError\<close>, or an exception the transport lets through.\<close>

datatype egress_failure = Egress_Error egress_code | Uncaught

type_synonym 'a egressed = "(egress_failure, 'a) result"

subsection \<open>Endpoints and policies\<close>

record endpoint =
  ep_scheme :: pystr
  ep_host :: pystr
  ep_port :: nat
  ep_path :: pystr
  ep_canonical_url :: pystr

record peer =
  peer_ip :: pystr
  peer_v6 :: bool

text \<open>The two timeouts of the policy are only handed to the sockets.\<close>

record egress_policy =
  max_request_bytes :: int
  max_response_bytes :: int
  allow_insecure_http :: bool

record peer_policy =
  allowed_hostnames :: "pystr set option"
  allowed_cidrs :: "pystr list"
  allowed_ports :: "nat set"

text \<open>
  What the transport asks of the operating system, of the TLS and HTTP libraries and of the
  tables of Unicode. \<open>None\<close> of \<open>getaddrinfo\<close> and \<open>socket_connect\<close> is \<open>OSError\<close>; a connection
  gives the address \<open>getpeername\<close> names. An answer to a request is its status and its chunks,
  the first that is empty being the end; \<open>Os_Failure\<close> is an \<open>OSError\<close> or a timeout,
  \<open>Library_Failure\<close> an \<open>HTTPException\<close> that is neither (such as \<open>BadStatusLine\<close> or \<open>IncompleteRead\<close>).
\<close>

datatype chunk_read = Chunk bytes | Read_Os_Failure | Read_Library_Failure
datatype http_answer = Os_Failure | Library_Failure | Answer int "nat \<Rightarrow> chunk_read"
datatype handshake = Tls_Verified | Tls_Refused | Tls_Broken

text \<open>The requests the code hands to a connection, with the headers it sets.\<close>

record wire_request =
  wire_peer :: pystr
  wire_port :: nat
  wire_tls :: "pystr option"
  wire_method :: string
  wire_path :: pystr
  wire_headers :: "(pystr \<times> pystr) list"
  wire_body :: "pystr option"

record net =
  nfkc_ok :: "pystr \<Rightarrow> bool"
  idna :: "pystr \<Rightarrow> pystr option"
  getaddrinfo :: "pystr \<Rightarrow> nat \<Rightarrow> pystr list option"
  socket_connect :: "pystr \<Rightarrow> nat \<Rightarrow> pystr option"
  wrap_socket :: "pystr \<Rightarrow> pystr \<Rightarrow> handshake"
  http_exchange :: "wire_request \<Rightarrow> http_answer"
  app_version :: pystr

subsection \<open>Hosts\<close>

definition MAX_URL_LENGTH :: nat where "MAX_URL_LENGTH = 2048"

text \<open>A mapped IPv4 address is checked as well; the IPv4 branch calls nothing.\<close>

definition reject_unsafe_v4 :: "32 word \<Rightarrow> unit egressed" where
  "reject_unsafe_v4 w =
     (if is_unspecified (V4 w) \<or> is_multicast (V4 w) \<or> is_reserved (V4 w) then Inl (Egress_Error HOST_AMBIGUOUS)
      else if v4_link_local w then Inl (Egress_Error HOST_AMBIGUOUS) else Inr ())"

definition reject_unsafe_address :: "ip \<Rightarrow> unit egressed" where
  "reject_unsafe_address a =
     (case a of
        V4 w \<Rightarrow> reject_unsafe_v4 w
      | V6 w _ \<Rightarrow>
          if is_unspecified a \<or> is_multicast a \<or> is_reserved a then Inl (Egress_Error HOST_AMBIGUOUS)
          else if v6_site_local w then Inl (Egress_Error HOST_AMBIGUOUS)
          else (case ipv4_mapped w of None \<Rightarrow> Inr () | Some m \<Rightarrow> reject_unsafe_v4 m))"

text \<open>\<open>label.encode('idna')\<close>: an ASCII label is left as it is, up to 63 characters.\<close>

definition idna_label :: "net \<Rightarrow> pystr \<Rightarrow> pystr option" where
  "idna_label n label =
     (if list_all (\<lambda>c. c < 128) label then (if length label < 64 then Some label else None) else idna n label)"

definition is_label_end :: "nat \<Rightarrow> bool" where
  "is_label_end c \<longleftrightarrow> 97 \<le> c \<and> c \<le> 122 \<or> is_digit c"

definition is_label_char :: "nat \<Rightarrow> bool" where
  "is_label_char c \<longleftrightarrow> is_label_end c \<or> c = 45"

text \<open>\<open>^[a-z0-9]([a-z0-9-]{0,61}[a-z0-9])?$\<close>, where \<open>$\<close> also matches before a final line end.\<close>

definition hostname_label :: "pystr \<Rightarrow> bool" where
  "hostname_label p =
     (let s = (if p \<noteq> [] \<and> last p = 10 then butlast p else p)
      in s \<noteq> [] \<and> length s \<le> 63 \<and> list_all is_label_char s \<and> is_label_end (hd s) \<and> is_label_end (last s))"

definition canonicalize_name :: "net \<Rightarrow> pystr \<Rightarrow> pystr egressed" where
  "canonicalize_name n host0 =
     (if suffix [46, 46] host0 then Inl (Egress_Error HOST_INVALID)
      else
        (let host = (if suffix [46] host0 then butlast host0 else host0);
             labels = split_on 46 host
         in if host = [] \<or> list_ex (\<lambda>l. l = []) labels then Inl (Egress_Error HOST_INVALID)
            else
              bind_result (of_option (Egress_Error HOST_INVALID) (all_some (map (idna_label n) labels))) (\<lambda>encoded.
                let canonical = join_with [46] (map lower encoded)
                in if 253 < length canonical \<or> \<not> list_all hostname_label (split_on 46 canonical)
                   then Inl (Egress_Error HOST_INVALID) else Inr canonical)))"

definition bracketed :: "ip \<Rightarrow> pystr" where
  "bracketed a = (case a of V4 _ \<Rightarrow> ip_text a | V6 _ _ \<Rightarrow> 91 # ip_text a @ [93])"

definition canonicalize_host :: "net \<Rightarrow> pystr \<Rightarrow> pystr egressed" where
  "canonicalize_host n raw_host =
     (let host = strip raw_host
      in if host = [] then Inl (Egress_Error HOST_INVALID)
         else
           (case ip_address host of
              Some a \<Rightarrow> bind_result (reject_unsafe_address a) (\<lambda>_. Inr (bracketed a))
            | None \<Rightarrow> canonicalize_name n host))"

subsection \<open>Endpoints\<close>

definition canonical_text :: "pystr \<Rightarrow> pystr \<Rightarrow> nat \<Rightarrow> pystr \<Rightarrow> pystr" where
  "canonical_text scheme host port path = scheme @ lit ''://'' @ host @ 58 # dec_digits port @ path"

definition unsafe_path :: "pystr \<Rightarrow> bool" where
  "unsafe_path path \<longleftrightarrow> \<not> starts_with path [47] \<or> [46, 46] \<in> set (split_on 47 path) \<or> 92 \<in> set path"

definition endpoint_port :: "pystr \<Rightarrow> nat option \<Rightarrow> nat" where
  "endpoint_port scheme raw_port = (case raw_port of Some p \<Rightarrow> p | None \<Rightarrow> if scheme = lit ''https'' then 443 else 80)"

definition finish_endpoint :: "pystr \<Rightarrow> pystr \<Rightarrow> nat \<Rightarrow> pystr \<Rightarrow> endpoint egressed" where
  "finish_endpoint scheme host port path0 =
     (if \<not> (1 \<le> port \<and> port \<le> 65535) then Inl (Egress_Error URL_INVALID)
      else
        (let path = (if path0 = [] then [47] else path0)
         in if unsafe_path path then Inl (Egress_Error URL_UNSAFE_COMPONENT)
            else Inr \<lparr>ep_scheme = scheme, ep_host = host, ep_port = port, ep_path = path,
              ep_canonical_url = canonical_text scheme host port path\<rparr>))"

definition canonicalize_endpoint :: "net \<Rightarrow> string \<Rightarrow> pystr \<Rightarrow> endpoint egressed" where
  "canonicalize_endpoint n app_env raw_url =
     (if raw_url = [] \<or> MAX_URL_LENGTH < length raw_url then Inl (Egress_Error URL_INVALID)
      else
        bind_result (of_option (Egress_Error URL_INVALID) (urlsplit (nfkc_ok n) raw_url)) (\<lambda>parts.
        if url_scheme parts \<noteq> lit ''http'' \<and> url_scheme parts \<noteq> lit ''https'' then Inl (Egress_Error SCHEME_NOT_ALLOWED)
        else if url_scheme parts = lit ''http'' \<and> app_env \<noteq> ''development'' \<and> app_env \<noteq> ''test''
        then Inl (Egress_Error SCHEME_NOT_ALLOWED)
        else if 64 \<in> set (url_netloc parts) then Inl (Egress_Error URL_UNSAFE_COMPONENT)
        else if url_query parts \<noteq> [] \<or> url_fragment parts \<noteq> [] then Inl (Egress_Error URL_UNSAFE_COMPONENT)
        else
          bind_result (of_option (Egress_Error HOST_INVALID) (url_hostname (url_netloc parts))) (\<lambda>hostname.
          bind_result (canonicalize_host n hostname) (\<lambda>host.
          bind_result (of_option (Egress_Error URL_INVALID) (url_port (url_netloc parts))) (\<lambda>raw_port.
          finish_endpoint (url_scheme parts) host (endpoint_port (url_scheme parts) raw_port) (url_path parts))))))"

subsection \<open>The peer\<close>

definition strip_brackets :: "pystr \<Rightarrow> pystr" where
  "strip_brackets host = (if starts_with host [91] \<and> suffix [93] host then butlast (tl host) else host)"

definition enforce_cidr_policy :: "ip \<Rightarrow> peer_policy \<Rightarrow> unit egressed" where
  "enforce_cidr_policy a policy =
     require (list_ex (\<lambda>cidr. case ip_network cidr of None \<Rightarrow> False | Some net \<Rightarrow> in_network a net) (allowed_cidrs policy))
       (Egress_Error PEER_POLICY_DENIED)"

text \<open>The addresses in the order they are first seen.\<close>

fun unseen :: "pystr list \<Rightarrow> pystr list \<Rightarrow> pystr list" where
  "unseen seen [] = []"
| "unseen seen (t # ts) = (if t \<in> set seen then unseen seen ts else t # unseen (t # seen) ts)"

definition candidates_of :: "net \<Rightarrow> endpoint \<Rightarrow> ip list egressed" where
  "candidates_of n ep =
     (let bare_host = strip_brackets (ep_host ep)
      in case ip_address bare_host of
           Some a \<Rightarrow> Inr [a]
         | None \<Rightarrow>
             (case getaddrinfo n bare_host (ep_port ep) of
                None \<Rightarrow> Inl (Egress_Error DNS_RESOLUTION_FAILED)
              | Some infos \<Rightarrow>
                  (case all_some (map ip_address (unseen [] infos)) of
                     None \<Rightarrow> Inl Uncaught
                   | Some [] \<Rightarrow> Inl (Egress_Error DNS_RESOLUTION_FAILED)
                   | Some candidates \<Rightarrow> Inr candidates)))"

text \<open>\<open>min(candidates, key=...)\<close> of a list that is not empty: the first of the smallest.\<close>

definition key_less :: "nat \<times> nat \<Rightarrow> nat \<times> nat \<Rightarrow> bool" where
  "key_less a b \<longleftrightarrow> fst a < fst b \<or> fst a = fst b \<and> snd a < snd b"

fun min_address :: "ip list \<Rightarrow> ip" where
  "min_address [a] = a"
| "min_address (a # b # rest) = min_address ((if key_less (ip_key b) (ip_key a) then b else a) # rest)"

definition resolve_pinned_peer :: "net \<Rightarrow> endpoint \<Rightarrow> peer_policy \<Rightarrow> peer egressed" where
  "resolve_pinned_peer n ep policy =
     (if ep_port ep \<notin> allowed_ports policy then Inl (Egress_Error PORT_NOT_ALLOWED)
      else if (case allowed_hostnames policy of None \<Rightarrow> False | Some hs \<Rightarrow> ep_host ep \<notin> hs)
      then Inl (Egress_Error PEER_POLICY_DENIED)
      else if allowed_cidrs policy = [] then Inl (Egress_Error PEER_POLICY_DENIED)
      else
        bind_result (candidates_of n ep) (\<lambda>candidates.
        bind_result (for_each (\<lambda>a. bind_result (reject_unsafe_address a) (\<lambda>_. enforce_cidr_policy a policy)) candidates) (\<lambda>_.
        let pinned = min_address candidates
        in Inr \<lparr>peer_ip = ip_text pinned, peer_v6 = (fst (ip_key pinned) = 6)\<rparr>)))"

end
