(* ===== verification/Egress_Transport.thy ===== *)
theory Egress_Transport
  imports Egress
begin

text \<open>
  The exchange of \<open>modules/ai/egress_transport.py\<close>: the connection to the pinned peer, the
  bounded reading of the answer, \<open>send_json_request\<close>, \<open>_execute\<close>, and the calls
  \<open>chat_completion\<close> and \<open>embeddings\<close> (\<open>probe_models\<close> is with the provider configuration). Every
  operation gives the requests it put on the wire beside its result. Latency is left out; the
  limit of 4,300 digits of an integer in an answer is applied to answers that are well formed.
\<close>

subsection \<open>The connection\<close>

definition header_value_ok :: "pystr \<Rightarrow> bool" where
  "header_value_ok v \<longleftrightarrow> list_all (\<lambda>c. c < 256) v \<and>
     list_all (\<lambda>i. (v ! i = 10 \<longrightarrow> take 1 (drop (Suc i) v) \<in> {[32], [9]}) \<and>
       (v ! i = 13 \<longrightarrow> take 1 (drop (Suc i) v) \<in> {[32], [9], [10]})) [0..<length v]"

text \<open>What \<open>http.client\<close> refuses to send, before it connects.\<close>

definition sendable :: "wire_request \<Rightarrow> bool" where
  "sendable req \<longleftrightarrow> list_all (\<lambda>c. 32 \<le> (of_char c :: nat) \<and> (of_char c :: nat) < 128) (wire_method req) \<and>
     list_all (\<lambda>c. 33 \<le> c \<and> c \<le> 126) (wire_path req) \<and> list_all (\<lambda>(_, v). header_value_ok v) (wire_headers req)"

text \<open>\<open>_build_connection\<close>: the server name of a TLS connection. \<open>HTTPConnection\<close> refuses spaces and
  control characters in a host name.\<close>

definition build_connection :: "endpoint \<Rightarrow> egress_policy \<Rightarrow> pystr option egressed" where
  "build_connection ep policy =
     (let bare = strip_brackets (ep_host ep);
          named = (if list_ex (\<lambda>c. c \<le> 32 \<or> c = 127) bare then Inl Uncaught else Inr ())
      in if ep_scheme ep = lit ''https'' then bind_result named (\<lambda>_. Inr (Some bare))
         else if \<not> allow_insecure_http policy then Inl (Egress_Error SCHEME_NOT_ALLOWED)
         else bind_result named (\<lambda>_. Inr None))"

definition connect_peer :: "net \<Rightarrow> endpoint \<Rightarrow> peer \<Rightarrow> pystr option \<Rightarrow> unit egressed" where
  "connect_peer n ep p tls =
     (case socket_connect n (peer_ip p) (ep_port ep) of
        None \<Rightarrow> Inl (Egress_Error CONNECT_FAILED)
      | Some name \<Rightarrow>
          if name \<noteq> peer_ip p then Inl (Egress_Error PEER_EQUALITY_FAILED)
          else
            (case tls of
               None \<Rightarrow> Inr ()
             | Some server \<Rightarrow>
                 (case wrap_socket n (peer_ip p) server of
                    Tls_Verified \<Rightarrow> Inr ()
                  | Tls_Refused \<Rightarrow> Inl (Egress_Error TLS_VERIFICATION_FAILED)
                  | Tls_Broken \<Rightarrow> Inl (Egress_Error CONNECT_FAILED))))"

subsection \<open>The answer\<close>

text \<open>The \<open>i\<close>-th chunk is read next; \<open>got\<close> bytes have been read so far.\<close>

function read_bounded :: "(nat \<Rightarrow> chunk_read) \<Rightarrow> int \<Rightarrow> nat \<Rightarrow> int \<Rightarrow> bytes \<Rightarrow> bytes egressed" where
  "read_bounded chunks max_bytes i got acc =
     (case chunks i of
        Read_Os_Failure \<Rightarrow> Inl (Egress_Error CONNECT_FAILED)
      | Read_Library_Failure \<Rightarrow> Inl Uncaught
      | Chunk chunk \<Rightarrow>
          if chunk = [] then Inr acc
          else if max_bytes < got + int (length chunk) then Inl (Egress_Error RESPONSE_TOO_LARGE)
          else read_bounded chunks max_bytes (Suc i) (got + int (length chunk)) (acc @ chunk))"
  by pat_completeness auto
termination
proof (relation "measure (\<lambda>(chunks, max_bytes, i, got, acc). nat (max_bytes - got))", goal_cases)
  case (2 chunks max_bytes i got acc chunk)
  then have "0 < length chunk" by simp
  with 2(3) have "got < max_bytes" by linarith
  with \<open>0 < length chunk\<close> show ?case by simp
qed simp

declare read_bounded.simps [simp del]

definition parse_answer :: "int \<Rightarrow> bytes \<Rightarrow> (int \<times> json) egressed" where
  "parse_answer status raw =
     (if 400 \<le> status then Inl (Egress_Error HTTP_ERROR)
      else
        (case Option.bind (utf8_decode raw) loads_pairs of
           None \<Rightarrow> Inl (Egress_Error INVALID_JSON)
         | Some parsed \<Rightarrow>
             if \<not> ints_readable parsed then Inl Uncaught
             else if \<not> is_obj parsed then Inl (Egress_Error INVALID_JSON)
             else Inr (status, dict_of_pairs parsed)))"

definition exchange :: "net \<Rightarrow> wire_request \<Rightarrow> egress_policy \<Rightarrow> (int \<times> bytes) egressed" where
  "exchange n req policy =
     (case http_exchange n req of
        Os_Failure \<Rightarrow> Inl (Egress_Error CONNECT_FAILED)
      | Library_Failure \<Rightarrow> Inl Uncaught
      | Answer status chunks \<Rightarrow>
          if 300 \<le> status \<and> status < 400 then Inl (Egress_Error REDIRECT_REJECTED)
          else bind_result (read_bounded chunks (max_response_bytes policy) 0 0 []) (\<lambda>raw. Inr (status, raw)))"

subsection \<open>One request\<close>

definition host_header :: "endpoint \<Rightarrow> pystr" where
  "host_header ep =
     (if ep_port ep = 80 \<or> ep_port ep = 443 then ep_host ep else ep_host ep @ 58 # dec_digits (ep_port ep))"

definition request_headers :: "net \<Rightarrow> endpoint \<Rightarrow> pystr option \<Rightarrow> pystr option \<Rightarrow> (pystr \<times> pystr) list" where
  "request_headers n ep data authorization =
     [(lit ''Host'', host_header ep), (lit ''Accept'', lit ''application/json''), (lit ''Connection'', lit ''close''),
      (lit ''User-Agent'', lit ''AeroOne-Compatible-Adapter/'' @ app_version n)] @
     (case data of
        None \<Rightarrow> []
      | Some d \<Rightarrow> [(lit ''Content-Type'', lit ''application/json''), (lit ''Content-Length'', dec_digits (length d))]) @
     (case authorization of None \<Rightarrow> [] | Some a \<Rightarrow> [(lit ''Authorization'', a)])"

type_synonym 'a exchanged = "wire_request list \<times> 'a egressed"

definition send_json_request ::
    "net \<Rightarrow> endpoint \<Rightarrow> peer \<Rightarrow> string \<Rightarrow> json option \<Rightarrow> pystr option \<Rightarrow> egress_policy \<Rightarrow> (int \<times> json) exchanged" where
  "send_json_request n ep p verb body authorization policy =
     (let data = map_option dumps_ascii body
      in if (case data of None \<Rightarrow> False | Some d \<Rightarrow> max_request_bytes policy < int (length d))
         then ([], Inl (Egress_Error REQUEST_TOO_LARGE))
         else
           (case build_connection ep policy of
              Inl e \<Rightarrow> ([], Inl e)
            | Inr tls \<Rightarrow>
                let req = \<lparr>wire_peer = peer_ip p, wire_port = ep_port ep, wire_tls = tls, wire_method = verb,
                  wire_path = ep_path ep, wire_headers = request_headers n ep data authorization, wire_body = data\<rparr>
                in if \<not> sendable req then ([], Inl Uncaught)
                   else
                     (case connect_peer n ep p tls of
                        Inl e \<Rightarrow> ([], Inl e)
                      | Inr _ \<Rightarrow>
                          ([req], bind_result (exchange n req policy) (\<lambda>(status, raw). parse_answer status raw)))))"

text \<open>\<open>EgressOutcome\<close> without the latency; \<open>None\<close> is an exception that escapes.\<close>

record transport_outcome =
  to_ok :: bool
  to_error_code :: "egress_code option"
  to_status_code :: "int option"
  to_payload :: "json option"

definition outcome_of_result :: "(int \<times> json) egressed \<Rightarrow> transport_outcome option" where
  "outcome_of_result r =
     (case r of
        Inl (Egress_Error code) \<Rightarrow>
          Some \<lparr>to_ok = False, to_error_code = Some code, to_status_code = None, to_payload = None\<rparr>
      | Inl Uncaught \<Rightarrow> None
      | Inr (status, doc) \<Rightarrow>
          Some \<lparr>to_ok = True, to_error_code = None, to_status_code = Some status, to_payload = Some doc\<rparr>)"

record egress_setup =
  app_env :: string
  policy_of :: egress_policy
  peer_policy_of :: peer_policy

definition execute ::
    "net \<Rightarrow> egress_setup \<Rightarrow> pystr \<Rightarrow> string \<Rightarrow> string \<Rightarrow> json option \<Rightarrow> pystr \<Rightarrow> wire_request list \<times> transport_outcome option" where
  "execute n s raw_url verb path body api_key =
     (case bind_result (canonicalize_endpoint n (app_env s) raw_url) (\<lambda>ep0.
             let ep = ep0\<lparr>ep_path := lit path\<rparr>
             in bind_result (resolve_pinned_peer n ep (peer_policy_of s)) (\<lambda>p. Inr (ep, p))) of
        Inl e \<Rightarrow> ([], outcome_of_result (Inl e))
      | Inr (ep, p) \<Rightarrow>
          map_prod id outcome_of_result
            (send_json_request n ep p verb body (Some (lit ''Bearer '' @ api_key)) (policy_of s)))"

subsection \<open>\<open>chat_completion\<close>\<close>

definition shape_invalid :: "transport_outcome \<Rightarrow> transport_outcome" where
  "shape_invalid out = out\<lparr>to_ok := False, to_error_code := Some SHAPE_INVALID, to_payload := None\<rparr>"

definition chat_body :: "pystr \<Rightarrow> (pystr \<times> pystr) list list \<Rightarrow> int \<Rightarrow> json" where
  "chat_body model messages max_tokens =
     JObj [(lit ''model'', JStr model),
       (lit ''messages'', JArr (map (\<lambda>m. JObj (map (\<lambda>(k, t). (k, JStr t)) m)) messages)),
       (lit ''stream'', JBool False), (lit ''max_tokens'', JInt max_tokens), (lit ''temperature'', JFloat (lit ''0.2''))]"

definition has_content :: "json \<Rightarrow> bool" where
  "has_content doc =
     (case obj_get (lit ''choices'') doc of
        Some (JArr (first # _)) \<Rightarrow>
          (case Option.bind (obj_get (lit ''message'') first) (obj_get (lit ''content'')) of
             Some (JStr _) \<Rightarrow> True
           | _ \<Rightarrow> False)
      | _ \<Rightarrow> False)"

definition check_chat :: "transport_outcome \<Rightarrow> transport_outcome" where
  "check_chat out =
     (case to_payload out of
        None \<Rightarrow> out
      | Some doc \<Rightarrow> if \<not> to_ok out then out else if has_content doc then out else shape_invalid out)"

definition chat_completion ::
    "net \<Rightarrow> egress_setup \<Rightarrow> pystr \<Rightarrow> pystr \<Rightarrow> (pystr \<times> pystr) list list \<Rightarrow> pystr \<Rightarrow> int \<Rightarrow>
       wire_request list \<times> transport_outcome option" where
  "chat_completion n s raw_url model messages api_key max_tokens =
     map_prod id (map_option check_chat)
       (execute n s raw_url ''POST'' ''/v1/chat/completions'' (Some (chat_body model messages max_tokens)) api_key)"

subsection \<open>\<open>embeddings\<close>\<close>

text \<open>The first magnitude that rounds to infinity: a float is finite below it, and an integer is
  convertible to one below it (\<open>math.isfinite\<close> raises \<open>OverflowError\<close> from there on).\<close>

definition float_limit :: int where "float_limit = 2 ^ 1024 - 2 ^ 970"

definition float_finite :: "pystr \<Rightarrow> bool" where
  "float_finite t =
     (if t = lit ''NaN'' \<or> t = lit ''Infinity'' \<or> t = lit ''-Infinity'' then False
      else
        (let unsigned = (if starts_with t [45] then tl t else t);
             mantissa = takeWhile (\<lambda>c. c \<noteq> 101 \<and> c \<noteq> 69) unsigned;
             exponent = drop (Suc (length mantissa)) unsigned;
             whole = before_sep 46 mantissa;
             fraction = after_sep 46 mantissa;
             e = (if starts_with exponent [45] then - int (dec_value (tl exponent))
                  else if starts_with exponent [43] then int (dec_value (tl exponent)) else int (dec_value exponent))
                 - int (length fraction);
             m = int (dec_value (whole @ fraction))
         in if 0 \<le> e then m * 10 ^ nat e < float_limit else m < float_limit * 10 ^ nat (- e)))"

text \<open>\<open>None\<close> is the \<open>OverflowError\<close>, otherwise whether every entry is a finite number.\<close>

fun vector_verdict :: "json list \<Rightarrow> bool option" where
  "vector_verdict [] = Some True"
| "vector_verdict (JInt i # vs) = (if \<bar>i\<bar> < float_limit then vector_verdict vs else None)"
| "vector_verdict (JFloat t # vs) = (if float_finite t then vector_verdict vs else Some False)"
| "vector_verdict (_ # vs) = Some False"

definition read_item :: "int list \<Rightarrow> nat option \<Rightarrow> json \<Rightarrow> (int \<times> nat) egressed" where
  "read_item seen dimension item =
     (case (obj_get (lit ''index'') item, obj_get (lit ''embedding'') item) of
        (Some (JInt index), Some (JArr vector)) \<Rightarrow>
          if index \<in> set seen \<or> vector = [] then Inl (Egress_Error SHAPE_INVALID)
          else
            (case vector_verdict vector of
               None \<Rightarrow> Inl Uncaught
             | Some ok \<Rightarrow>
                 if \<not> ok \<or> (dimension \<noteq> None \<and> dimension \<noteq> Some (length vector))
                 then Inl (Egress_Error SHAPE_INVALID)
                 else Inr (index, length vector))
      | _ \<Rightarrow> Inl (Egress_Error SHAPE_INVALID))"

fun collect_items :: "(int \<times> json) list \<Rightarrow> nat option \<Rightarrow> json list \<Rightarrow> (int \<times> json) list egressed" where
  "collect_items indexed dimension [] = Inr indexed"
| "collect_items indexed dimension (item # items) =
     bind_result (read_item (map fst indexed) dimension item) (\<lambda>(index, d).
       collect_items (indexed @ [(index, item)]) (Some d) items)"

definition order_embeddings :: "nat \<Rightarrow> json \<Rightarrow> json egressed" where
  "order_embeddings k doc =
     (case obj_get (lit ''data'') doc of
        Some (JArr data) \<Rightarrow>
          if length data \<noteq> k then Inl (Egress_Error SHAPE_INVALID)
          else
            bind_result (collect_items [] None data) (\<lambda>indexed.
              if set (map fst indexed) \<noteq> set (map int [0..<k]) then Inl (Egress_Error SHAPE_INVALID)
              else Inr (obj_set (lit ''data'') (JArr (map (\<lambda>i. the (map_of indexed (int i))) [0..<k])) doc))
      | _ \<Rightarrow> Inl (Egress_Error SHAPE_INVALID))"

definition check_embeddings :: "nat \<Rightarrow> transport_outcome \<Rightarrow> transport_outcome option" where
  "check_embeddings k out =
     (case to_payload out of
        None \<Rightarrow> Some out
      | Some doc \<Rightarrow>
          if \<not> to_ok out then Some out
          else
            (case order_embeddings k doc of
               Inl Uncaught \<Rightarrow> None
             | Inl (Egress_Error _) \<Rightarrow> Some (shape_invalid out)
             | Inr doc' \<Rightarrow> Some (out\<lparr>to_payload := Some doc'\<rparr>)))"

definition embeddings ::
    "net \<Rightarrow> egress_setup \<Rightarrow> pystr \<Rightarrow> pystr \<Rightarrow> pystr list \<Rightarrow> pystr \<Rightarrow> wire_request list \<times> transport_outcome option" where
  "embeddings n s raw_url model inputs api_key =
     (case execute n s raw_url ''POST'' ''/v1/embeddings''
             (Some (JObj [(lit ''model'', JStr model), (lit ''input'', JArr (map JStr inputs))])) api_key of
        (wire, r) \<Rightarrow> (wire, Option.bind r (check_embeddings (length inputs))))"

end
