(* ===== verification/Egress_Properties.thy ===== *)
theory Egress_Properties
  imports Egress_Transport "HOL-Library.Multiset"
begin

text \<open>
  What the outbound transport promises: the addresses it may connect to, that the canonical
  form of an endpoint is stable, that the peer is one of the resolved addresses all of which
  passed the policy, that bytes only leave towards it, and that answers are read within the
  limit whatever pieces they come in.
\<close>

unbundle bit_operations_syntax

subsection \<open>Ranges as intervals\<close>

lemma unat_drop_bit_div: "unat (drop_bit n (w :: 'a::len word)) = unat w div 2 ^ n"
  unfolding unat_drop_bit_eq by (rule drop_bit_eq_div)

lemma drop_bit_is: "drop_bit n (w :: 'a::len word) = v \<longleftrightarrow> unat w div 2 ^ n = unat v"
  by (metis unat_drop_bit_div word_unat_eq_iff)

definition v4_safe :: "32 word \<Rightarrow> bool" where
  "v4_safe w \<longleftrightarrow> 0 < unat w \<and> unat w < 224 * 2 ^ 24 \<and> unat w div 2 ^ 16 \<noteq> 169 * 256 + 254"

text \<open>By the first 16 bits: global unicast, unique local and link-local.\<close>

definition v6_safe :: "128 word \<Rightarrow> bool" where
  "v6_safe w \<longleftrightarrow>
     (let h = unat w div 2 ^ 112
      in 8192 \<le> h \<and> h < 16384 \<or> 64512 \<le> h \<and> h < 65024 \<or> 65152 \<le> h \<and> h < 65216)"

definition address_safe :: "ip \<Rightarrow> bool" where
  "address_safe a =
     (case a of V4 w \<Rightarrow> v4_safe w
      | V6 w _ \<Rightarrow> (case ipv4_mapped w of Some m \<Rightarrow> v4_safe m | None \<Rightarrow> v6_safe w))"

lemma reject_v4_iff: "reject_unsafe_v4 w = Inr () \<longleftrightarrow> v4_safe w"
proof -
  have "unat w < 2 ^ 32" using unsigned_less [of w, where ?'a = nat] by simp
  moreover have "w = 0 \<longleftrightarrow> unat w = 0" by (simp add: unat_eq_0)
  ultimately show ?thesis
    by (auto simp: reject_unsafe_v4_def v4_safe_def v4_unspecified_def v4_multicast_def v4_reserved_def v4_link_local_def
      drop_bit_is)
qed

lemma div_div_power: "j \<le> k \<Longrightarrow> (x :: nat) div 2 ^ k = x div 2 ^ j div 2 ^ (k - j)"
  by (simp add: div_mult2_eq [symmetric] power_add [symmetric])

lemma div_numeral_is: "(x :: nat) div numeral k = v \<longleftrightarrow> numeral k * v \<le> x \<and> x < numeral k * Suc v"
  by (metis div_nat_eqI div_times_less_eq_dividend dividend_less_times_div mult.commute mult_Suc_right zero_less_numeral)

lemma reject_v6_iff:
  assumes "ipv4_mapped w = None"
  shows "reject_unsafe_address (V6 w scope) = Inr () \<longleftrightarrow> v6_safe w"
proof -
  define h where "h = unat w div 2 ^ 112"
  have "unat w < 2 ^ 128" using unsigned_less [of w, where ?'a = nat] by simp
  then have h: "h < 65536" unfolding h_def by (simp add: less_mult_imp_div_less)
  have split: "unat w div 2 ^ k = h div 2 ^ (k - 112)" if "112 \<le> k" for k
    unfolding h_def using that by (rule div_div_power)
  note at = split [of 118, simplified] split [of 119, simplified] split [of 120, simplified] split [of 121, simplified]
    split [of 122, simplified] split [of 123, simplified] split [of 124, simplified] split [of 125, simplified]
  have u: "w = 0 \<Longrightarrow> h = 0" by (simp add: h_def)
  have m: "v6_multicast_range w \<longleftrightarrow> h div 256 = 255"
    by (simp add: v6_multicast_range_def drop_bit_is at)
  have s: "v6_site_local w \<longleftrightarrow> h div 64 = 1019"
    by (simp add: v6_site_local_def drop_bit_is at)
  have r: "v6_reserved_range w \<longleftrightarrow> h < 8192 \<or> 16384 \<le> h \<and> h < 64512 \<or> 65024 \<le> h \<and> h < 65152"
    using h by (simp add: v6_reserved_range_def drop_bit_is at div_numeral_is) presburger
  have "reject_unsafe_address (V6 w scope) = Inr () \<longleftrightarrow>
      \<not> (w = 0 \<or> h div 256 = 255 \<or> h < 8192 \<or> 16384 \<le> h \<and> h < 64512 \<or> 65024 \<le> h \<and> h < 65152) \<and> h div 64 \<noteq> 1019"
    using assms by (simp add: reject_unsafe_address_def m s r)
  also have "\<dots> \<longleftrightarrow> v6_safe w"
    using h u unfolding v6_safe_def h_def [symmetric] Let_def by (cases "w = 0") (simp, simp add: div_numeral_is, presburger)
  finally show ?thesis .
qed

lemma mapped_not_site_local: "ipv4_mapped w = Some m \<Longrightarrow> \<not> v6_site_local w"
proof -
  assume "ipv4_mapped w = Some m"
  then have "drop_bit 32 w = 65535" by (simp add: ipv4_mapped_def split: if_splits)
  then have "unat w div 2 ^ 32 = 65535" by (simp add: drop_bit_is)
  then have "unat w div 2 ^ 118 = 0" using div_div_power [of 32 118 "unat w"] by simp
  then show ?thesis by (simp add: v6_site_local_def drop_bit_is)
qed

lemma address_safe_iff: "reject_unsafe_address a = Inr () \<longleftrightarrow> address_safe a"
proof (cases a)
  case (V4 w)
  then show ?thesis by (simp add: reject_unsafe_address_def address_safe_def reject_v4_iff)
next
  case (V6 w scope)
  show ?thesis
  proof (cases "ipv4_mapped w")
    case None
    with V6 reject_v6_iff [OF None] show ?thesis by (simp add: address_safe_def)
  next
    case (Some m)
    with V6 mapped_not_site_local [OF Some] reject_v4_iff [of m] show ?thesis
      by (auto simp: reject_unsafe_address_def address_safe_def reject_unsafe_v4_def)
  qed
qed

subsection \<open>The peer\<close>

definition cidr_allows :: "peer_policy \<Rightarrow> ip \<Rightarrow> bool" where
  "cidr_allows policy a \<longleftrightarrow> (\<exists>cidr \<in> set (allowed_cidrs policy). \<exists>net. ip_network cidr = Some net \<and> in_network a net)"

lemma enforce_cidr_iff: "enforce_cidr_policy a policy = Inr () \<longleftrightarrow> cidr_allows policy a"
  by (auto simp: enforce_cidr_policy_def cidr_allows_def result_simps list_ex_iff split: option.splits)

definition address_order :: "ip \<Rightarrow> ip \<Rightarrow> bool" where
  "address_order a b \<longleftrightarrow> \<not> key_less (ip_key b) (ip_key a)"

lemma address_order_trans: "address_order a b \<Longrightarrow> address_order b c \<Longrightarrow> address_order a c"
  by (auto simp: address_order_def key_less_def)

lemma min_address_least: "cs \<noteq> [] \<Longrightarrow> min_address cs \<in> set cs \<and> (\<forall>b \<in> set cs. address_order (min_address cs) b)"
proof (induction cs rule: min_address.induct)
  case (1 a)
  then show ?case by (simp add: address_order_def key_less_def)
next
  case (2 a b rest)
  define m where "m = (if key_less (ip_key b) (ip_key a) then b else a)"
  have m: "m \<in> {a, b}" "address_order m a" "address_order m b"
    by (auto simp: m_def address_order_def key_less_def)
  have IH: "min_address (m # rest) \<in> set (m # rest)" "\<forall>c \<in> set (m # rest). address_order (min_address (m # rest)) c"
    using 2 by (simp_all add: m_def)
  have "min_address (a # b # rest) = min_address (m # rest)" by (simp add: m_def)
  moreover have "min_address (m # rest) \<in> set (a # b # rest)" using IH(1) m(1) by auto
  moreover have "address_order (min_address (m # rest)) a" "address_order (min_address (m # rest)) b"
    using IH(2) m(2, 3) by (auto intro: address_order_trans)
  ultimately show ?case using IH(2) by simp
qed simp

lemma unseen_set: "set (unseen seen ts) = set ts - set seen"
  by (induction ts arbitrary: seen) auto

lemma candidates_nonempty: "candidates_of n ep = Inr cs \<Longrightarrow> cs \<noteq> []"
  by (auto simp: candidates_of_def Let_def split: option.splits list.splits)

lemma ip_family: "fst (ip_key a) = 6 \<longleftrightarrow> (\<exists>w z. a = V6 w z)"
  by (cases a) auto

lemma resolve_pinned_iff:
  "resolve_pinned_peer n ep policy = Inr p \<longleftrightarrow>
     ep_port ep \<in> allowed_ports policy \<and> (allowed_hostnames policy = None \<or> ep_host ep \<in> the (allowed_hostnames policy)) \<and>
     (\<exists>cs. candidates_of n ep = Inr cs \<and> list_all (\<lambda>a. address_safe a \<and> cidr_allows policy a) cs \<and>
       p = \<lparr>peer_ip = ip_text (min_address cs), peer_v6 = (fst (ip_key (min_address cs)) = 6)\<rparr>)"
  (is "_ \<longleftrightarrow> ?r")
proof -
  have every: "for_each (\<lambda>a. bind_result (reject_unsafe_address a) (\<lambda>_. enforce_cidr_policy a policy)) cs = Inr () \<longleftrightarrow>
      list_all (\<lambda>a. address_safe a \<and> cidr_allows policy a) cs" for cs
    by (simp add: for_each_Inr bind_result_Inr list_all_iff address_safe_iff enforce_cidr_iff)
  have none: "\<not> list_all (\<lambda>a. address_safe a \<and> cidr_allows policy a) cs" if "allowed_cidrs policy = []" "cs \<noteq> []" for cs
    using that by (cases cs) (simp_all add: cidr_allows_def)
  show ?thesis
  proof (cases "allowed_cidrs policy = []")
    case True
    with none candidates_nonempty [of n ep] have "\<not> ?r" by blast
    with True show ?thesis by (auto simp: resolve_pinned_peer_def)
  next
    case False
    then show ?thesis
      unfolding resolve_pinned_peer_def guard_Inr bind_result_Inr
      by (auto simp: every Let_def split: option.splits)
  qed
qed

text \<open>A world with one address behind every name, and a policy that allows it.\<close>

definition sample_net :: "(wire_request \<Rightarrow> http_answer) \<Rightarrow> net" where
  "sample_net x = \<lparr>nfkc_ok = (\<lambda>_. False), idna = (\<lambda>_. None), getaddrinfo = (\<lambda>_ _. Some [lit ''10.0.0.5'']),
     socket_connect = (\<lambda>name _. Some name), wrap_socket = (\<lambda>_ _. Tls_Verified), http_exchange = x,
     app_version = lit ''1''\<rparr>"

definition sample_peers :: peer_policy where
  "sample_peers = \<lparr>allowed_hostnames = Some {lit ''h''}, allowed_cidrs = [lit ''10.0.0.0/8''], allowed_ports = {443}\<rparr>"

definition sample_endpoint :: endpoint where
  "sample_endpoint = \<lparr>ep_scheme = lit ''https'', ep_host = lit ''h'', ep_port = 443, ep_path = lit ''/'',
     ep_canonical_url = lit ''https://h:443/''\<rparr>"

lemma sample_address: "ip_address (lit ''10.0.0.5'') = Some (V4 167772165)"
  by (simp add: ip_address_def ipv4_of_def lit_def parse_octet_def is_digit_def dec_value_def)

lemma sample_cidr: "ip_network (lit ''10.0.0.0/8'') = Some (Net4 167772160 8)"
  by (simp add: ip_network_def net4_of_def ipv4_of_def lit_def parse_octet_def is_digit_def dec_value_def prefix_number_def
    netmask_def mask_eq_exp_minus_1)

lemma sample_in_network: "in_network (V4 167772165) (Net4 167772160 8)"
  by (simp add: netmask_def mask_eq_exp_minus_1)

lemma sample_name: "ip_address (lit ''h'') = None"
  by (simp add: ip_address_def ipv4_of_def ipv6_of_def ipv6_int_of_def before_sep_def lit_def parse_octet_def is_digit_def)

lemma sample_candidates: "candidates_of (sample_net x) sample_endpoint = Inr [V4 167772165]"
proof -
  have "strip_brackets (lit ''h'') = lit ''h''" by (simp add: strip_brackets_def starts_with_def lit_def)
  then show ?thesis
    by (simp add: candidates_of_def sample_endpoint_def sample_net_def sample_name sample_address)
qed

lemma sample_allowed: "address_safe (V4 167772165)" "cidr_allows sample_peers (V4 167772165)"
  using sample_in_network by (simp_all add: address_safe_def v4_safe_def cidr_allows_def sample_peers_def sample_cidr)

lemma sample_peer:
  "resolve_pinned_peer (sample_net x) sample_endpoint sample_peers = Inr \<lparr>peer_ip = ip_text (V4 167772165), peer_v6 = False\<rparr>"
  unfolding resolve_pinned_iff sample_candidates using sample_allowed
  by (simp add: sample_endpoint_def sample_peers_def)

text \<open>
  C29 [peer_vetted]: a connection is only pinned when the port is allowed, the host is allowed where names are
  restricted, and every address the host resolves to is of a permitted range and inside one of the
  configured networks; the pinned peer is one of these addresses, and none of them is smaller.
\<close>

theorem peer_vetted:
  assumes "resolve_pinned_peer n ep policy = Inr p"
  shows "ep_port ep \<in> allowed_ports policy \<and>
    (allowed_hostnames policy = None \<or> ep_host ep \<in> the (allowed_hostnames policy)) \<and>
    (\<exists>cs a. candidates_of n ep = Inr cs \<and> (\<forall>b \<in> set cs. address_safe b \<and> cidr_allows policy b \<and> address_order a b) \<and>
      a \<in> set cs \<and> peer_ip p = ip_text a)"
proof -
  from assms obtain cs where port: "ep_port ep \<in> allowed_ports policy"
    and name: "allowed_hostnames policy = None \<or> ep_host ep \<in> the (allowed_hostnames policy)"
    and cs: "candidates_of n ep = Inr cs" "list_all (\<lambda>a. address_safe a \<and> cidr_allows policy a) cs"
    and p: "p = \<lparr>peer_ip = ip_text (min_address cs), peer_v6 = (fst (ip_key (min_address cs)) = 6)\<rparr>"
    unfolding resolve_pinned_iff by blast
  from min_address_least [OF candidates_nonempty [OF cs(1)]]
  have least: "min_address cs \<in> set cs" "\<forall>b \<in> set cs. address_order (min_address cs) b" by simp_all
  have "\<forall>b \<in> set cs. address_safe b \<and> cidr_allows policy b \<and> address_order (min_address cs) b"
    using cs(2) least(2) by (simp add: list_all_iff)
  with port name cs(1) least(1) p show ?thesis by (intro conjI exI [of _ cs] exI [of _ "min_address cs"]) simp_all
qed

theorem peer_vetted_witness:
  "ep_port sample_endpoint \<in> allowed_ports sample_peers \<and>
   (allowed_hostnames sample_peers = None \<or> ep_host sample_endpoint \<in> the (allowed_hostnames sample_peers))"
  using peer_vetted [OF sample_peer [of "\<lambda>_. Os_Failure"]] by blast

text \<open>
  The address check accepts exactly the IPv4 addresses above 0.0.0.0 and below 224.0.0.0
  outside 169.254.0.0/16, the IPv6 addresses that map such an address, and those of 2000::/3, fc00::/7 and
  fe80::/10: the IPv6 link-local range is accepted where the IPv4 one is refused.
\<close>

theorem address_policy: "reject_unsafe_address a = (if address_safe a then Inr () else Inl (Egress_Error HOST_AMBIGUOUS))"
proof (cases "reject_unsafe_address a")
  case (Inl e)
  then have "e = Egress_Error HOST_AMBIGUOUS"
    by (auto simp: reject_unsafe_address_def reject_unsafe_v4_def split: ip.splits if_splits option.splits)
  with Inl address_safe_iff [of a] show ?thesis by simp
next
  case (Inr u)
  with address_safe_iff [of a] show ?thesis by simp
qed

subsection \<open>What goes on the wire\<close>

lemma build_connection_cases:
  assumes "build_connection ep policy = Inr tls"
  shows "(ep_scheme ep = lit ''https'' \<and> tls = Some (strip_brackets (ep_host ep))) \<or>
    (ep_scheme ep \<noteq> lit ''https'' \<and> allow_insecure_http policy \<and> tls = None)"
  using assms by (auto simp: build_connection_def Let_def result_simps split: if_splits)

lemma connect_peer_ok:
  assumes "connect_peer n ep p tls = Inr u"
  shows "socket_connect n (peer_ip p) (ep_port ep) = Some (peer_ip p) \<and>
    (tls = None \<or> wrap_socket n (peer_ip p) (the tls) = Tls_Verified)"
  using assms by (auto simp: connect_peer_def split: option.splits if_splits handshake.splits)

text \<open>A request that was sent: everything was checked before.\<close>

lemma send_json_request_wire:
  assumes "send_json_request n ep p verb body authorization policy = (wire, r)" "req \<in> set wire"
  obtains tls where "wire = [req]" "build_connection ep policy = Inr tls" "connect_peer n ep p tls = Inr ()"
    "req = \<lparr>wire_peer = peer_ip p, wire_port = ep_port ep, wire_tls = tls, wire_method = verb,
       wire_path = ep_path ep, wire_headers = request_headers n ep (map_option dumps_ascii body) authorization,
       wire_body = map_option dumps_ascii body\<rparr>"
    "body = None \<or> int (length (dumps_ascii (the body))) \<le> max_request_bytes policy" "sendable req"
    "r = bind_result (exchange n req policy) (\<lambda>(status, raw). parse_answer status raw)"
  using assms unfolding send_json_request_def Let_def
  by (auto split: if_splits option.splits sum.splits)

lemma execute_wire:
  assumes "execute n s url verb path body key = (wire, r)" "req \<in> set wire"
  obtains ep p q where "canonicalize_endpoint n (app_env s) url = Inr ep"
    "resolve_pinned_peer n (ep\<lparr>ep_path := lit path\<rparr>) (peer_policy_of s) = Inr p"
    "send_json_request n (ep\<lparr>ep_path := lit path\<rparr>) p verb body (Some (lit ''Bearer '' @ key)) (policy_of s) = (wire, q)"
    "r = outcome_of_result q"
proof -
  from assms obtain ep p where ep: "canonicalize_endpoint n (app_env s) url = Inr ep"
    and p: "resolve_pinned_peer n (ep\<lparr>ep_path := lit path\<rparr>) (peer_policy_of s) = Inr p"
    and sent: "(wire, r) = map_prod id outcome_of_result
      (send_json_request n (ep\<lparr>ep_path := lit path\<rparr>) p verb body (Some (lit ''Bearer '' @ key)) (policy_of s))"
    unfolding execute_def by (auto simp: result_simps Let_def split: sum.splits prod.splits)
  then show thesis
    by (cases "send_json_request n (ep\<lparr>ep_path := lit path\<rparr>) p verb body (Some (lit ''Bearer '' @ key)) (policy_of s)")
      (auto intro: that [OF ep p])
qed

lemma finish_endpoint_iff:
  "finish_endpoint scheme host port path0 = Inr ep \<longleftrightarrow>
     1 \<le> port \<and> port \<le> 65535 \<and> \<not> unsafe_path (if path0 = [] then [47] else path0) \<and>
     ep = \<lparr>ep_scheme = scheme, ep_host = host, ep_port = port, ep_path = (if path0 = [] then [47] else path0),
       ep_canonical_url = canonical_text scheme host port (if path0 = [] then [47] else path0)\<rparr>"
  by (auto simp: finish_endpoint_def Let_def)

lemma canonicalize_iff:
  "canonicalize_endpoint n env url = Inr ep \<longleftrightarrow>
     url \<noteq> [] \<and> length url \<le> MAX_URL_LENGTH \<and>
     (\<exists>parts hostname host raw_port. urlsplit (nfkc_ok n) url = Some parts \<and>
       (url_scheme parts = lit ''https'' \<or> url_scheme parts = lit ''http'' \<and> env \<in> {''development'', ''test''}) \<and>
       64 \<notin> set (url_netloc parts) \<and> url_query parts = [] \<and> url_fragment parts = [] \<and>
       url_hostname (url_netloc parts) = Some hostname \<and> canonicalize_host n hostname = Inr host \<and>
       url_port (url_netloc parts) = Some raw_port \<and>
       finish_endpoint (url_scheme parts) host (endpoint_port (url_scheme parts) raw_port) (url_path parts) = Inr ep)"
  unfolding canonicalize_endpoint_def guard_Inr bind_result_Inr of_option_Inr by auto

lemma canonicalize_scheme:
  assumes "canonicalize_endpoint n env url = Inr ep"
  shows "ep_scheme ep = lit ''https'' \<or> (ep_scheme ep = lit ''http'' \<and> env \<in> {''development'', ''test''})"
  using assms unfolding canonicalize_iff finish_endpoint_iff by auto

text \<open>The facts about a request on the wire, for the property below and for what is built on the transport.\<close>

lemma wire_vetted:
  assumes "execute n s url verb path body key = (wire, r)" "req \<in> set wire"
  shows "\<exists>ep p. wire = [req] \<and> canonicalize_endpoint n (app_env s) url = Inr ep \<and>
    resolve_pinned_peer n (ep\<lparr>ep_path := lit path\<rparr>) (peer_policy_of s) = Inr p \<and> wire_peer req = peer_ip p \<and>
    socket_connect n (peer_ip p) (ep_port ep) = Some (peer_ip p) \<and> wire_port req = ep_port ep \<and>
    (case wire_tls req of
       Some server \<Rightarrow> ep_scheme ep = lit ''https'' \<and> server = strip_brackets (ep_host ep) \<and>
         wrap_socket n (peer_ip p) server = Tls_Verified
     | None \<Rightarrow> ep_scheme ep = lit ''http'' \<and> allow_insecure_http (policy_of s) \<and> app_env s \<in> {''development'', ''test''}) \<and>
    (wire_body req = None \<or> int (length (the (wire_body req))) \<le> max_request_bytes (policy_of s)) \<and>
    (lit ''Authorization'', lit ''Bearer '' @ key) \<in> set (wire_headers req)"
proof -
  from execute_wire [OF assms] obtain ep p q where ep: "canonicalize_endpoint n (app_env s) url = Inr ep"
    and p: "resolve_pinned_peer n (ep\<lparr>ep_path := lit path\<rparr>) (peer_policy_of s) = Inr p"
    and sent: "send_json_request n (ep\<lparr>ep_path := lit path\<rparr>) p verb body (Some (lit ''Bearer '' @ key)) (policy_of s)
      = (wire, q)" by metis
  define ep' where "ep' = ep\<lparr>ep_path := lit path\<rparr>"
  have same: "ep_host ep' = ep_host ep" "ep_port ep' = ep_port ep" "ep_scheme ep' = ep_scheme ep" by (simp_all add: ep'_def)
  from send_json_request_wire [OF sent [folded ep'_def] assms(2)] obtain tls where one: "wire = [req]"
    and tls: "build_connection ep' (policy_of s) = Inr tls" and joined: "connect_peer n ep' p tls = Inr ()"
    and req: "req = \<lparr>wire_peer = peer_ip p, wire_port = ep_port ep', wire_tls = tls, wire_method = verb,
       wire_path = ep_path ep',
       wire_headers = request_headers n ep' (map_option dumps_ascii body) (Some (lit ''Bearer '' @ key)),
       wire_body = map_option dumps_ascii body\<rparr>"
    and small: "body = None \<or> int (length (dumps_ascii (the body))) \<le> max_request_bytes (policy_of s)" .
  from build_connection_cases [OF tls] connect_peer_ok [OF joined] canonicalize_scheme [OF ep]
  have "case tls of
       Some server \<Rightarrow> ep_scheme ep = lit ''https'' \<and> server = strip_brackets (ep_host ep) \<and>
         wrap_socket n (peer_ip p) server = Tls_Verified
     | None \<Rightarrow> ep_scheme ep = lit ''http'' \<and> allow_insecure_http (policy_of s) \<and> app_env s \<in> {''development'', ''test''}"
    unfolding same by (auto split: option.splits)
  moreover have "(lit ''Authorization'', lit ''Bearer '' @ key) \<in> set (wire_headers req)"
    by (simp add: req request_headers_def)
  moreover have "wire_body req = None \<or> int (length (the (wire_body req))) \<le> max_request_bytes (policy_of s)"
    using small by (cases body) (auto simp: req)
  ultimately show ?thesis
    using ep p one connect_peer_ok [OF joined, unfolded same] by (intro exI [of _ ep] exI [of _ p]) (simp add: req same)
qed


text \<open>
  C5 [only_vetted_peers_hear]: whatever call is made, at most one request leaves, and only over a connection whose
  far end is the pinned peer of the canonical endpoint; over TLS the certificate was verified for the host of
  the endpoint, without TLS the policy allows it and the environment is development or test; and the body is within
  the configured limit. The key is in the Authorization header of that request.
\<close>

theorem only_vetted_peers_hear:
  assumes "execute n s url verb path body key = (wire, r)" "req \<in> set wire"
  shows "\<exists>ep p. wire = [req] \<and> canonicalize_endpoint n (app_env s) url = Inr ep \<and>
    resolve_pinned_peer n (ep\<lparr>ep_path := lit path\<rparr>) (peer_policy_of s) = Inr p \<and> wire_peer req = peer_ip p \<and>
    socket_connect n (peer_ip p) (ep_port ep) = Some (peer_ip p) \<and> wire_port req = ep_port ep \<and>
    (case wire_tls req of
       Some server \<Rightarrow> ep_scheme ep = lit ''https'' \<and> server = strip_brackets (ep_host ep) \<and>
         wrap_socket n (peer_ip p) server = Tls_Verified
     | None \<Rightarrow> ep_scheme ep = lit ''http'' \<and> allow_insecure_http (policy_of s) \<and> app_env s \<in> {''development'', ''test''}) \<and>
    (wire_body req = None \<or> int (length (the (wire_body req))) \<le> max_request_bytes (policy_of s)) \<and>
    (lit ''Authorization'', lit ''Bearer '' @ key) \<in> set (wire_headers req)"
  using assms by (rule wire_vetted)

definition sample_setup :: egress_setup where
  "sample_setup = \<lparr>app_env = ''production'',
     policy_of = \<lparr>max_request_bytes = 100, max_response_bytes = 100, allow_insecure_http = False\<rparr>,
     peer_policy_of = sample_peers\<rparr>"

definition sample_url :: pystr where "sample_url = lit ''https://h:443/''"

lemma sample_split:
  "urlsplit ok sample_url = Some \<lparr>url_scheme = lit ''https'', url_netloc = lit ''h:443'', url_path = lit ''/'', url_query = [],
     url_fragment = []\<rparr>"
  by (simp add: sample_url_def urlsplit_def split_scheme_def split_netloc_def netloc_ok_def before_sep_def after_sep_def lit_def
    is_alpha_def scheme_char_def ascii_lower_def starts_with_def is_delim_def Let_def)

lemma sample_host_canonical: "canonicalize_host (sample_net x) (lit ''h'') = Inr (lit ''h'')"
proof -
  have "strip (lit ''h'') = lit ''h''" by (simp add: strip_def strip_of_def lit_def is_space_def)
  moreover have "canonicalize_name (sample_net x) (lit ''h'') = Inr (lit ''h'')"
    by (simp add: canonicalize_name_def lit_def idna_label_def hostname_label_def is_label_char_def is_label_end_def
      lower_def ascii_lower_def of_option_def suffix_def Let_def)
  ultimately show ?thesis by (simp add: canonicalize_host_def sample_name)
qed

lemma sample_canonical: "canonicalize_endpoint (sample_net x) ''production'' sample_url = Inr sample_endpoint"
proof -
  have h: "url_hostname (lit ''h:443'') = Some (lit ''h'')" "url_port (lit ''h:443'') = Some (Some 443)"
    by (simp_all add: url_hostname_def url_port_def hostinfo_def after_last_def before_sep_def after_sep_def lit_def
      lower_def ascii_lower_def is_digit_def dec_value_def Let_def)
  have f: "finish_endpoint (lit ''https'') (lit ''h'') 443 (lit ''/'') = Inr sample_endpoint"
    by (simp add: finish_endpoint_def unsafe_path_def starts_with_def lit_def canonical_text_def dec_digits.simps
      sample_endpoint_def Let_def)
  show ?thesis
    unfolding canonicalize_iff
    by (intro conjI exI [of _ "\<lparr>url_scheme = lit ''https'', url_netloc = lit ''h:443'', url_path = lit ''/'', url_query = [],
      url_fragment = []\<rparr>"] exI [of _ "lit ''h''"] exI [of _ "Some 443"])
      (simp_all add: sample_split h sample_host_canonical f endpoint_port_def, simp_all add: sample_url_def MAX_URL_LENGTH_def lit_def)
qed

definition sample_request :: "pystr \<Rightarrow> wire_request" where
  "sample_request key = \<lparr>wire_peer = ip_text (V4 167772165), wire_port = 443, wire_tls = Some (lit ''h''),
     wire_method = ''GET'', wire_path = lit ''/v1/models'',
     wire_headers = request_headers (sample_net (\<lambda>_. Os_Failure)) sample_endpoint None (Some (lit ''Bearer '' @ key)),
     wire_body = None\<rparr>"

lemma header_value_printable: "list_all (\<lambda>c. 32 \<le> c \<and> c < 256) v \<Longrightarrow> header_value_ok v"
  unfolding header_value_ok_def list_all_length by fastforce

lemma sample_sendable:
  assumes "list_all (\<lambda>c. 32 \<le> c \<and> c < 256) key"
  shows "sendable (sample_request key)"
proof -
  have "list_all (\<lambda>(_, v). list_all (\<lambda>c. 32 \<le> c \<and> c < 256) v) (wire_headers (sample_request key))"
    using assms by (simp add: sample_request_def request_headers_def host_header_def sample_endpoint_def sample_net_def lit_def)
  then have "list_all (\<lambda>(_, v). header_value_ok v) (wire_headers (sample_request key))"
    by (rule list.pred_mono_strong) (auto intro: header_value_printable)
  then show ?thesis by (simp add: sendable_def sample_request_def lit_def)
qed

lemma candidates_of_path: "candidates_of n (ep\<lparr>ep_path := x\<rparr>) = candidates_of n ep"
  by (simp add: candidates_of_def Let_def cong: option.case_cong)

lemma sample_execute:
  assumes "list_all (\<lambda>c. 32 \<le> c \<and> c < 256) key"
  shows "execute (sample_net x) sample_setup sample_url ''GET'' ''/v1/models'' None key =
    ([sample_request key], outcome_of_result (bind_result (exchange (sample_net x) (sample_request key) (policy_of sample_setup))
       (\<lambda>(status, raw). parse_answer status raw)))"
proof -
  define ep where "ep = sample_endpoint\<lparr>ep_path := lit ''/v1/models''\<rparr>"
  define p where "p = \<lparr>peer_ip = ip_text (V4 167772165), peer_v6 = False\<rparr>"
  have same: "candidates_of (sample_net x) ep = candidates_of (sample_net x) sample_endpoint"
    unfolding ep_def by (rule candidates_of_path)
  have peer: "resolve_pinned_peer (sample_net x) ep sample_peers = Inr p"
    unfolding resolve_pinned_iff same sample_candidates p_def using sample_allowed
    by (simp add: ep_def sample_endpoint_def sample_peers_def)
  have bare: "strip_brackets (ep_host ep) = lit ''h''"
    by (simp add: ep_def sample_endpoint_def strip_brackets_def starts_with_def lit_def)
  have tls: "build_connection ep (policy_of sample_setup) = Inr (Some (lit ''h''))"
    unfolding build_connection_def bare by (simp add: ep_def sample_endpoint_def lit_def)
  have joined: "connect_peer (sample_net x) ep p (Some (lit ''h'')) = Inr ()"
    by (simp add: connect_peer_def sample_net_def)
  have req: "\<lparr>wire_peer = peer_ip p, wire_port = ep_port ep, wire_tls = Some (lit ''h''), wire_method = ''GET'',
      wire_path = ep_path ep, wire_headers = request_headers (sample_net x) ep None (Some (lit ''Bearer '' @ key)),
      wire_body = None\<rparr> = sample_request key"
    by (simp add: sample_request_def request_headers_def host_header_def p_def ep_def sample_endpoint_def sample_net_def)
  have "send_json_request (sample_net x) ep p ''GET'' None (Some (lit ''Bearer '' @ key)) (policy_of sample_setup) =
      ([sample_request key], bind_result (exchange (sample_net x) (sample_request key) (policy_of sample_setup))
         (\<lambda>(status, raw). parse_answer status raw))"
    by (simp add: send_json_request_def tls joined req sample_sendable [OF assms] Let_def)
  moreover have "app_env sample_setup = ''production''" "peer_policy_of sample_setup = sample_peers"
    by (simp_all add: sample_setup_def)
  ultimately show ?thesis
    by (simp add: execute_def sample_canonical ep_def [symmetric] peer)
qed

theorem only_vetted_peers_hear_witness:
  "\<exists>ep p. canonicalize_endpoint (sample_net (\<lambda>_. Library_Failure)) (app_env sample_setup) sample_url = Inr ep \<and>
     resolve_pinned_peer (sample_net (\<lambda>_. Library_Failure)) (ep\<lparr>ep_path := lit ''/v1/models''\<rparr>) (peer_policy_of sample_setup) =
       Inr p \<and>
     wire_peer (sample_request (lit ''k'')) = peer_ip p"
proof -
  have "list_all (\<lambda>c. 32 \<le> c \<and> c < 256) (lit ''k'')" by (simp add: lit_def)
  from only_vetted_peers_hear [OF sample_execute [OF this, of "\<lambda>_. Library_Failure"], of "sample_request (lit ''k'')"] show ?thesis by auto
qed

subsection \<open>The answer is bounded\<close>

lemma read_bounded_total:
  assumes "read_bounded chunks m i got acc = Inr bs" "got = int (length acc)"
  shows "bs = acc \<or> int (length bs) \<le> m"
  using assms
proof (induction chunks m i got acc rule: read_bounded.induct)
  case (1 chunks m i got acc)
  show ?case
  proof (cases "chunks i")
    case (Chunk c)
    with 1 show ?thesis
      by (subst (asm) read_bounded.simps) (auto split: if_splits)
  qed (use 1 in \<open>subst (asm) read_bounded.simps, simp\<close>)+
qed

definition stream :: "bytes list \<Rightarrow> nat \<Rightarrow> chunk_read" where
  "stream cs i = (if i < length cs then Chunk (cs ! i) else Chunk [])"

lemma read_bounded_stream:
  assumes "list_all (\<lambda>c. c \<noteq> []) cs" "i \<le> length cs"
  shows "read_bounded (stream cs) m i got acc =
    (if i = length cs \<or> got + int (length (concat (drop i cs))) \<le> m then Inr (acc @ concat (drop i cs))
     else Inl (Egress_Error RESPONSE_TOO_LARGE))"
  using assms
proof (induction "length cs - i" arbitrary: i got acc)
  case 0
  then show ?case by (simp add: read_bounded.simps stream_def)
next
  case (Suc k)
  then have i: "i < length cs" by simp
  then have c: "cs ! i \<noteq> []" "drop i cs = cs ! i # drop (Suc i) cs" "stream cs i = Chunk (cs ! i)"
    using Suc.prems(1) by (simp_all add: list_all_length Cons_nth_drop_Suc stream_def)
  have IH: "read_bounded (stream cs) m (Suc i) got' acc' =
    (if Suc i = length cs \<or> got' + int (length (concat (drop (Suc i) cs))) \<le> m then Inr (acc' @ concat (drop (Suc i) cs))
     else Inl (Egress_Error RESPONSE_TOO_LARGE))" for got' acc'
    using Suc.hyps Suc.prems(1) i by simp
  show ?case
    using i c IH by (subst read_bounded.simps) auto
qed

text \<open>
  C31 [answer_bounded]: reading an answer ends for every stream. What is returned fits into the limit (or is empty), and an
  answer that arrives in non-empty pieces is returned whole exactly when it fits, however it is cut.
\<close>

theorem answer_bounded:
  "(case read_bounded chunks m 0 0 [] of Inr bs \<Rightarrow> bs = [] \<or> int (length bs) \<le> m | Inl e \<Rightarrow> True) \<and>
   read_bounded (stream (filter (\<lambda>c. c \<noteq> []) cs)) m 0 0 [] =
     (if concat cs = [] \<or> int (length (concat cs)) \<le> m then Inr (concat cs)
      else Inl (Egress_Error RESPONSE_TOO_LARGE))"
proof -
  have "concat (filter (\<lambda>c. c \<noteq> []) cs) = concat cs" by (induction cs) auto
  moreover have "filter (\<lambda>c. c \<noteq> []) cs = [] \<longleftrightarrow> concat cs = []" by (induction cs) auto
  ultimately have "read_bounded (stream (filter (\<lambda>c. c \<noteq> []) cs)) m 0 0 [] =
     (if concat cs = [] \<or> int (length (concat cs)) \<le> m then Inr (concat cs)
      else Inl (Egress_Error RESPONSE_TOO_LARGE))"
    using read_bounded_stream [of "filter (\<lambda>c. c \<noteq> []) cs" 0 m 0 "[]"] by (auto simp: list_all_iff)
  moreover have "bs = [] \<or> int (length bs) \<le> m" if "read_bounded chunks m 0 0 [] = Inr bs" for bs
    using read_bounded_total [OF that] by simp
  ultimately show ?thesis by (auto split: sum.split)
qed

subsection \<open>Embeddings\<close>

definition finite_number :: "json \<Rightarrow> bool" where
  "finite_number v = (case v of JInt i \<Rightarrow> \<bar>i\<bar> < float_limit | JFloat t \<Rightarrow> float_finite t | _ \<Rightarrow> False)"

definition item_index :: "json \<Rightarrow> int" where
  "item_index item = (case obj_get (lit ''index'') item of Some (JInt i) \<Rightarrow> i | _ \<Rightarrow> 0)"

text \<open>An item of the listing: its index, and a vector of \<open>d\<close> finite numbers.\<close>

definition item_ok :: "nat \<Rightarrow> int \<Rightarrow> json \<Rightarrow> bool" where
  "item_ok d i item \<longleftrightarrow> obj_get (lit ''index'') item = Some (JInt i) \<and>
     (case obj_get (lit ''embedding'') item of
        Some (JArr vector) \<Rightarrow> vector \<noteq> [] \<and> length vector = d \<and> list_all finite_number vector
      | _ \<Rightarrow> False)"

lemma item_ok_index: "item_ok d i item \<Longrightarrow> item_index item = i"
  by (simp add: item_ok_def item_index_def)

lemma vector_verdict_iff: "vector_verdict vs = Some True \<longleftrightarrow> list_all finite_number vs"
  by (induction vs rule: vector_verdict.induct) (auto simp: finite_number_def)

lemma read_item_iff:
  "read_item seen dimension item = Inr (i, d) \<longleftrightarrow>
     item_ok d i item \<and> i \<notin> set seen \<and> (dimension = None \<or> dimension = Some d)"
  unfolding read_item_def item_ok_def vector_verdict_iff [symmetric]
  by (auto split: option.splits json.splits)

lemma collect_items_ok:
  assumes "collect_items indexed dimension items = Inr ixs" "distinct (map fst indexed)"
  shows "\<exists>d new. ixs = indexed @ new \<and> map snd new = items \<and> distinct (map fst ixs) \<and>
    list_all (\<lambda>(i, item). item_ok d i item) new \<and> (dimension = None \<or> dimension = Some d)"
  using assms
proof (induction items arbitrary: indexed dimension)
  case Nil
  then show ?case by (cases dimension) auto
next
  case (Cons item items)
  from Cons.prems(1) obtain i d where read: "read_item (map fst indexed) dimension item = Inr (i, d)"
    and rest: "collect_items (indexed @ [(i, item)]) (Some d) items = Inr ixs"
    by (auto simp: bind_result_Inr)
  from read have ok: "item_ok d i item" "i \<notin> set (map fst indexed)" "dimension = None \<or> dimension = Some d"
    by (simp_all add: read_item_iff)
  with Cons.prems(2) have "distinct (map fst (indexed @ [(i, item)]))" by simp
  from Cons.IH [OF rest this] obtain new where new: "ixs = (indexed @ [(i, item)]) @ new" "map snd new = items"
    "distinct (map fst ixs)" "list_all (\<lambda>(i, item). item_ok d i item) new" by auto
  with ok show ?case by (intro exI [of _ d] exI [of _ "(i, item) # new"]) simp
qed

lemma collect_items_good:
  assumes "list_all (\<lambda>item. item_ok d (item_index item) item) items"
    and "distinct (map fst indexed @ map item_index items)" "dimension = None \<or> dimension = Some d"
  shows "collect_items indexed dimension items = Inr (indexed @ map (\<lambda>item. (item_index item, item)) items)"
  using assms
proof (induction items arbitrary: indexed dimension)
  case (Cons item items)
  then have "read_item (map fst indexed) dimension item = Inr (item_index item, d)"
    by (simp add: read_item_iff)
  with Cons.IH [of "indexed @ [(item_index item, item)]" "Some d"] Cons.prems show ?case by simp
qed simp

lemma map_of_keys: "distinct (map fst xs) \<Longrightarrow> map (\<lambda>k. the (map_of xs k)) (map fst xs) = map snd xs"
proof -
  assume d: "distinct (map fst xs)"
  have "the (map_of xs (fst x)) = snd x" if "x \<in> set xs" for x
    using map_of_is_SomeI [OF d, of "fst x" "snd x"] that by simp
  then show ?thesis by (simp add: comp_def)
qed

lemma listing_ordered:
  assumes "collect_items [] None data = Inr ixs" "set (map fst ixs) = set (map int [0..<k])"
  shows "\<exists>d. mset (map (\<lambda>i. the (map_of ixs (int i))) [0..<k]) = mset data \<and>
    list_all (\<lambda>i. item_ok d (int i) (the (map_of ixs (int i)))) [0..<k]"
proof -
  from collect_items_ok [OF assms(1)] obtain d where ixs: "map snd ixs = data" "distinct (map fst ixs)"
    "list_all (\<lambda>(i, item). item_ok d i item) ixs" by auto
  have "distinct (map int [0..<k])" by (simp add: distinct_map inj_on_def)
  with ixs(2) assms(2) have "mset (map int [0..<k]) = mset (map fst ixs)"
    by (metis set_eq_iff_mset_eq_distinct)
  then have "mset (map (\<lambda>i. the (map_of ixs i)) (map int [0..<k])) = mset (map (\<lambda>i. the (map_of ixs i)) (map fst ixs))"
    by (simp only: mset_map)
  then have m: "mset (map (\<lambda>i. the (map_of ixs (int i))) [0..<k]) = mset data"
    by (simp only: map_of_keys [OF ixs(2)] ixs(1)) (simp add: comp_def)
  have "item_ok d (int i) (the (map_of ixs (int i)))" if "i < k" for i
  proof -
    from that assms(2) have "int i \<in> fst ` set ixs" by auto
    then obtain item where item: "(int i, item) \<in> set ixs" by auto
    then have "map_of ixs (int i) = Some item" using ixs(2) by simp
    with item ixs(3) show ?thesis by (auto simp: list_all_iff)
  qed
  with m show ?thesis by (intro exI [of _ d]) (simp add: list_all_iff)
qed

lemma listing_accepted:
  assumes "mset items = mset data" "length items = k" "list_all (\<lambda>i. item_ok d (int i) (items ! i)) [0..<k]"
  shows "\<exists>ixs. collect_items [] None data = Inr ixs \<and> set (map fst ixs) = set (map int [0..<k]) \<and>
    map (\<lambda>i. the (map_of ixs (int i))) [0..<k] = items"
proof -
  have at: "item_ok d (int i) (items ! i)" "item_index (items ! i) = int i" if "i < k" for i
    using assms(3) that item_ok_index [of d "int i" "items ! i"] by (auto simp: list_all_iff)
  have keys: "map item_index items = map int [0..<k]"
    using assms(2) at(2) by (intro nth_equalityI) simp_all
  have same: "set items = set data" using assms(1) by (rule mset_eq_setD)
  have good: "list_all (\<lambda>item. item_ok d (item_index item) item) data"
    unfolding list_all_iff same [symmetric] using at assms(2) by (auto simp: in_set_conv_nth)
  have eq: "mset (map item_index data) = mset (map int [0..<k])" using assms(1) keys by (metis mset_map)
  have d: "distinct (map item_index data)"
    unfolding mset_eq_imp_distinct_iff [OF eq] by (simp add: distinct_map inj_on_def)
  have s: "set (map item_index data) = set (map int [0..<k])" using eq by (rule mset_eq_setD)
  define ixs where "ixs = map (\<lambda>item. (item_index item, item)) data"
  have fsts: "map fst ixs = map item_index data" by (simp add: ixs_def comp_def)
  have "collect_items [] None data = Inr ixs"
    using collect_items_good [OF good, of "[]" None] d by (simp add: ixs_def)
  moreover have "the (map_of ixs (int i)) = items ! i" if "i < k" for i
  proof -
    have "items ! i \<in> set data" unfolding same [symmetric] using that assms(2) by simp
    then have "(item_index (items ! i), items ! i) \<in> set ixs" unfolding ixs_def set_map by (rule imageI)
    then have "(int i, items ! i) \<in> set ixs" unfolding at(2) [OF that] .
    moreover have "distinct (map fst ixs)" unfolding fsts by (rule d)
    ultimately show ?thesis by simp
  qed
  ultimately show ?thesis using assms(2) s fsts by (intro exI [of _ ixs]) (auto intro: nth_equalityI)
qed

text \<open>
  An embeddings answer for \<open>k\<close> inputs is accepted exactly when its items can be put in an
  order in which item \<open>i\<close> carries index \<open>i\<close> and all carry non-empty vectors of finite numbers of one length; then the
  listing is put in this order, and nothing else of the answer changes.
\<close>

theorem embeddings_ordered:
  "order_embeddings k doc = Inr doc' \<longleftrightarrow>
     (\<exists>d data items. obj_get (lit ''data'') doc = Some (JArr data) \<and> mset items = mset data \<and> length items = k \<and>
       list_all (\<lambda>i. item_ok d (int i) (items ! i)) [0..<k] \<and> doc' = obj_set (lit ''data'') (JArr items) doc)"
  (is "?l \<longleftrightarrow> ?r")
proof
  assume ?l
  then obtain data ixs where data: "obj_get (lit ''data'') doc = Some (JArr data)" "length data = k"
    and ixs: "collect_items [] None data = Inr ixs" "set (map fst ixs) = set (map int [0..<k])"
    and doc': "doc' = obj_set (lit ''data'') (JArr (map (\<lambda>i. the (map_of ixs (int i))) [0..<k])) doc"
    unfolding order_embeddings_def by (auto simp: bind_result_Inr split: option.splits json.splits if_splits)
  from listing_ordered [OF ixs] obtain d where m: "mset (map (\<lambda>i. the (map_of ixs (int i))) [0..<k]) = mset data"
    "list_all (\<lambda>i. item_ok d (int i) (the (map_of ixs (int i)))) [0..<k]" by blast
  then have "list_all (\<lambda>i. item_ok d (int i) (map (\<lambda>i. the (map_of ixs (int i))) [0..<k] ! i)) [0..<k]"
    by (simp add: list_all_iff)
  with data doc' m show ?r
    by (intro exI [of _ d] exI [of _ data] exI [of _ "map (\<lambda>i. the (map_of ixs (int i))) [0..<k]"]) simp
next
  assume ?r
  then obtain d data items where data: "obj_get (lit ''data'') doc = Some (JArr data)"
    and items: "mset items = mset data" "length items = k" "list_all (\<lambda>i. item_ok d (int i) (items ! i)) [0..<k]"
    and doc': "doc' = obj_set (lit ''data'') (JArr items) doc" by blast
  have "length data = k" using items(1, 2) mset_eq_length by metis
  with listing_accepted [OF items] data doc' show ?l by (auto simp: order_embeddings_def)
qed

end
