(* ===== verification/Egress_Canonical.thy ===== *)
theory Egress_Canonical
  imports Egress_Properties
begin

text \<open>
  The canonical form of an endpoint is stable: reading back the canonical URL gives the same endpoint, for
  host names and IPv4 addresses, unless the host is an address the check refuses. The second case arises:
  a host with a trailing dot is not taken for an address when it is first read.
\<close>

subsection \<open>Text of IPv4 addresses\<close>

lemma parse_octet_iff: "parse_octet s = Some k \<longleftrightarrow> k \<le> 255 \<and> s = dec_digits k"
proof
  assume "parse_octet s = Some k"
  then have "s \<noteq> []" "list_all is_digit s" "s = [48] \<or> hd s \<noteq> 48" "k = dec_value s" "k \<le> 255"
    by (auto simp: parse_octet_def split: if_splits)
  with dec_digits_value [of s] show "k \<le> 255 \<and> s = dec_digits k" by simp
next
  assume k: "k \<le> 255 \<and> s = dec_digits k"
  then have "length s \<le> 3" using dec_digits_short [of k 3] by simp
  moreover have "s = [48] \<or> hd s \<noteq> 48" using k hd_dec_digits [of k] by (cases "k = 0") auto
  moreover have "list_all is_digit s" using k dec_digits_are_digits by (auto simp: list_all_iff)
  ultimately show "parse_octet s = Some k" using k by (auto simp: parse_octet_def)
qed

lemma of_nat_word32_unat: "N < 2 ^ 32 \<Longrightarrow> unat (of_nat N :: 32 word) = N"
  by (simp add: unat_of_nat)

lemma four_octets:
  assumes "a < 256" "b < 256" "c < 256" "d < (256 :: nat)" "N = ((a * 256 + b) * 256 + c) * 256 + d"
  shows "N < 2 ^ 32" "N div 256 ^ 3 mod 256 = a" "N div 256 ^ 2 mod 256 = b" "N div 256 mod 256 = c" "N mod 256 = d"
proof -
  have 1: "N div 256 = (a * 256 + b) * 256 + c" using assms by simp
  then have 2: "N div 256 ^ 2 = a * 256 + b" using assms by (simp add: power2_eq_square div_mult2_eq)
  then have 3: "N div 256 ^ 3 = a" using assms by (simp add: power3_eq_cube power2_eq_square div_mult2_eq)
  show "N < 2 ^ 32" using assms by simp
  show "N div 256 ^ 3 mod 256 = a" using 3 assms by simp
  show "N div 256 ^ 2 mod 256 = b" unfolding 2 using assms(2) by (simp only: mod_mult_self3 mod_less)
  show "N div 256 mod 256 = c" unfolding 1 using assms(3) by (simp only: mod_mult_self3 mod_less)
  show "N mod 256 = d" unfolding assms(5) using assms(4) by (simp only: mod_mult_self3 mod_less)
qed

lemma ipv4_of_text:
  assumes "ipv4_of s = Some w"
  shows "ipv4_text w = s"
proof -
  from assms obtain a b c d where parts: "map parse_octet (split_on 46 s) = [Some a, Some b, Some c, Some d]"
    and w: "w = of_nat (((a * 256 + b) * 256 + c) * 256 + d)"
    by (auto simp: ipv4_of_def split: if_splits list.splits option.splits)
  then have ks: "split_on 46 s = [dec_digits a, dec_digits b, dec_digits c, dec_digits d]"
    and small: "a < 256" "b < 256" "c < 256" "d < 256"
    by (auto simp: map_eq_Cons_conv parse_octet_iff)
  note N = four_octets [OF small refl]
  have "unat w = ((a * 256 + b) * 256 + c) * 256 + d" unfolding w by (rule of_nat_word32_unat [OF N(1)])
  then have "ipv4_text w = join_with [46] [dec_digits a, dec_digits b, dec_digits c, dec_digits d]"
    unfolding ipv4_text_def using N by simp
  with ks join_split_on [of 46 s] show ?thesis by simp
qed

lemma octets_of:
  assumes "(N :: nat) < 2 ^ 32"
  shows "(((N div 256 ^ 3 mod 256) * 256 + N div 256 ^ 2 mod 256) * 256 + N div 256 mod 256) * 256 + N mod 256 = N"
proof -
  have "N div 256 ^ 3 < 256" using assms by (simp add: less_mult_imp_div_less)
  then have "N div 256 ^ 3 mod 256 = N div 256 ^ 3" by simp
  moreover have "N div 256 ^ 3 = N div 256 div 256 div 256" "N div 256 ^ 2 = N div 256 div 256"
    by (simp_all only: power3_eq_cube power2_eq_square div_mult2_eq)
  ultimately show ?thesis by (simp only: div_mult_mod_eq)
qed

lemma digits_no_dot: "46 \<notin> set (dec_digits n)"
  using dec_digits_are_digits [of 46 n] by (auto simp: is_digit_def)

lemma ip_address_of_v4_text: "ip_address (ipv4_text w) = Some (V4 w)"
proof -
  define N where "N = unat w"
  have N: "N < 2 ^ 32" unfolding N_def using unsigned_less [of w, where ?'a = nat] by simp
  define ks where "ks = [N div 256 ^ 3 mod 256, N div 256 ^ 2 mod 256, N div 256 mod 256, N mod 256]"
  have t: "ipv4_text w = join_with [46] (map dec_digits ks)" by (simp add: ipv4_text_def ks_def N_def)
  have s: "split_on 46 (ipv4_text w) = map dec_digits ks"
    unfolding t by (rule split_on_join) (auto simp: ks_def digits_no_dot)
  have parsed: "map parse_octet (map dec_digits ks) = map Some ks"
    unfolding map_map by (rule map_cong) (auto simp: ks_def parse_octet_iff less_Suc_eq_le [symmetric])
  have "47 \<notin> set (dec_digits n)" for n using dec_digits_are_digits [of 47 n] by (auto simp: is_digit_def)
  then have "47 \<notin> set (ipv4_text w)" unfolding t ks_def by simp
  moreover have "of_nat ((((N div 256 ^ 3 mod 256) * 256 + N div 256 ^ 2 mod 256) * 256 + N div 256 mod 256) * 256 + N mod 256) = w"
    unfolding octets_of [OF N] by (simp add: N_def)
  ultimately have "ipv4_of (ipv4_text w) = Some w"
    unfolding ipv4_of_def s parsed by (simp add: ks_def)
  then show ?thesis by (simp add: ip_address_def)
qed

subsection \<open>Canonical hosts\<close>

text \<open>Labels of at most 63 letters, digits and inner hyphens, between dots.\<close>

definition dotted :: "pystr \<Rightarrow> bool" where
  "dotted h \<longleftrightarrow> length h \<le> 253 \<and> list_all hostname_label (split_on 46 h) \<and> 10 \<notin> set h"

lemma split_on_sets: "set s \<subseteq> insert c (\<Union> (set ` set (split_on c s)))"
  by (induction s) (auto split: list.splits, blast)

lemma set_label: "w \<in> set (split_on c s) \<Longrightarrow> set w \<subseteq> set s"
proof (induction s arbitrary: w)
  case (Cons x s)
  obtain v vs where vs: "split_on c s = v # vs" by (cases "split_on c s") simp_all
  then have sub: "set u \<subseteq> set s" if "u = v \<or> u \<in> set vs" for u using Cons.IH [of u] that by auto
  have "w = [] \<or> w = v \<or> w \<in> set vs \<or> w = x # v" using Cons.prems vs by (auto split: if_splits)
  with sub [of w] sub [of v] show ?case by auto
qed simp

lemma label_plain:
  assumes "hostname_label l" "10 \<notin> set l"
  shows "l \<noteq> [] \<and> length l \<le> 63 \<and> list_all is_label_char l"
proof -
  have "\<not> (l \<noteq> [] \<and> last l = 10)" using assms(2) by (metis last_in_set)
  then have "(if l \<noteq> [] \<and> last l = 10 then butlast l else l) = l" by (rule if_not_P)
  with assms(1) show ?thesis by (simp add: hostname_label_def Let_def)
qed

lemma dotted_labels:
  assumes "dotted h" "l \<in> set (split_on 46 h)"
  shows "l \<noteq> [] \<and> length l \<le> 63 \<and> list_all is_label_char l"
  using assms label_plain [of l] set_label [OF assms(2)] by (auto simp: dotted_def list_all_iff)

lemma dotted_chars: "dotted h \<Longrightarrow> c \<in> set h \<Longrightarrow> is_label_char c \<or> c = 46"
  using split_on_sets [of h 46] dotted_labels [of h] by (fastforce simp: list_all_iff)

lemma label_char_facts: "is_label_char c \<Longrightarrow> c < 128 \<and> \<not> is_space c \<and> ascii_lower c = c \<and> c \<notin> {46, 58, 47, 37, 64, 91, 93, 35, 63}"
  by (auto simp: is_label_char_def is_label_end_def is_digit_def is_space_def ascii_lower_def)

lemma lower_id:
  assumes "\<And>c. c \<in> set s \<Longrightarrow> c < 128 \<and> ascii_lower c = c"
  shows "lower s = s"
proof -
  have "map (\<lambda>c. if c = 8490 then [107] else if c = 304 then [105, 775] else [ascii_lower c]) s = map (\<lambda>c. [c]) s"
  proof (rule map_cong [OF refl])
    fix c
    assume "c \<in> set s"
    from assms [OF this] show "(if c = 8490 then [107] else if c = 304 then [105, 775] else [ascii_lower c]) = [c]" by auto
  qed
  then have "lower s = concat (map (\<lambda>c. [c]) s)" by (simp only: lower_def)
  then show ?thesis by simp
qed

lemma last_label: "suffix [c] s \<Longrightarrow> [] \<in> set (split_on c s)"
proof -
  assume "suffix [c] s"
  then obtain t where "s = t @ [c]" by (auto simp: suffix_def)
  then show ?thesis by (simp add: split_on_snoc)
qed

lemma all_some_map: "(\<And>x. x \<in> set xs \<Longrightarrow> f x = Some x) \<Longrightarrow> all_some (map f xs) = Some xs"
  by (induction xs) auto

text \<open>What is asked of the codec \<open>idna\<close>: a label without a line end has an encoding without one. (A label with one
  may keep it: the encoding of a line end and an accented letter is \<open>xn--\<close>, the line end, and \<open>-bga\<close>.)\<close>

definition idna_clean :: "net \<Rightarrow> bool" where
  "idna_clean n \<longleftrightarrow> (\<forall>label encoded. idna n label = Some encoded \<longrightarrow> 10 \<notin> set label \<longrightarrow> 10 \<notin> set encoded)"

lemma all_some_eq: "all_some ys = Some xs \<Longrightarrow> ys = map Some xs"
  by (induction ys arbitrary: xs rule: all_some.induct) auto

lemma set_lower: "10 \<in> set (lower s) \<Longrightarrow> 10 \<in> set s"
  by (auto simp: lower_def ascii_lower_def split: if_splits)

lemma set_join: "c \<in> set (join_with [d] ws) \<Longrightarrow> c = d \<or> (\<exists>w \<in> set ws. c \<in> set w)"
  by (induction "[d]" ws rule: join_with.induct) auto

lemma canonicalize_name_dotted:
  assumes "canonicalize_name n h0 = Inr h" "10 \<notin> set h0" "idna_clean n"
  shows "dotted h"
proof -
  define h1 where "h1 = (if suffix [46] h0 then butlast h0 else h0)"
  have sub: "set h1 \<subseteq> set h0" by (auto simp: h1_def dest: in_set_butlastD)
  from assms(1) obtain encoded where enc: "all_some (map (idna_label n) (split_on 46 h1)) = Some encoded"
    and h: "h = join_with [46] (map lower encoded)" "length h \<le> 253" "list_all hostname_label (split_on 46 h)"
    unfolding canonicalize_name_def h1_def by (auto simp: guard_Inr Let_def result_simps not_less split: if_splits)
  have "10 \<notin> set e" if "e \<in> set encoded" for e
  proof -
    from that have "Some e \<in> set (map (idna_label n) (split_on 46 h1))" unfolding all_some_eq [OF enc] by simp
    then obtain l where l: "l \<in> set (split_on 46 h1)" "idna_label n l = Some e" by auto
    from l(1) sub assms(2) have "10 \<notin> set l" using set_label [of l 46 h1] by auto
    with l(2) assms(3) show ?thesis by (auto simp: idna_label_def idna_clean_def split: if_splits)
  qed
  then have "10 \<notin> set h" using set_join [of 10 46 "map lower encoded"] by (auto simp: h(1) dest: set_lower)
  with h show ?thesis by (simp add: dotted_def)
qed

lemma canonicalize_name_again:
  assumes "dotted h"
  shows "canonicalize_name n h = Inr h"
proof -
  note labels = dotted_labels [OF assms]
  have l: "l \<noteq> [] \<and> idna_label n l = Some l \<and> lower l = l" if "l \<in> set (split_on 46 h)" for l
    using labels [OF that] label_char_facts lower_id [of l] by (auto simp: idna_label_def list_all_iff)
  have last: "\<not> suffix [46] h" using last_label [of 46 h] l by blast
  then have last2: "\<not> suffix [46, 46] h" by (metis append_Cons append_Nil suffix_appendD suffix_def)
  have "h \<noteq> []" using l [of "[]"] by auto
  moreover have "\<not> list_ex (\<lambda>l. l = []) (split_on 46 h)" using l by (auto simp: list_ex_iff)
  moreover have "all_some (map (idna_label n) (split_on 46 h)) = Some (split_on 46 h)" using l by (intro all_some_map) blast
  moreover have "map lower (split_on 46 h) = split_on 46 h" using l by (intro map_idI) blast
  moreover have "length h \<le> 253" "list_all hostname_label (split_on 46 h)" using assms by (simp_all add: dotted_def)
  ultimately show ?thesis using last last2 by (simp add: canonicalize_name_def of_option_def join_split_on Let_def)
qed

lemma dotted_address:
  assumes "dotted h"
  shows "ip_address h = None \<or> (\<exists>w. ip_address h = Some (V4 w) \<and> ipv4_text w = h)"
proof (cases "ipv4_of h")
  case (Some w)
  then show ?thesis using ipv4_of_text [OF Some] by (simp add: ip_address_def)
next
  case None
  have no: "58 \<notin> set h" "37 \<notin> set h"
    using dotted_chars [OF assms, of 58] dotted_chars [OF assms, of 37] label_char_facts [of 58] label_char_facts [of 37] by auto
  then have "before_sep 37 h = h" by (intro before_absent)
  moreover have "split_on 58 h = [h]" using no(1) by (rule split_on_absent)
  ultimately have "ipv6_of h = None" using no(2) by (simp add: ipv6_of_def ipv6_int_of_def)
  with None show ?thesis by (simp add: ip_address_def)
qed

text \<open>What a canonical host looks like when it is no IPv6 address.\<close>

lemma canonicalize_host_again:
  assumes "canonicalize_host n raw = Inr h" "10 \<notin> set raw" "idna_clean n" "\<not> starts_with h [91]"
  shows "h \<noteq> [] \<and> (\<forall>c \<in> set h. is_label_char c \<or> c = 46) \<and>
    canonicalize_host n h =
      (if ip_address h = None \<or> address_safe (the (ip_address h)) then Inr h else Inl (Egress_Error HOST_AMBIGUOUS))"
proof -
  have fixed: ?thesis if "h \<noteq> []" "\<forall>c \<in> set h. is_label_char c \<or> c = 46"
    "(ip_address h = None \<and> canonicalize_name n h = Inr h) \<or> (\<exists>w. ip_address h = Some (V4 w) \<and> ipv4_text w = h)"
  proof -
    have "is_space c \<longrightarrow> c \<notin> set h" for c using that(2) label_char_facts [of c] by (auto simp: is_space_def)
    then have "strip h = h" unfolding strip_def by (intro strip_of_none) blast
    with that address_policy show ?thesis by (auto simp: canonicalize_host_def bracketed_def)
  qed
  from assms(1) consider (addr) a where "ip_address (strip raw) = Some a" "h = bracketed a"
    | (name) "canonicalize_name n (strip raw) = Inr h"
    by (auto simp: canonicalize_host_def Let_def bind_result_Inr split: if_splits option.splits)
  then show ?thesis
  proof cases
    case addr
    with assms(4) obtain w where w: "h = ipv4_text w" by (cases a) (auto simp: bracketed_def starts_with_def)
    have "c = 46 \<or> is_digit c" if "c \<in> set h" for c
      using set_join [OF that [unfolded w ipv4_text_def]] dec_digits_are_digits by auto
    then have "\<forall>c \<in> set h. is_label_char c \<or> c = 46" by (auto simp: is_label_char_def is_label_end_def)
    moreover have "h \<noteq> []" by (simp add: w ipv4_text_def)
    ultimately show ?thesis using fixed ip_address_of_v4_text [of w] w by blast
  next
    case name
    have "10 \<notin> set (strip raw)" using assms(2) strip_of_set [of is_space raw] by (auto simp: strip_def)
    with name assms(3) have d: "dotted h" by (intro canonicalize_name_dotted)
    then have "h \<noteq> []" using dotted_labels [of "[]" "[]"] by auto
    with fixed dotted_address [OF d] canonicalize_name_again [OF d] dotted_chars [OF d] show ?thesis by blast
  qed
qed

subsection \<open>Reading a canonical URL\<close>

lemma urlsplit_path:
  assumes "urlsplit ok url = Some parts"
  shows "set (url_path parts) \<inter> {9, 10, 13, 35, 63} = {}" "10 \<notin> set (url_netloc parts)"
proof -
  define clean where "clean = filter (\<lambda>c. c \<notin> {9, 10, 13}) (dropWhile (\<lambda>c. c \<le> 32) url)"
  obtain scheme rest where r: "split_scheme clean = (scheme, rest)" by (cases "split_scheme clean")
  obtain netloc tail where t: "split_netloc rest = (netloc, tail)" by (cases "split_netloc rest")
  have clean: "set clean \<inter> {9, 10, 13} = {}" by (auto simp: clean_def)
  have rest: "set rest \<subseteq> set clean"
    using r by (auto simp: split_scheme_def after_sep_def Let_def split: if_splits dest: in_set_dropD)
  have sub: "set netloc \<subseteq> set rest" "set tail \<subseteq> set rest"
    using t by (auto simp: split_netloc_def split: if_splits dest!: set_takeWhileD set_dropWhileD in_set_dropD)
  have parts: "parts = \<lparr>url_scheme = scheme, url_netloc = netloc, url_path = before_sep 63 (before_sep 35 tail),
      url_query = after_sep 63 (before_sep 35 tail), url_fragment = after_sep 35 tail\<rparr>"
    using assms unfolding urlsplit_def Let_def clean_def [symmetric] r prod.case t by (auto split: if_splits)
  have before: "set (before_sep c s) \<subseteq> set s - {c}" for c s by (auto simp: before_sep_def dest: set_takeWhileD)
  have "set (url_path parts) \<subseteq> set tail - {35, 63}"
    using before [of 63 "before_sep 35 tail"] before [of 35 tail] by (auto simp: parts)
  with clean rest sub(2) show "set (url_path parts) \<inter> {9, 10, 13, 35, 63} = {}" by fastforce
  show "10 \<notin> set (url_netloc parts)" unfolding parts using clean rest sub(1) by auto
qed

lemma url_hostname_set:
  assumes "url_hostname netloc = Some h" "10 \<in> set h"
  shows "10 \<in> set netloc"
proof -
  have before: "set (before_sep c s) \<subseteq> set s" for c s by (auto simp: before_sep_def dest: set_takeWhileD)
  have after: "set (after_sep c s) \<subseteq> set s" for c s by (auto simp: after_sep_def dest: in_set_dropD)
  have "set (after_last 64 netloc) \<subseteq> set netloc" by (auto simp: after_last_def dest: set_takeWhileD)
  then have info: "set (fst (hostinfo netloc)) \<subseteq> set netloc"
    using before after by (simp add: hostinfo_def Let_def) (meson subset_trans)
  have "h = lower (before_sep 37 (fst (hostinfo netloc))) @
      (if 37 \<in> set (fst (hostinfo netloc)) then 37 # after_sep 37 (fst (hostinfo netloc)) else [])"
    using assms(1) by (auto simp: url_hostname_def Let_def split: if_splits)
  with assms(2) have "10 \<in> set (fst (hostinfo netloc))"
    using subsetD [OF before [of 37 "fst (hostinfo netloc)"], of 10] subsetD [OF after [of 37 "fst (hostinfo netloc)"], of 10]
    by (auto split: if_splits dest!: set_lower)
  with info show ?thesis by blast
qed

text \<open>A host of these characters, a port and a path are read back out of the canonical URL.\<close>

lemma urlsplit_canonical:
  assumes scheme: "scheme = lit ''https'' \<or> scheme = lit ''http''"
    and host: "host \<noteq> []" "\<forall>c \<in> set host. is_label_char c \<or> c = 46"
    and path: "starts_with path [47]" "set path \<inter> {9, 10, 13, 35, 63} = {}"
  shows "urlsplit ok (canonical_text scheme host port path) =
    Some \<lparr>url_scheme = scheme, url_netloc = host @ 58 # dec_digits port, url_path = path, url_query = [], url_fragment = []\<rparr>"
proof -
  define netloc where "netloc = host @ 58 # dec_digits port"
  have digit: "c \<in> set (dec_digits port) \<Longrightarrow> 48 \<le> c \<and> c \<le> 57" for c
    using dec_digits_are_digits by (auto simp: is_digit_def)
  have chars: "(is_label_char c \<or> c = 46 \<or> c = 58) \<and> c < 128" if "c \<in> set netloc" for c
    using that host(2) label_char_facts [of c] digit [of c]
    by (auto simp: netloc_def is_label_char_def is_label_end_def is_digit_def)
  have not_in: "c \<notin> set netloc" if "c \<in> {9, 10, 13, 35, 37, 47, 63, 64, 91, 93}" for c
    using chars [of c] that by (auto simp: is_label_char_def is_label_end_def is_digit_def)
  define url where "url = canonical_text scheme host port path"
  have url: "url = scheme @ 58 # 47 # 47 # netloc @ path"
    by (simp add: url_def canonical_text_def netloc_def lit_def)
  have s: "scheme \<noteq> []" "\<forall>c \<in> set scheme. 97 \<le> c \<and> c \<le> 122" using scheme by (auto simp: lit_def)
  have s58: "58 \<notin> set scheme" using s(2) by auto
  have "dropWhile (\<lambda>c. c \<le> 32) url = url" using s by (cases scheme) (auto simp: url)
  moreover have "filter (\<lambda>c. c \<notin> {9, 10, 13}) url = url"
    using s(2) not_in path(2) by (intro filter_True) (auto simp: url)
  ultimately have clean: "filter (\<lambda>c. c \<notin> {9, 10, 13}) (dropWhile (\<lambda>c. c \<le> 32) url) = url" by simp
  have "is_alpha (hd scheme)" "list_all scheme_char scheme" "map ascii_lower scheme = scheme"
    using scheme by (auto simp: lit_def is_alpha_def scheme_char_def ascii_lower_def)
  then have sp: "split_scheme url = (scheme, 47 # 47 # netloc @ path)"
    using s(1) s58 by (simp add: split_scheme_def url before_after_append Let_def)
  have delim: "\<forall>c \<in> set netloc. \<not> is_delim c" using not_in by (auto simp: is_delim_def)
  obtain q where q: "path = 47 # q" using path(1) by (cases path) (auto simp: starts_with_def)
  have "takeWhile (\<lambda>c. \<not> is_delim c) (netloc @ path) = netloc" "dropWhile (\<lambda>c. \<not> is_delim c) (netloc @ path) = path"
    using delim by (simp_all add: q takeWhile_append2 dropWhile_append2 is_delim_def)
  then have nt: "split_netloc (47 # 47 # netloc @ path) = (netloc, path)"
    by (simp add: split_netloc_def starts_with_def)
  have p: "before_sep 35 path = path" "after_sep 35 path = []" "before_sep 63 path = path" "after_sep 63 path = []"
    using path(2) by (auto intro: before_absent after_absent)
  have "netloc_ok ok netloc" using not_in [of 91] not_in [of 93] chars by (simp add: netloc_ok_def list_all_iff)
  with clean sp nt p show ?thesis by (simp add: urlsplit_def url_def [symmetric] netloc_def [symmetric])
qed

lemma netloc_canonical:
  assumes "host \<noteq> []" "\<forall>c \<in> set host. is_label_char c \<or> c = 46" "port \<le> 65535"
  shows "url_hostname (host @ 58 # dec_digits port) = Some host" "url_port (host @ 58 # dec_digits port) = Some (Some port)"
    "64 \<notin> set (host @ 58 # dec_digits port)"
proof -
  have digit: "c \<in> set (dec_digits port) \<Longrightarrow> 48 \<le> c \<and> c \<le> 57" for c
    using dec_digits_are_digits by (auto simp: is_digit_def)
  have no: "c \<notin> set host" if "c \<in> {37, 58, 64, 91}" for c
    using that assms(2) by (auto simp: is_label_char_def is_label_end_def is_digit_def)
  show at: "64 \<notin> set (host @ 58 # dec_digits port)" using no [of 64] digit [of 64] by auto
  have "91 \<notin> set (host @ 58 # dec_digits port)" using no [of 91] digit [of 91] by auto
  then have info: "hostinfo (host @ 58 # dec_digits port) = (host, dec_digits port)"
    using no [of 58] after_last_absent [OF at] by (simp add: hostinfo_def before_after_append Let_def)
  have "c < 128 \<and> ascii_lower c = c" if "c \<in> set host" for c
    using that assms(2) label_char_facts [of c] by (cases "c = 46") (simp add: ascii_lower_def, blast)
  then have low: "lower host = host" by (rule lower_id)
  show "url_hostname (host @ 58 # dec_digits port) = Some host"
    using no [of 37] assms(1) low by (simp add: url_hostname_def info before_absent Let_def)
  have "length (dec_digits port) \<le> 5" using assms(3) by (intro dec_digits_short) simp_all
  then show "url_port (host @ 58 # dec_digits port) = Some (Some port)"
    using assms(3) dec_digits_are_digits by (simp add: url_port_def info list_all_iff Let_def)
qed

text \<open>
  C30 [canonical_url_stable]: for a host that is no IPv6 address, reading the canonical URL of an endpoint gives the
  endpoint again, with two exceptions: a canonical URL that grew over the limit of length is invalid, and one whose
  host is itself the text of an address that the check refuses, which it escaped on the first reading by a trailing
  dot, is refused as ambiguous. The codec of international names is asked not to make up line ends.
\<close>

theorem canonical_url_stable:
  assumes "canonicalize_endpoint n env url = Inr ep" "\<not> starts_with (ep_host ep) [91]" "idna_clean n"
  shows "canonicalize_endpoint n env (ep_canonical_url ep) =
    (if MAX_URL_LENGTH < length (ep_canonical_url ep) then Inl (Egress_Error URL_INVALID)
     else if ip_address (ep_host ep) = None \<or> address_safe (the (ip_address (ep_host ep))) then Inr ep
     else Inl (Egress_Error HOST_AMBIGUOUS))"
proof (cases "MAX_URL_LENGTH < length (ep_canonical_url ep)")
  case True
  then show ?thesis by (simp add: canonicalize_endpoint_def)
next
  case short: False
  from assms(1) obtain parts hostname host raw_port where parts: "urlsplit (nfkc_ok n) url = Some parts"
    and scheme: "url_scheme parts = lit ''https'' \<or> url_scheme parts = lit ''http'' \<and> env \<in> {''development'', ''test''}"
    and hostname: "url_hostname (url_netloc parts) = Some hostname" "canonicalize_host n hostname = Inr host"
    and fin: "finish_endpoint (url_scheme parts) host (endpoint_port (url_scheme parts) raw_port) (url_path parts) = Inr ep"
    unfolding canonicalize_iff by blast
  define path where "path = (if url_path parts = [] then [47] else url_path parts)"
  define port where "port = endpoint_port (url_scheme parts) raw_port"
  from fin have port: "1 \<le> port" "port \<le> 65535" and safe: "\<not> unsafe_path path"
    and ep: "ep = \<lparr>ep_scheme = url_scheme parts, ep_host = host, ep_port = port, ep_path = path,
      ep_canonical_url = canonical_text (url_scheme parts) host port path\<rparr>"
    unfolding finish_endpoint_iff port_def path_def by blast+
  have path: "starts_with path [47]" "set path \<inter> {9, 10, 13, 35, 63} = {}" "path \<noteq> []"
    using safe urlsplit_path(1) [OF parts] by (auto simp: unsafe_path_def path_def)
  have "10 \<notin> set hostname" using url_hostname_set [OF hostname(1)] urlsplit_path(2) [OF parts] by blast
  from canonicalize_host_again [OF hostname(2) this assms(3)] assms(2)
  have host: "host \<noteq> []" "\<forall>c \<in> set host. is_label_char c \<or> c = 46" and again: "canonicalize_host n host =
      (if ip_address host = None \<or> address_safe (the (ip_address host)) then Inr host else Inl (Egress_Error HOST_AMBIGUOUS))"
    by (simp_all add: ep)
  have fin': "finish_endpoint (url_scheme parts) host (endpoint_port (url_scheme parts) (Some port)) path = Inr ep"
    using port safe path(3) by (simp add: finish_endpoint_def endpoint_port_def ep Let_def)
  have u: "ep_canonical_url ep = canonical_text (url_scheme parts) host port path" by (simp add: ep)
  have "url_scheme parts = lit ''https'' \<or> url_scheme parts = lit ''http''" using scheme by blast
  from urlsplit_canonical [OF this host path(1, 2)]
  have split: "urlsplit (nfkc_ok n) (ep_canonical_url ep) = Some \<lparr>url_scheme = url_scheme parts,
      url_netloc = host @ 58 # dec_digits port, url_path = path, url_query = [], url_fragment = []\<rparr>"
    unfolding u .
  note read = netloc_canonical [OF host port(2)]
  have ok: "ep_canonical_url ep \<noteq> []" "\<not> MAX_URL_LENGTH < length (ep_canonical_url ep)"
    using short by (simp_all add: u canonical_text_def)
  have "canonicalize_endpoint n env (ep_canonical_url ep) =
      bind_result (canonicalize_host n host) (\<lambda>h. finish_endpoint (url_scheme parts) h (endpoint_port (url_scheme parts) (Some port)) path)"
    using scheme ok read by (auto simp: canonicalize_endpoint_def split of_option_def)
  then show ?thesis using short by (simp add: again fin' ep)
qed

text \<open>The metadata address behind a trailing dot: accepted once, refused when its canonical URL is read.\<close>

definition dotted_url :: pystr where "dotted_url = lit ''https://169.254.169.254./''"

definition dotted_endpoint :: endpoint where
  "dotted_endpoint = \<lparr>ep_scheme = lit ''https'', ep_host = lit ''169.254.169.254'', ep_port = 443, ep_path = lit ''/'',
     ep_canonical_url = lit ''https://169.254.169.254:443/''\<rparr>"

lemma dotted_split:
  "urlsplit ok dotted_url = Some \<lparr>url_scheme = lit ''https'', url_netloc = lit ''169.254.169.254.'', url_path = lit ''/'',
     url_query = [], url_fragment = []\<rparr>"
  by (simp add: dotted_url_def urlsplit_def split_scheme_def split_netloc_def netloc_ok_def before_sep_def after_sep_def lit_def
    is_alpha_def scheme_char_def ascii_lower_def starts_with_def is_delim_def Let_def)

lemma dotted_host: "canonicalize_host (sample_net x) (lit ''169.254.169.254.'') = Inr (lit ''169.254.169.254'')"
proof -
  have "strip (lit ''169.254.169.254.'') = lit ''169.254.169.254.''" by (simp add: strip_def strip_of_def lit_def is_space_def)
  moreover have "ip_address (lit ''169.254.169.254.'') = None"
    by (simp add: ip_address_def ipv4_of_def ipv6_of_def ipv6_int_of_def before_sep_def lit_def parse_octet_def is_digit_def)
  moreover have "canonicalize_name (sample_net x) (lit ''169.254.169.254.'') = Inr (lit ''169.254.169.254'')"
    by (simp add: canonicalize_name_def lit_def idna_label_def hostname_label_def is_label_char_def is_label_end_def is_digit_def
      lower_def ascii_lower_def of_option_def suffix_def Let_def)
  ultimately show ?thesis by (simp add: canonicalize_host_def)
qed

lemma dotted_canonical: "canonicalize_endpoint (sample_net x) ''production'' dotted_url = Inr dotted_endpoint"
proof -
  have h: "url_hostname (lit ''169.254.169.254.'') = Some (lit ''169.254.169.254.'')" "url_port (lit ''169.254.169.254.'') = Some None"
    by (simp_all add: url_hostname_def url_port_def hostinfo_def after_last_def before_sep_def after_sep_def lit_def
      lower_def ascii_lower_def Let_def)
  have f: "finish_endpoint (lit ''https'') (lit ''169.254.169.254'') 443 (lit ''/'') = Inr dotted_endpoint"
    by (simp add: finish_endpoint_def unsafe_path_def starts_with_def lit_def canonical_text_def dec_digits.simps
      dotted_endpoint_def Let_def)
  show ?thesis
    unfolding canonicalize_iff
    by (intro conjI exI [of _ "\<lparr>url_scheme = lit ''https'', url_netloc = lit ''169.254.169.254.'', url_path = lit ''/'',
      url_query = [], url_fragment = []\<rparr>"] exI [of _ "lit ''169.254.169.254.''"] exI [of _ "lit ''169.254.169.254''"] exI [of _ None])
      (simp_all add: dotted_split h dotted_host f endpoint_port_def, simp_all add: dotted_url_def MAX_URL_LENGTH_def lit_def)
qed

text \<open>A name with an umlaut, whose encoding the codec gives.\<close>

definition idna_net :: net where
  "idna_net = (sample_net (\<lambda>_. Os_Failure))\<lparr>nfkc_ok := (\<lambda>_. True),
     idna := (\<lambda>l. if l = [252] then Some (lit ''xn--tda'') else if l = [10, 233] then Some (lit ''xn--'' @ 10 # lit ''-bga'') else None)\<rparr>"

definition umlaut_url :: pystr where "umlaut_url = lit ''https://'' @ [252, 47]"

definition umlaut_endpoint :: endpoint where
  "umlaut_endpoint = \<lparr>ep_scheme = lit ''https'', ep_host = lit ''xn--tda'', ep_port = 443, ep_path = lit ''/'',
     ep_canonical_url = lit ''https://xn--tda:443/''\<rparr>"

lemma umlaut_host: "canonicalize_host idna_net [252] = Inr (lit ''xn--tda'')"
proof -
  have "strip [252] = [252]" by (simp add: strip_def strip_of_def is_space_def)
  moreover have "ip_address [252] = None"
    by (simp add: ip_address_def ipv4_of_def ipv6_of_def ipv6_int_of_def before_sep_def parse_octet_def is_digit_def)
  moreover have "canonicalize_name idna_net [252] = Inr (lit ''xn--tda'')"
    by (simp add: canonicalize_name_def lit_def idna_label_def idna_net_def hostname_label_def is_label_char_def
      is_label_end_def is_digit_def lower_def ascii_lower_def of_option_def suffix_def Let_def)
  ultimately show ?thesis by (simp add: canonicalize_host_def)
qed

lemma umlaut_canonical: "canonicalize_endpoint idna_net ''production'' umlaut_url = Inr umlaut_endpoint"
proof -
  have s: "urlsplit (nfkc_ok idna_net) umlaut_url = Some \<lparr>url_scheme = lit ''https'', url_netloc = [252], url_path = lit ''/'',
      url_query = [], url_fragment = []\<rparr>"
    by (simp add: umlaut_url_def urlsplit_def split_scheme_def split_netloc_def netloc_ok_def before_sep_def after_sep_def
      lit_def is_alpha_def scheme_char_def ascii_lower_def starts_with_def is_delim_def idna_net_def Let_def)
  have h: "url_hostname [252] = Some [252]" "url_port [252] = Some None"
    by (simp_all add: url_hostname_def url_port_def hostinfo_def after_last_def before_sep_def after_sep_def
      lower_def ascii_lower_def Let_def)
  have f: "finish_endpoint (lit ''https'') (lit ''xn--tda'') 443 (lit ''/'') = Inr umlaut_endpoint"
    by (simp add: finish_endpoint_def unsafe_path_def starts_with_def lit_def canonical_text_def dec_digits.simps
      umlaut_endpoint_def Let_def)
  show ?thesis
    unfolding canonicalize_iff
    by (intro conjI exI [of _ "\<lparr>url_scheme = lit ''https'', url_netloc = [252], url_path = lit ''/'', url_query = [],
      url_fragment = []\<rparr>"] exI [of _ "[252]"] exI [of _ "lit ''xn--tda''"] exI [of _ None])
      (simp_all add: s h umlaut_host f endpoint_port_def, simp_all add: umlaut_url_def MAX_URL_LENGTH_def lit_def)
qed

lemma idna_net_clean: "idna_clean idna_net"
  by (simp add: idna_clean_def idna_net_def lit_def)

theorem canonical_url_stable_witness:
  "canonicalize_endpoint idna_net ''production'' umlaut_url = Inr umlaut_endpoint \<and>
   canonicalize_endpoint idna_net ''production'' (ep_canonical_url umlaut_endpoint) = Inr umlaut_endpoint \<and>
   canonicalize_endpoint (sample_net (\<lambda>_. Os_Failure)) ''production'' dotted_url = Inr dotted_endpoint \<and>
   canonicalize_endpoint (sample_net (\<lambda>_. Os_Failure)) ''production'' (ep_canonical_url dotted_endpoint) = Inl (Egress_Error HOST_AMBIGUOUS)"
proof -
  have a: "ip_address (ep_host dotted_endpoint) = Some (V4 2852039166)"
    by (simp add: dotted_endpoint_def ip_address_def ipv4_of_def lit_def parse_octet_def is_digit_def dec_value_def)
  have "\<not> address_safe (V4 2852039166)" by (simp add: address_safe_def v4_safe_def)
  moreover have "\<not> starts_with (ep_host dotted_endpoint) [91]" by (simp add: dotted_endpoint_def starts_with_def lit_def)
  moreover have "idna_clean (sample_net (\<lambda>_. Os_Failure))" by (simp add: idna_clean_def sample_net_def)
  moreover have "\<not> MAX_URL_LENGTH < length (ep_canonical_url dotted_endpoint)" by (simp add: dotted_endpoint_def MAX_URL_LENGTH_def)
  ultimately have dotted: "canonicalize_endpoint (sample_net (\<lambda>_. Os_Failure)) ''production'' (ep_canonical_url dotted_endpoint) =
      Inl (Egress_Error HOST_AMBIGUOUS)"
    using canonical_url_stable [OF dotted_canonical] a by simp
  have "ip_address (ep_host umlaut_endpoint) = None"
    by (simp add: umlaut_endpoint_def ip_address_def ipv4_of_def ipv6_of_def ipv6_int_of_def before_sep_def parse_octet_def
      is_digit_def lit_def)
  moreover have "\<not> starts_with (ep_host umlaut_endpoint) [91]" by (simp add: umlaut_endpoint_def starts_with_def lit_def)
  moreover have "\<not> MAX_URL_LENGTH < length (ep_canonical_url umlaut_endpoint)" by (simp add: umlaut_endpoint_def MAX_URL_LENGTH_def)
  ultimately have "canonicalize_endpoint idna_net ''production'' (ep_canonical_url umlaut_endpoint) = Inr umlaut_endpoint"
    using canonical_url_stable [OF umlaut_canonical _ idna_net_clean] by simp
  with umlaut_canonical dotted_canonical dotted show ?thesis by blast
qed

end
