(* ===== verification/Provider_Egress.thy ===== *)
theory Provider_Egress
  imports Provider_Properties Egress_Canonical
begin

text \<open>
  The provider configuration over the outbound transport: the two parameters of the service, the check of
  addresses and \<open>_execute\<close>, are given by the transport's own definitions, and a test that succeeds is shown to rest
  on one exchange with a vetted peer.
\<close>

text \<open>What the service reads of an outcome.\<close>

definition reported :: "transport_outcome \<Rightarrow> egress_outcome" where
  "reported out = \<lparr>outcome_ok = to_ok out, error_code = map_option (\<lambda>c. lit (egress_code_value c)) (to_error_code out),
     payload = to_payload out\<rparr>"

definition live_env :: "net \<Rightarrow> egress_setup \<Rightarrow> provider_env \<Rightarrow> provider_env" where
  "live_env n s e = e\<lparr>
     canonicalize := (\<lambda>url. case canonicalize_endpoint n (app_env s) url of Inr ep \<Rightarrow> Some (ep_canonical_url ep) | Inl _ \<Rightarrow> None),
     egress := (\<lambda>url verb path body key. map_option reported (snd (execute n s url verb path body key)))\<rparr>"

lemma probe_models_ok:
  assumes "probe_models e url m key = Some out" "outcome_ok out"
  shows "payload out = None \<and> egress e url ''GET'' ''/v1/models'' None key = Some out \<or>
    (\<exists>doc data. egress e url ''GET'' ''/v1/models'' None key = Some out \<and> payload out = Some doc \<and>
      obj_get (lit ''data'') doc = Some (JArr data) \<and> m \<in> set (listed_ids data))"
  using assms by (auto simp: probe_models_def Let_def split: option.splits json.splits if_splits)

lemma execute_ok:
  assumes "execute n s url verb path body key = (wire, Some out)" "to_ok out"
  shows "\<exists>req status doc. wire = [req] \<and> to_payload out = Some doc \<and> to_status_code out = Some status \<and> status < 400 \<and>
    \<not> (300 \<le> status \<and> status < 400)"
proof -
  from assms obtain ep p where sent: "map_prod id outcome_of_result
      (send_json_request n ep p verb body (Some (lit ''Bearer '' @ key)) (policy_of s)) = (wire, Some out)"
    unfolding execute_def by (auto simp: outcome_of_result_def split: sum.splits egress_failure.splits)
  then obtain q where q: "send_json_request n ep p verb body (Some (lit ''Bearer '' @ key)) (policy_of s) = (wire, q)"
    "outcome_of_result q = Some out"
    by (cases "send_json_request n ep p verb body (Some (lit ''Bearer '' @ key)) (policy_of s)") auto
  from q(2) assms(2) obtain status doc where r: "q = Inr (status, doc)" "to_payload out = Some doc" "to_status_code out = Some status"
    by (auto simp: outcome_of_result_def split: sum.splits egress_failure.splits prod.splits)
  with q(1) obtain req where "wire = [req]" "bind_result (exchange n req (policy_of s)) (\<lambda>(status, raw). parse_answer status raw) =
      Inr (status, doc)"
    by (auto simp: send_json_request_def Let_def split: if_splits option.splits sum.splits)
  moreover from this(2) have "status < 400" "\<not> (300 \<le> status \<and> status < 400)"
    by (auto simp: bind_result_Inr parse_answer_def exchange_def split: if_splits option.splits http_answer.splits)
  ultimately show ?thesis using r by auto
qed

lemma live_probe:
  assumes "probe_models (live_env n s e) url m key = Some out" "outcome_ok out"
  shows "\<exists>req tout doc data. execute n s url ''GET'' ''/v1/models'' None key = ([req], Some tout) \<and> to_ok tout \<and>
    to_payload tout = Some doc \<and> obj_get (lit ''data'') doc = Some (JArr data) \<and> m \<in> set (listed_ids data)"
proof -
  obtain wire r where ex: "execute n s url ''GET'' ''/v1/models'' None key = (wire, r)" by fastforce
  then have eg: "egress (live_env n s e) url ''GET'' ''/v1/models'' None key = map_option reported r"
    by (simp add: live_env_def)
  from probe_models_ok [OF assms] have "map_option reported r = Some out" using eg by auto
  then obtain tout where tout: "r = Some tout" "out = reported tout" by auto
  with assms(2) have "to_ok tout" by (simp add: reported_def)
  with execute_ok [OF ex [unfolded tout(1)]] obtain req doc where one: "wire = [req]" "to_payload tout = Some doc" by blast
  then have "payload out = Some doc" by (simp add: tout(2) reported_def)
  with probe_models_ok [OF assms] obtain data where "obj_get (lit ''data'') doc = Some (JArr data)" "m \<in> set (listed_ids data)"
    by auto
  with ex one tout(1) \<open>to_ok tout\<close> show ?thesis by blast
qed

lemma tested_probe:
  assumes "test_candidate e p actor w = (w', c, Inr r)" "ts_success r"
  shows "\<exists>url k key out. compatible_canonical_url (current_row w) = Some url \<and>
    load_bound_plaintext (host e) (current_row w) (vault_files w) = Inr k \<and> utf8_decode k = Some key \<and>
    probes w' = probes w @ [(url, tr_model p, key, True)] \<and>
    probe_models e url (tr_model p) key = Some out \<and> outcome_ok out"
  using assms unfolding test_candidate_def finish_test_def
  by (simp add: Let_def commit_def test_response_of_def split: option.splits if_splits sum.splits) auto

text \<open>
  C28 [verified_over_vetted_peer]: over the real transport, a test that succeeds has sent exactly one request, with the key
  the store holds for the candidate, to the pinned peer of the candidate's address: an address of a permitted range
  within the configured networks; and the answer listed the model under test.
\<close>

theorem verified_over_vetted_peer:
  assumes "test_candidate (live_env n s e) p actor w = (w', c, Inr r)" "ts_success r"
  shows "\<exists>url k key req out ep peer doc data. compatible_canonical_url (current_row w) = Some url \<and>
    load_bound_plaintext (host e) (current_row w) (vault_files w) = Inr k \<and> utf8_decode k = Some key \<and>
    probes w' = probes w @ [(url, tr_model p, key, True)] \<and>
    execute n s url ''GET'' ''/v1/models'' None key = ([req], Some out) \<and>
    (lit ''Authorization'', lit ''Bearer '' @ key) \<in> set (wire_headers req) \<and>
    canonicalize_endpoint n (app_env s) url = Inr ep \<and>
    resolve_pinned_peer n (ep\<lparr>ep_path := lit ''/v1/models''\<rparr>) (peer_policy_of s) = Inr peer \<and> wire_peer req = peer_ip peer \<and>
    to_payload out = Some doc \<and> obj_get (lit ''data'') doc = Some (JArr data) \<and> tr_model p \<in> set (listed_ids data)"
proof -
  from tested_probe [OF assms] obtain url k key pout where t: "compatible_canonical_url (current_row w) = Some url"
    "load_bound_plaintext (host e) (current_row w) (vault_files w) = Inr k" "utf8_decode k = Some key"
    "probes w' = probes w @ [(url, tr_model p, key, True)]"
    "probe_models (live_env n s e) url (tr_model p) key = Some pout" "outcome_ok pout"
    by (auto simp: live_env_def)
  from live_probe [OF t(5, 6)] obtain req out doc data where ex: "execute n s url ''GET'' ''/v1/models'' None key = ([req], Some out)"
    and doc: "to_payload out = Some doc" "obj_get (lit ''data'') doc = Some (JArr data)" "tr_model p \<in> set (listed_ids data)"
    by blast
  from wire_vetted [OF ex, of req] show ?thesis using t(1-4) ex doc by auto
qed

subsection \<open>A concrete test\<close>

text \<open>The peer answers with the listing, in one piece.\<close>

definition listing_bytes :: bytes where
  "listing_bytes = ''{'' @ [CHR 0x22] @ ''data'' @ [CHR 0x22] @ '': [{'' @
    [CHR 0x22] @ ''id'' @ [CHR 0x22] @ '': '' @ [CHR 0x22] @ ''m'' @ [CHR 0x22] @ ''}]}''"

definition sample_answer :: "wire_request \<Rightarrow> http_answer" where
  "sample_answer req = Answer 200 (stream [listing_bytes])"

definition live_sample :: provider_env where
  "live_sample = live_env (sample_net sample_answer) sample_setup sample_env"

definition live_test :: test_request where
  "live_test = \<lparr>tr_canonical_url = sample_url, tr_model = lit ''m'', tr_generation = lit ''g''\<rparr>"

definition live_world :: provider_world where
  "live_world = fst (write_candidate live_sample (sample_write\<lparr>wr_canonical_url := sample_url\<rparr>) sample_actor 1 world0)"

lemma listing_text: "js_print Spaced 0 sample_listing = lit listing_bytes"
  by (simp add: sample_listing_def js_string_def escape_char_def lit_def listing_bytes_def)

lemma sample_exchange:
  "bind_result (exchange (sample_net sample_answer) req (policy_of sample_setup)) (\<lambda>(status, raw). parse_answer status raw) =
    Inr (200, sample_listing)"
proof -
  have "read_bounded (stream [listing_bytes]) 100 0 0 [] = Inr listing_bytes"
    using read_bounded_stream [of "[listing_bytes]" 0 100 0 "[]"] by (simp add: listing_bytes_def)
  then have ex: "exchange (sample_net sample_answer) req (policy_of sample_setup) = Inr (200, listing_bytes)"
    by (simp add: exchange_def sample_net_def sample_answer_def sample_setup_def)
  have "utf8_encode (js_print Spaced 0 sample_listing) = Some listing_bytes"
    unfolding listing_text by (rule utf8_encode_lit_chars) (simp add: listing_bytes_def)
  then have dec: "utf8_decode listing_bytes = Some (js_print Spaced 0 sample_listing)" by (rule utf8_roundtrip)
  have "no_float sample_listing" "dict_ok sample_listing" by (simp_all add: sample_listing_def)
  then have "parse_answer 200 listing_bytes = Inr (200, sample_listing)"
    using dec loads_pairs_print [of sample_listing Spaced] dict_of_pairs_id [of sample_listing]
    by (simp add: parse_answer_def) (simp add: sample_listing_def)
  with ex show ?thesis by simp
qed

lemma live_probe_models:
  "probe_models live_sample sample_url (lit ''m'') (lit ''sk'') =
     Some \<lparr>outcome_ok = True, error_code = None, payload = Some sample_listing\<rparr>"
proof -
  have key: "list_all (\<lambda>c. 32 \<le> c \<and> c < 256) (lit ''sk'')" by (simp add: lit_def)
  show ?thesis
    by (simp add: probe_models_def live_sample_def live_env_def sample_execute [OF key] sample_exchange outcome_of_result_def
      reported_def sample_listing_def obj_get_def listed_ids_def Let_def)
qed

lemma live_calm: "calm live_sample"
  using sample_calm by (simp add: calm_def env_fits_def live_sample_def live_env_def)

lemma live_canonical: "canonicalize live_sample sample_url = Some sample_url"
  using sample_canonical by (simp add: live_sample_def live_env_def sample_setup_def sample_endpoint_def sample_url_def)

lemma live_tested: "\<exists>w' r. test_candidate live_sample live_test sample_actor live_world = (w', True, Inr r) \<and> ts_success r"
proof -
  define p where "p = sample_write\<lparr>wr_canonical_url := sample_url\<rparr>"
  have row0: "row_ok (current_row world0)" "config_version (current_row world0) = 1" "next_binding (current_row world0) = 1"
    "get_envelope (host live_sample) (fresh_ref live_sample) (vault_files world0) = Inr None"
    using sample_facts by (simp_all add: live_sample_def live_env_def)
  have key: "utf8_encode (wr_api_key p) = Some ''sk''" "canonicalize live_sample (wr_canonical_url p) = Some sample_url"
    using sample_facts(5) live_canonical by (simp_all add: p_def)
  obtain en where en: "current_row live_world = written_row p sample_url en (current_row world0)"
      "credential_ref en = fresh_ref live_sample" "credential_binding_version en = next_binding (current_row world0)"
      "vault_view (host live_sample) (vault_files live_world) (fresh_ref live_sample) = Some (next_binding (current_row world0), ''sk'')"
    using calm_write [OF live_calm row0(1) _ _ key(2) key(1) row0(4) row0(2), of sample_actor] row0(2, 3)
    unfolding live_world_def p_def by (auto simp: fits_integer_def)
  note row1 = en(1) [unfolded written_row_def clear_proof_def]
  have loaded: "load_bound_plaintext (host live_sample) (current_row live_world) (vault_files live_world) = Inr ''sk''"
    by (rule view_loaded [OF _ _ en(4)]) (simp_all add: row1 en(2, 3))
  have secret: "utf8_decode ''sk'' = Some (lit ''sk'')" by (rule utf8_roundtrip) (simp add: utf8_encode_lit_chars)
  have fits: "row_checks (proven_row live_sample (current_row live_world))"
    using row0(2, 3) by (simp add: row1 en(2, 3) row_checks_def candidate_columns_def proof_columns_def proven_row_def
      fits_integer_def)
  have calm: "\<not> failpoint live_sample ''test_compatible.pre_commit''" using live_calm by (simp add: calm_def)
  have p: "wr_model p = lit ''m''" "wr_generation p = lit ''g''" by (simp_all add: p_def sample_write_def)
  have row: "compatible_canonical_url (current_row live_world) = Some sample_url"
    "compatible_credential_ref (current_row live_world) \<noteq> None" "compatible_state (current_row live_world) = Unverified"
    "compatible_model (current_row live_world) = Some (lit ''m'')" "compatible_generation (current_row live_world) = Some (lit ''g'')"
    by (simp_all add: row1 p)
  then show ?thesis
    by (auto simp: test_candidate_def live_test_def live_canonical loaded secret live_probe_models
      finish_test_def calm fits test_response_of_def Let_def)
qed

theorem verified_over_vetted_peer_witness:
  "\<exists>w' r ep peer. test_candidate live_sample live_test sample_actor live_world = (w', True, Inr r) \<and>
     resolve_pinned_peer (sample_net sample_answer) (ep\<lparr>ep_path := lit ''/v1/models''\<rparr>) sample_peers = Inr peer"
proof -
  from live_tested obtain w' r where t: "test_candidate live_sample live_test sample_actor live_world = (w', True, Inr r)"
    "ts_success r" by blast
  have "peer_policy_of sample_setup = sample_peers" by (simp add: sample_setup_def)
  with t(1) verified_over_vetted_peer [OF t(1) [unfolded live_sample_def] t(2)] show ?thesis by metis
qed

end
