(* ===== verification/Json_Ascii.thy ===== *)
theory Json_Ascii
  imports Py_Json
begin

text \<open>
  The output of \<open>json.dumps\<close> with \<open>ensure_ascii\<close> determines the value: the escapes of the characters outside
  ASCII can be undone, and what remains is the text that \<open>Py_Json\<close> reads back. The fingerprints and checksums
  of the credential rotation rest on this.
\<close>

definition is_scalar :: "nat \<Rightarrow> bool" where
  "is_scalar c \<longleftrightarrow> c < 1114112 \<and> \<not> is_surrogate c"

text \<open>Text in which every backslash begins an escape of an ASCII character.\<close>

inductive escaped_text :: "pystr \<Rightarrow> bool" where
  escaped_Nil: "escaped_text []"
| escaped_char: "c \<noteq> 92 \<Longrightarrow> is_scalar c \<Longrightarrow> escaped_text t \<Longrightarrow> escaped_text (c # t)"
| escaped_pair: "d \<noteq> 117 \<Longrightarrow> d < 127 \<Longrightarrow> escaped_text t \<Longrightarrow> escaped_text (92 # d # t)"
| escaped_control: "u < 32 \<Longrightarrow> escaped_text t \<Longrightarrow>
    escaped_text (92 # 117 # 48 # 48 # hex_digit (u div 16) # hex_digit (u mod 16) # t)"

lemma escaped_append: "escaped_text s \<Longrightarrow> escaped_text t \<Longrightarrow> escaped_text (s @ t)"
  by (induction rule: escaped_text.induct) (auto intro: escaped_text.intros)

lemma escaped_plain: "(\<And>c. c \<in> set s \<Longrightarrow> c \<noteq> 92 \<and> is_scalar c) \<Longrightarrow> escaped_text s"
  by (induction s) (auto intro: escaped_text.intros)

subsection \<open>Undoing the escapes\<close>

function unascii :: "pystr \<Rightarrow> pystr" where
  "unascii s =
     (case s of
        [] \<Rightarrow> []
      | c # r \<Rightarrow>
          if c \<noteq> 92 then c # unascii r
          else
            (case r of
               [] \<Rightarrow> [92]
             | d # r1 \<Rightarrow>
                 if d \<noteq> 117 then 92 # d # unascii r1
                 else
                   (case hex4 r1 of
                      None \<Rightarrow> 92 # 117 # unascii r1
                    | Some (u, r2) \<Rightarrow>
                        if u < 127 then 92 # 117 # unascii r1
                        else fst (join_surrogates u r2) # unascii (snd (join_surrogates u r2)))))"
  by pat_completeness auto
termination
proof -
  have shorter: "length (snd (join_surrogates u r2)) < length r1" if "hex4 r1 = Some (u, r2)" for r1 u r2
    using hex4_shorter [OF that] join_surrogates_length [of u r2] by simp
  show ?thesis by (relation "measure length") (auto dest: shorter)
qed

declare unascii.simps [simp del]

lemma unascii_simps:
  "unascii [] = []"
  "c \<noteq> 92 \<Longrightarrow> unascii (c # r) = c # unascii r"
  "d \<noteq> 117 \<Longrightarrow> unascii (92 # d # r) = 92 # d # unascii r"
  by (simp_all add: unascii.simps [of "[]"] unascii.simps [of "c # r"] unascii.simps [of "92 # d # r"])

lemma hex4_unicode_escape: "u < 65536 \<Longrightarrow> hex4 (drop 2 (unicode_escape u) @ r) = Some (u, r)"
proof -
  assume "u < 65536"
  then have "u div 4096 < 16" by (simp add: less_mult_imp_div_less)
  moreover have "u div 4096 = u div 256 div 16" "u div 256 = u div 16 div 16" by (simp_all add: div_mult2_eq [symmetric])
  ultimately have "((u div 4096 * 16 + u div 256 mod 16) * 16 + u div 16 mod 16) * 16 + u mod 16 = u"
    by (simp add: div_mult_mod_eq)
  with \<open>u div 4096 < 16\<close> show ?thesis by (simp add: unicode_escape_def hex_value_digit)
qed

lemma unascii_unicode_escape:
  assumes "127 \<le> u" "u < 65536"
  shows "unascii (unicode_escape u @ r) = fst (join_surrogates u r) # unascii (snd (join_surrogates u r))"
proof -
  have "unicode_escape u @ r = 92 # 117 # drop 2 (unicode_escape u) @ r" by (simp add: unicode_escape_def)
  moreover have "unascii (92 # 117 # drop 2 (unicode_escape u) @ r) =
      fst (join_surrogates u r) # unascii (snd (join_surrogates u r))"
    using hex4_unicode_escape [OF assms(2), of r] assms(1)
    by (subst unascii.simps) simp
  ultimately show ?thesis by (simp only:)
qed

lemma unascii_escape:
  assumes "is_scalar c" "c \<noteq> 92"
  shows "unascii (ascii_escape c @ r) = c # unascii r"
proof -
  consider "c < 127" | "127 \<le> c" "c < 65536" | "65536 \<le> c" by linarith
  then show ?thesis
  proof cases
    case 1
    with assms show ?thesis by (simp add: ascii_escape_def unascii_simps)
  next
    case 2
    then have "join_surrogates c r = (c, r)" using assms(1) by (auto simp: join_surrogates_def is_scalar_def is_surrogate_def)
    with 2 unascii_unicode_escape [of c r] show ?thesis by (simp add: ascii_escape_def)
  next
    case 3
    define hi where "hi = 55296 + (c - 65536) div 1024"
    define lo where "lo = 56320 + (c - 65536) mod 1024"
    have "c - 65536 < 1024 * 1024" using assms(1) 3 unfolding is_scalar_def by linarith
    then have "(c - 65536) div 1024 < 1024" by (rule less_mult_imp_div_less)
    then have hi: "55296 \<le> hi" "hi \<le> 56319" by (simp_all add: hi_def)
    have "(c - 65536) mod 1024 < 1024" by simp
    then have lo: "56320 \<le> lo" "lo \<le> 57343" unfolding lo_def by linarith+
    have "take 2 (unicode_escape lo @ r) = [92, 117]" "drop 2 (unicode_escape lo @ r) = drop 2 (unicode_escape lo) @ r"
      by (simp_all add: unicode_escape_def numeral_2_eq_2)
    moreover have "65536 + (hi - 55296) * 1024 + (lo - 56320) = c"
      using 3 unfolding hi_def lo_def by simp
    ultimately have "join_surrogates hi (unicode_escape lo @ r) = (c, r)"
      using hi lo hex4_unicode_escape [of lo r] by (simp add: join_surrogates_def)
    moreover have "ascii_escape c = unicode_escape hi @ unicode_escape lo" using 3 by (simp add: ascii_escape_def hi_def lo_def)
    ultimately show ?thesis using unascii_unicode_escape [of hi "unicode_escape lo @ r"] hi by simp
  qed
qed

lemma to_ascii_simps: "to_ascii [] = []" "to_ascii (c # t) = ascii_escape c @ to_ascii t"
  by (simp_all add: to_ascii_def)

lemma ascii_escape_id: "c < 127 \<Longrightarrow> ascii_escape c = [c]"
  by (simp add: ascii_escape_def)

lemma unascii_to_ascii: "escaped_text t \<Longrightarrow> unascii (to_ascii t) = t"
proof (induction rule: escaped_text.induct)
  case (escaped_control u t)
  define a where "a = hex_digit (u div 16)"
  define b where "b = hex_digit (u mod 16)"
  have ab: "a < 127" "b < 127" "a \<noteq> 92" "b \<noteq> 92"
    using escaped_control(1) by (auto simp: a_def b_def hex_digit_def)
  have "hex4 (48 # 48 # a # b # to_ascii t) = Some (u, to_ascii t)"
    using escaped_control(1) hex4_escape [of u "to_ascii t"] by (simp add: a_def b_def)
  then have "unascii (92 # 117 # 48 # 48 # a # b # to_ascii t) = 92 # 117 # 48 # 48 # a # b # unascii (to_ascii t)"
    using escaped_control(1) ab
    by (simp add: unascii.simps [of "92 # 117 # 48 # 48 # a # b # to_ascii t"] unascii_simps)
  with escaped_control ab show ?case
    by (simp add: to_ascii_simps ascii_escape_id a_def [symmetric] b_def [symmetric])
next
  case (escaped_char c t)
  then show ?case by (simp add: to_ascii_simps unascii_escape)
qed (simp_all add: to_ascii_simps ascii_escape_id unascii_simps)

subsection \<open>Values are determined by their text\<close>

text \<open>No floats, and only scalar values in strings, as in every value the services print.\<close>

fun json_scalar :: "json \<Rightarrow> bool" where
  "json_scalar (JFloat t) = False"
| "json_scalar (JStr s) = list_all is_scalar s"
| "json_scalar (JArr xs) = list_all json_scalar xs"
| "json_scalar (JObj kvs) = list_all (\<lambda>(k, v). list_all is_scalar k \<and> json_scalar v) kvs"
| "json_scalar v = True"

lemma json_scalar_no_float: "json_scalar v \<Longrightarrow> no_float v"
  by (induction v rule: json_scalar.induct) (auto simp: list_all_iff)

lemma escaped_js_string: "list_all is_scalar s \<Longrightarrow> escaped_text (js_string s)"
proof -
  have e: "escaped_text (escape_char c)" if "is_scalar c" for c
  proof -
    have "escape_char c \<in> {[92, 34], [92, 92], [92, 110], [92, 114], [92, 116], [92, 102], [92, 98], [c]} \<or>
        c < 32 \<and> escape_char c = [92, 117, 48, 48, hex_digit (c div 16), hex_digit (c mod 16)]"
      by (auto simp: escape_char_def)
    moreover have "c = 92 \<longrightarrow> escape_char c = [92, 92]" by (simp add: escape_char_def)
    ultimately show ?thesis using that
      by (cases "c = 92") (auto intro!: escaped_text.intros)
  qed
  assume "list_all is_scalar s"
  then have "escaped_text (concat (map escape_char s))"
    by (induction s) (auto intro: e escaped_append escaped_Nil)
  then show ?thesis unfolding js_string_def
    by (intro escaped_char escaped_append escaped_text.intros) (simp_all add: is_scalar_def is_surrogate_def)
qed

lemma escaped_ascii:
  assumes "\<And>c. c \<in> set s \<Longrightarrow> c \<noteq> 92 \<and> c < 128"
  shows "escaped_text s"
proof (rule escaped_plain)
  fix c
  assume "c \<in> set s"
  from assms [OF this] show "c \<noteq> 92 \<and> is_scalar c" by (simp add: is_scalar_def is_surrogate_def)
qed

lemma escaped_js_int: "escaped_text (js_int i)"
proof (rule escaped_ascii)
  fix c
  assume "c \<in> set (js_int i)"
  then have "c = 45 \<or> is_digit c" using dec_digits_are_digits by (auto simp: js_int_def split: if_splits)
  then show "c \<noteq> 92 \<and> c < 128" by (auto simp: is_digit_def)
qed

lemma escaped_layout: "escaped_text (newline st l)" "escaped_text (gap st l)" "escaped_text (colon st)"
  by (cases st; auto intro!: escaped_ascii)+

lemma escaped_delim: "c \<noteq> 92 \<Longrightarrow> c < 128 \<Longrightarrow> escaped_text t \<Longrightarrow> escaped_text (c # t)"
  by (rule escaped_char) (simp_all add: is_scalar_def is_surrogate_def)

lemma escaped_print:
  "json_scalar v \<Longrightarrow> escaped_text (js_print st l v)"
  "list_all json_scalar xs \<Longrightarrow> escaped_text (js_elems st l xs)"
  "list_all (\<lambda>(k, v). list_all is_scalar k \<and> json_scalar v) kvs \<Longrightarrow> escaped_text (js_members st l kvs)"
proof (induction st l v and st l xs and st l kvs rule: js_print_js_elems_js_members.induct)
  case (1 st l)
  show ?case by (auto intro!: escaped_ascii simp: lit_def)
next
  case (2 st l b)
  show ?case by (auto intro!: escaped_ascii simp: lit_def)
next
  case (3 st l i)
  show ?case by (simp add: escaped_js_int)
next
  case (5 st l s)
  then show ?case by (simp add: escaped_js_string)
next
  case (6 st l xs)
  then show ?case
    by (auto intro!: escaped_append escaped_layout escaped_delim escaped_Nil)
next
  case (7 st l kvs)
  then show ?case
    by (auto intro!: escaped_append escaped_layout escaped_delim escaped_Nil)
next
  case (9 st l x xs)
  then show ?case
    by (auto intro!: escaped_append escaped_layout escaped_delim escaped_Nil)
next
  case (11 st l kv kvs)
  then show ?case
    by (cases kv) (auto intro!: escaped_append escaped_layout escaped_js_string escaped_delim escaped_Nil)
qed (auto intro: escaped_Nil)

lemma to_ascii_print_inj:
  assumes "to_ascii (js_print st 0 v) = to_ascii (js_print st 0 w)" "json_scalar v" "json_scalar w"
  shows "v = w"
proof -
  have "js_print st 0 v = js_print st 0 w"
    using assms unascii_to_ascii [OF escaped_print(1)] by metis
  then show ?thesis
    using loads_pairs_print json_scalar_no_float assms(2, 3) by (metis option.inject)
qed

lemma dumps_ascii_compact_inj:
  "dumps_ascii_compact v = dumps_ascii_compact w \<Longrightarrow> json_scalar v \<Longrightarrow> json_scalar w \<Longrightarrow> v = w"
  unfolding dumps_ascii_compact_def by (rule to_ascii_print_inj)

subsection \<open>Sorted keys, and bytes\<close>

lemma json_scalar_sort_json: "json_scalar v \<Longrightarrow> json_scalar (sort_json v)"
proof (induction v rule: json_scalar.induct)
  case (4 kvs)
  then have "\<forall>kv \<in> set kvs. list_all is_scalar (fst kv) \<and> json_scalar (sort_json (snd kv))"
    by (fastforce simp: list_all_iff)
  then show ?case by (auto simp: list_all_iff)
qed (auto simp: list_all_iff)

lemma obj_get_sort_json:
  assumes "dict_ok v"
  shows "obj_get k (sort_json v) = map_option sort_json (obj_get k v)"
proof (cases v)
  case (JObj kvs)
  define kvs' where "kvs' = map (\<lambda>(k, v). (k, sort_json v)) kvs"
  have d: "distinct (map fst kvs')" using assms JObj by (simp add: kvs'_def case_prod_beta comp_def)
  then have "map_of (sort_key fst kvs') = map_of kvs'"
    by (intro map_of_inject_set [THEN iffD2]) (simp_all add: map_fst_sort_key)
  then show ?thesis by (simp add: JObj obj_get_def kvs'_def map_of_map)
qed (simp_all add: obj_get_def)

lemma to_ascii_small:
  assumes "\<And>c. c \<in> set s \<Longrightarrow> is_scalar c" "d \<in> set (to_ascii s)"
  shows "d < 128"
  using assms(2) by (auto simp: to_ascii_def is_scalar_def dest!: assms(1) intro: ascii_escape_ascii)

lemma escaped_scalars: "escaped_text s \<Longrightarrow> c \<in> set s \<Longrightarrow> is_scalar c"
proof (induction rule: escaped_text.induct)
  case (escaped_control u t)
  then have "hex_digit (u div 16) < 128" "hex_digit (u mod 16) < 128" by (simp_all add: hex_digit_ascii)
  with escaped_control show ?case by (auto simp: is_scalar_def is_surrogate_def)
qed (auto simp: is_scalar_def is_surrogate_def)

lemma utf8_nums_scalar: "list_all is_scalar s \<Longrightarrow> utf8_nums s \<noteq> None"
  by (induction s) (auto simp: utf8_char_def is_scalar_def split: option.splits)

lemma utf8_encode_print: "json_scalar v \<Longrightarrow> utf8_encode (js_print st l v) \<noteq> None"
proof -
  assume "json_scalar v"
  then have "list_all is_scalar (js_print st l v)"
    using escaped_scalars [OF escaped_print(1)] by (simp add: list_all_iff)
  then show ?thesis using utf8_nums_scalar [of "js_print st l v"] by (simp add: utf8_encode_def)
qed

text \<open>The bytes of a text that is ASCII.\<close>

definition ascii_bytes :: "pystr \<Rightarrow> bytes" where
  "ascii_bytes s = map char_of s"

lemma of_ascii_bytes: "(\<And>c. c \<in> set u \<Longrightarrow> c < 128) \<Longrightarrow> map of_char (ascii_bytes u) = u"
proof (induction u)
  case (Cons c u)
  from Cons.prems [of c] have "c mod 256 = c" by simp
  with Cons show ?case by (simp add: ascii_bytes_def)
qed (simp add: ascii_bytes_def)

lemma ascii_bytes_inj:
  assumes "ascii_bytes s = ascii_bytes t" "\<And>c. c \<in> set s \<union> set t \<Longrightarrow> c < 128"
  shows "s = t"
proof -
  have "map of_char (ascii_bytes s) = s" "map of_char (ascii_bytes t) = t"
    using assms(2) by (auto intro!: of_ascii_bytes)
  with assms(1) show ?thesis by metis
qed

text \<open>The bytes printed for two values agree only when the values do.\<close>

lemma print_bytes_inj:
  assumes "ascii_bytes (to_ascii (js_print st 0 v)) = ascii_bytes (to_ascii (js_print st 0 w))" "json_scalar v" "json_scalar w"
  shows "v = w"
proof (rule to_ascii_print_inj [OF _ assms(2, 3)])
  show "to_ascii (js_print st 0 v) = to_ascii (js_print st 0 w)"
    using assms(1)
  proof (rule ascii_bytes_inj)
    fix c
    assume "c \<in> set (to_ascii (js_print st 0 v)) \<union> set (to_ascii (js_print st 0 w))"
    then show "c < 128"
      using to_ascii_small escaped_scalars escaped_print(1) assms(2, 3) by (metis UnE)
  qed
qed

end
