(* ===== verification/Credential_Rotation.thy ===== *)
theory Credential_Rotation
  imports Auth Json_Ascii "HOL-Library.Product_Lexorder"
begin

text \<open>
  The rotation of every password at once: the contracts of \<open>operations/credential_rotation_contracts.py\<close>, the
  fingerprints of \<open>credential_rotation_fingerprints.py\<close>, the tables of \<open>credential_rotation_models.py\<close>, the
  transaction of \<open>credential_rotation_ledger.py\<close> with its record in the ledger and in the audit trail
  (\<open>credential_rotation_audit.py\<close>). Hashes, clock and SHA-256 are those of \<open>env\<close>; the passwords of one rotation
  differ from each other, so that a function of the password covers every choice of salts. A password has no upper
  bound here, and the hash function raises for a long one. A UUID is its canonical
  text.
\<close>

subsection \<open>Contracts\<close>

datatype rotation_code = EMPTY_USER_SET | CREDENTIAL_COUNT_MISMATCH | CREDENTIAL_IDENTITY_MISMATCH | ADMIN_NOT_FOUND
  | ADMIN_ROLE_REQUIRED | ADMIN_ACTIVE_REQUIRED | ACTIVE_ADMIN_REQUIRED | DUPLICATE_USERNAME | DUPLICATE_PASSWORD
  | DATABASE_IDENTITY_MISMATCH | ROTATION_BINDING_MISMATCH | CREDENTIAL_MATERIAL_REUSED | INVARIANT_VIOLATION
  | TEST_FAILPOINT

fun rotation_code_value :: "rotation_code \<Rightarrow> string" where
  "rotation_code_value EMPTY_USER_SET = ''empty-user-set''"
| "rotation_code_value CREDENTIAL_COUNT_MISMATCH = ''credential-count-mismatch''"
| "rotation_code_value CREDENTIAL_IDENTITY_MISMATCH = ''credential-identity-mismatch''"
| "rotation_code_value ADMIN_NOT_FOUND = ''admin-not-found''"
| "rotation_code_value ADMIN_ROLE_REQUIRED = ''admin-role-required''"
| "rotation_code_value ADMIN_ACTIVE_REQUIRED = ''admin-active-required''"
| "rotation_code_value ACTIVE_ADMIN_REQUIRED = ''active-admin-required''"
| "rotation_code_value DUPLICATE_USERNAME = ''duplicate-username''"
| "rotation_code_value DUPLICATE_PASSWORD = ''duplicate-password''"
| "rotation_code_value DATABASE_IDENTITY_MISMATCH = ''database-identity-mismatch''"
| "rotation_code_value ROTATION_BINDING_MISMATCH = ''rotation-binding-mismatch''"
| "rotation_code_value CREDENTIAL_MATERIAL_REUSED = ''credential-material-reused''"
| "rotation_code_value INVARIANT_VIOLATION = ''invariant-violation''"
| "rotation_code_value TEST_FAILPOINT = ''test-failpoint''"

datatype recovery_code = INTEGRITY_FAILURE | ARTIFACT_INVALID | BINDING_MISMATCH | RESTORE_STATE_MISMATCH
  | RESTORE_SIDECAR_PRESENT | DRIVER_INVALID

fun recovery_code_value :: "recovery_code \<Rightarrow> string" where
  "recovery_code_value INTEGRITY_FAILURE = ''recovery-integrity-failure''"
| "recovery_code_value ARTIFACT_INVALID = ''recovery-artifact-invalid''"
| "recovery_code_value BINDING_MISMATCH = ''recovery-binding-mismatch''"
| "recovery_code_value RESTORE_STATE_MISMATCH = ''recovery-restore-state-mismatch''"
| "recovery_code_value RESTORE_SIDECAR_PRESENT = ''recovery-restore-sidecar-present''"
| "recovery_code_value DRIVER_INVALID = ''recovery-driver-invalid''"

text \<open>
  What the commands end with besides a result. \<open>Invalid_Input\<close> is pydantic's \<open>ValidationError\<close> with the type and the
  location of each error; \<open>Storage_Failed\<close> is an \<open>OSError\<close> or an error of SQLAlchemy, \<open>Sqlite_Failed\<close> one of sqlite3
  itself; \<open>Escaped\<close> is any exception no command catches (\<open>KeyError\<close>, \<open>IndexError\<close>, \<open>ValueError\<close>).
\<close>

datatype rotation_error =
    Rotation_Failed rotation_code
  | Recovery_Failed recovery_code
  | Dpapi_Failed
  | Storage_Failed
  | Sqlite_Failed
  | Invalid_Input "(pystr \<times> pystr list) list"
  | Escaped

type_synonym 'a rotated = "(rotation_error, 'a) result"

record user_credential =
  credential_username :: pystr
  credential_password :: pystr

record credential_bundle =
  bundle_rotation_id :: pystr
  bundle_database_id :: pystr
  bundle_admin_username :: pystr
  bundle_jwt_secret_key :: pystr
  bundle_users :: "user_credential list"

record rotation_request =
  rotation_database_url :: pystr
  rotation_bundle :: credential_bundle
  fail_before_commit :: bool

record rotation_result =
  user_count_before :: int
  user_count_after :: int
  password_count_changed :: int
  session_count_before :: int
  session_count_after :: int

record verification_result =
  verified_user_count :: int
  password_count_verified :: int
  verified_session_count :: int

definition credential_ok :: "user_credential \<Rightarrow> bool" where
  "credential_ok c \<longleftrightarrow> 24 \<le> length (credential_password c)"

definition bundle_ok :: "credential_bundle \<Rightarrow> bool" where
  "bundle_ok b \<longleftrightarrow> 32 \<le> length (bundle_jwt_secret_key b) \<and> list_all credential_ok (bundle_users b)"

definition sqlite_url :: "pystr \<Rightarrow> bool" where
  "sqlite_url url \<longleftrightarrow> starts_with url (lit ''sqlite:///'')"

definition validate_active_admin :: "user list \<Rightarrow> pystr \<Rightarrow> unit rotated" where
  "validate_active_admin us admin_username =
     (case find (\<lambda>u. username u = admin_username) us of
        None \<Rightarrow> Inl (Rotation_Failed ADMIN_NOT_FOUND)
      | Some configured_admin \<Rightarrow>
          if role configured_admin \<noteq> lit ''admin'' then Inl (Rotation_Failed ADMIN_ROLE_REQUIRED)
          else if \<not> is_active configured_admin then Inl (Rotation_Failed ADMIN_ACTIVE_REQUIRED)
          else if \<not> list_ex (\<lambda>u. role u = lit ''admin'' \<and> is_active u) us
          then Inl (Rotation_Failed ACTIVE_ADMIN_REQUIRED)
          else Inr ())"

subsection \<open>Dates in ISO format\<close>

text \<open>\<open>datetime.isoformat\<close> of an instant in UTC; the day is turned into year, month and day as the standard library
  does it, from the number of days since the first of January of year 1.\<close>

definition zero_pad :: "nat \<Rightarrow> nat \<Rightarrow> pystr" where
  "zero_pad k n = replicate (k - length (dec_digits n)) 48 @ dec_digits n"

definition days_before_month :: "nat \<Rightarrow> nat" where
  "days_before_month m = [0, 0, 31, 59, 90, 120, 151, 181, 212, 243, 273, 304, 334] ! m"

definition days_in_month :: "nat \<Rightarrow> nat" where
  "days_in_month m = [0, 31, 28, 31, 30, 31, 30, 31, 31, 30, 31, 30, 31] ! m"

definition ord2ymd :: "nat \<Rightarrow> nat \<times> nat \<times> nat" where
  "ord2ymd ordinal =
     (let n = ordinal - 1; n400 = n div 146097; n = n mod 146097;
          n100 = n div 36524; n = n mod 36524; n4 = n div 1461; n = n mod 1461; n1 = n div 365; n = n mod 365;
          year = n400 * 400 + 1 + n100 * 100 + n4 * 4 + n1
      in if n1 = 4 \<or> n100 = 4 then (year - 1, 12, 31)
         else
           let leapyear = n1 = 3 \<and> (n4 \<noteq> 24 \<or> n100 = 3);
               month = (n + 50) div 32;
               preceding = days_before_month month + (if month > 2 \<and> leapyear then 1 else 0)
           in if preceding > n then
                (let month = month - 1;
                     preceding = preceding - (days_in_month month + (if month = 2 \<and> leapyear then 1 else 0))
                 in (year, month, n - preceding + 1))
              else (year, month, n - preceding + 1))"

definition EPOCH_ORDINAL :: int where "EPOCH_ORDINAL = 719163"

definition isoformat_utc :: "int \<Rightarrow> pystr" where
  "isoformat_utc t =
     (let days = t div 86400000000; rest = nat (t mod 86400000000);
          (y, m, d) = ord2ymd (nat (days + EPOCH_ORDINAL));
          micro = rest mod 1000000; seconds = rest div 1000000
      in zero_pad 4 y @ lit ''-'' @ zero_pad 2 m @ lit ''-'' @ zero_pad 2 d @ lit ''T'' @
         zero_pad 2 (seconds div 3600) @ lit '':'' @ zero_pad 2 (seconds div 60 mod 60) @ lit '':'' @
         zero_pad 2 (seconds mod 60) @ (if micro = 0 then [] else lit ''.'' @ zero_pad 6 micro) @ lit ''+00:00'')"

definition canonical_datetime :: "datetime option \<Rightarrow> json" where
  "canonical_datetime v = of_text (map_option (\<lambda>d. isoformat_utc (to_utc d)) v)"

subsection \<open>Fingerprints\<close>

definition digest_json :: "env \<Rightarrow> json \<Rightarrow> pystr" where
  "digest_json e v = sha256_hex e (ascii_bytes (dumps_ascii_compact v))"

definition credential_pairs :: "credential_bundle \<Rightarrow> (pystr \<times> pystr) list" where
  "credential_pairs b = sort (map (\<lambda>c. (credential_username c, credential_password c)) (bundle_users b))"

definition material_json :: "credential_bundle \<Rightarrow> json" where
  "material_json b =
     JArr [JArr [JStr (lit ''admin_username''), JStr (bundle_admin_username b)],
       JArr [JStr (lit ''jwt_secret_key''), JStr (bundle_jwt_secret_key b)],
       JArr [JStr (lit ''users''), JStr (dumps_ascii_compact
         (JArr (map (\<lambda>(name, password). JArr [JStr name, JStr password]) (credential_pairs b))))]]"

definition material_fingerprint :: "env \<Rightarrow> credential_bundle \<Rightarrow> pystr" where
  "material_fingerprint e b = digest_json e (material_json b)"

definition user_set_json :: "user list \<Rightarrow> json" where
  "user_set_json us =
     JArr (map (\<lambda>u. JArr [JStr (js_int (user_id u)), JStr (username u), JStr (role u), JBool (is_active u)]) us)"

definition user_set_fingerprint :: "env \<Rightarrow> user list \<Rightarrow> pystr" where
  "user_set_fingerprint e us = digest_json e (user_set_json us)"

definition user_state_json :: "user \<Rightarrow> json" where
  "user_state_json u =
     JArr [JStr (js_int (user_id u)), JStr (username u), JStr (role u), JBool (is_active u),
       JInt (session_version u), JStr (password_hash u), canonical_datetime (password_changed_at u)]"

definition state_json :: "user list \<Rightarrow> int \<Rightarrow> json" where
  "state_json us session_count = JArr [JArr (map user_state_json us), JInt session_count]"

definition state_fingerprint :: "env \<Rightarrow> user list \<Rightarrow> int \<Rightarrow> pystr" where
  "state_fingerprint e us session_count = digest_json e (state_json us session_count)"

subsection \<open>The tables\<close>

record ledger_row =
  row_rotation_id :: pystr
  row_database_id :: pystr
  row_material_fingerprint :: pystr
  row_user_set_fingerprint :: pystr
  row_pre_state_fingerprint :: pystr
  row_post_state_fingerprint :: pystr
  row_result :: rotation_result

text \<open>The row with the singleton id holds the identity of the database.\<close>

record rotation_store =
  accounts :: db
  database_identity :: "pystr option"
  ledger :: "ledger_row list"

definition ledger_checks :: "ledger_row \<Rightarrow> bool" where
  "ledger_checks row \<longleftrightarrow>
     user_count_before (row_result row) = user_count_after (row_result row) \<and>
     user_count_after (row_result row) = password_count_changed (row_result row) \<and>
     session_count_after (row_result row) = 0"

definition find_ledger :: "pystr \<Rightarrow> rotation_store \<Rightarrow> ledger_row option" where
  "find_ledger rid s = find_row row_rotation_id rid (ledger s)"

text \<open>The flush of a new row: primary key, unique constraint and checks. SQLite enforces foreign keys only where the
  connection asks for it, which the engine of the rotation does not.\<close>

definition insert_ledger :: "ledger_row \<Rightarrow> rotation_store \<Rightarrow> rotation_store rotated" where
  "insert_ledger row s =
     (if find_ledger (row_rotation_id row) s \<noteq> None \<or>
         list_ex (\<lambda>r. row_database_id r = row_database_id row \<and>
           row_material_fingerprint r = row_material_fingerprint row) (ledger s) \<or>
         \<not> ledger_checks row
      then Inl Storage_Failed
      else Inr (s\<lparr>ledger := ledger s @ [row]\<rparr>))"

definition users_by_id :: "rotation_store \<Rightarrow> user list" where
  "users_by_id s = sort_key user_id (users (accounts s))"

definition session_count :: "rotation_store \<Rightarrow> int" where
  "session_count s = int (length (session_activities (accounts s)))"

subsection \<open>The record of a rotation\<close>

definition rotation_metadata :: "rotation_result \<Rightarrow> json" where
  "rotation_metadata r =
     JObj [(lit ''user_count_before'', JInt (user_count_before r)), (lit ''user_count_after'', JInt (user_count_after r)),
       (lit ''password_count_changed'', JInt (password_count_changed r)),
       (lit ''session_count_before'', JInt (session_count_before r)),
       (lit ''session_count_after'', JInt (session_count_after r))]"

definition rotation_event :: "pystr \<Rightarrow> rotation_result \<Rightarrow> db \<Rightarrow> audit_event" where
  "rotation_event rid r d =
     \<lparr>audit_id = next_id (map audit_id (audit_events d)), actor_user_id = None, actor_username = JNull,
      actor_role = JNull, action = lit ''security.credential_rotation'', target_type = lit ''system'',
      target_id = Some rid, audit_method = JNull, audit_path = JNull, audit_status = lit ''success'',
      audit_ip_address = JNull, audit_user_agent = JNull, audit_request_id = JNull, idempotency_key = None,
      before_json = None, after_json = None, metadata_json = Some (dumps_ascii_compact (rotation_metadata r))\<rparr>"

definition record_rotation ::
    "env \<Rightarrow> credential_bundle \<Rightarrow> rotation_result \<Rightarrow> pystr \<Rightarrow> pystr \<Rightarrow> pystr \<Rightarrow> user list \<Rightarrow> rotation_store \<Rightarrow>
       rotation_store rotated" where
  "record_rotation e b r material pre_state post_state us s =
     bind_result
       (insert_ledger \<lparr>row_rotation_id = bundle_rotation_id b, row_database_id = bundle_database_id b,
          row_material_fingerprint = material, row_user_set_fingerprint = user_set_fingerprint e us,
          row_pre_state_fingerprint = pre_state, row_post_state_fingerprint = post_state, row_result = r\<rparr> s)
       (\<lambda>s'. Inr (s'\<lparr>accounts := (accounts s')\<lparr>audit_events :=
          audit_events (accounts s') @ [rotation_event (bundle_rotation_id b) r (accounts s')]\<rparr>\<rparr>))"

subsection \<open>The transaction\<close>

definition database_state :: "credential_bundle \<Rightarrow> rotation_store \<Rightarrow> rotation_store rotated" where
  "database_state b s =
     (case database_identity s of
        None \<Rightarrow> Inr (s\<lparr>database_identity := Some (bundle_database_id b)\<rparr>)
      | Some i \<Rightarrow> if i \<noteq> bundle_database_id b then Inl (Rotation_Failed DATABASE_IDENTITY_MISMATCH) else Inr s)"

definition existing_result ::
    "env \<Rightarrow> ledger_row \<Rightarrow> credential_bundle \<Rightarrow> pystr \<Rightarrow> user list \<Rightarrow> int \<Rightarrow> rotation_result rotated" where
  "existing_result e row b material us n =
     (if row_database_id row = bundle_database_id b \<and> row_material_fingerprint row = material \<and>
         row_post_state_fingerprint row = state_fingerprint e us n
      then Inr (row_result row) else Inl (Rotation_Failed ROTATION_BINDING_MISMATCH))"

definition credential_by_username :: "credential_bundle \<Rightarrow> pystr \<Rightarrow> user_credential option" where
  "credential_by_username b = map_of (rev (map (\<lambda>c. (credential_username c, c)) (bundle_users b)))"

definition validate_rotation_scope :: "user list \<Rightarrow> credential_bundle \<Rightarrow> unit rotated" where
  "validate_rotation_scope us b =
     (let names = map credential_username (bundle_users b); passwords = map credential_password (bundle_users b)
      in if us = [] then Inl (Rotation_Failed EMPTY_USER_SET)
         else if length (remdups names) \<noteq> length names then Inl (Rotation_Failed DUPLICATE_USERNAME)
         else if length (remdups passwords) \<noteq> length passwords then Inl (Rotation_Failed DUPLICATE_PASSWORD)
         else if length us \<noteq> length names then Inl (Rotation_Failed CREDENTIAL_COUNT_MISMATCH)
         else if set (map username us) \<noteq> set names then Inl (Rotation_Failed CREDENTIAL_IDENTITY_MISMATCH)
         else validate_active_admin us (bundle_admin_username b))"

definition rotate_user :: "env \<Rightarrow> credential_bundle \<Rightarrow> user \<Rightarrow> user rotated" where
  "rotate_user e b u =
     (case credential_by_username b (username u) of
        None \<Rightarrow> Inl Escaped
      | Some c \<Rightarrow>
          bind_result (map_sum (\<lambda>_. Escaped) id (hash_password e (credential_password c))) (\<lambda>h.
            Inr (u\<lparr>password_hash := h, password_changed_at := Some (utc (now e)),
              session_version := session_version u + 1\<rparr>)))"

definition authorization_state :: "user list \<Rightarrow> int \<Rightarrow> (pystr \<times> bool \<times> int \<times> pystr) option" where
  "authorization_state us =
     map_of (rev (map (\<lambda>u. (user_id u, (role u, is_active u, session_version u, password_hash u))) us))"

definition verify_authorization_state ::
    "user list \<Rightarrow> (int \<Rightarrow> (pystr \<times> bool \<times> int \<times> pystr) option) \<Rightarrow> unit rotated" where
  "verify_authorization_state us st =
     for_each (\<lambda>u.
       case st (user_id u) of
         None \<Rightarrow> Inl Escaped
       | Some (r, act, ver, h) \<Rightarrow>
           if (role u, is_active u, session_version u) \<noteq> (r, act, ver + 1)
           then Inl (Rotation_Failed INVARIANT_VIOLATION)
           else if password_hash u = h \<or> password_changed_at u = None
           then Inl (Rotation_Failed INVARIANT_VIOLATION)
           else Inr ()) us"

text \<open>The flush writes every changed row back under its identifier.\<close>

definition write_users :: "user list \<Rightarrow> rotation_store \<Rightarrow> rotation_store" where
  "write_users us s =
     s\<lparr>accounts := (fold (\<lambda>u. change_user (user_id u) (\<lambda>_. u)) us (accounts s))\<lparr>session_activities := []\<rparr>\<rparr>"

definition apply_rotation ::
    "env \<Rightarrow> rotation_request \<Rightarrow> user list \<Rightarrow> int \<Rightarrow> pystr \<Rightarrow> rotation_store \<Rightarrow>
       (rotation_store \<times> rotation_result) rotated" where
  "apply_rotation e r us sessions material s =
     (let b = rotation_bundle r; n = int (length us);
          result = \<lparr>user_count_before = n, user_count_after = n, password_count_changed = n,
            session_count_before = sessions, session_count_after = 0\<rparr>
      in bind_result (validate_rotation_scope us b) (\<lambda>_.
         bind_result (map_result (rotate_user e b) us) (\<lambda>us'.
         bind_result (verify_authorization_state us' (authorization_state us)) (\<lambda>_.
           if fail_before_commit r then Inl (Rotation_Failed TEST_FAILPOINT)
           else
             bind_result
               (record_rotation e b result material (state_fingerprint e us sessions) (state_fingerprint e us' 0) us'
                 (write_users us' s))
               (\<lambda>s'. Inr (s', result))))))"

definition rotate_in_transaction ::
    "env \<Rightarrow> rotation_request \<Rightarrow> rotation_store \<Rightarrow> (rotation_store \<times> rotation_result) rotated" where
  "rotate_in_transaction e r s =
     (let b = rotation_bundle r; material = material_fingerprint e b; us = users_by_id s; n = session_count s
      in case find_ledger (bundle_rotation_id b) s of
           Some row \<Rightarrow> map_sum id (\<lambda>res. (s, res)) (existing_result e row b material us n)
         | None \<Rightarrow>
             if list_ex (\<lambda>row. row_material_fingerprint row = material) (ledger s)
             then Inl (Rotation_Failed CREDENTIAL_MATERIAL_REUSED)
             else bind_result (database_state b s) (apply_rotation e r us n material))"

definition find_existing_rotation_result ::
    "env \<Rightarrow> rotation_request \<Rightarrow> rotation_store \<Rightarrow> rotation_result option rotated" where
  "find_existing_rotation_result e r s =
     (let b = rotation_bundle r
      in case find_ledger (bundle_rotation_id b) s of
           None \<Rightarrow> Inr None
         | Some row \<Rightarrow>
             if database_identity s \<noteq> Some (bundle_database_id b)
             then Inl (Rotation_Failed DATABASE_IDENTITY_MISMATCH)
             else map_sum id Some
               (existing_result e row b (material_fingerprint e b) (users_by_id s) (session_count s)))"

text \<open>The preflight: the numbers of accounts and of sessions.\<close>

definition validate_rotation_transaction :: "rotation_request \<Rightarrow> rotation_store \<Rightarrow> (int \<times> int) rotated" where
  "validate_rotation_transaction r s =
     (let b = rotation_bundle r
      in bind_result (validate_rotation_scope (users_by_id s) b) (\<lambda>_.
           if database_identity s \<noteq> Some (bundle_database_id b)
           then Inl (Rotation_Failed DATABASE_IDENTITY_MISMATCH)
           else Inr (int (length (users_by_id s)), session_count s)))"

text \<open>
  A transaction of its own: the lock, the work, the commit. What the work raises rolls back, as does a commit that
  fails; \<open>lock_ok\<close> and \<open>commit_ok\<close> are what SQLite answers.
\<close>

definition in_transaction ::
    "bool \<Rightarrow> bool \<Rightarrow> (rotation_store \<Rightarrow> (rotation_store \<times> 'a) rotated) \<Rightarrow> rotation_store \<Rightarrow>
       rotation_store \<times> 'a rotated" where
  "in_transaction lock_ok commit_ok work s =
     (if \<not> lock_ok then (s, Inl Storage_Failed)
      else case work s of
             Inl err \<Rightarrow> (s, Inl err)
           | Inr (s', x) \<Rightarrow> if commit_ok then (s', Inr x) else (s, Inl Storage_Failed))"

definition rotate_all_credentials ::
    "env \<Rightarrow> bool \<Rightarrow> bool \<Rightarrow> rotation_request \<Rightarrow> rotation_store \<Rightarrow> rotation_store \<times> rotation_result rotated" where
  "rotate_all_credentials e lock_ok commit_ok r s = in_transaction lock_ok commit_ok (rotate_in_transaction e r) s"

text \<open>\<open>new_id\<close> is the random identifier, \<open>parse_uuid\<close> the constructor \<open>UUID\<close>, \<open>None\<close> where it raises.\<close>

definition ensure_database_identity ::
    "(pystr \<Rightarrow> pystr option) \<Rightarrow> pystr \<Rightarrow> bool \<Rightarrow> bool \<Rightarrow> rotation_store \<Rightarrow> rotation_store \<times> pystr rotated" where
  "ensure_database_identity parse_uuid new_id lock_ok commit_ok s =
     in_transaction lock_ok commit_ok
       (\<lambda>s. let i = (case database_identity s of None \<Rightarrow> new_id | Some i \<Rightarrow> i)
            in case parse_uuid i of None \<Rightarrow> Inl Escaped | Some u \<Rightarrow> Inr (s\<lparr>database_identity := Some i\<rparr>, u)) s"

definition verified_password :: "env \<Rightarrow> credential_bundle \<Rightarrow> user \<Rightarrow> bool rotated" where
  "verified_password e b u =
     (case credential_by_username b (username u) of
        None \<Rightarrow> Inl Escaped
      | Some c \<Rightarrow> map_sum (\<lambda>_. Escaped) id (verify_password e (credential_password c) (password_hash u)))"

definition verify_rotation_state :: "env \<Rightarrow> rotation_request \<Rightarrow> rotation_store \<Rightarrow> verification_result rotated" where
  "verify_rotation_state e r s =
     (let b = rotation_bundle r; us = users_by_id s; n = session_count s
      in case find_ledger (bundle_rotation_id b) s of
           None \<Rightarrow> Inl (Rotation_Failed INVARIANT_VIOLATION)
         | Some row \<Rightarrow>
             bind_result (existing_result e row b (material_fingerprint e b) us n) (\<lambda>_.
             bind_result (map_result (verified_password e b) us) (\<lambda>oks.
               if length (filter id oks) \<noteq> length us then Inl (Rotation_Failed INVARIANT_VIOLATION)
               else Inr \<lparr>verified_user_count = int (length us), password_count_verified = int (length (filter id oks)),
                 verified_session_count = n\<rparr>)))"

end
