(* ===== verification/Rotation_Journal.thy ===== *)
theory Rotation_Journal
  imports Json_Ascii Audit_Trail
begin

text \<open>
  The journal of a credential rotation (\<open>operations/credential_rotation_artifacts.py\<close>): its payload with the
  digests of the files a rotation replaces, the checksum that seals it, and the step to the next phase. SHA-256 is
  a parameter; an identifier is its canonical text; \<open>nd\<close> are the decimal digits of Unicode, which the pattern of
  the retention admits.
\<close>

subsection \<open>Phases\<close>

datatype rotation_phase = Prepared | Db_Committed | Root_Env_Promoted | Backend_Env_Promoted | Credentials_Promoted | Complete

fun phase_value :: "rotation_phase \<Rightarrow> pystr" where
  "phase_value Prepared = lit ''prepared''"
| "phase_value Db_Committed = lit ''db_committed''"
| "phase_value Root_Env_Promoted = lit ''root_env_promoted''"
| "phase_value Backend_Env_Promoted = lit ''backend_env_promoted''"
| "phase_value Credentials_Promoted = lit ''credentials_promoted''"
| "phase_value Complete = lit ''complete''"

definition PHASE_SEQUENCE :: "rotation_phase list" where
  "PHASE_SEQUENCE = [Prepared, Db_Committed, Root_Env_Promoted, Backend_Env_Promoted, Credentials_Promoted, Complete]"

fun index_of :: "'a \<Rightarrow> 'a list \<Rightarrow> nat" where
  "index_of x [] = 0"
| "index_of x (y # ys) = (if x = y then 0 else Suc (index_of x ys))"

subsection \<open>Payload and journal\<close>

record journal_payload =
  journal_sequence :: int
  journal_phase :: rotation_phase
  root_environment_present :: bool
  journal_rotation_id :: pystr
  journal_database_id :: pystr
  journal_user_count :: int
  retention :: pystr
  bundle_sha256 :: pystr
  recovery_sha256 :: pystr
  pending_root_sha256 :: "pystr option"
  pending_backend_sha256 :: pystr
  root_before_sha256 :: "pystr option"
  backend_before_sha256 :: pystr
  root_after_sha256 :: "pystr option"
  backend_after_sha256 :: pystr

record rotation_journal = journal_payload +
  checksum_sha256 :: pystr

text \<open>\<open>^\d{4}-\d{2}-\d{2}T.*[+-]\d{2}:\d{2}$\<close>, as pydantic matches it: the end is the end
  of the text.\<close>

definition shaped :: "(nat \<Rightarrow> bool) list \<Rightarrow> pystr \<Rightarrow> bool" where
  "shaped ps s \<longleftrightarrow> length s = length ps \<and> list_all (\<lambda>(p, c). p c) (zip ps s)"

definition retention_pattern :: "(nat \<Rightarrow> bool) \<Rightarrow> pystr \<Rightarrow> bool" where
  "retention_pattern nd s \<longleftrightarrow> 17 \<le> length s \<and>
     shaped [nd, nd, nd, nd, (=) 45, nd, nd, (=) 45, nd, nd, (=) 84] (take 11 s) \<and>
     10 \<notin> set (take (length s - 17) (drop 11 s)) \<and>
     shaped [\<lambda>c. c = 43 \<or> c = 45, nd, nd, (=) 58, nd, nd] (drop (length s - 6) s)"

definition optional_sha256 :: "pystr option \<Rightarrow> bool" where
  "optional_sha256 d = (case d of None \<Rightarrow> True | Some s \<Rightarrow> hex64_pattern s)"

definition root_topology :: "'a journal_payload_scheme \<Rightarrow> bool" where
  "root_topology p \<longleftrightarrow>
     list_all (\<lambda>digest. (digest \<noteq> None) = root_environment_present p)
       [pending_root_sha256 p, root_before_sha256 p, root_after_sha256 p]"

definition payload_ok :: "(nat \<Rightarrow> bool) \<Rightarrow> 'a journal_payload_scheme \<Rightarrow> bool" where
  "payload_ok nd p \<longleftrightarrow> 0 \<le> journal_sequence p \<and> 0 < journal_user_count p \<and> retention_pattern nd (retention p) \<and>
     list_all hex64_pattern [bundle_sha256 p, recovery_sha256 p, pending_backend_sha256 p, backend_before_sha256 p,
       backend_after_sha256 p] \<and>
     list_all optional_sha256 [pending_root_sha256 p, root_before_sha256 p, root_after_sha256 p] \<and> root_topology p"

text \<open>\<open>model_dump(mode='json')\<close> without the checksum.\<close>

definition payload_json :: "'a journal_payload_scheme \<Rightarrow> json" where
  "payload_json p = JObj
     [(lit ''schema_version'', JInt 2), (lit ''sequence'', JInt (journal_sequence p)),
      (lit ''phase'', JStr (phase_value (journal_phase p))),
      (lit ''root_environment_present'', JBool (root_environment_present p)),
      (lit ''rotation_id'', JStr (journal_rotation_id p)), (lit ''database_id'', JStr (journal_database_id p)),
      (lit ''user_count'', JInt (journal_user_count p)), (lit ''retention'', JStr (retention p)),
      (lit ''bundle_sha256'', JStr (bundle_sha256 p)), (lit ''recovery_sha256'', JStr (recovery_sha256 p)),
      (lit ''pending_root_sha256'', of_text (pending_root_sha256 p)),
      (lit ''pending_backend_sha256'', JStr (pending_backend_sha256 p)),
      (lit ''root_before_sha256'', of_text (root_before_sha256 p)),
      (lit ''backend_before_sha256'', JStr (backend_before_sha256 p)),
      (lit ''root_after_sha256'', of_text (root_after_sha256 p)),
      (lit ''backend_after_sha256'', JStr (backend_after_sha256 p))]"

definition journal_text :: "'a journal_payload_scheme \<Rightarrow> bytes" where
  "journal_text p = ascii_bytes (to_ascii (dumps_compact (payload_json p)))"

definition journal_checksum :: "(bytes \<Rightarrow> pystr) \<Rightarrow> 'a journal_payload_scheme \<Rightarrow> pystr" where
  "journal_checksum sha p = sha (journal_text p)"

definition journal_ok :: "(bytes \<Rightarrow> pystr) \<Rightarrow> (nat \<Rightarrow> bool) \<Rightarrow> rotation_journal \<Rightarrow> bool" where
  "journal_ok sha nd j \<longleftrightarrow> payload_ok nd j \<and> hex64_pattern (checksum_sha256 j) \<and> checksum_sha256 j = journal_checksum sha j"

subsection \<open>Operations\<close>

datatype journal_error = Validation_Error | Phase_Transition_Invalid

definition with_checksum :: "pystr \<Rightarrow> journal_payload \<Rightarrow> rotation_journal" where
  "with_checksum digest p = journal_payload.extend p (rotation_journal.fields digest)"

definition seal_rotation_journal ::
    "(bytes \<Rightarrow> pystr) \<Rightarrow> (nat \<Rightarrow> bool) \<Rightarrow> journal_payload \<Rightarrow> (journal_error, rotation_journal) result" where
  "seal_rotation_journal sha nd p =
     (let j = with_checksum (journal_checksum sha p) p
      in if journal_ok sha nd j then Inr j else Inl Validation_Error)"

definition advance_rotation_journal ::
    "(bytes \<Rightarrow> pystr) \<Rightarrow> (nat \<Rightarrow> bool) \<Rightarrow> rotation_journal \<Rightarrow> rotation_phase \<Rightarrow> (journal_error, rotation_journal) result" where
  "advance_rotation_journal sha nd j ph =
     (let current_index = index_of (journal_phase j) PHASE_SEQUENCE
      in if length PHASE_SEQUENCE \<le> current_index + 1 \<or> PHASE_SEQUENCE ! (current_index + 1) \<noteq> ph
         then Inl Phase_Transition_Invalid
         else
           (let p = (journal_payload.truncate j)\<lparr>journal_sequence := journal_sequence j + 1, journal_phase := ph\<rparr>
            in if payload_ok nd p then seal_rotation_journal sha nd p else Inl Validation_Error))"

subsection \<open>Facts about the operations\<close>

lemma with_checksum_simps [simp]:
  "journal_payload.truncate (with_checksum d p) = p" "checksum_sha256 (with_checksum d p) = d"
  "journal_sequence (with_checksum d p) = journal_sequence p" "journal_phase (with_checksum d p) = journal_phase p"
  "payload_ok nd (with_checksum d p) = payload_ok nd p" "payload_json (with_checksum d p) = payload_json p"
  "journal_text (with_checksum d p) = journal_text p" "journal_checksum sha (with_checksum d p) = journal_checksum sha p"
  by (simp_all add: with_checksum_def journal_payload.defs rotation_journal.defs payload_ok_def root_topology_def
    payload_json_def journal_text_def journal_checksum_def)

lemma truncate_payload [simp]:
  "payload_ok nd (journal_payload.truncate j) = payload_ok nd j" "payload_json (journal_payload.truncate j) = payload_json j"
  "journal_text (journal_payload.truncate j) = journal_text j"
  by (simp_all add: journal_payload.defs payload_ok_def root_topology_def payload_json_def journal_text_def)

lemma seal_Inr:
  "seal_rotation_journal sha nd p = Inr j \<longleftrightarrow> j = with_checksum (journal_checksum sha p) p \<and> journal_ok sha nd j"
  by (auto simp: seal_rotation_journal_def Let_def)

text \<open>A journal is the seal of its payload.\<close>

lemma journal_ok_sealed:
  assumes "journal_ok sha nd j"
  shows "seal_rotation_journal sha nd (journal_payload.truncate j) = Inr j"
proof -
  have "with_checksum (checksum_sha256 j) (journal_payload.truncate j) = j"
    by (cases j) (simp add: with_checksum_def journal_payload.defs rotation_journal.defs)
  with assms show ?thesis by (auto simp: seal_Inr journal_ok_def journal_checksum_def)
qed

definition moved :: "int \<Rightarrow> rotation_phase \<Rightarrow> journal_payload \<Rightarrow> journal_payload" where
  "moved k ph p = p\<lparr>journal_sequence := journal_sequence p + k, journal_phase := ph\<rparr>"

fun next_phase :: "rotation_phase \<Rightarrow> rotation_phase option" where
  "next_phase Prepared = Some Db_Committed"
| "next_phase Db_Committed = Some Root_Env_Promoted"
| "next_phase Root_Env_Promoted = Some Backend_Env_Promoted"
| "next_phase Backend_Env_Promoted = Some Credentials_Promoted"
| "next_phase Credentials_Promoted = Some Complete"
| "next_phase Complete = None"

lemma phase_check:
  "(length PHASE_SEQUENCE \<le> index_of ph0 PHASE_SEQUENCE + 1 \<or> PHASE_SEQUENCE ! (index_of ph0 PHASE_SEQUENCE + 1) \<noteq> ph)
     \<longleftrightarrow> next_phase ph0 \<noteq> Some ph"
  by (cases ph0) (auto simp: PHASE_SEQUENCE_def)

lemma payload_ok_moved: "payload_ok nd p \<Longrightarrow> 0 \<le> k \<Longrightarrow> payload_ok nd (moved k ph p)"
  by (simp add: payload_ok_def root_topology_def moved_def)

lemma advance_eq:
  assumes "payload_ok nd j"
  shows "advance_rotation_journal sha nd j ph =
    (if next_phase (journal_phase j) = Some ph then seal_rotation_journal sha nd (moved 1 ph (journal_payload.truncate j))
     else Inl Phase_Transition_Invalid)"
proof -
  define p where "p = journal_payload.truncate j"
  have p: "journal_sequence p = journal_sequence j" by (simp add: p_def journal_payload.defs)
  have "payload_ok nd (moved 1 ph p)" using assms by (intro payload_ok_moved) (simp_all add: p_def)
  then show ?thesis
    by (simp add: advance_rotation_journal_def Let_def phase_check [of "journal_phase j" ph, simplified] p_def [symmetric] moved_def p)
qed

subsection \<open>The order of the phases\<close>

text \<open>A digest is 64 hexadecimal digits, as \<open>hexdigest\<close> of SHA-256 gives them.\<close>

definition hex_digests :: "(bytes \<Rightarrow> pystr) \<Rightarrow> bool" where
  "hex_digests sha \<longleftrightarrow> (\<forall>b. hex64_pattern (sha b))"

lemma sealed_ok:
  assumes "payload_ok nd p" "hex_digests sha"
  shows "seal_rotation_journal sha nd p = Inr (with_checksum (journal_checksum sha p) p)"
    "journal_ok sha nd (with_checksum (journal_checksum sha p) p)"
  using assms by (simp_all add: seal_rotation_journal_def journal_ok_def hex_digests_def journal_checksum_def Let_def)

fun advance_all ::
    "(bytes \<Rightarrow> pystr) \<Rightarrow> (nat \<Rightarrow> bool) \<Rightarrow> rotation_journal \<Rightarrow> rotation_phase list \<Rightarrow> (journal_error, rotation_journal) result" where
  "advance_all sha nd j [] = Inr j"
| "advance_all sha nd j (ph # phs) =
     bind_result (advance_rotation_journal sha nd j ph) (\<lambda>j'. advance_all sha nd j' phs)"

definition phases_after :: "rotation_phase \<Rightarrow> rotation_phase list" where
  "phases_after ph = drop (Suc (index_of ph PHASE_SEQUENCE)) PHASE_SEQUENCE"

lemma phases_after_next:
  "phases_after ph = (case next_phase ph of None \<Rightarrow> [] | Some ph' \<Rightarrow> ph' # phases_after ph')"
  by (cases ph) (simp_all add: phases_after_def PHASE_SEQUENCE_def)

lemma moved_moved: "moved k ph (moved m ph' p) = moved (m + k) ph p"
  by (simp add: moved_def add.assoc)

lemma moved_zero: "moved 0 (journal_phase j) (journal_payload.truncate j) = journal_payload.truncate j"
  by (simp add: moved_def journal_payload.defs)

text \<open>
  C20 [journal_phases_in_order]: from a journal that passes its checks, a sequence of requested phases is granted exactly
  when it is an initial part of what follows the phase of the journal; then every digest and identifier is
  the one first sealed, the sequence number has grown by one for each phase, and the result is sealed again.
\<close>

theorem journal_phases_in_order:
  assumes "journal_ok sha nd j" "hex_digests sha"
  shows "advance_all sha nd j phs =
    (if prefix phs (phases_after (journal_phase j))
     then seal_rotation_journal sha nd
       (moved (int (length phs)) (last (journal_phase j # phs)) (journal_payload.truncate j))
     else Inl Phase_Transition_Invalid)"
  using assms(1)
proof (induction phs arbitrary: j)
  case Nil
  then show ?case using journal_ok_sealed [OF Nil] by (simp add: moved_zero)
next
  case (Cons ph phs)
  define p where "p = moved 1 ph (journal_payload.truncate j)"
  define j' where "j' = with_checksum (journal_checksum sha p) p"
  have ok: "payload_ok nd j" using Cons.prems by (simp add: journal_ok_def)
  then have "payload_ok nd p" unfolding p_def by (intro payload_ok_moved) simp_all
  from sealed_ok [OF this assms(2)] have j': "seal_rotation_journal sha nd p = Inr j'" "journal_ok sha nd j'"
    by (simp_all add: j'_def)
  have phase': "journal_phase j' = ph" "journal_payload.truncate j' = p" by (simp_all add: j'_def p_def moved_def)
  show ?case
  proof (cases "next_phase (journal_phase j) = Some ph")
    case True
    then have after: "phases_after (journal_phase j) = ph # phases_after ph" by (subst phases_after_next) simp
    have "advance_all sha nd j (ph # phs) = advance_all sha nd j' phs"
      using True j'(1) advance_eq [OF ok] by (simp add: p_def)
    with Cons.IH [OF j'(2)] after show ?thesis by (simp add: phase' p_def moved_moved)
  next
    case False
    then have "\<not> prefix (ph # phs) (phases_after (journal_phase j))"
      by (subst phases_after_next) (auto split: option.splits)
    with False advance_eq [OF ok] show ?thesis by simp
  qed
qed

subsection \<open>The seal\<close>

lemma payload_json_dict_ok: "dict_ok (payload_json p)"
  by (simp add: payload_json_def of_text_def split: option.splits)

lemma phase_value_inj: "phase_value a = phase_value b \<longleftrightarrow> a = b"
  by (cases a; cases b) simp_all

lemma sort_json_of_text [simp]: "sort_json (of_text t) = of_text t"
  by (simp add: of_text_def split: option.splits)

lemma of_text_inj [simp]: "of_text s = of_text t \<longleftrightarrow> s = t"
  by (auto simp: of_text_def split: option.splits)

lemma payload_json_inj:
  assumes "sort_json (payload_json p) = sort_json (payload_json q)"
  shows "p = (q :: journal_payload)"
proof -
  have "map_option sort_json (obj_get k (payload_json p)) = map_option sort_json (obj_get k (payload_json q))" for k
    using assms obj_get_sort_json payload_json_dict_ok by metis
  note at = this [unfolded payload_json_def obj_get_def]
  have "journal_sequence p = journal_sequence q" using at [of "lit ''sequence''"] by simp
  moreover have "journal_phase p = journal_phase q" using at [of "lit ''phase''"] by (simp add: phase_value_inj)
  moreover have "root_environment_present p = root_environment_present q" using at [of "lit ''root_environment_present''"] by simp
  moreover have "journal_rotation_id p = journal_rotation_id q" using at [of "lit ''rotation_id''"] by simp
  moreover have "journal_database_id p = journal_database_id q" using at [of "lit ''database_id''"] by simp
  moreover have "journal_user_count p = journal_user_count q" using at [of "lit ''user_count''"] by simp
  moreover have "retention p = retention q" using at [of "lit ''retention''"] by simp
  moreover have "bundle_sha256 p = bundle_sha256 q" using at [of "lit ''bundle_sha256''"] by simp
  moreover have "recovery_sha256 p = recovery_sha256 q" using at [of "lit ''recovery_sha256''"] by simp
  moreover have "pending_root_sha256 p = pending_root_sha256 q" using at [of "lit ''pending_root_sha256''"] by simp
  moreover have "pending_backend_sha256 p = pending_backend_sha256 q" using at [of "lit ''pending_backend_sha256''"] by simp
  moreover have "root_before_sha256 p = root_before_sha256 q" using at [of "lit ''root_before_sha256''"] by simp
  moreover have "backend_before_sha256 p = backend_before_sha256 q" using at [of "lit ''backend_before_sha256''"] by simp
  moreover have "root_after_sha256 p = root_after_sha256 q" using at [of "lit ''root_after_sha256''"] by simp
  moreover have "backend_after_sha256 p = backend_after_sha256 q" using at [of "lit ''backend_after_sha256''"] by simp
  ultimately show ?thesis by (intro journal_payload.equality) simp_all
qed

text \<open>The texts a journal holds are free of surrogates, as text out of JSON is.\<close>

definition journal_scalar :: "'a journal_payload_scheme \<Rightarrow> bool" where
  "journal_scalar p \<longleftrightarrow> json_scalar (payload_json p)"

lemma journal_text_inj:
  assumes "journal_text p = journal_text q" "journal_scalar p" "journal_scalar q"
  shows "p = (q :: journal_payload)"
proof -
  have "sort_json (payload_json p) = sort_json (payload_json q)"
    using assms unfolding journal_text_def dumps_compact_def journal_scalar_def
    by (intro print_bytes_inj) (simp_all add: json_scalar_sort_json)
  then show ?thesis by (rule payload_json_inj)
qed

text \<open>
  C21 [journal_tamper_evident]: two journals that pass their checks and carry the same checksum agree in every field,
  unless SHA-256 collides on their two texts: no digest, phase or identifier can be replaced under a seal.
\<close>

theorem journal_tamper_evident:
  assumes "journal_ok sha nd j" "journal_ok sha nd j'" "checksum_sha256 j = checksum_sha256 j'"
    and "journal_scalar j" "journal_scalar j'" "sha (journal_text j) = sha (journal_text j') \<Longrightarrow> journal_text j = journal_text j'"
  shows "j = j'"
proof -
  from assms(1-3) have "sha (journal_text j) = sha (journal_text j')" by (simp add: journal_ok_def journal_checksum_def)
  with assms(6) have "journal_text (journal_payload.truncate j) = journal_text (journal_payload.truncate j')" by simp
  moreover have "journal_scalar (journal_payload.truncate j)" "journal_scalar (journal_payload.truncate j')"
    using assms(4, 5) by (simp_all add: journal_scalar_def)
  ultimately have same: "journal_payload.truncate j = journal_payload.truncate j'" by (rule journal_text_inj)
  then show ?thesis
    using assms(3) by (cases j; cases j') (simp add: journal_payload.defs)
qed

subsection \<open>A sample\<close>

definition sample_digest :: pystr where "sample_digest = replicate 64 48"

definition sample_payload :: journal_payload where
  "sample_payload = \<lparr>journal_sequence = 0, journal_phase = Prepared, root_environment_present = False,
     journal_rotation_id = lit ''r'', journal_database_id = lit ''d'', journal_user_count = 2,
     retention = lit ''2026-07-10T00:00:00+00:00'', bundle_sha256 = sample_digest, recovery_sha256 = sample_digest,
     pending_root_sha256 = None, pending_backend_sha256 = sample_digest, root_before_sha256 = None,
     backend_before_sha256 = sample_digest, root_after_sha256 = None, backend_after_sha256 = sample_digest\<rparr>"

definition sample_sha :: "bytes \<Rightarrow> pystr" where "sample_sha b = sample_digest"

definition sample_journal :: rotation_journal where
  "sample_journal = with_checksum sample_digest sample_payload"

lemma sample_digest_ok: "hex64_pattern sample_digest"
  by (simp add: sample_digest_def hex64_pattern_def is_digit_def list_all_iff)

lemma sample_hex: "hex_digests sample_sha"
  by (simp add: hex_digests_def sample_sha_def sample_digest_ok)

lemma sample_payload_ok: "payload_ok is_digit sample_payload"
  by (simp add: payload_ok_def sample_payload_def sample_digest_ok optional_sha256_def root_topology_def retention_pattern_def
    shaped_def lit_def is_digit_def)

lemma sample_journal_ok: "journal_ok sample_sha is_digit sample_journal"
  using sealed_ok(2) [OF sample_payload_ok sample_hex]
  by (simp add: sample_journal_def journal_checksum_def sample_sha_def)

theorem journal_phases_in_order_witness:
  "advance_all sample_sha is_digit sample_journal [Db_Committed, Root_Env_Promoted] =
     seal_rotation_journal sample_sha is_digit (moved 2 Root_Env_Promoted sample_payload) \<and>
   advance_all sample_sha is_digit sample_journal [Root_Env_Promoted] = Inl Phase_Transition_Invalid"
proof -
  have j: "journal_phase sample_journal = Prepared" "journal_payload.truncate sample_journal = sample_payload"
    by (simp_all add: sample_journal_def sample_payload_def)
  have after: "phases_after Prepared = [Db_Committed, Root_Env_Promoted, Backend_Env_Promoted, Credentials_Promoted, Complete]"
    by (simp add: phases_after_def PHASE_SEQUENCE_def)
  show ?thesis
    using journal_phases_in_order [OF sample_journal_ok sample_hex, of "[Db_Committed, Root_Env_Promoted]"]
      journal_phases_in_order [OF sample_journal_ok sample_hex, of "[Root_Env_Promoted]"]
    by (simp add: j after)
qed

theorem journal_tamper_evident_witness: "sample_journal = with_checksum (checksum_sha256 sample_journal) sample_payload"
proof -
  have "payload_json sample_journal = payload_json sample_payload" by (simp add: sample_journal_def)
  moreover have "json_scalar (payload_json sample_payload)"
    by (simp add: payload_json_def sample_payload_def of_text_def lit_def is_scalar_def
      is_surrogate_def sample_digest_def list_all_iff)
  ultimately have "journal_scalar sample_journal" by (simp add: journal_scalar_def)
  moreover have "with_checksum (checksum_sha256 sample_journal) sample_payload = sample_journal" by (simp add: sample_journal_def)
  ultimately show ?thesis
    using journal_tamper_evident [OF sample_journal_ok sample_journal_ok] by simp
qed

end
