(* ===== verification/Base64.thy ===== *)
theory Base64
  imports Py_Text
begin

text \<open>
  \<open>base64.b64encode\<close> and \<open>base64.b64decode(..., validate=True)\<close> of Python's standard library: the strict decoder takes
  groups of four letters of the alphabet and padding only at the end. The bits the padding leaves over are not
  looked at. The main fact is that decoding gives back what was encoded.
\<close>

definition b64_letter :: "nat \<Rightarrow> nat" where
  "b64_letter v =
     (if v < 26 then 65 + v else if v < 52 then 71 + v else if v < 62 then v - 4 else if v = 62 then 43 else 47)"

definition b64_value :: "nat \<Rightarrow> nat option" where
  "b64_value c =
     (if 65 \<le> c \<and> c \<le> 90 then Some (c - 65) else if 97 \<le> c \<and> c \<le> 122 then Some (c - 71)
      else if 48 \<le> c \<and> c \<le> 57 then Some (c + 4) else if c = 43 then Some 62 else if c = 47 then Some 63 else None)"

fun b64_encode_nums :: "nat list \<Rightarrow> pystr" where
  "b64_encode_nums (a # b # c # r) =
     map b64_letter [a div 4, a mod 4 * 16 + b div 16, b mod 16 * 4 + c div 64, c mod 64] @ b64_encode_nums r"
| "b64_encode_nums [a, b] = map b64_letter [a div 4, a mod 4 * 16 + b div 16, b mod 16 * 4] @ [61]"
| "b64_encode_nums [a] = map b64_letter [a div 4, a mod 4 * 16] @ [61, 61]"
| "b64_encode_nums [] = []"

fun b64_decode_nums :: "pystr \<Rightarrow> nat list option" where
  "b64_decode_nums [] = Some []"
| "b64_decode_nums (a # b # c # d # r) =
     (case (b64_value a, b64_value b) of
        (Some w, Some x) \<Rightarrow>
          if c = 61 then (if d = 61 \<and> r = [] then Some [w * 4 + x div 16] else None)
          else
            (case b64_value c of
               None \<Rightarrow> None
             | Some y \<Rightarrow>
                 if d = 61 then (if r = [] then Some [w * 4 + x div 16, x mod 16 * 16 + y div 4] else None)
                 else
                   (case b64_value d of
                      None \<Rightarrow> None
                    | Some z \<Rightarrow>
                        map_option (\<lambda>bs. (w * 4 + x div 16) # (x mod 16 * 16 + y div 4) # (y mod 4 * 64 + z) # bs)
                          (b64_decode_nums r)))
      | _ \<Rightarrow> None)"
| "b64_decode_nums _ = None"

definition b64_encode :: "bytes \<Rightarrow> pystr" where
  "b64_encode bs = b64_encode_nums (map of_char bs)"

definition b64_decode :: "pystr \<Rightarrow> bytes option" where
  "b64_decode s = map_option (map char_of) (b64_decode_nums s)"

lemma b64_value_letter: "v < 64 \<Longrightarrow> b64_value (b64_letter v) = Some v \<and> b64_letter v \<noteq> 61 \<and> b64_letter v < 128"
  by (auto simp: b64_value_def b64_letter_def)

lemma six_bits_first: "(a :: nat) < 256 \<Longrightarrow> a div 4 < 64"
  by (simp add: less_mult_imp_div_less)

lemma six_bits_second: "(b :: nat) < 256 \<Longrightarrow> a mod 4 * 16 + b div 16 < 64"
proof -
  assume "b < 256"
  then have "b div 16 < 16" by (simp add: less_mult_imp_div_less)
  moreover have "a mod 4 < 4" by simp
  ultimately show ?thesis by linarith
qed

lemma six_bits_third: "(c :: nat) < 256 \<Longrightarrow> b mod 16 * 4 + c div 64 < 64"
proof -
  assume "c < 256"
  then have "c div 64 < 4" by (simp add: less_mult_imp_div_less)
  moreover have "b mod 16 < 16" by simp
  ultimately show ?thesis by linarith
qed

lemma six_bits_fourth: "(c :: nat) mod 64 < 64"
  by simp

lemmas six_bits = six_bits_first six_bits_second six_bits_third six_bits_fourth

lemma six_bits_last: "(a :: nat) mod 4 * 16 < 64" "(b :: nat) mod 16 * 4 < 64"
  using six_bits_second [of 0 a] six_bits_third [of 0 b] by simp_all

lemma eight_bits_first:
  "(b :: nat) < 256 \<Longrightarrow> a div 4 * 4 + (a mod 4 * 16 + b div 16) div 16 = a"
proof -
  assume "b < 256"
  then have "b div 16 < 16" by (simp add: less_mult_imp_div_less)
  then have "(a mod 4 * 16 + b div 16) div 16 = a mod 4" by simp
  then show ?thesis by simp
qed

lemma eight_bits_second:
  assumes "(b :: nat) < 256" "(c :: nat) < 256"
  shows "(a mod 4 * 16 + b div 16) mod 16 * 16 + (b mod 16 * 4 + c div 64) div 4 = b"
proof -
  have "b div 16 < 16" "c div 64 < 4" using assms by (simp_all add: less_mult_imp_div_less)
  then have "(a mod 4 * 16 + b div 16) mod 16 = b div 16" "(b mod 16 * 4 + c div 64) div 4 = b mod 16" by simp_all
  then show ?thesis by simp
qed

lemma eight_bits_third:
  "(c :: nat) < 256 \<Longrightarrow> (b mod 16 * 4 + c div 64) mod 4 * 64 + c mod 64 = c"
proof -
  assume "c < 256"
  then have "c div 64 < 4" by (simp add: less_mult_imp_div_less)
  then have "(b mod 16 * 4 + c div 64) mod 4 = c div 64" by simp
  then show ?thesis by simp
qed

lemmas eight_bits = eight_bits_first eight_bits_second eight_bits_third

lemmas letters = six_bits [THEN b64_value_letter] six_bits_last [THEN b64_value_letter]

lemma b64_decode_encode_nums: "(\<forall>b \<in> set bs. b < 256) \<Longrightarrow> b64_decode_nums (b64_encode_nums bs) = Some bs"
proof (induction bs rule: b64_encode_nums.induct)
  case (1 a b c r)
  then show ?case
    by (simp add: letters eight_bits del: div_mult_self3 div_mult_self4 mod_mult_self3 mod_mult_self4)
next
  case (2 a b)
  then show ?case using eight_bits_second [of b 0 a] by (simp add: letters eight_bits)
next
  case (3 a)
  then show ?case using eight_bits_first [of 0 a] by (simp add: letters)
qed simp

lemma b64_decode_encode: "b64_decode (b64_encode bs) = Some bs"
proof -
  have "b64_decode_nums (b64_encode_nums (map of_char bs)) = Some (map of_char bs)"
    by (rule b64_decode_encode_nums) auto
  then show ?thesis by (simp add: b64_decode_def b64_encode_def comp_def)
qed

lemma b64_encode_nums_ascii: "\<forall>b \<in> set ns. b < 256 \<Longrightarrow> c \<in> set (b64_encode_nums ns) \<Longrightarrow> c < 128"
  by (induction ns rule: b64_encode_nums.induct) (auto simp: letters)

lemma b64_encode_ascii: "c \<in> set (b64_encode bs) \<Longrightarrow> c < 128"
  unfolding b64_encode_def by (rule b64_encode_nums_ascii [of "map of_char bs"]) auto

end
