(* ===== verification/Sqlite_Recovery.thy ===== *)
theory Sqlite_Recovery
  imports Credential_Rotation Rotation_Journal Base64
begin

text \<open>
  The files of a rotation: data under DPAPI (\<open>operations/windows_dpapi.py\<close>), the snapshot and the recovery artifact
  of the database (\<open>sqlite_recovery_snapshot.py\<close>, \<open>sqlite_recovery.py\<close>) and the credential bundle
  (\<open>credential_bundle.py\<close>). Windows, SQLite, pydantic's JSON and the random generator are parameters
  (\<open>rotation_host\<close>).
\<close>

subsection \<open>The host\<close>

datatype dpapi_purpose = CREDENTIAL_BUNDLE | PROVIDER_CREDENTIAL | DATABASE_RECOVERY | ROTATION_JOURNAL
  | PENDING_ROOT_ENVIRONMENT | PENDING_BACKEND_ENVIRONMENT | BOOTSTRAP_MARKER | TEST_PAYLOAD

fun purpose_value :: "dpapi_purpose \<Rightarrow> string" where
  "purpose_value CREDENTIAL_BUNDLE = ''credential-bundle''"
| "purpose_value PROVIDER_CREDENTIAL = ''provider-credential''"
| "purpose_value DATABASE_RECOVERY = ''database-recovery''"
| "purpose_value ROTATION_JOURNAL = ''rotation-journal''"
| "purpose_value PENDING_ROOT_ENVIRONMENT = ''pending-root-environment''"
| "purpose_value PENDING_BACKEND_ENVIRONMENT = ''pending-backend-environment''"
| "purpose_value BOOTSTRAP_MARKER = ''rotation-bootstrap-marker''"
| "purpose_value TEST_PAYLOAD = ''test-payload''"

text \<open>What the disk does with a write: all of it, nothing because the file does not open, or a first part and then an
  error. A file has its content and the number of its names.\<close>

datatype disk_answer = Disk_Written | Disk_Closed | Disk_Cut nat

record disk_file =
  disk_content :: bytes
  disk_links :: nat

type_synonym disk = "pystr \<Rightarrow> disk_file option"

text \<open>
  \<open>crypt_protect\<close> and \<open>crypt_unprotect\<close> are the two functions of \<open>crypt32\<close> (data, description, entropy, flags);
  \<open>print_json\<close> is \<open>model_dump_json().encode('utf-8')\<close> of a model with these fields, \<open>parse_json\<close> the parser of
  \<open>model_validate_json\<close>, and \<open>reported_errors\<close> what a \<open>ValidationError\<close> about a text lists. \<open>serialize_db\<close> is
  \<open>Connection.serialize\<close>; \<open>vacuumed\<close> deserializes, leaves WAL, clears the schema version, vacuums and serializes;
  \<open>integrity_ok\<close>, \<open>has_ledger_table\<close> and \<open>lists_rotation\<close> are the queries on a deserialized snapshot. \<open>None\<close> is an
  error of sqlite3, of crypt32 or of the parser.
\<close>

record rotation_host =
  crypt_protect :: "bytes \<Rightarrow> string \<Rightarrow> bytes \<Rightarrow> nat \<Rightarrow> bytes option"
  crypt_unprotect :: "bytes \<Rightarrow> bytes \<Rightarrow> nat \<Rightarrow> bytes option"
  sha256_digest :: "bytes \<Rightarrow> bytes"
  uuid_text :: "pystr \<Rightarrow> pystr option"
  print_json :: "json \<Rightarrow> bytes option"
  parse_json :: "bytes \<Rightarrow> json option"
  reported_errors :: "bytes \<Rightarrow> (pystr \<times> pystr list) list"
  serialize_db :: "rotation_store \<Rightarrow> bytes"
  vacuumed :: "bytes \<Rightarrow> bytes option"
  integrity_ok :: "bytes \<Rightarrow> bool option"
  has_ledger_table :: "bytes \<Rightarrow> bool option"
  lists_rotation :: "bytes \<Rightarrow> pystr \<Rightarrow> bool option"
  opens_readonly :: bool
  lock_granted :: bool
  commit_granted :: bool
  sqlite_driver :: bool
  file_readable :: "pystr \<Rightarrow> bool"
  disk_answer :: "pystr \<Rightarrow> disk_answer"
  fresh_uuid :: pystr
  fresh_rotation :: pystr
  token_hex :: pystr
  token_urlsafe :: "nat \<Rightarrow> pystr"
  unicode_digit :: "nat \<Rightarrow> bool"

subsection \<open>DPAPI\<close>

definition CRYPTPROTECT_UI_FORBIDDEN :: nat where "CRYPTPROTECT_UI_FORBIDDEN = 1"
definition ENTROPY_PREFIX :: bytes where "ENTROPY_PREFIX = ''AeroOne.CredentialRotation.v1:''"

definition entropy_input :: "dpapi_purpose \<Rightarrow> bytes" where
  "entropy_input p = ENTROPY_PREFIX @ purpose_value p"

definition entropy :: "rotation_host \<Rightarrow> dpapi_purpose \<Rightarrow> bytes" where
  "entropy h p = sha256_digest h (entropy_input p)"

definition protect_for_current_user :: "rotation_host \<Rightarrow> bytes \<Rightarrow> dpapi_purpose \<Rightarrow> bytes rotated" where
  "protect_for_current_user h payload p =
     of_option Dpapi_Failed (crypt_protect h payload (purpose_value p) (entropy h p) CRYPTPROTECT_UI_FORBIDDEN)"

definition unprotect_for_current_user :: "rotation_host \<Rightarrow> bytes \<Rightarrow> dpapi_purpose \<Rightarrow> bytes rotated" where
  "unprotect_for_current_user h payload p =
     of_option Dpapi_Failed (crypt_unprotect h payload (entropy h p) CRYPTPROTECT_UI_FORBIDDEN)"

subsection \<open>Files\<close>

definition read_bytes :: "rotation_host \<Rightarrow> pystr \<Rightarrow> disk \<Rightarrow> bytes rotated" where
  "read_bytes h path f =
     (case f path of None \<Rightarrow> Inl Storage_Failed
      | Some x \<Rightarrow> if file_readable h path then Inr (disk_content x) else Inl Storage_Failed)"

text \<open>Open with truncation, write, flush, \<open>fsync\<close>.\<close>

definition put_file :: "rotation_host \<Rightarrow> pystr \<Rightarrow> bytes \<Rightarrow> disk \<Rightarrow> disk \<times> unit rotated" where
  "put_file h path payload f =
     (let links = (case f path of None \<Rightarrow> 1 | Some x \<Rightarrow> disk_links x)
      in case disk_answer h path of
           Disk_Written \<Rightarrow> (f(path \<mapsto> \<lparr>disk_content = payload, disk_links = links\<rparr>), Inr ())
         | Disk_Closed \<Rightarrow> (f, Inl Storage_Failed)
         | Disk_Cut n \<Rightarrow> (f(path \<mapsto> \<lparr>disk_content = take n payload, disk_links = links\<rparr>), Inl Storage_Failed))"

definition write_new_durable :: "rotation_host \<Rightarrow> pystr \<Rightarrow> bytes \<Rightarrow> disk \<Rightarrow> disk \<times> unit rotated" where
  "write_new_durable h path payload f =
     (if f path \<noteq> None then (f, Inl Storage_Failed) else put_file h path payload f)"

definition write_precreated_durable :: "rotation_host \<Rightarrow> pystr \<Rightarrow> bytes \<Rightarrow> disk \<Rightarrow> disk \<times> unit rotated" where
  "write_precreated_durable h path payload f =
     (case f path of
        None \<Rightarrow> (f, Inl Storage_Failed)
      | Some x \<Rightarrow>
          if disk_content x \<noteq> [] \<or> disk_links x \<noteq> 1 then (f, Inl (Recovery_Failed ARTIFACT_INVALID))
          else put_file h path payload f)"

subsection \<open>Snapshots\<close>

text \<open>\<open>bs[i:j] = new\<close>.\<close>

definition set_slice :: "nat \<Rightarrow> nat \<Rightarrow> bytes \<Rightarrow> bytes \<Rightarrow> bytes" where
  "set_slice i j new bs = take i bs @ new @ drop j bs"

definition CANONICAL_COUNTER :: bytes where "CANONICAL_COUNTER = map char_of [0, 0, 0, 1 :: nat]"

definition snapshot_connection :: "rotation_host \<Rightarrow> rotation_store \<Rightarrow> bytes rotated" where
  "snapshot_connection h s =
     (let serialized = serialize_db h s
      in if length serialized < 20 then Inl Escaped
         else
           bind_result (of_option Sqlite_Failed (vacuumed h (serialized[18 := char_of (1 :: nat), 19 := char_of (1 :: nat)])))
             (\<lambda>vac.
               let snapshot = set_slice 92 96 CANONICAL_COUNTER (set_slice 24 28 CANONICAL_COUNTER vac)
               in bind_result (of_option Sqlite_Failed (integrity_ok h snapshot)) (\<lambda>ok.
                    if ok then Inr snapshot else Inl (Recovery_Failed INTEGRITY_FAILURE))))"

definition snapshot_bytes :: "rotation_host \<Rightarrow> rotation_store \<Rightarrow> bytes rotated" where
  "snapshot_bytes h s = (if opens_readonly h then snapshot_connection h s else Inl Sqlite_Failed)"

subsection \<open>The recovery artifact\<close>

record recovery_envelope =
  envelope_rotation_id :: pystr
  envelope_database_id :: pystr
  snapshot_size :: int
  snapshot_sha256 :: pystr
  snapshot_base64 :: pystr

definition envelope_errors :: "recovery_envelope \<Rightarrow> (pystr \<times> pystr list) list" where
  "envelope_errors v =
     (if 1 \<le> snapshot_size v then [] else [(lit ''greater_than_equal'', [lit ''snapshot_size''])]) @
     (if hex64_pattern (snapshot_sha256 v) then [] else [(lit ''string_pattern_mismatch'', [lit ''snapshot_sha256''])])"

definition envelope_json :: "recovery_envelope \<Rightarrow> json" where
  "envelope_json v = JObj
     [(lit ''schema_version'', JInt 1), (lit ''artifact_type'', JStr (lit ''database-recovery'')),
      (lit ''rotation_id'', JStr (envelope_rotation_id v)), (lit ''database_id'', JStr (envelope_database_id v)),
      (lit ''snapshot_size'', JInt (snapshot_size v)), (lit ''snapshot_sha256'', JStr (snapshot_sha256 v)),
      (lit ''snapshot_base64'', JStr (snapshot_base64 v))]"

text \<open>A field of a strict model that holds a UUID, beside those of \<^theory_text>\<open>Py_Json\<close>.\<close>

definition uuid_field :: "rotation_host \<Rightarrow> string \<Rightarrow> json \<Rightarrow> pystr option" where
  "uuid_field h k v = Option.bind (string_field k v) (uuid_text h)"

definition envelope_of_json :: "rotation_host \<Rightarrow> json \<Rightarrow> recovery_envelope option" where
  "envelope_of_json h v =
     (if keys_within [''schema_version'', ''artifact_type'', ''rotation_id'', ''database_id'', ''snapshot_size'',
           ''snapshot_sha256'', ''snapshot_base64''] v \<and>
         literal_field ''schema_version'' (JInt 1) v \<and>
         literal_field ''artifact_type'' (JStr (lit ''database-recovery'')) v
      then
        (case (uuid_field h ''rotation_id'' v, uuid_field h ''database_id'' v, int_field ''snapshot_size'' v,
               string_field ''snapshot_sha256'' v, string_field ''snapshot_base64'' v) of
           (Some r, Some d, Some n, Some sha, Some b) \<Rightarrow>
             let env = \<lparr>envelope_rotation_id = r, envelope_database_id = d, snapshot_size = n, snapshot_sha256 = sha,
               snapshot_base64 = b\<rparr>
             in if envelope_errors env = [] then Some env else None
         | _ \<Rightarrow> None)
      else None)"

definition new_envelope :: "env \<Rightarrow> bytes \<Rightarrow> pystr \<Rightarrow> pystr \<Rightarrow> recovery_envelope" where
  "new_envelope e snapshot rid did =
     \<lparr>envelope_rotation_id = rid, envelope_database_id = did, snapshot_size = int (length snapshot),
      snapshot_sha256 = sha256_hex e snapshot, snapshot_base64 = b64_encode snapshot\<rparr>"

definition protected_json :: "rotation_host \<Rightarrow> json \<Rightarrow> dpapi_purpose \<Rightarrow> bytes rotated" where
  "protected_json h v p =
     bind_result (of_option Escaped (print_json h v)) (\<lambda>plaintext. protect_for_current_user h plaintext p)"

text \<open>The result is the digest of the file written.\<close>

definition write_database_recovery ::
    "env \<Rightarrow> rotation_host \<Rightarrow> bytes \<Rightarrow> pystr \<Rightarrow> pystr \<Rightarrow> pystr \<Rightarrow> bool \<Rightarrow> disk \<Rightarrow> disk \<times> pystr rotated" where
  "write_database_recovery e h snapshot path rid did precreated f =
     (let envelope = new_envelope e snapshot rid did
      in if envelope_errors envelope \<noteq> [] then (f, Inl (Invalid_Input (envelope_errors envelope)))
         else
           case protected_json h (envelope_json envelope) DATABASE_RECOVERY of
             Inl err \<Rightarrow> (f, Inl err)
           | Inr protected \<Rightarrow>
               (case (if precreated then write_precreated_durable h path protected f
                      else write_new_durable h path protected f) of
                  (f', Inl err) \<Rightarrow> (f', Inl err)
                | (f', Inr _) \<Rightarrow> (f', Inr (sha256_hex e protected))))"

definition create_database_recovery ::
    "env \<Rightarrow> rotation_host \<Rightarrow> rotation_store \<Rightarrow> pystr \<Rightarrow> pystr \<Rightarrow> pystr \<Rightarrow> disk \<Rightarrow> disk \<times> unit rotated" where
  "create_database_recovery e h s path rid did f =
     (case snapshot_bytes h s of
        Inl err \<Rightarrow> (f, Inl err)
      | Inr snapshot \<Rightarrow> map_prod id (map_sum id (\<lambda>_. ())) (write_database_recovery e h snapshot path rid did False f))"

definition create_database_recovery_from_connection ::
    "env \<Rightarrow> rotation_host \<Rightarrow> rotation_store \<Rightarrow> pystr \<Rightarrow> pystr \<Rightarrow> pystr \<Rightarrow> disk \<Rightarrow> disk \<times> pystr rotated" where
  "create_database_recovery_from_connection e h s path rid did f =
     (case snapshot_connection h s of
        Inl err \<Rightarrow> (f, Inl err)
      | Inr snapshot \<Rightarrow> write_database_recovery e h snapshot path rid did True f)"

text \<open>\<open>base64.b64decode\<close> of a text outside ASCII raises a \<open>ValueError\<close> that is no \<open>binascii.Error\<close>.\<close>

definition envelope_snapshot :: "recovery_envelope \<Rightarrow> bytes rotated" where
  "envelope_snapshot v =
     (if \<not> list_all (\<lambda>c. c < 128) (snapshot_base64 v) then Inl Escaped
      else of_option (Recovery_Failed ARTIFACT_INVALID) (b64_decode (snapshot_base64 v)))"

definition recovery_of_plaintext :: "rotation_host \<Rightarrow> bytes \<Rightarrow> (recovery_envelope \<times> bytes) rotated" where
  "recovery_of_plaintext h plaintext =
     bind_result (of_option (Recovery_Failed ARTIFACT_INVALID) (Option.bind (parse_json h plaintext) (envelope_of_json h)))
       (\<lambda>v. bind_result (envelope_snapshot v) (\<lambda>snapshot. Inr (v, snapshot)))"

definition load_database_recovery ::
    "env \<Rightarrow> rotation_host \<Rightarrow> pystr \<Rightarrow> pystr \<Rightarrow> pystr \<Rightarrow> disk \<Rightarrow> bytes rotated" where
  "load_database_recovery e h path rid did f =
     bind_result (read_bytes h path f) (\<lambda>content.
     bind_result (unprotect_for_current_user h content DATABASE_RECOVERY) (\<lambda>plaintext.
     bind_result (recovery_of_plaintext h plaintext) (\<lambda>(v, snapshot).
       if \<not> (envelope_rotation_id v = rid \<and> envelope_database_id v = did)
       then Inl (Recovery_Failed BINDING_MISMATCH)
       else if \<not> (int (length snapshot) = snapshot_size v \<and> sha256_hex e snapshot = snapshot_sha256 v)
       then Inl (Recovery_Failed ARTIFACT_INVALID)
       else bind_result (of_option Sqlite_Failed (integrity_ok h snapshot)) (\<lambda>ok.
         if ok then Inr snapshot else Inl (Recovery_Failed INTEGRITY_FAILURE)))))"

definition assert_snapshot_precedes_rotation :: "rotation_host \<Rightarrow> bytes \<Rightarrow> pystr \<Rightarrow> unit rotated" where
  "assert_snapshot_precedes_rotation h snapshot rid =
     bind_result (of_option Sqlite_Failed (has_ledger_table h snapshot)) (\<lambda>tab.
       if \<not> tab then Inr ()
       else bind_result (of_option Sqlite_Failed (lists_rotation h snapshot rid)) (\<lambda>found.
         require (\<not> found) (Recovery_Failed RESTORE_STATE_MISMATCH)))"

definition assert_recovery_digest :: "env \<Rightarrow> rotation_host \<Rightarrow> pystr \<Rightarrow> pystr \<Rightarrow> disk \<Rightarrow> unit rotated" where
  "assert_recovery_digest e h path expected f =
     bind_result (read_bytes h path f) (\<lambda>content.
       require (sha256_hex e content = expected) (Recovery_Failed ARTIFACT_INVALID))"

definition same_snapshot :: "rotation_host \<Rightarrow> bytes \<Rightarrow> bytes \<Rightarrow> unit rotated" where
  "same_snapshot h expected actual =
     require (length expected = length actual \<and> sha256_digest h expected = sha256_digest h actual)
       (Recovery_Failed RESTORE_STATE_MISMATCH)"

definition confirm_connection_matches_recovery ::
    "env \<Rightarrow> rotation_host \<Rightarrow> rotation_store \<Rightarrow> pystr \<Rightarrow> pystr \<Rightarrow> pystr \<Rightarrow> pystr \<Rightarrow> disk \<Rightarrow> unit rotated" where
  "confirm_connection_matches_recovery e h s path rid did expected_sha256 f =
     bind_result (assert_recovery_digest e h path expected_sha256 f) (\<lambda>_.
     bind_result (load_database_recovery e h path rid did f) (\<lambda>expected.
     bind_result (snapshot_connection h s) (\<lambda>actual.
     bind_result (assert_snapshot_precedes_rotation h expected rid) (\<lambda>_. same_snapshot h expected actual))))"

definition validate_pre_rotation_recovery ::
    "env \<Rightarrow> rotation_host \<Rightarrow> pystr \<Rightarrow> pystr \<Rightarrow> pystr \<Rightarrow> pystr \<Rightarrow> disk \<Rightarrow> unit rotated" where
  "validate_pre_rotation_recovery e h path rid did expected_sha256 f =
     bind_result (assert_recovery_digest e h path expected_sha256 f) (\<lambda>_.
     bind_result (load_database_recovery e h path rid did f) (\<lambda>snapshot.
       assert_snapshot_precedes_rotation h snapshot rid))"

definition confirm_database_matches_recovery ::
    "env \<Rightarrow> rotation_host \<Rightarrow> rotation_store \<Rightarrow> pystr \<Rightarrow> pystr \<Rightarrow> pystr \<Rightarrow> pystr \<Rightarrow> disk \<Rightarrow> unit rotated" where
  "confirm_database_matches_recovery e h s database_path path rid did f =
     (if f (database_path @ lit ''-wal'') \<noteq> None \<or> f (database_path @ lit ''-shm'') \<noteq> None
      then Inl (Recovery_Failed RESTORE_SIDECAR_PRESENT)
      else
        bind_result (load_database_recovery e h path rid did f) (\<lambda>expected.
        bind_result (snapshot_bytes h s) (\<lambda>actual.
        bind_result (assert_snapshot_precedes_rotation h expected rid) (\<lambda>_. same_snapshot h expected actual))))"

subsection \<open>The credential bundle\<close>

definition bundle_json :: "credential_bundle \<Rightarrow> json" where
  "bundle_json b = JObj
     [(lit ''rotation_id'', JStr (bundle_rotation_id b)), (lit ''database_id'', JStr (bundle_database_id b)),
      (lit ''admin_username'', JStr (bundle_admin_username b)), (lit ''jwt_secret_key'', JStr (bundle_jwt_secret_key b)),
      (lit ''users'', JArr (map (\<lambda>c. JObj [(lit ''username'', JStr (credential_username c)),
         (lit ''password'', JStr (credential_password c))]) (bundle_users b)))]"

definition credential_of_json :: "json \<Rightarrow> user_credential option" where
  "credential_of_json v =
     (if keys_within [''username'', ''password''] v then
        (case (string_field ''username'' v, string_field ''password'' v) of
           (Some n, Some p) \<Rightarrow>
             let c = \<lparr>credential_username = n, credential_password = p\<rparr> in if credential_ok c then Some c else None
         | _ \<Rightarrow> None)
      else None)"

fun read_all :: "('a \<Rightarrow> 'b option) \<Rightarrow> 'a list \<Rightarrow> 'b list option" where
  "read_all g [] = Some []"
| "read_all g (x # xs) = Option.bind (g x) (\<lambda>y. map_option ((#) y) (read_all g xs))"

text \<open>The identifiers have a random default.\<close>

definition default_uuid_field :: "rotation_host \<Rightarrow> string \<Rightarrow> pystr \<Rightarrow> json \<Rightarrow> pystr option" where
  "default_uuid_field h k d v = (case obj_get (lit k) v of None \<Rightarrow> Some d | Some _ \<Rightarrow> uuid_field h k v)"

definition bundle_of_json :: "rotation_host \<Rightarrow> json \<Rightarrow> credential_bundle option" where
  "bundle_of_json h v =
     (if keys_within [''rotation_id'', ''database_id'', ''admin_username'', ''jwt_secret_key'', ''users''] v then
        (case (default_uuid_field h ''rotation_id'' (fresh_rotation h) v,
               default_uuid_field h ''database_id'' (fresh_uuid h) v,
               string_field ''admin_username'' v, string_field ''jwt_secret_key'' v, obj_get (lit ''users'') v) of
           (Some r, Some d, Some a, Some k, Some (JArr cs)) \<Rightarrow>
             (case read_all credential_of_json cs of
                None \<Rightarrow> None
              | Some us \<Rightarrow>
                  let b = \<lparr>bundle_rotation_id = r, bundle_database_id = d, bundle_admin_username = a,
                    bundle_jwt_secret_key = k, bundle_users = us\<rparr>
                  in if bundle_ok b then Some b else None)
         | _ \<Rightarrow> None)
      else None)"

definition inspect_credential_scope :: "pystr \<Rightarrow> rotation_store \<Rightarrow> int rotated" where
  "inspect_credential_scope admin_username s =
     (let us = users_by_id s
      in if us = [] then Inl (Rotation_Failed EMPTY_USER_SET)
         else bind_result (validate_active_admin us admin_username) (\<lambda>_. Inr (int (length us))))"

definition new_credential :: "rotation_host \<Rightarrow> nat \<Rightarrow> user \<Rightarrow> user_credential rotated" where
  "new_credential h i u =
     (let c = \<lparr>credential_username = username u, credential_password = token_urlsafe h i\<rparr>
      in if credential_ok c then Inr c else Inl (Invalid_Input [(lit ''string_too_short'', [lit ''password''])]))"

definition new_bundle :: "rotation_host \<Rightarrow> pystr \<Rightarrow> pystr \<Rightarrow> user list \<Rightarrow> credential_bundle rotated" where
  "new_bundle h did admin_username us =
     bind_result (map_result (\<lambda>(i, u). new_credential h i u) (enumerate 0 us)) (\<lambda>cs.
       let b = \<lparr>bundle_rotation_id = fresh_rotation h, bundle_database_id = did, bundle_admin_username = admin_username,
         bundle_jwt_secret_key = token_hex h, bundle_users = cs\<rparr>
       in if bundle_ok b then Inr b else Inl (Invalid_Input [(lit ''string_too_short'', [lit ''jwt_secret_key''])]))"

text \<open>The identity of the database is committed before the bundle is made.\<close>

definition prepare_credential_bundle ::
    "rotation_host \<Rightarrow> pystr \<Rightarrow> pystr \<Rightarrow> rotation_store \<Rightarrow> disk \<Rightarrow> rotation_store \<times> disk \<times> int rotated" where
  "prepare_credential_bundle h admin_username bundle_path s f =
     (case inspect_credential_scope admin_username s of
        Inl err \<Rightarrow> (s, f, Inl err)
      | Inr n \<Rightarrow>
          (case ensure_database_identity (uuid_text h) (fresh_uuid h) (lock_granted h) (commit_granted h) s of
             (s1, Inl err) \<Rightarrow> (s1, f, Inl err)
           | (s1, Inr did) \<Rightarrow>
               (case bind_result (new_bundle h did admin_username (users_by_id s))
                       (\<lambda>b. protected_json h (bundle_json b) CREDENTIAL_BUNDLE) of
                  Inl err \<Rightarrow> (s1, f, Inl err)
                | Inr protected \<Rightarrow>
                    (case put_file h bundle_path protected f of
                       (f1, res) \<Rightarrow> (s1, f1, map_sum id (\<lambda>_. n) res)))))"

definition load_credential_bundle :: "rotation_host \<Rightarrow> pystr \<Rightarrow> disk \<Rightarrow> credential_bundle rotated" where
  "load_credential_bundle h path f =
     bind_result (read_bytes h path f) (\<lambda>content.
     bind_result (unprotect_for_current_user h content CREDENTIAL_BUNDLE) (\<lambda>plaintext.
       of_option (Invalid_Input (reported_errors h plaintext))
         (Option.bind (parse_json h plaintext) (bundle_of_json h))))"

end
