(* ===== verification/Rotation_Commands.thy ===== *)
theory Rotation_Commands
  imports Sqlite_Recovery
begin

text \<open>
  The two programs of the credential rotation: the single commands of \<open>commands/rotate_credentials.py\<close> and
  \<open>commands/credential_rotation_commands.py\<close>, and the dialogue of \<open>commands/credential_rotation_transaction.py\<close>, which
  holds a transaction open until the caller has secured the recovery artifact. Standard input is the list of its
  lines, standard output the list of the JSON values written.
\<close>

subsection \<open>Strict fields\<close>

definition bool_field :: "string \<Rightarrow> json \<Rightarrow> bool option" where
  "bool_field k v = (case obj_get (lit k) v of Some (JBool b) \<Rightarrow> Some b | _ \<Rightarrow> None)"

definition flag_field :: "string \<Rightarrow> json \<Rightarrow> bool option" where
  "flag_field k v = (case obj_get (lit k) v of None \<Rightarrow> Some False | Some _ \<Rightarrow> bool_field k v)"

definition nullable_field :: "string \<Rightarrow> json \<Rightarrow> pystr option option" where
  "nullable_field k v =
     (case obj_get (lit k) v of Some JNull \<Rightarrow> Some None | Some (JStr s) \<Rightarrow> Some (Some s) | _ \<Rightarrow> None)"

definition url_field :: "json \<Rightarrow> pystr option" where
  "url_field v =
     Option.bind (string_field ''database_url'' v) (\<lambda>u. if sqlite_url u then Some u else None)"

definition phase_field :: "string \<Rightarrow> json \<Rightarrow> rotation_phase option" where
  "phase_field k v = Option.bind (string_field k v) (\<lambda>s. find (\<lambda>p. phase_value p = s) PHASE_SEQUENCE)"

definition payload_keys :: "string list" where
  "payload_keys = [''schema_version'', ''sequence'', ''phase'', ''root_environment_present'', ''rotation_id'',
     ''database_id'', ''user_count'', ''retention'', ''bundle_sha256'', ''recovery_sha256'', ''pending_root_sha256'',
     ''pending_backend_sha256'', ''root_before_sha256'', ''backend_before_sha256'', ''root_after_sha256'',
     ''backend_after_sha256'']"

definition payload_fields :: "rotation_host \<Rightarrow> json \<Rightarrow> journal_payload option" where
  "payload_fields h v =
     Option.bind (int_field ''sequence'' v) (\<lambda>sq.
     Option.bind (phase_field ''phase'' v) (\<lambda>ph.
     Option.bind (bool_field ''root_environment_present'' v) (\<lambda>present.
     Option.bind (uuid_field h ''rotation_id'' v) (\<lambda>rid.
     Option.bind (uuid_field h ''database_id'' v) (\<lambda>did.
     Option.bind (int_field ''user_count'' v) (\<lambda>n.
     Option.bind (string_field ''retention'' v) (\<lambda>ret.
     Option.bind (string_field ''bundle_sha256'' v) (\<lambda>bundle.
     Option.bind (string_field ''recovery_sha256'' v) (\<lambda>rec.
     Option.bind (nullable_field ''pending_root_sha256'' v) (\<lambda>proot.
     Option.bind (string_field ''pending_backend_sha256'' v) (\<lambda>pback.
     Option.bind (nullable_field ''root_before_sha256'' v) (\<lambda>rootb.
     Option.bind (string_field ''backend_before_sha256'' v) (\<lambda>backb.
     Option.bind (nullable_field ''root_after_sha256'' v) (\<lambda>roota.
     Option.bind (string_field ''backend_after_sha256'' v) (\<lambda>backa.
       Some \<lparr>journal_sequence = sq, journal_phase = ph, root_environment_present = present,
         journal_rotation_id = rid, journal_database_id = did, journal_user_count = n, retention = ret,
         bundle_sha256 = bundle, recovery_sha256 = rec, pending_root_sha256 = proot,
         pending_backend_sha256 = pback, root_before_sha256 = rootb, backend_before_sha256 = backb,
         root_after_sha256 = roota, backend_after_sha256 = backa\<rparr>)))))))))))))))"

definition payload_of_json :: "rotation_host \<Rightarrow> json \<Rightarrow> journal_payload option" where
  "payload_of_json h v =
     (if keys_within payload_keys v \<and> literal_field ''schema_version'' (JInt 2) v then
        Option.bind (payload_fields h v) (\<lambda>p. if payload_ok (unicode_digit h) p then Some p else None)
      else None)"

definition journal_of_json :: "env \<Rightarrow> rotation_host \<Rightarrow> json \<Rightarrow> rotation_journal option" where
  "journal_of_json e h v =
     (if keys_within (''checksum_sha256'' # payload_keys) v \<and> literal_field ''schema_version'' (JInt 2) v then
        Option.bind (payload_fields h v) (\<lambda>p. Option.bind (string_field ''checksum_sha256'' v) (\<lambda>digest.
          let j = with_checksum digest p in if journal_ok (sha256_hex e) (unicode_digit h) j then Some j else None))
      else None)"

definition journal_json :: "rotation_journal \<Rightarrow> json" where
  "journal_json j =
     (case payload_json j of
        JObj kvs \<Rightarrow> JObj (kvs @ [(lit ''checksum_sha256'', JStr (checksum_sha256 j))]) | v \<Rightarrow> v)"

subsection \<open>The single commands\<close>

datatype rotation_command =
    Inspect_Command pystr pystr
  | Prepare_Command pystr pystr pystr
  | Commit_Command pystr pystr bool
  | Verify_Command pystr pystr
  | Backup_Command pystr pystr pystr pystr
  | Confirm_Restore_Command pystr pystr pystr pystr
  | Seal_Journal_Command journal_payload
  | Advance_Journal_Command rotation_journal rotation_phase
  | Validate_Journal_Command rotation_journal

datatype command_answer = Command_Success rotation_result | Journal_Success rotation_journal

definition four_texts ::
    "(pystr \<Rightarrow> pystr \<Rightarrow> pystr \<Rightarrow> pystr \<Rightarrow> 'a) \<Rightarrow> pystr option \<Rightarrow> pystr option \<Rightarrow> pystr option \<Rightarrow> pystr option \<Rightarrow>
       'a option" where
  "four_texts c p q r s =
     Option.bind p (\<lambda>p. Option.bind q (\<lambda>q. Option.bind r (\<lambda>r. Option.bind s (\<lambda>s. Some (c p q r s)))))"

text \<open>The union is told apart by \<open>action\<close>.\<close>

definition command_of_json :: "env \<Rightarrow> rotation_host \<Rightarrow> json \<Rightarrow> rotation_command option" where
  "command_of_json e h v =
     (let act = string_field ''action'' v; only = (\<lambda>ks. keys_within (''action'' # ks) v)
      in if act = Some (lit ''inspect'') \<and> only [''database_url'', ''admin_username''] then
           Option.bind (url_field v) (\<lambda>u. map_option (Inspect_Command u) (string_field ''admin_username'' v))
         else if act = Some (lit ''prepare'') \<and> only [''database_url'', ''admin_username'', ''bundle_path''] then
           Option.bind (url_field v) (\<lambda>u. Option.bind (string_field ''admin_username'' v) (\<lambda>a.
             map_option (Prepare_Command u a) (string_field ''bundle_path'' v)))
         else if act = Some (lit ''commit'') \<and> only [''database_url'', ''bundle_path'', ''fail_before_commit''] then
           Option.bind (url_field v) (\<lambda>u. Option.bind (string_field ''bundle_path'' v) (\<lambda>p.
             map_option (Commit_Command u p) (flag_field ''fail_before_commit'' v)))
         else if act = Some (lit ''verify'') \<and> only [''database_url'', ''bundle_path''] then
           Option.bind (url_field v) (\<lambda>u. map_option (Verify_Command u) (string_field ''bundle_path'' v))
         else if act = Some (lit ''backup'') \<and> only [''database_path'', ''recovery_path'', ''rotation_id'', ''database_id'']
         then four_texts Backup_Command (string_field ''database_path'' v) (string_field ''recovery_path'' v)
           (uuid_field h ''rotation_id'' v) (uuid_field h ''database_id'' v)
         else if act = Some (lit ''confirm_restore'') \<and>
           only [''database_path'', ''recovery_path'', ''rotation_id'', ''database_id'']
         then four_texts Confirm_Restore_Command (string_field ''database_path'' v) (string_field ''recovery_path'' v)
           (uuid_field h ''rotation_id'' v) (uuid_field h ''database_id'' v)
         else if act = Some (lit ''journal_seal'') \<and> only [''journal''] then
           Option.bind (obj_get (lit ''journal'') v) (\<lambda>j. map_option Seal_Journal_Command (payload_of_json h j))
         else if act = Some (lit ''journal_advance'') \<and> only [''journal'', ''phase''] then
           Option.bind (Option.bind (obj_get (lit ''journal'') v) (journal_of_json e h)) (\<lambda>j.
             map_option (Advance_Journal_Command j) (phase_field ''phase'' v))
         else if act = Some (lit ''journal_validate'') \<and> only [''journal''] then
           map_option Validate_Journal_Command (Option.bind (obj_get (lit ''journal'') v) (journal_of_json e h))
         else None)"

record rotation_world =
  world_store :: rotation_store
  world_disk :: disk
  emitted :: "json list"
  input_lines :: "bytes list"

definition counts :: "int \<Rightarrow> int \<Rightarrow> int \<Rightarrow> int \<Rightarrow> int \<Rightarrow> rotation_result" where
  "counts ub ua pc sb sa = \<lparr>user_count_before = ub, user_count_after = ua, password_count_changed = pc,
     session_count_before = sb, session_count_after = sa\<rparr>"

definition command_request :: "pystr \<Rightarrow> credential_bundle \<Rightarrow> bool \<Rightarrow> rotation_request" where
  "command_request url b failpoint =
     \<lparr>rotation_database_url = url, rotation_bundle = b, fail_before_commit = failpoint\<rparr>"

text \<open>A wrong transition of the journal is a \<open>ValueError\<close> no handler catches; a payload that fails its checks is a
  \<open>ValidationError\<close> without a location.\<close>

fun journal_answer :: "(journal_error, rotation_journal) result \<Rightarrow> command_answer rotated" where
  "journal_answer (Inr j) = Inr (Journal_Success j)"
| "journal_answer (Inl Phase_Transition_Invalid) = Inl Escaped"
| "journal_answer (Inl Validation_Error) = Inl (Invalid_Input [(lit ''value_error'', [])])"

fun run_command ::
    "env \<Rightarrow> rotation_host \<Rightarrow> rotation_command \<Rightarrow> rotation_world \<Rightarrow> rotation_world \<times> command_answer rotated" where
  "run_command e h (Inspect_Command url admin_username) w =
     (w, map_sum id (\<lambda>n. Command_Success (counts n n 0 0 0)) (inspect_credential_scope admin_username (world_store w)))"
| "run_command e h (Prepare_Command url admin_username bundle_path) w =
     (case prepare_credential_bundle h admin_username bundle_path (world_store w) (world_disk w) of
        (s, f, res) \<Rightarrow>
          (w\<lparr>world_store := s, world_disk := f\<rparr>, map_sum id (\<lambda>n. Command_Success (counts n n 0 0 0)) res))"
| "run_command e h (Commit_Command url bundle_path failpoint) w =
     (case load_credential_bundle h bundle_path (world_disk w) of
        Inl err \<Rightarrow> (w, Inl err)
      | Inr b \<Rightarrow>
          (case rotate_all_credentials e (lock_granted h) (commit_granted h) (command_request url b failpoint) (world_store w) of
             (s, res) \<Rightarrow> (w\<lparr>world_store := s\<rparr>, map_sum id Command_Success res)))"
| "run_command e h (Verify_Command url bundle_path) w =
     (w, bind_result (load_credential_bundle h bundle_path (world_disk w)) (\<lambda>b.
         map_sum id (\<lambda>v. Command_Success (counts (verified_user_count v) (verified_user_count v)
           (password_count_verified v) (verified_session_count v) (verified_session_count v)))
         (verify_rotation_state e (command_request url b False) (world_store w))))"
| "run_command e h (Backup_Command database_path recovery_path rid did) w =
     (case create_database_recovery e h (world_store w) recovery_path rid did (world_disk w) of
        (f, res) \<Rightarrow> (w\<lparr>world_disk := f\<rparr>, map_sum id (\<lambda>_. Command_Success (counts 0 0 0 0 0)) res))"
| "run_command e h (Confirm_Restore_Command database_path recovery_path rid did) w =
     (w, map_sum id (\<lambda>_. Command_Success (counts 0 0 0 0 0))
        (confirm_database_matches_recovery e h (world_store w) database_path recovery_path rid did (world_disk w)))"
| "run_command e h (Seal_Journal_Command p) w =
     (w, journal_answer (seal_rotation_journal (sha256_hex e) (unicode_digit h) p))"
| "run_command e h (Advance_Journal_Command j ph) w =
     (w, journal_answer (advance_rotation_journal (sha256_hex e) (unicode_digit h) j ph))"
| "run_command e h (Validate_Journal_Command j) w = (w, Inr (Journal_Success j))"

subsection \<open>Answers and exit codes\<close>

definition UTF8_BOM :: bytes where "UTF8_BOM = map char_of [239, 187, 191 :: nat]"

definition without_bom :: "bytes \<Rightarrow> bytes" where
  "without_bom line = (if starts_with line UTF8_BOM then drop (length UTF8_BOM) line else line)"

definition announce :: "json \<Rightarrow> rotation_world \<Rightarrow> rotation_world" where
  "announce v w = w\<lparr>emitted := emitted w @ [v]\<rparr>"

definition count_fields :: "rotation_result \<Rightarrow> (pystr \<times> json) list" where
  "count_fields r = [(lit ''user_count_before'', JInt (user_count_before r)),
     (lit ''user_count_after'', JInt (user_count_after r)),
     (lit ''password_count_changed'', JInt (password_count_changed r)),
     (lit ''session_count_before'', JInt (session_count_before r)),
     (lit ''session_count_after'', JInt (session_count_after r))]"

fun answer_json :: "command_answer \<Rightarrow> json" where
  "answer_json (Command_Success r) = JObj ((lit ''status'', JStr (lit ''ok'')) # count_fields r)"
| "answer_json (Journal_Success j) = JObj [(lit ''status'', JStr (lit ''ok'')), (lit ''journal'', journal_json j)]"

definition error_json :: "string \<Rightarrow> json" where
  "error_json code = JObj [(lit ''status'', JStr (lit ''error'')), (lit ''code'', JStr (lit code))]"

definition validation_error_code :: "(pystr \<times> pystr list) list \<Rightarrow> string" where
  "validation_error_code errors =
     (case errors of
        [] \<Rightarrow> ''invalid-input''
      | (kind, location) # _ \<Rightarrow>
          if kind = lit ''json_invalid'' then ''invalid-json''
          else if lit ''database_url'' \<in> set location then ''invalid-database-url''
          else if lit ''action'' \<in> set location then ''invalid-action''
          else ''invalid-command-shape'')"

text \<open>The handlers of \<open>rotate_credentials.main\<close>; no exit code is an exception that leaves the program.\<close>

fun command_exit :: "rotation_error \<Rightarrow> (string \<times> nat) option" where
  "command_exit (Invalid_Input errors) = Some (validation_error_code errors, 2)"
| "command_exit (Rotation_Failed c) = Some (rotation_code_value c, 3)"
| "command_exit (Recovery_Failed c) = Some (recovery_code_value c, 3)"
| "command_exit Dpapi_Failed = Some (''dpapi-failure'', 4)"
| "command_exit Storage_Failed = Some (''storage-failure'', 5)"
| "command_exit Sqlite_Failed = None"
| "command_exit Escaped = None"

fun transaction_exit :: "rotation_error \<Rightarrow> (string \<times> nat) option" where
  "transaction_exit (Invalid_Input errors) = Some (''invalid-command-shape'', 2)"
| "transaction_exit (Rotation_Failed c) = Some (rotation_code_value c, 3)"
| "transaction_exit (Recovery_Failed c) = Some (recovery_code_value c, 3)"
| "transaction_exit Dpapi_Failed = Some (''dpapi-failure'', 4)"
| "transaction_exit Storage_Failed = Some (''storage-failure'', 5)"
| "transaction_exit Sqlite_Failed = Some (''storage-failure'', 5)"
| "transaction_exit Escaped = None"

text \<open>The status an uncaught exception gives the process.\<close>

definition UNCAUGHT_EXIT :: nat where "UNCAUGHT_EXIT = 1"

definition conclude ::
    "(rotation_error \<Rightarrow> (string \<times> nat) option) \<Rightarrow> rotation_world \<times> json option rotated \<Rightarrow> rotation_world \<times> nat" where
  "conclude exit_of r =
     (case r of
        (w, Inl err) \<Rightarrow>
          (case exit_of err of
             None \<Rightarrow> (w, UNCAUGHT_EXIT) | Some (code, status) \<Rightarrow> (announce (error_json code) w, status))
      | (w, Inr None) \<Rightarrow> (w, 0)
      | (w, Inr (Some v)) \<Rightarrow> (announce v w, 0))"

definition rotate_main :: "env \<Rightarrow> rotation_host \<Rightarrow> rotation_world \<Rightarrow> rotation_world \<times> nat" where
  "rotate_main e h w =
     (let raw = without_bom (concat (input_lines w)); w1 = w\<lparr>input_lines := []\<rparr>
      in conclude command_exit
           (case Option.bind (parse_json h raw) (command_of_json e h) of
              None \<Rightarrow> (w1, Inl (Invalid_Input (reported_errors h raw)))
            | Some c \<Rightarrow> (case run_command e h c w1 of (w2, res) \<Rightarrow> (w2, map_sum id (Some \<circ> answer_json) res))))"

subsection \<open>The dialogue\<close>

record begin_transaction =
  tx_database_url :: pystr
  tx_bundle_path :: pystr
  tx_recovery_path :: pystr
  tx_recovery_sha256 :: "pystr option"
  tx_reuse_recovery :: bool
  tx_fail_before_commit :: bool

record begin_restore_guard =
  guard_database_path :: pystr
  guard_recovery_path :: pystr
  guard_rotation_id :: pystr
  guard_database_id :: pystr
  guard_recovery_sha256 :: pystr

datatype begin_command = Begin_Transaction begin_transaction | Begin_Restore_Guard begin_restore_guard

definition sha_default_field :: "string \<Rightarrow> json \<Rightarrow> pystr option option" where
  "sha_default_field k v =
     (case obj_get (lit k) v of
        None \<Rightarrow> Some None
      | Some JNull \<Rightarrow> Some None
      | Some (JStr s) \<Rightarrow> if hex64_pattern s then Some (Some s) else None
      | _ \<Rightarrow> None)"

definition begin_of_json :: "rotation_host \<Rightarrow> json \<Rightarrow> begin_command option" where
  "begin_of_json h v =
     (let act = string_field ''action'' v
      in if act = Some (lit ''begin'') \<and>
           keys_within [''action'', ''database_url'', ''bundle_path'', ''recovery_path'', ''recovery_sha256'', ''reuse_recovery'',
             ''fail_before_commit''] v
         then
           Option.bind (url_field v) (\<lambda>u. Option.bind (string_field ''bundle_path'' v) (\<lambda>b.
           Option.bind (string_field ''recovery_path'' v) (\<lambda>p. Option.bind (sha_default_field ''recovery_sha256'' v) (\<lambda>sha.
           Option.bind (flag_field ''reuse_recovery'' v) (\<lambda>reuse. Option.bind (flag_field ''fail_before_commit'' v) (\<lambda>fp.
             Some (Begin_Transaction \<lparr>tx_database_url = u, tx_bundle_path = b, tx_recovery_path = p,
               tx_recovery_sha256 = sha, tx_reuse_recovery = reuse, tx_fail_before_commit = fp\<rparr>)))))))
         else if act = Some (lit ''begin_restore_guard'') \<and>
           keys_within [''action'', ''database_path'', ''recovery_path'', ''rotation_id'', ''database_id'', ''recovery_sha256''] v
         then
           Option.bind (string_field ''recovery_sha256'' v) (\<lambda>sha.
             if hex64_pattern sha
             then four_texts (\<lambda>d p r i. Begin_Restore_Guard \<lparr>guard_database_path = d, guard_recovery_path = p,
                 guard_rotation_id = r, guard_database_id = i, guard_recovery_sha256 = sha\<rparr>)
               (string_field ''database_path'' v) (string_field ''recovery_path'' v) (uuid_field h ''rotation_id'' v)
               (uuid_field h ''database_id'' v)
             else None)
         else None)"

definition read_frame :: "rotation_world \<Rightarrow> bytes \<times> rotation_world" where
  "read_frame w =
     (case input_lines w of
        [] \<Rightarrow> ([], w)
      | line # rest \<Rightarrow> (without_bom line, w\<lparr>input_lines := rest\<rparr>))"

definition is_decision :: "rotation_host \<Rightarrow> string \<Rightarrow> bytes \<Rightarrow> bool" where
  "is_decision h act frame =
     (case parse_json h frame of
        None \<Rightarrow> False
      | Some v \<Rightarrow> keys_within [''action''] v \<and> obj_get (lit ''action'') v = Some (JStr (lit act)))"

definition bound_error :: "bool \<Rightarrow> string \<Rightarrow> string \<Rightarrow> (pystr \<times> pystr list) list" where
  "bound_error ok kind field = (if ok then [] else [(lit kind, [lit field])])"

definition ready_errors :: "pystr \<Rightarrow> int \<Rightarrow> int \<Rightarrow> (pystr \<times> pystr list) list" where
  "ready_errors sha n sessions =
     bound_error (hex64_pattern sha) ''string_pattern_mismatch'' ''recovery_sha256'' @
     bound_error (0 < n) ''greater_than'' ''user_count_before'' @
     bound_error (0 \<le> sessions) ''greater_than_equal'' ''session_count_before''"

definition ready_json :: "pystr \<Rightarrow> int \<Rightarrow> int \<Rightarrow> json" where
  "ready_json sha n sessions = JObj [(lit ''status'', JStr (lit ''ready'')), (lit ''recovery_sha256'', JStr sha),
     (lit ''user_count_before'', JInt n), (lit ''session_count_before'', JInt sessions)]"

definition already_errors :: "rotation_result \<Rightarrow> (pystr \<times> pystr list) list" where
  "already_errors r =
     bound_error (0 < user_count_before r) ''greater_than'' ''user_count_before'' @
     bound_error (0 < user_count_after r) ''greater_than'' ''user_count_after'' @
     bound_error (0 < password_count_changed r) ''greater_than'' ''password_count_changed'' @
     bound_error (0 \<le> session_count_before r) ''greater_than_equal'' ''session_count_before'' @
     bound_error (0 \<le> session_count_after r) ''greater_than_equal'' ''session_count_after''"

definition already_json :: "rotation_result \<Rightarrow> json" where
  "already_json r = JObj ((lit ''status'', JStr (lit ''already_committed'')) # count_fields r)"

text \<open>The rotation is in the ledger: the artifact of that time must still be there.\<close>

definition resume_committed ::
    "env \<Rightarrow> rotation_host \<Rightarrow> begin_transaction \<Rightarrow> credential_bundle \<Rightarrow> rotation_result \<Rightarrow> rotation_world \<Rightarrow>
       rotation_world \<times> rotation_result option rotated" where
  "resume_committed e h c b existing w =
     (case (tx_reuse_recovery c, tx_recovery_sha256 c) of
        (True, Some sha) \<Rightarrow>
          (case validate_pre_rotation_recovery e h (tx_recovery_path c) (bundle_rotation_id b) (bundle_database_id b) sha
                  (world_disk w) of
             Inl err \<Rightarrow> (w, Inl err)
           | Inr _ \<Rightarrow>
               if already_errors existing \<noteq> [] then (w, Inl (Invalid_Input (already_errors existing)))
               else (announce (already_json existing) w, Inr None))
      | _ \<Rightarrow> (w, Inl (Recovery_Failed ARTIFACT_INVALID)))"

text \<open>The artifact of the state before: a file that is there is compared with the database, or a new one is written.\<close>

definition secure_recovery ::
    "env \<Rightarrow> rotation_host \<Rightarrow> begin_transaction \<Rightarrow> credential_bundle \<Rightarrow> rotation_store \<Rightarrow> disk \<Rightarrow> disk \<times> pystr rotated" where
  "secure_recovery e h c b s f =
     (if tx_reuse_recovery c then
        (case tx_recovery_sha256 c of
           None \<Rightarrow> (f, Inl (Recovery_Failed ARTIFACT_INVALID))
         | Some sha \<Rightarrow>
             (f, map_sum id (\<lambda>_. sha) (confirm_connection_matches_recovery e h s (tx_recovery_path c)
               (bundle_rotation_id b) (bundle_database_id b) sha f)))
      else if tx_recovery_sha256 c \<noteq> None then (f, Inl (Recovery_Failed ARTIFACT_INVALID))
      else create_database_recovery_from_connection e h s (tx_recovery_path c) (bundle_rotation_id b)
        (bundle_database_id b) f)"

definition decide_and_rotate ::
    "env \<Rightarrow> rotation_host \<Rightarrow> rotation_request \<Rightarrow> rotation_world \<Rightarrow> rotation_world \<times> rotation_result option rotated" where
  "decide_and_rotate e h r w =
     (case read_frame w of
        (frame, w1) \<Rightarrow>
          if \<not> is_decision h ''commit'' frame then (w1, Inl (Invalid_Input (reported_errors h frame)))
          else
            case rotate_in_transaction e r (world_store w1) of
              Inl err \<Rightarrow> (w1, Inl err)
            | Inr (s, result) \<Rightarrow>
                if commit_granted h then (w1\<lparr>world_store := s\<rparr>, Inr (Some result)) else (w1, Inl Storage_Failed))"

definition rotate_with_recovery ::
    "env \<Rightarrow> rotation_host \<Rightarrow> begin_transaction \<Rightarrow> rotation_request \<Rightarrow> rotation_world \<Rightarrow>
       rotation_world \<times> rotation_result option rotated" where
  "rotate_with_recovery e h c r w =
     (case validate_rotation_transaction r (world_store w) of
        Inl err \<Rightarrow> (w, Inl err)
      | Inr (n, sessions) \<Rightarrow>
          (case secure_recovery e h c (rotation_bundle r) (world_store w) (world_disk w) of
             (f, Inl err) \<Rightarrow> (w\<lparr>world_disk := f\<rparr>, Inl err)
           | (f, Inr sha) \<Rightarrow>
               if ready_errors sha n sessions \<noteq> []
               then (w\<lparr>world_disk := f\<rparr>, Inl (Invalid_Input (ready_errors sha n sessions)))
               else decide_and_rotate e h r (announce (ready_json sha n sessions) (w\<lparr>world_disk := f\<rparr>))))"

definition run_transaction ::
    "env \<Rightarrow> rotation_host \<Rightarrow> begin_transaction \<Rightarrow> rotation_world \<Rightarrow> rotation_world \<times> rotation_result option rotated" where
  "run_transaction e h c w =
     (case load_credential_bundle h (tx_bundle_path c) (world_disk w) of
        Inl err \<Rightarrow> (w, Inl err)
      | Inr b \<Rightarrow>
          let r = command_request (tx_database_url c) b (tx_fail_before_commit c)
          in if \<not> lock_granted h then (w, Inl Storage_Failed)
             else if \<not> sqlite_driver h then (w, Inl (Recovery_Failed DRIVER_INVALID))
             else
               case find_existing_rotation_result e r (world_store w) of
                 Inl err \<Rightarrow> (w, Inl err)
               | Inr (Some existing) \<Rightarrow> resume_committed e h c b existing w
               | Inr None \<Rightarrow> rotate_with_recovery e h c r w)"

text \<open>The guard of a restore changes nothing: its transaction is rolled back.\<close>

definition run_restore_guard ::
    "env \<Rightarrow> rotation_host \<Rightarrow> begin_restore_guard \<Rightarrow> rotation_world \<Rightarrow> rotation_world \<times> unit rotated" where
  "run_restore_guard e h g w =
     (if \<not> lock_granted h then (w, Inl Sqlite_Failed)
      else
        case confirm_connection_matches_recovery e h (world_store w) (guard_recovery_path g) (guard_rotation_id g)
               (guard_database_id g) (guard_recovery_sha256 g) (world_disk w) of
          Inl err \<Rightarrow> (w, Inl err)
        | Inr _ \<Rightarrow>
            (case read_frame (announce (JObj [(lit ''status'', JStr (lit ''restore_guard_ready''))]) w) of
               (frame, w1) \<Rightarrow>
                 if is_decision h ''archive_complete'' frame then (w1, Inr ())
                 else (w1, Inl (Invalid_Input (reported_errors h frame)))))"

definition transaction_main :: "env \<Rightarrow> rotation_host \<Rightarrow> rotation_world \<Rightarrow> rotation_world \<times> nat" where
  "transaction_main e h w =
     (case read_frame w of
        (frame, w1) \<Rightarrow>
          conclude transaction_exit
            (case Option.bind (parse_json h frame) (begin_of_json h) of
               None \<Rightarrow> (w1, Inl (Invalid_Input (reported_errors h frame)))
             | Some (Begin_Transaction c) \<Rightarrow>
                 (case run_transaction e h c w1 of
                    (w2, res) \<Rightarrow> (w2, map_sum id (map_option (answer_json \<circ> Command_Success)) res))
             | Some (Begin_Restore_Guard g) \<Rightarrow>
                 (case run_restore_guard e h g w1 of
                    (w2, res) \<Rightarrow>
                      (w2, map_sum id (\<lambda>_. Some (JObj [(lit ''status'', JStr (lit ''archive_complete''))])) res))))"

end
