(* ===== verification/Rotation_Properties.thy ===== *)
theory Rotation_Properties
  imports Rotation_Commands "HOL-Library.Multiset"
begin

text \<open>
  What a rotation does to the database: the exact outcome of the transaction, the repetition of a rotation, the
  single use of credential material, and the end of every session that existed before.
\<close>

subsection \<open>The specification\<close>

definition distinct_ids :: "rotation_store \<Rightarrow> bool" where
  "distinct_ids s \<longleftrightarrow> distinct (map user_id (users (accounts s)))"

definition rotated_user :: "env \<Rightarrow> credential_bundle \<Rightarrow> user \<Rightarrow> user" where
  "rotated_user e b u =
     (case credential_by_username b (username u) of
        None \<Rightarrow> u
      | Some c \<Rightarrow>
          (case make_hash e (credential_password c) of
             Inl _ \<Rightarrow> u
           | Inr h \<Rightarrow> u\<lparr>password_hash := h, password_changed_at := Some (utc (now e)),
               session_version := session_version u + 1\<rparr>))"

text \<open>The account has a new password that cannot be hashed.\<close>

definition unhashable :: "env \<Rightarrow> credential_bundle \<Rightarrow> user \<Rightarrow> bool" where
  "unhashable e b u \<longleftrightarrow>
     (case credential_by_username b (username u) of
        None \<Rightarrow> False | Some c \<Rightarrow> \<not> is_ok (make_hash e (credential_password c)))"

definition new_counts :: "rotation_store \<Rightarrow> rotation_result" where
  "new_counts s = (let n = int (length (users (accounts s))) in counts n n n (session_count s) 0)"

definition rotation_row :: "env \<Rightarrow> credential_bundle \<Rightarrow> rotation_store \<Rightarrow> ledger_row" where
  "rotation_row e b s =
     (let us = users_by_id s; us' = map (rotated_user e b) us
      in \<lparr>row_rotation_id = bundle_rotation_id b, row_database_id = bundle_database_id b,
          row_material_fingerprint = material_fingerprint e b, row_user_set_fingerprint = user_set_fingerprint e us',
          row_pre_state_fingerprint = state_fingerprint e us (session_count s),
          row_post_state_fingerprint = state_fingerprint e us' 0, row_result = new_counts s\<rparr>)"

text \<open>Every account has its new password, every session is gone, one row and one event are added.\<close>

definition rotated_store :: "env \<Rightarrow> credential_bundle \<Rightarrow> rotation_store \<Rightarrow> rotation_store" where
  "rotated_store e b s =
     (let d = accounts s
      in \<lparr>accounts = d\<lparr>users := map (rotated_user e b) (users d), session_activities := [],
            audit_events := audit_events d @ [rotation_event (bundle_rotation_id b) (new_counts s) d]\<rparr>,
          database_identity = Some (bundle_database_id b), ledger = ledger s @ [rotation_row e b s]\<rparr>)"

definition scope_refusal :: "user list \<Rightarrow> credential_bundle \<Rightarrow> rotation_code option" where
  "scope_refusal us b =
     (let names = map credential_username (bundle_users b);
          admins = filter (\<lambda>u. username u = bundle_admin_username b) us
      in if us = [] then Some EMPTY_USER_SET
         else if \<not> distinct names then Some DUPLICATE_USERNAME
         else if \<not> distinct (map credential_password (bundle_users b)) then Some DUPLICATE_PASSWORD
         else if length us \<noteq> length names then Some CREDENTIAL_COUNT_MISMATCH
         else if username ` set us \<noteq> set names then Some CREDENTIAL_IDENTITY_MISMATCH
         else if admins = [] then Some ADMIN_NOT_FOUND
         else if role (hd admins) \<noteq> lit ''admin'' then Some ADMIN_ROLE_REQUIRED
         else if \<not> is_active (hd admins) then Some ADMIN_ACTIVE_REQUIRED
         else None)"

definition rotation_refusal :: "env \<Rightarrow> rotation_request \<Rightarrow> rotation_store \<Rightarrow> rotation_error option" where
  "rotation_refusal e r s =
     (let b = rotation_bundle r; us = users_by_id s
      in if material_fingerprint e b \<in> row_material_fingerprint ` set (ledger s)
         then Some (Rotation_Failed CREDENTIAL_MATERIAL_REUSED)
         else if database_identity s \<notin> {None, Some (bundle_database_id b)}
         then Some (Rotation_Failed DATABASE_IDENTITY_MISMATCH)
         else if scope_refusal us b \<noteq> None then map_option Rotation_Failed (scope_refusal us b)
         else if list_ex (unhashable e b) us then Some Escaped
         else if list_ex (\<lambda>u. password_hash (rotated_user e b u) = password_hash u) us
         then Some (Rotation_Failed INVARIANT_VIOLATION)
         else if fail_before_commit r then Some (Rotation_Failed TEST_FAILPOINT)
         else None)"

subsection \<open>Steps of the transaction\<close>

lemma users_by_id_set [simp]: "set (users_by_id s) = set (users (accounts s))"
  by (simp add: users_by_id_def)

lemma users_by_id_length [simp]: "length (users_by_id s) = length (users (accounts s))"
  by (simp add: users_by_id_def)

lemma users_by_id_distinct: "distinct_ids s \<Longrightarrow> distinct (map user_id (users_by_id s))"
  unfolding distinct_ids_def users_by_id_def by (simp add: distinct_map)

lemma remdups_length: "length (remdups xs) = length xs \<longleftrightarrow> distinct xs"
  using card_distinct distinct_card by (metis length_remdups_card_conv)

lemma remdups_map_length: "length (remdups (map f xs)) = length xs \<longleftrightarrow> distinct (map f xs)"
  using remdups_length [of "map f xs"] by simp

lemma find_filter: "find P xs = (case filter P xs of [] \<Rightarrow> None | y # ys \<Rightarrow> Some y)"
  by (induction xs) auto

lemma validate_active_admin_eq:
  "validate_active_admin us name =
    (let admins = filter (\<lambda>u. username u = name) us
     in if admins = [] then Inl (Rotation_Failed ADMIN_NOT_FOUND)
        else if role (hd admins) \<noteq> lit ''admin'' then Inl (Rotation_Failed ADMIN_ROLE_REQUIRED)
        else if \<not> is_active (hd admins) then Inl (Rotation_Failed ADMIN_ACTIVE_REQUIRED)
        else Inr ())"
proof (cases "filter (\<lambda>u. username u = name) us")
  case (Cons v vs)
  then have "v \<in> set us" by (metis filter_is_subset list.set_intros(1) subsetD)
  with Cons show ?thesis by (auto simp: validate_active_admin_def find_filter list_ex_iff Let_def)
qed (simp add: validate_active_admin_def find_filter)

lemma validate_rotation_scope_eq:
  "validate_rotation_scope us b =
    (case scope_refusal us b of None \<Rightarrow> Inr () | Some c \<Rightarrow> Inl (Rotation_Failed c))"
  by (simp add: validate_rotation_scope_def scope_refusal_def validate_active_admin_eq remdups_map_length Let_def)

lemma credential_found:
  assumes "scope_refusal us b = None" "u \<in> set us"
  shows "\<exists>c \<in> set (bundle_users b). credential_by_username b (username u) = Some c \<and> credential_username c = username u"
proof -
  have "username u \<in> credential_username ` set (bundle_users b)" and d: "distinct (map credential_username (bundle_users b))"
    using assms by (auto simp: scope_refusal_def Let_def split: if_splits)
  then obtain c where c: "c \<in> set (bundle_users b)" "credential_username c = username u" by force
  have "map fst (rev (map (\<lambda>c. (credential_username c, c)) (bundle_users b))) = rev (map credential_username (bundle_users b))"
    by (simp add: rev_map [symmetric] comp_def)
  then have "credential_by_username b (username u) = Some c"
    unfolding credential_by_username_def using c d by (intro map_of_is_SomeI) (auto simp del: map_map simp: rev_image_eqI)
  with c show ?thesis by blast
qed

lemma rotate_users_eq:
  assumes "scope_refusal us b = None"
  shows "map_result (rotate_user e b) us =
    (if list_ex (unhashable e b) us then Inl Escaped else Inr (map (rotated_user e b) us))"
proof -
  have "rotate_user e b u = (if unhashable e b u then Inl Escaped else Inr (rotated_user e b u))" if "u \<in> set us" for u
  proof -
    from credential_found [OF assms that] obtain c where "credential_by_username b (username u) = Some c" by blast
    then show ?thesis
      by (cases "make_hash e (credential_password c)")
        (simp_all add: rotate_user_def rotated_user_def unhashable_def hash_password_def)
  qed
  then have "set vs \<subseteq> set us \<Longrightarrow> map_result (rotate_user e b) vs =
      (if list_ex (unhashable e b) vs then Inl Escaped else Inr (map (rotated_user e b) vs))" for vs
    by (induction vs) auto
  then show ?thesis by simp
qed

lemma rotated_user_id [simp]: "user_id (rotated_user e b u) = user_id u"
  "username (rotated_user e b u) = username u" "role (rotated_user e b u) = role u"
  "is_active (rotated_user e b u) = is_active u" "email (rotated_user e b u) = email u"
  by (simp_all add: rotated_user_def split: option.splits sum.splits)

lemma authorization_state_get:
  assumes "distinct (map user_id us)" "u \<in> set us"
  shows "authorization_state us (user_id u) = Some (role u, is_active u, session_version u, password_hash u)"
proof -
  have "map fst (rev (map (\<lambda>u. (user_id u, (role u, is_active u, session_version u, password_hash u))) us)) =
      rev (map user_id us)" by (simp add: rev_map [symmetric] comp_def)
  then show ?thesis unfolding authorization_state_def using assms
    by (intro map_of_is_SomeI) (auto simp del: map_map simp: rev_image_eqI)
qed

lemma verify_authorization_eq:
  assumes "distinct (map user_id us)" "scope_refusal us b = None" "\<not> list_ex (unhashable e b) us"
  shows "verify_authorization_state (map (rotated_user e b) us) (authorization_state us) =
    (if list_ex (\<lambda>u. password_hash (rotated_user e b u) = password_hash u) us
     then Inl (Rotation_Failed INVARIANT_VIOLATION) else Inr ())"
proof -
  define step where "step = (\<lambda>u :: user. case authorization_state us (user_id u) of
      None \<Rightarrow> Inl Escaped
    | Some (r, act, ver, h) \<Rightarrow>
        if (role u, is_active u, session_version u) \<noteq> (r, act, ver + 1) then Inl (Rotation_Failed INVARIANT_VIOLATION)
        else if password_hash u = h \<or> password_changed_at u = None then Inl (Rotation_Failed INVARIANT_VIOLATION)
        else Inr ())"
  have one: "step (rotated_user e b u) =
      (if password_hash (rotated_user e b u) = password_hash u then Inl (Rotation_Failed INVARIANT_VIOLATION) else Inr ())"
    if "u \<in> set us" for u
  proof -
    from credential_found [OF assms(2) that] obtain c where c: "credential_by_username b (username u) = Some c" by blast
    moreover have "\<not> unhashable e b u" using assms(3) that by (auto simp: list_ex_iff)
    ultimately obtain h where "make_hash e (credential_password c) = Inr h" by (auto simp: unhashable_def is_ok_iff)
    with c authorization_state_get [OF assms(1) that] show ?thesis by (simp add: step_def rotated_user_def)
  qed
  have "set vs \<subseteq> set us \<Longrightarrow> for_each step (map (rotated_user e b) vs) =
      (if list_ex (\<lambda>u. password_hash (rotated_user e b u) = password_hash u) vs
       then Inl (Rotation_Failed INVARIANT_VIOLATION) else Inr ())" for vs
    by (induction vs) (auto simp: one)
  then show ?thesis by (simp add: verify_authorization_state_def step_def [symmetric])
qed

text \<open>Writing rows back by their identifiers replaces each row by the last one written for it.\<close>

lemma write_rows:
  "users (fold (\<lambda>u. change_user (user_id u) (\<lambda>_. u)) ws d) =
    map (\<lambda>v. case find_row user_id (user_id v) (rev ws) of None \<Rightarrow> v | Some w \<Rightarrow> w) (users d)"
proof (induction ws arbitrary: d)
  case (Cons w ws)
  have "(case find_row user_id (user_id (if user_id v = user_id w then w else v)) (rev ws) of
        None \<Rightarrow> if user_id v = user_id w then w else v | Some w \<Rightarrow> w) =
      (case find_row user_id (user_id v) (rev ws @ [w]) of None \<Rightarrow> v | Some w \<Rightarrow> w)" for v
    by (auto simp: find_row_append split: option.splits)
  moreover have "users (change_user (user_id w) (\<lambda>_. w) d) =
      map (\<lambda>v. if user_id v = user_id w then w else v) (users d)" by (simp add: change_user_def change_row_def)
  ultimately show ?case by (simp add: Cons)
qed simp

lemma write_rows_rest:
  "fold (\<lambda>u. change_user (user_id u) (\<lambda>_. u)) ws d =
    d\<lparr>users := users (fold (\<lambda>u. change_user (user_id u) (\<lambda>_. u)) ws d)\<rparr>"
proof (induction ws arbitrary: d)
  case (Cons w ws)
  show ?case by (simp, subst Cons, simp add: change_user_def)
qed simp

lemma write_users_eq:
  assumes "distinct_ids s"
  shows "write_users (map (rotated_user e b) (users_by_id s)) s =
    s\<lparr>accounts := (accounts s)\<lparr>users := map (rotated_user e b) (users (accounts s)), session_activities := []\<rparr>\<rparr>"
proof -
  let ?ws = "map (rotated_user e b) (users_by_id s)"
  have "find_row user_id (user_id v) (rev ?ws) = Some (rotated_user e b v)" if "v \<in> set (users (accounts s))" for v
  proof -
    have "distinct (map user_id (rev ?ws))" using users_by_id_distinct [OF assms] by (simp add: rev_map [symmetric] comp_def)
    from find_row_distinct [OF this, of "rotated_user e b v"] that show ?thesis by simp
  qed
  then have "users (fold (\<lambda>u. change_user (user_id u) (\<lambda>_. u)) ?ws (accounts s)) =
      map (rotated_user e b) (users (accounts s))"
    by (simp add: write_rows)
  then show ?thesis unfolding write_users_def by (subst write_rows_rest) simp
qed

lemma rotate_in_transaction_eq:
  assumes "distinct_ids s" "find_ledger (bundle_rotation_id (rotation_bundle r)) s = None"
  shows "rotate_in_transaction e r s =
    (case rotation_refusal e r s of
       Some err \<Rightarrow> Inl err
     | None \<Rightarrow> Inr (rotated_store e (rotation_bundle r) s, new_counts s))"
proof -
  define b where "b = rotation_bundle r"
  define us where "us = users_by_id s"
  have d: "distinct (map user_id us)" using users_by_id_distinct [OF assms(1)] by (simp add: us_def)
  have reused: "list_ex (\<lambda>row. row_material_fingerprint row = material_fingerprint e b) (ledger s) \<longleftrightarrow>
      material_fingerprint e b \<in> row_material_fingerprint ` set (ledger s)" by (force simp: list_ex_iff)
  show ?thesis
  proof (cases "material_fingerprint e b \<in> row_material_fingerprint ` set (ledger s) \<or>
      database_identity s \<notin> {None, Some (bundle_database_id b)}")
    case True
    then show ?thesis using assms(2) reused
      by (auto simp: rotate_in_transaction_def rotation_refusal_def database_state_def b_def [symmetric] Let_def
        split: option.splits)
  next
    case False
    define s1 where "s1 = s\<lparr>database_identity := Some (bundle_database_id b)\<rparr>"
    have state: "database_state b s = Inr s1"
      using False by (auto simp: database_state_def s1_def split: option.splits)
    have us1: "us = users_by_id s1" "distinct_ids s1" "ledger s1 = ledger s" "accounts s1 = accounts s"
      using assms(1) by (simp_all add: us_def s1_def users_by_id_def distinct_ids_def)
    have main: "rotate_in_transaction e r s = apply_rotation e r us (session_count s) (material_fingerprint e b) s1"
      using assms(2) False reused state by (simp add: rotate_in_transaction_def b_def [symmetric] us_def Let_def)
    have n: "length us = length (users (accounts s))" by (simp add: us_def)
    show ?thesis
    proof (cases "scope_refusal us b")
      case (Some c)
      then show ?thesis using False unfolding main
        by (simp add: apply_rotation_def rotation_refusal_def validate_rotation_scope_eq b_def [symmetric] us_def [symmetric] Let_def)
    next
      case None
      have fresh: "\<not> list_ex (\<lambda>r. row_database_id r = bundle_database_id b \<and>
          row_material_fingerprint r = material_fingerprint e b) (ledger s1)"
        using False by (auto simp: list_ex_iff us1 image_iff)
      have "find_ledger (bundle_rotation_id b) s1 = None" using assms(2) by (simp add: find_ledger_def us1 b_def)
      then have ins: "insert_ledger (rotation_row e b s) (write_users (map (rotated_user e b) us) s1) =
          Inr (s1\<lparr>accounts := (accounts s)\<lparr>users := map (rotated_user e b) (users (accounts s)), session_activities := []\<rparr>,
            ledger := ledger s @ [rotation_row e b s]\<rparr>)"
        using fresh unfolding us1(1)
        by (simp add: write_users_eq [OF us1(2)] insert_ledger_def rotation_row_def ledger_checks_def new_counts_def
          counts_def find_ledger_def us1(3, 4) Let_def)
      have row: "\<lparr>row_rotation_id = bundle_rotation_id b, row_database_id = bundle_database_id b,
          row_material_fingerprint = material_fingerprint e b,
          row_user_set_fingerprint = user_set_fingerprint e (map (rotated_user e b) us),
          row_pre_state_fingerprint = state_fingerprint e us (session_count s),
          row_post_state_fingerprint = state_fingerprint e (map (rotated_user e b) us) 0, row_result = new_counts s\<rparr> =
          rotation_row e b s" by (simp add: rotation_row_def us_def Let_def)
      have res: "\<lparr>user_count_before = int (length us), user_count_after = int (length us),
          password_count_changed = int (length us), session_count_before = session_count s, session_count_after = 0\<rparr> =
          new_counts s" by (simp add: new_counts_def counts_def n Let_def)
      have recorded: "record_rotation e b (new_counts s) (material_fingerprint e b) (state_fingerprint e us (session_count s))
          (state_fingerprint e (map (rotated_user e b) us) 0) (map (rotated_user e b) us)
          (write_users (map (rotated_user e b) us) s1) = Inr (rotated_store e b s)"
        unfolding record_rotation_def row ins
        by (simp add: rotated_store_def s1_def rotation_event_def Let_def)
      show ?thesis using None False unfolding main
        by (auto simp: apply_rotation_def rotation_refusal_def validate_rotation_scope_eq b_def [symmetric]
          us_def [symmetric] Let_def rotate_users_eq verify_authorization_eq [OF d, of b e] res recorded)
    qed
  qed
qed

subsection \<open>A small database\<close>

definition small_env :: env where
  "small_env = \<lparr>identify_scheme = (\<lambda>h. Some []), verify_hash = (\<lambda>p h. if length p \<le> 4096 then Some (h = 35 # p) else None),
     make_hash = (\<lambda>p. if length p \<le> 4096 then Inr (35 # p) else Inl (msg ''password exceeds maximum allowed size'')),
     sha256_hex = (\<lambda>b. replicate 64 (48 + length b mod 10)), jwt_encode = (\<lambda>p k. lit ''T''),
     jwt_decode = (\<lambda>t k. if t = lit ''T'' then Some (JObj [(lit ''sub'', JStr (lit ''1'')), (lit ''ver'', JInt 0)]) else None),
     random_token = lit ''C'', float_micros = (\<lambda>t. 0), now = 1700000000000000,
     jwt_secret_key = lit ''K'', access_token_ttl_minutes = 60, admin_session_cookie_name = lit ''s'',
     csrf_cookie_name = lit ''c'', secure_cookies = True, session_activity_debounce_seconds = 60,
     connected_user_retention_days = 30\<rparr>"

definition small_admin :: user where
  "small_admin = \<lparr>user_id = 1, username = lit ''root'', email = None, display_name = None,
     password_hash = lit ''old'', role = lit ''admin'', is_active = True, session_version = 0,
     password_changed_at = None, last_login_at = None\<rparr>"

definition small_store :: rotation_store where
  "small_store = \<lparr>accounts = \<lparr>users = [small_admin], groups = [], user_groups = [], user_permissions = [],
       group_permissions = [], resource_grants = [], service_modules = [], audit_events = [], login_events = [],
       session_activities = []\<rparr>, database_identity = Some (lit ''D''), ledger = []\<rparr>"

definition small_bundle :: credential_bundle where
  "small_bundle = \<lparr>bundle_rotation_id = lit ''R'', bundle_database_id = lit ''D'', bundle_admin_username = lit ''root'',
     bundle_jwt_secret_key = replicate 32 75,
     bundle_users = [\<lparr>credential_username = lit ''root'', credential_password = replicate 24 80\<rparr>]\<rparr>"

definition small_rotation :: rotation_request where
  "small_rotation = command_request (lit ''sqlite:///x'') small_bundle False"

lemma small_ids: "distinct_ids small_store" "find_ledger (bundle_rotation_id (rotation_bundle small_rotation)) small_store = None"
  by (simp_all add: distinct_ids_def small_store_def find_ledger_def)

lemma small_refusal: "rotation_refusal small_env small_rotation small_store = None"
  by (simp add: rotation_refusal_def scope_refusal_def rotated_user_def unhashable_def credential_by_username_def users_by_id_def
    small_store_def small_rotation_def command_request_def small_bundle_def small_admin_def small_env_def lit_def Let_def)

lemma small_counts: "new_counts small_store = counts 1 1 1 0 0"
  by (simp add: new_counts_def small_store_def session_count_def)

subsection \<open>The outcome\<close>

lemma rotate_all_eq:
  assumes "distinct_ids s" "find_ledger (bundle_rotation_id (rotation_bundle r)) s = None"
  shows "rotate_all_credentials e lock commit r s =
    (if \<not> lock then (s, Inl Storage_Failed)
     else case rotation_refusal e r s of
            Some err \<Rightarrow> (s, Inl err)
          | None \<Rightarrow> if commit then (rotated_store e (rotation_bundle r) s, Inr (new_counts s)) else (s, Inl Storage_Failed))"
  using rotate_in_transaction_eq [OF assms, of e]
  by (simp add: rotate_all_credentials_def in_transaction_def split: option.splits)

lemma small_rotated:
  "rotate_all_credentials small_env True True small_rotation small_store =
    (rotated_store small_env small_bundle small_store, Inr (counts 1 1 1 0 0))"
  using rotate_all_eq [OF small_ids, of small_env True True]
  by (simp add: small_refusal small_counts) (simp add: small_rotation_def command_request_def)

text \<open>
  C7 [rotation_exact]: a rotation whose identifier is not in the ledger either leaves the database as it was, with the
  first of the refusals that applies (material used before, another database, the scope of the bundle, a password the
  hash function refuses, which is an uncaught exception, a hash that did not change, the test failpoint), or gives every account its new password, date and session version, ends
  every session, and adds one row to the ledger and one event to the audit trail, and changes nothing else.
\<close>

theorem rotation_exact:
  assumes "distinct_ids s" "find_ledger (bundle_rotation_id (rotation_bundle r)) s = None"
  shows "rotate_all_credentials e lock commit r s =
    (if \<not> lock then (s, Inl Storage_Failed)
     else case rotation_refusal e r s of
            Some err \<Rightarrow> (s, Inl err)
          | None \<Rightarrow> if commit then (rotated_store e (rotation_bundle r) s, Inr (new_counts s)) else (s, Inl Storage_Failed))"
  by (rule rotate_all_eq [OF assms])

text \<open>A bundle whose password is longer than the hash function takes, which its checks let through.\<close>

definition long_bundle :: credential_bundle where
  "long_bundle = small_bundle\<lparr>bundle_users := [\<lparr>credential_username = lit ''root'', credential_password = replicate 5000 80\<rparr>]\<rparr>"

definition long_rotation :: rotation_request where
  "long_rotation = command_request (lit ''sqlite:///x'') long_bundle False"

lemma long_refusal: "bundle_ok long_bundle" "rotation_refusal small_env long_rotation small_store = Some Escaped"
  by (simp add: bundle_ok_def credential_ok_def long_bundle_def small_bundle_def)
    (simp add: rotation_refusal_def scope_refusal_def unhashable_def credential_by_username_def users_by_id_def
      small_store_def long_rotation_def command_request_def long_bundle_def small_bundle_def small_admin_def small_env_def
      lit_def Let_def)

lemma rotation_exact_witness:
  "rotate_all_credentials small_env True True small_rotation small_store =
    (rotated_store small_env small_bundle small_store, Inr (counts 1 1 1 0 0)) \<and>
   rotate_all_credentials small_env True True long_rotation small_store = (small_store, Inl Escaped)"
proof
  show "rotate_all_credentials small_env True True small_rotation small_store =
    (rotated_store small_env small_bundle small_store, Inr (counts 1 1 1 0 0))"
    using rotation_exact [OF small_ids, of small_env True True]
    by (simp add: small_refusal small_counts) (simp add: small_rotation_def command_request_def)
  have "find_ledger (bundle_rotation_id (rotation_bundle long_rotation)) small_store = None"
    by (simp add: small_store_def find_ledger_def)
  from rotation_exact [OF small_ids(1) this, of small_env True True]
  show "rotate_all_credentials small_env True True long_rotation small_store = (small_store, Inl Escaped)"
    by (simp add: long_refusal(2))
qed

subsection \<open>Repetition\<close>

lemma insort_key_map:
  "(\<And>x. k (f x) = k x) \<Longrightarrow> insort_key k (f x) (map f ys) = map f (insort_key k x ys)"
  by (induction ys) auto

lemma sort_key_map: "(\<And>x. k (f x) = k x) \<Longrightarrow> sort_key k (map f xs) = map f (sort_key k xs)"
  by (induction xs) (simp_all add: insort_key_map)

lemma rotated_store_simps [simp]:
  "users (accounts (rotated_store e b s)) = map (rotated_user e b) (users (accounts s))"
  "session_activities (accounts (rotated_store e b s)) = []"
  "ledger (rotated_store e b s) = ledger s @ [rotation_row e b s]"
  "database_identity (rotated_store e b s) = Some (bundle_database_id b)"
  "users_by_id (rotated_store e b s) = map (rotated_user e b) (users_by_id s)"
  "session_count (rotated_store e b s) = 0"
  by (simp_all add: rotated_store_def users_by_id_def session_count_def Let_def sort_key_map [of user_id])

lemma rotation_row_simps [simp]:
  "row_rotation_id (rotation_row e b s) = bundle_rotation_id b" "row_database_id (rotation_row e b s) = bundle_database_id b"
  "row_material_fingerprint (rotation_row e b s) = material_fingerprint e b" "row_result (rotation_row e b s) = new_counts s"
  "row_post_state_fingerprint (rotation_row e b s) = state_fingerprint e (map (rotated_user e b) (users_by_id s)) 0"
  by (simp_all add: rotation_row_def Let_def)

lemma find_ledger_rotated:
  "find_ledger rid (rotated_store e b s) =
    (case find_ledger rid s of
       Some row \<Rightarrow> Some row | None \<Rightarrow> if bundle_rotation_id b = rid then Some (rotation_row e b s) else None)"
  by (auto simp: find_ledger_def find_row_append split: option.splits)

lemma map_sum_Pair_Inr: "map_sum id (Pair s) m = Inr (s', x) \<longleftrightarrow> s' = s \<and> m = Inr x"
  by (cases m) auto

text \<open>After a success the ledger holds the row that answers the same request from then on.\<close>

lemma rotation_settled:
  assumes "distinct_ids s" "rotate_all_credentials e lock commit r s = (s', Inr res)"
  obtains row where "find_ledger (bundle_rotation_id (rotation_bundle r)) s' = Some row"
    "existing_result e row (rotation_bundle r) (material_fingerprint e (rotation_bundle r)) (users_by_id s') (session_count s') =
      Inr res" "row_material_fingerprint row = material_fingerprint e (rotation_bundle r)"
proof (cases "find_ledger (bundle_rotation_id (rotation_bundle r)) s")
  case (Some row)
  with assms(2) have "s' = s" "existing_result e row (rotation_bundle r) (material_fingerprint e (rotation_bundle r))
      (users_by_id s) (session_count s) = Inr res"
    by (auto simp: rotate_all_credentials_def in_transaction_def rotate_in_transaction_def Let_def result_simps map_sum_Pair_Inr
      split: if_splits sum.splits)
  moreover from this have "row_material_fingerprint row = material_fingerprint e (rotation_bundle r)"
    by (simp add: existing_result_def split: if_splits)
  ultimately show ?thesis using that Some by blast
next
  case None
  with assms have "s' = rotated_store e (rotation_bundle r) s" "res = new_counts s"
    by (auto simp: rotate_all_eq split: if_splits option.splits)
  with None show ?thesis
    using that [of "rotation_row e (rotation_bundle r) s"] by (simp add: find_ledger_rotated existing_result_def)
qed

lemma fingerprints_cong:
  assumes "sha256_hex e' = sha256_hex e"
  shows "material_fingerprint e' b = material_fingerprint e b" "state_fingerprint e' us n = state_fingerprint e us n"
  using assms by (simp_all add: material_fingerprint_def state_fingerprint_def digest_json_def)

text \<open>
  C19 [rotation_repeatable]: a rotation that succeeded can be asked for again, at any later time and with or without the
  failpoint: the answer is the same and the database stays as it is.
\<close>

theorem rotation_repeatable:
  assumes "distinct_ids s" "rotate_all_credentials e lock commit r s = (s', Inr res)"
    "sha256_hex e' = sha256_hex e" "rotation_bundle r' = rotation_bundle r"
  shows "rotate_all_credentials e' True True r' s' = (s', Inr res)"
proof -
  from rotation_settled [OF assms(1, 2)] obtain row where
    "find_ledger (bundle_rotation_id (rotation_bundle r)) s' = Some row"
    "existing_result e row (rotation_bundle r) (material_fingerprint e (rotation_bundle r)) (users_by_id s') (session_count s') =
      Inr res" by blast
  then show ?thesis using assms(4)
    by (simp add: rotate_all_credentials_def in_transaction_def rotate_in_transaction_def existing_result_def
      fingerprints_cong [OF assms(3)] Let_def split: if_splits)
qed

lemma rotation_repeatable_witness:
  "rotate_all_credentials small_env True True small_rotation (rotated_store small_env small_bundle small_store) =
    (rotated_store small_env small_bundle small_store, Inr (counts 1 1 1 0 0))"
  by (rule rotation_repeatable [OF small_ids(1) small_rotated refl refl])

subsection \<open>Material is used once\<close>

lemma sort_mset_cong: "mset xs = mset ys \<Longrightarrow> sort xs = sort ys"
  by (metis mset_sort properties_for_sort sorted_sort)

lemma material_fingerprint_cong:
  assumes "bundle_admin_username b' = bundle_admin_username b" "bundle_jwt_secret_key b' = bundle_jwt_secret_key b"
    "mset (bundle_users b') = mset (bundle_users b)"
  shows "material_fingerprint e b' = material_fingerprint e b"
proof -
  have "credential_pairs b' = credential_pairs b"
    unfolding credential_pairs_def by (rule sort_mset_cong) (simp add: assms(3))
  with assms show ?thesis by (simp add: material_fingerprint_def material_json_def)
qed

text \<open>
  C18 [material_single_use]: after a rotation succeeded, the same administrator, signing key and credentials, in any
  order and for any database, are refused under another rotation identifier, and the database stays as it is.
\<close>

theorem material_single_use:
  assumes "distinct_ids s" "rotate_all_credentials e lock commit r s = (s', Inr res)" "sha256_hex e' = sha256_hex e"
    "bundle_admin_username (rotation_bundle r') = bundle_admin_username (rotation_bundle r)"
    "bundle_jwt_secret_key (rotation_bundle r') = bundle_jwt_secret_key (rotation_bundle r)"
    "mset (bundle_users (rotation_bundle r')) = mset (bundle_users (rotation_bundle r))"
    "find_ledger (bundle_rotation_id (rotation_bundle r')) s' = None"
  shows "rotate_all_credentials e' True commit' r' s' = (s', Inl (Rotation_Failed CREDENTIAL_MATERIAL_REUSED))"
proof -
  from rotation_settled [OF assms(1, 2)] obtain row where
    row: "find_ledger (bundle_rotation_id (rotation_bundle r)) s' = Some row"
      "row_material_fingerprint row = material_fingerprint e (rotation_bundle r)" by blast
  then have "row \<in> set (ledger s')" unfolding find_ledger_def by (blast dest: find_row_Some)
  then have "list_ex (\<lambda>row. row_material_fingerprint row = material_fingerprint e' (rotation_bundle r')) (ledger s')"
    using row(2) fingerprints_cong [OF assms(3)] material_fingerprint_cong [OF assms(4-6), of e]
    by (auto simp: list_ex_iff)
  then show ?thesis using assms(7)
    by (simp add: rotate_all_credentials_def in_transaction_def rotate_in_transaction_def Let_def)
qed

definition renamed_rotation :: rotation_request where
  "renamed_rotation = command_request (lit ''sqlite:///x'') (small_bundle\<lparr>bundle_rotation_id := lit ''S''\<rparr>) False"

lemma material_single_use_witness:
  "snd (rotate_all_credentials small_env True True renamed_rotation (rotated_store small_env small_bundle small_store)) =
    (Inl (Rotation_Failed CREDENTIAL_MATERIAL_REUSED) :: rotation_result rotated)"
proof -
  have new: "find_ledger (bundle_rotation_id (rotation_bundle renamed_rotation))
      (rotated_store small_env small_bundle small_store) = None"
    by (simp add: find_ledger_rotated renamed_rotation_def command_request_def small_bundle_def small_store_def find_ledger_def)
  have "rotation_bundle renamed_rotation = small_bundle\<lparr>bundle_rotation_id := lit ''S''\<rparr>"
    "rotation_bundle small_rotation = small_bundle"
    by (simp_all add: renamed_rotation_def small_rotation_def command_request_def)
  then show ?thesis
    using material_single_use [OF small_ids(1) small_rotated refl, of renamed_rotation True] new by simp
qed

subsection \<open>Sessions end\<close>

lemma refusal_none_scope: "rotation_refusal e r s = None \<Longrightarrow> scope_refusal (users_by_id s) (rotation_bundle r) = None"
  by (simp add: rotation_refusal_def Let_def split: if_splits)

lemma refusal_none_hashable:
  "rotation_refusal e r s = None \<Longrightarrow> u \<in> set (users (accounts s)) \<Longrightarrow> \<not> unhashable e (rotation_bundle r) u"
  by (auto simp: rotation_refusal_def list_ex_iff Let_def split: if_splits)

lemma rotated_user_eq:
  assumes "rotation_refusal e r s = None" "u \<in> set (users (accounts s))"
  obtains c h where "credential_by_username (rotation_bundle r) (username u) = Some c"
    "make_hash e (credential_password c) = Inr h"
    "rotated_user e (rotation_bundle r) u = u\<lparr>password_hash := h, password_changed_at := Some (utc (now e)),
       session_version := session_version u + 1\<rparr>"
proof -
  from credential_found [OF refusal_none_scope [OF assms(1)], of u] assms(2)
  obtain c where c: "credential_by_username (rotation_bundle r) (username u) = Some c" by auto
  with refusal_none_hashable [OF assms] obtain h where "make_hash e (credential_password c) = Inr h"
    by (auto simp: unhashable_def is_ok_iff)
  with c that show thesis by (simp add: rotated_user_def)
qed

lemma rotated_user_version:
  assumes "rotation_refusal e r s = None" "u \<in> set (users (accounts s))"
  shows "session_version (rotated_user e (rotation_bundle r) u) = session_version u + 1"
  using assms by (rule rotated_user_eq) simp

text \<open>
  C9 [rotation_ends_sessions]: a request that was authenticated before a rotation is refused after it: its token carries
  the old version of the session, whoever it belonged to.
\<close>

theorem rotation_ends_sessions:
  assumes "distinct_ids s" "find_ledger (bundle_rotation_id (rotation_bundle r)) s = None"
    "rotate_all_credentials e lock commit r s = (s', Inr res)"
    "current_user_from_request e1 req (accounts s) = Inr (d, u, payload)"
    "decode_access_token e2 = decode_access_token e1" "admin_session_cookie_name e2 = admin_session_cookie_name e1"
  shows "current_user_from_request e2 req (accounts s') = Inl (HTTPException 401 (msg ''Session expired''))"
proof -
  from assms(1-3) have s': "s' = rotated_store e (rotation_bundle r) s" "rotation_refusal e r s = None"
    by (auto simp: rotate_all_eq split: if_splits option.splits)
  from assms(4) obtain token p uid ver where
    t: "map_of (req_cookies req) (admin_session_cookie_name e1) = Some token" "token \<noteq> []"
      "decode_access_token e1 token = Some p" "subject_of p = Some uid" "obj_get (lit ''ver'') p = Some (JInt ver)"
      "get_user uid (accounts s) = Some u" "is_active u" "ver = session_version u"
    by (auto simp: current_user_from_request_def result_simps split: option.splits if_splits json.splits)
  then have "u \<in> set (users (accounts s))" unfolding get_user_def by (blast dest: find_row_Some)
  then have "session_version (rotated_user e (rotation_bundle r) u) = ver + 1"
    using rotated_user_version [OF s'(2)] t(8) by simp
  moreover have "get_user uid (accounts s') = Some (rotated_user e (rotation_bundle r) u)"
    using t(6) by (simp add: get_user_def s' find_row_map)
  ultimately show ?thesis using t assms(5, 6) by (simp add: current_user_from_request_def)
qed

definition small_request :: request where
  "small_request = \<lparr>req_method = lit ''GET'', req_path = lit ''/'', req_client_host = None, req_headers = [],
     req_cookies = [(lit ''s'', lit ''T'')]\<rparr>"

lemma rotation_ends_sessions_witness:
  "current_user_from_request small_env small_request (accounts (rotated_store small_env small_bundle small_store)) =
    (Inl (HTTPException 401 (msg ''Session expired'')) :: (error, db \<times> user \<times> json) result)"
proof -
  have "py_int (lit ''1'') = Some 1" 
    by (simp add: lit_def py_int_def strip_def strip_of_def is_space_def int_digits_def is_digit_def dec_value_def)
  moreover have "hash_session_token small_env (lit ''T'') = Inr (replicate 64 49)"
    by (simp add: hash_session_token_def utf8_encode_lit_chars small_env_def)
  ultimately have "is_ok (current_user_from_request small_env small_request (accounts small_store))"
    by (simp add: current_user_from_request_def small_env_def small_request_def small_store_def small_admin_def
      decode_access_token_def subject_of_def obj_get_def get_user_def requires_password_change_def
      record_session_activity_def find_activity_def insert_activity_def Let_def)
  then obtain d u p where "current_user_from_request small_env small_request (accounts small_store) = Inr (d, u, p)"
    by (auto simp: is_ok_iff)
  from rotation_ends_sessions [OF small_ids small_rotated this refl refl] show ?thesis .
qed

end
