(* ===== verification/Rotation_History.thy ===== *)
theory Rotation_History
  imports Rotation_Properties
begin

text \<open>
  What holds over the life of a database: the ledger of the rotations only grows, through any sequence of the two
  programs and of whatever else happens to accounts and files, and a verification that succeeds later finds the
  accounts in the state the rotation gave them.
\<close>

subsection \<open>The ledger\<close>

definition ledger_ok :: "rotation_store \<Rightarrow> bool" where
  "ledger_ok s \<longleftrightarrow> distinct (map row_rotation_id (ledger s)) \<and> distinct (map row_material_fingerprint (ledger s)) \<and>
     list_all (\<lambda>row. database_identity s = Some (row_database_id row) \<and> ledger_checks row) (ledger s)"

definition extends :: "rotation_store \<Rightarrow> rotation_store \<Rightarrow> bool" where
  "extends s s' \<longleftrightarrow> prefix (ledger s) (ledger s') \<and> database_identity s \<in> {None, database_identity s'}"

definition evolves :: "rotation_store \<Rightarrow> rotation_store \<Rightarrow> bool" where
  "evolves s s' \<longleftrightarrow> extends s s' \<and> (ledger_ok s \<longrightarrow> ledger_ok s')"

lemma evolves_same:
  "ledger s' = ledger s \<Longrightarrow> database_identity s' = database_identity s \<Longrightarrow> evolves s s'"
  by (simp add: evolves_def extends_def ledger_ok_def)

lemma evolves_refl [simp]: "evolves s s"
  by (simp add: evolves_same)

lemma evolves_trans: "evolves s s' \<Longrightarrow> evolves s' s'' \<Longrightarrow> evolves s s''"
  by (auto simp: evolves_def extends_def)

lemma evolves_new_identity: "database_identity s = None \<Longrightarrow> evolves s (s\<lparr>database_identity := Some i\<rparr>)"
  by (cases "ledger s") (simp_all add: evolves_def extends_def ledger_ok_def)

lemma evolves_row:
  assumes "ledger s' = ledger s @ [row]" "database_identity s' = Some (row_database_id row)"
    "database_identity s \<in> {None, Some (row_database_id row)}" "find_ledger (row_rotation_id row) s = None"
    "row_material_fingerprint row \<notin> row_material_fingerprint ` set (ledger s)" "ledger_checks row"
  shows "evolves s s'"
proof -
  have "row_rotation_id row \<notin> row_rotation_id ` set (ledger s)"
    using assms(4) by (simp add: find_ledger_def find_row_None)
  with assms show ?thesis
    by (cases "ledger s") (auto simp: evolves_def extends_def ledger_ok_def list_all_iff)
qed

lemma insert_ledger_Inr:
  "insert_ledger row s = Inr s' \<longleftrightarrow>
    find_ledger (row_rotation_id row) s = None \<and>
    \<not> list_ex (\<lambda>r. row_database_id r = row_database_id row \<and>
        row_material_fingerprint r = row_material_fingerprint row) (ledger s) \<and>
    ledger_checks row \<and> s' = s\<lparr>ledger := ledger s @ [row]\<rparr>"
  by (auto simp: insert_ledger_def)

lemma write_users_rest [simp]:
  "ledger (write_users us s) = ledger s" "database_identity (write_users us s) = database_identity s"
  "find_ledger rid (write_users us s) = find_ledger rid s"
  by (simp_all add: write_users_def find_ledger_def)

text \<open>What a rotation that comes through leaves behind in the ledger.\<close>

lemma apply_rotation_ledger:
  assumes "apply_rotation e r us n material s = Inr (s', res)"
  shows "\<exists>row. ledger s' = ledger s @ [row] \<and> database_identity s' = database_identity s \<and>
    row_database_id row = bundle_database_id (rotation_bundle r) \<and> row_material_fingerprint row = material \<and>
    find_ledger (row_rotation_id row) s = None \<and> ledger_checks row"
  using assms
  by (fastforce simp: apply_rotation_def record_rotation_def Let_def result_simps insert_ledger_Inr split: if_splits)

lemma rotate_in_transaction_evolves:
  assumes "rotate_in_transaction e r s = Inr (s', res)"
  shows "evolves s s'"
proof (cases "find_ledger (bundle_rotation_id (rotation_bundle r)) s")
  case (Some row)
  with assms show ?thesis by (simp add: rotate_in_transaction_def Let_def map_sum_Pair_Inr)
next
  case None
  define b where "b = rotation_bundle r"
  obtain s1 where s1: "database_state b s = Inr s1"
    "apply_rotation e r (users_by_id s) (session_count s) (material_fingerprint e b) s1 = Inr (s', res)"
    and unused: "\<not> list_ex (\<lambda>row. row_material_fingerprint row = material_fingerprint e b) (ledger s)"
    using assms None by (auto simp: rotate_in_transaction_def Let_def b_def result_simps split: if_splits)
  from unused have new: "material_fingerprint e b \<notin> row_material_fingerprint ` set (ledger s)"
    by (force simp: list_ex_iff)
  have state: "ledger s1 = ledger s" "database_identity s1 = Some (bundle_database_id b)"
    "database_identity s \<in> {None, Some (bundle_database_id b)}"
    using s1(1) by (auto simp: database_state_def split: option.splits if_splits)
  then have found: "find_ledger rid s1 = find_ledger rid s" for rid by (simp add: find_ledger_def)
  from apply_rotation_ledger [OF s1(2)] obtain row where
    "ledger s' = ledger s @ [row]" "database_identity s' = Some (row_database_id row)"
    "row_database_id row = bundle_database_id b" "row_material_fingerprint row = material_fingerprint e b"
    "find_ledger (row_rotation_id row) s = None" "ledger_checks row"
    using state found by (auto simp: b_def)
  then show ?thesis using state(3) new by (intro evolves_row [of s' s row]) simp_all
qed

subsection \<open>The programs\<close>

lemma in_transaction_evolves:
  assumes "\<And>s' x. work s = Inr (s', x) \<Longrightarrow> evolves s s'"
  shows "evolves s (fst (in_transaction lock commit work s))"
  using assms by (auto simp: in_transaction_def split: sum.splits)

lemma rotate_all_evolves: "evolves s (fst (rotate_all_credentials e lock commit r s))"
  unfolding rotate_all_credentials_def by (rule in_transaction_evolves) (rule rotate_in_transaction_evolves)

lemma ensure_identity_evolves: "evolves s (fst (ensure_database_identity p i lock commit s))"
  unfolding ensure_database_identity_def
  by (rule in_transaction_evolves)
    (auto simp: Let_def split: option.splits intro: evolves_new_identity evolves_same)

lemma prepare_evolves: "evolves s (fst (prepare_credential_bundle h name path s f))"
proof (cases "inspect_credential_scope name s")
  case (Inr n)
  then show ?thesis
    using ensure_identity_evolves [of s "uuid_text h" "fresh_uuid h" "lock_granted h" "commit_granted h"]
    by (auto simp: prepare_credential_bundle_def split: prod.splits sum.splits)
qed (simp add: prepare_credential_bundle_def)

lemma run_command_evolves: "evolves (world_store w) (world_store (fst (run_command e h c w)))"
proof (cases c)
  case (Prepare_Command url name path)
  then show ?thesis using prepare_evolves [of "world_store w" h name path "world_disk w"]
    by (auto split: prod.splits)
next
  case (Commit_Command url path failpoint)
  then show ?thesis using rotate_all_evolves [of "world_store w" e "lock_granted h" "commit_granted h"]
    by (auto split: prod.splits sum.splits) (metis fst_conv)
next
  case (Backup_Command dp rp rid did)
  then show ?thesis by (auto split: prod.splits)
qed simp_all

lemma announce_simps [simp]:
  "world_store (announce v w) = world_store w" "world_disk (announce v w) = world_disk w"
  "input_lines (announce v w) = input_lines w" "emitted (announce v w) = emitted w @ [v]"
  by (simp_all add: announce_def)

lemma conclude_store [simp]: "world_store (fst (conclude x (w, res))) = world_store w"
  by (auto simp: conclude_def split: sum.splits option.splits)

lemma conclude_disk [simp]: "world_disk (fst (conclude x (w, res))) = world_disk w"
  by (auto simp: conclude_def split: sum.splits option.splits)

lemma read_frame_rest [simp]:
  "world_store (snd (read_frame w)) = world_store w" "world_disk (snd (read_frame w)) = world_disk w"
  "emitted (snd (read_frame w)) = emitted w"
  by (simp_all add: read_frame_def split: list.splits)

lemma rotate_main_evolves: "evolves (world_store w) (world_store (fst (rotate_main e h w)))"
proof -
  define raw where "raw = without_bom (concat (input_lines w))"
  show ?thesis
  proof (cases "Option.bind (parse_json h raw) (command_of_json e h)")
    case None
    then show ?thesis by (simp add: rotate_main_def raw_def Let_def)
  next
    case (Some c)
    obtain w2 res where "run_command e h c (w\<lparr>input_lines := []\<rparr>) = (w2, res)" by (rule prod.exhaust)
    moreover from this have "evolves (world_store w) (world_store w2)"
      using run_command_evolves [of "w\<lparr>input_lines := []\<rparr>" e h c] by simp
    ultimately show ?thesis using Some by (simp add: rotate_main_def raw_def Let_def)
  qed
qed

lemma decide_evolves: "evolves (world_store w) (world_store (fst (decide_and_rotate e h r w)))"
proof -
  obtain frame w1 where f: "read_frame w = (frame, w1)" by (rule prod.exhaust)
  then have "world_store w1 = world_store w" using read_frame_rest(1) [of w] by simp
  with f show ?thesis
    by (auto simp: decide_and_rotate_def split: sum.splits dest: rotate_in_transaction_evolves)
qed

lemma rotate_with_recovery_evolves: "evolves (world_store w) (world_store (fst (rotate_with_recovery e h c r w)))"
proof -
  have "evolves (world_store w) (world_store (fst (decide_and_rotate e h r (announce v (w\<lparr>world_disk := f\<rparr>)))))" for v f
    using decide_evolves [of "announce v (w\<lparr>world_disk := f\<rparr>)" e h r] by simp
  then show ?thesis by (auto simp: rotate_with_recovery_def split: sum.splits prod.splits)
qed

lemma resume_store [simp]: "world_store (fst (resume_committed e h c b x w)) = world_store w"
  by (simp add: resume_committed_def split: sum.splits option.splits bool.splits)

lemma run_transaction_evolves: "evolves (world_store w) (world_store (fst (run_transaction e h c w)))"
  using rotate_with_recovery_evolves
  by (auto simp: run_transaction_def Let_def split: sum.splits option.splits)

lemma restore_guard_store [simp]: "world_store (fst (run_restore_guard e h g w)) = world_store w"
proof -
  obtain frame w1 where f: "read_frame (announce (JObj [(lit ''status'', JStr (lit ''restore_guard_ready''))]) w) = (frame, w1)"
    by (rule prod.exhaust)
  from read_frame_rest(1) [of "announce (JObj [(lit ''status'', JStr (lit ''restore_guard_ready''))]) w"] f
  have "world_store w1 = world_store w" by simp
  with f show ?thesis by (simp add: run_restore_guard_def split: sum.splits)
qed

lemma transaction_main_store:
  "world_store (fst (transaction_main e h w)) =
    (case read_frame w of (frame, w1) \<Rightarrow>
       (case Option.bind (parse_json h frame) (begin_of_json h) of
          Some (Begin_Transaction c) \<Rightarrow> world_store (fst (run_transaction e h c w1)) | _ \<Rightarrow> world_store w))"
proof -
  obtain frame w1 where f: "read_frame w = (frame, w1)" by (rule prod.exhaust)
  then have "world_store w1 = world_store w" using read_frame_rest(1) [of w] by simp
  moreover have "world_store x = world_store w1" if "run_restore_guard e h g w1 = (x, y)" for g x y
    using restore_guard_store [of e h g w1] that by simp
  ultimately show ?thesis using f
    by (auto simp: transaction_main_def split: option.splits begin_command.splits prod.splits)
qed

lemma transaction_main_evolves: "evolves (world_store w) (world_store (fst (transaction_main e h w)))"
proof -
  obtain frame w1 where f: "read_frame w = (frame, w1)" by (rule prod.exhaust)
  then have "world_store w1 = world_store w" using read_frame_rest(1) [of w] by simp
  with f run_transaction_evolves [of w1 e h] show ?thesis
    by (auto simp: transaction_main_store split: option.splits begin_command.splits)
qed

text \<open>
  The life of a database: runs of the two programs, whatever the application does to the accounts, and whatever happens
  to the files and the pipes. Clock, keys and host may differ from run to run.
\<close>

inductive rotation_step :: "rotation_world \<Rightarrow> rotation_world \<Rightarrow> bool" where
  single_command: "rotation_step w (fst (rotate_main e h w))"
| dialogue: "rotation_step w (fst (transaction_main e h w))"
| application: "rotation_step w (w\<lparr>world_store := (world_store w)\<lparr>accounts := d\<rparr>\<rparr>)"
| surroundings: "rotation_step w (w\<lparr>world_disk := f, emitted := out, input_lines := ls\<rparr>)"

lemma rotation_step_evolves: "rotation_step w w' \<Longrightarrow> evolves (world_store w) (world_store w')"
proof (induction rule: rotation_step.induct)
  case (single_command w e h)
  show ?case by (rule rotate_main_evolves)
next
  case (dialogue w e h)
  show ?case by (rule transaction_main_evolves)
qed (simp_all add: evolves_same)

lemma rotation_steps_evolve: "rtranclp rotation_step w w' \<Longrightarrow> evolves (world_store w) (world_store w')"
proof (induction rule: rtranclp_induct)
  case (step w1 w2)
  from evolves_trans [OF step.IH rotation_step_evolves [OF step.hyps(2)]] show ?case .
qed simp

text \<open>
  C10 [ledger_history]: over the life of a database the ledger is only appended to and the identity of the database, once
  set, stays; no rotation identifier and no material occurs twice, every row names this database, and its counts
  agree: as many passwords changed as there were accounts, and no session left.
\<close>

theorem ledger_history:
  assumes "rtranclp rotation_step w w'" "ledger_ok (world_store w)"
  shows "ledger_ok (world_store w') \<and> prefix (ledger (world_store w)) (ledger (world_store w')) \<and>
    database_identity (world_store w) \<in> {None, database_identity (world_store w')}"
  using rotation_steps_evolve [OF assms(1)] assms(2) by (simp add: evolves_def extends_def)

definition small_world :: rotation_world where
  "small_world = \<lparr>world_store = small_store, world_disk = (\<lambda>_. None), emitted = [], input_lines = []\<rparr>"

definition emptied :: rotation_world where
  "emptied = small_world\<lparr>world_store := small_store\<lparr>accounts := (accounts small_store)\<lparr>users := []\<rparr>\<rparr>\<rparr>"

lemma ledger_history_witness: "prefix (ledger small_store) (ledger (world_store emptied)) \<and> ledger_ok (world_store emptied)"
proof -
  have "rotation_step small_world emptied"
    using application [of small_world] by (simp add: emptied_def small_world_def)
  then have "rtranclp rotation_step small_world emptied" ..
  moreover have "ledger_ok (world_store small_world)" by (simp add: small_world_def small_store_def ledger_ok_def)
  ultimately show ?thesis using ledger_history [of small_world emptied] by (simp add: small_world_def)
qed

subsection \<open>A later verification\<close>

text \<open>What a state fingerprint shows of an account.\<close>

definition credential_view :: "user \<Rightarrow> int \<times> pystr \<times> pystr \<times> bool \<times> int \<times> pystr" where
  "credential_view u = (user_id u, username u, role u, is_active u, session_version u, password_hash u)"

definition user_scalar :: "user \<Rightarrow> bool" where
  "user_scalar u \<longleftrightarrow> list_all is_scalar (username u) \<and> list_all is_scalar (role u) \<and> list_all is_scalar (password_hash u)"

lemma scalar_ascii: "(\<And>c. c \<in> set s \<Longrightarrow> c < 128) \<Longrightarrow> list_all is_scalar s"
  by (force simp: list_all_iff is_scalar_def is_surrogate_def)

lemma dec_digits_ascii: "c \<in> set (dec_digits n) \<Longrightarrow> c < 128"
  by (auto dest!: dec_digits_are_digits simp: is_digit_def)

lemma zero_pad_ascii: "c \<in> set (zero_pad k n) \<Longrightarrow> c < 128"
  by (auto simp: zero_pad_def dest: dec_digits_ascii)

lemma isoformat_ascii: "c \<in> set (isoformat_utc t) \<Longrightarrow> c < 128"
  by (auto simp: isoformat_utc_def Let_def lit_def dest: zero_pad_ascii split: prod.splits if_splits)

lemma js_int_ascii: "c \<in> set (js_int i) \<Longrightarrow> c < 128"
  by (auto simp: js_int_def dest: dec_digits_ascii split: if_splits)

lemma js_int_inj: "js_int i = js_int j \<Longrightarrow> i = j"
  using loads_pairs_print [of "JInt i" Compact] loads_pairs_print [of "JInt j" Compact] by simp

lemma user_state_scalar: "user_scalar u \<Longrightarrow> json_scalar (user_state_json u)"
proof -
  have "list_all is_scalar (js_int i)" for i by (rule scalar_ascii) (rule js_int_ascii)
  moreover have "list_all is_scalar (isoformat_utc t)" for t by (rule scalar_ascii) (rule isoformat_ascii)
  moreover assume "user_scalar u"
  ultimately show ?thesis
    by (simp add: user_state_json_def user_scalar_def canonical_datetime_def of_text_def split: option.splits)
qed

lemma state_scalar: "list_all user_scalar us \<Longrightarrow> json_scalar (state_json us n)"
  by (auto simp: state_json_def list_all_iff intro: user_state_scalar)

lemma user_state_view: "user_state_json u = user_state_json v \<Longrightarrow> credential_view u = credential_view v"
  by (auto simp: user_state_json_def credential_view_def dest: js_int_inj)

lemma user_states_view: "map user_state_json us = map user_state_json vs \<Longrightarrow> map credential_view us = map credential_view vs"
proof (induction us arbitrary: vs)
  case (Cons u us)
  then obtain v vs' where vs: "vs = v # vs'" "user_state_json u = user_state_json v"
    "map user_state_json us = map user_state_json vs'" by (cases vs) simp_all
  from user_state_view [OF vs(2)] Cons.IH [OF vs(3)] vs(1) show ?case by simp
qed simp

definition state_text :: "user list \<Rightarrow> int \<Rightarrow> bytes" where
  "state_text us n = ascii_bytes (dumps_ascii_compact (state_json us n))"

lemma state_text_inj:
  assumes "state_text us n = state_text vs m" "list_all user_scalar us" "list_all user_scalar vs"
  shows "map credential_view us = map credential_view vs \<and> n = m"
proof -
  have "state_json us n = state_json vs m"
    by (rule print_bytes_inj [of Compact])
      (use assms in \<open>simp_all only: state_text_def dumps_ascii_compact_def state_scalar\<close>)
  then have "map user_state_json us = map user_state_json vs" and n: "n = m" unfolding state_json_def by simp_all
  from user_states_view [OF this(1)] n show ?thesis by (rule conjI)
qed

text \<open>
  C16 [verified_means_rotated]: when a verification of a rotation succeeds at any later time, and SHA-256 does not collide
  on the two texts it compares, then the accounts are, in identifiers, names, roles, activity, session versions and
  password hashes, exactly those the rotation left, nobody has a session, and every stored hash accepts the
  password of the bundle.
\<close>

theorem verified_means_rotated:
  assumes "distinct_ids s" "find_ledger (bundle_rotation_id (rotation_bundle r)) s = None"
    "rotate_all_credentials e lock commit r s = (s', Inr res)"
    "find_ledger (bundle_rotation_id (rotation_bundle r)) s2 = find_ledger (bundle_rotation_id (rotation_bundle r)) s'"
    "verify_rotation_state e2 r s2 = Inr v" "sha256_hex e2 = sha256_hex e"
    "inj_on (sha256_hex e) {state_text (users_by_id s') 0, state_text (users_by_id s2) (session_count s2)}"
    "list_all user_scalar (users_by_id s')" "list_all user_scalar (users_by_id s2)"
  shows "map credential_view (users_by_id s2) = map credential_view (users_by_id s') \<and>
    session_activities (accounts s2) = [] \<and>
    list_all (\<lambda>u. verified_password e2 (rotation_bundle r) u = Inr True) (users_by_id s2)"
proof -
  from assms(1-3) have s': "s' = rotated_store e (rotation_bundle r) s"
    by (auto simp: rotate_all_eq split: if_splits option.splits)
  then have "find_ledger (bundle_rotation_id (rotation_bundle r)) s2 = Some (rotation_row e (rotation_bundle r) s)"
    using assms(2, 4) by (simp add: find_ledger_rotated)
  with assms(5) obtain oks where
    ok: "existing_result e2 (rotation_row e (rotation_bundle r) s) (rotation_bundle r)
        (material_fingerprint e2 (rotation_bundle r)) (users_by_id s2) (session_count s2) \<noteq> Inl (Rotation_Failed ROTATION_BINDING_MISMATCH)"
      "map_result (verified_password e2 (rotation_bundle r)) (users_by_id s2) = Inr oks"
      "length (filter id oks) = length (users_by_id s2)"
    by (auto simp: verify_rotation_state_def Let_def result_simps split: if_splits)
  then have "sha256_hex e (state_text (users_by_id s') 0) = sha256_hex e (state_text (users_by_id s2) (session_count s2))"
    using assms(6) unfolding s'
    by (auto simp: existing_result_def state_fingerprint_def digest_json_def state_text_def split: if_splits)
  with assms(7) have "state_text (users_by_id s') 0 = state_text (users_by_id s2) (session_count s2)"
    by (auto dest: inj_onD)
  from state_text_inj [OF this assms(8, 9)] have "map credential_view (users_by_id s2) = map credential_view (users_by_id s')"
    "session_activities (accounts s2) = []" by (simp_all add: session_count_def)
  moreover have "length oks = length (users_by_id s2)" using ok(2) by (rule map_result_length)
  then have "list_all id oks" using ok(3) by (metis filter_id_conv length_filter_less list_all_iff less_irrefl id_apply)
  then have "list_all (\<lambda>u. verified_password e2 (rotation_bundle r) u = Inr True) (users_by_id s2)"
    using map_result_nth [OF ok(2)] \<open>length oks = length (users_by_id s2)\<close> by (auto simp: list_all_length)
  ultimately show ?thesis by blast
qed

lemma small_rotated_users:
  "users_by_id (rotated_store small_env small_bundle small_store) =
    [small_admin\<lparr>password_hash := 35 # replicate 24 80, password_changed_at := Some (utc 1700000000000000), session_version := 1\<rparr>]"
  by (simp add: users_by_id_def small_store_def rotated_user_def credential_by_username_def small_bundle_def small_admin_def
    small_env_def)

lemma verified_means_rotated_witness:
  "list_all (\<lambda>u. verified_password small_env small_bundle u = Inr True)
     (users_by_id (rotated_store small_env small_bundle small_store))"
proof -
  let ?s = "rotated_store small_env small_bundle small_store"
  have b: "rotation_bundle small_rotation = small_bundle" by (simp add: small_rotation_def command_request_def)
  have scalar: "list_all user_scalar (users_by_id ?s)"
    unfolding small_rotated_users
    by (auto simp: user_scalar_def small_admin_def lit_def is_scalar_def is_surrogate_def list_all_iff)
  have own: "verified_password small_env small_bundle u = Inr True" if "u \<in> set (users_by_id ?s)" for u
    using that unfolding small_rotated_users
    by (simp add: verified_password_def credential_by_username_def small_bundle_def small_admin_def small_env_def verify_password_def)
  then have "map_result (verified_password small_env small_bundle) (users_by_id ?s) = Inr [True]"
    unfolding small_rotated_users by simp
  then have "is_ok (verify_rotation_state small_env small_rotation ?s)"
    using small_ids(2)
    by (simp add: verify_rotation_state_def b find_ledger_rotated existing_result_def Let_def small_store_def)
  then obtain v where "verify_rotation_state small_env small_rotation ?s = Inr v" by (auto simp: is_ok_iff)
  from verified_means_rotated [OF small_ids small_rotated refl this refl _ scalar scalar] show ?thesis by (simp add: b)
qed

end
