(* ===== verification/Rotation_Protocol.thy ===== *)
theory Rotation_Protocol
  imports Rotation_History
begin

text \<open>
  The artifacts of a rotation and the dialogue: what is written under DPAPI can be read back, the recovery artifact
  identifies the state before, and no rotation is committed without it and without the decision of the caller.
\<close>

subsection \<open>What the host is relied on for\<close>

text \<open>
  DPAPI gives back under the same entropy what it protected, the JSON printer and parser of pydantic agree on values
  without floats and with distinct keys, the canonical text of a UUID is its own canonical text and random UUIDs are
  canonical, and a digest is 64 hexadecimal digits.
\<close>

definition host_lawful :: "env \<Rightarrow> rotation_host \<Rightarrow> bool" where
  "host_lawful e h \<longleftrightarrow>
     (\<forall>b d en fl c. crypt_protect h b d en fl = Some c \<longrightarrow> crypt_unprotect h c en fl = Some b) \<and>
     (\<forall>v b. no_float v \<longrightarrow> dict_ok v \<longrightarrow> print_json h v = Some b \<longrightarrow> parse_json h b = Some v) \<and>
     (\<forall>s t. uuid_text h s = Some t \<longrightarrow> uuid_text h t = Some t) \<and>
     uuid_text h (fresh_uuid h) = Some (fresh_uuid h) \<and> uuid_text h (fresh_rotation h) = Some (fresh_rotation h) \<and>
     hex_digests (sha256_hex e)"

lemma protected_json_read:
  assumes "host_lawful e h" "no_float v" "dict_ok v" "protected_json h v p = Inr c"
  shows "\<exists>b. unprotect_for_current_user h c p = Inr b \<and> parse_json h b = Some v"
  using assms
  by (auto simp: host_lawful_def protected_json_def protect_for_current_user_def unprotect_for_current_user_def
    result_simps)

lemma host_uuid: "host_lawful e h \<Longrightarrow> uuid_text h s = Some t \<Longrightarrow> uuid_text h t = Some t"
  by (auto simp: host_lawful_def)

lemma envelope_json_read:
  assumes "uuid_text h (envelope_rotation_id v) = Some (envelope_rotation_id v)"
    "uuid_text h (envelope_database_id v) = Some (envelope_database_id v)" "envelope_errors v = []"
  shows "envelope_of_json h (envelope_json v) = Some v"
  using assms
  by (cases v) (simp add: envelope_of_json_def envelope_json_def keys_within_def literal_field_def uuid_field_def string_field_def
    int_field_def obj_get_def Let_def)

lemma envelope_json_plain: "no_float (envelope_json v)" "dict_ok (envelope_json v)"
  by (simp_all add: envelope_json_def)

lemma new_envelope_snapshot: "envelope_snapshot (new_envelope e snapshot rid did) = Inr snapshot"
proof -
  have "list_all (\<lambda>c. c < 128) (b64_encode snapshot)" by (auto simp: list_all_iff dest: b64_encode_ascii)
  then show ?thesis by (simp add: envelope_snapshot_def new_envelope_def b64_decode_encode of_option_def)
qed

subsection \<open>Writing and reading the recovery artifact\<close>

lemma put_file_Inr:
  "put_file h path payload f = (f', Inr u) \<Longrightarrow> \<exists>n. f' = f(path \<mapsto> \<lparr>disk_content = payload, disk_links = n\<rparr>)"
  by (auto simp: put_file_def Let_def split: disk_answer.splits)

lemma durable_Inr:
  "write_precreated_durable h path payload f = (f', Inr u) \<Longrightarrow>
    \<exists>n. f' = f(path \<mapsto> \<lparr>disk_content = payload, disk_links = n\<rparr>)"
  "write_new_durable h path payload f = (f', Inr u) \<Longrightarrow>
    \<exists>n. f' = f(path \<mapsto> \<lparr>disk_content = payload, disk_links = n\<rparr>)"
  by (auto simp: write_precreated_durable_def write_new_durable_def dest!: put_file_Inr split: if_splits option.splits)

lemma write_recovery_Inr:
  assumes "write_database_recovery e h snapshot path rid did pre f = (f', Inr sha)"
  shows "envelope_errors (new_envelope e snapshot rid did) = [] \<and>
    (\<exists>c n. protected_json h (envelope_json (new_envelope e snapshot rid did)) DATABASE_RECOVERY = Inr c \<and>
      f' = f(path \<mapsto> \<lparr>disk_content = c, disk_links = n\<rparr>) \<and> sha = sha256_hex e c)"
  using assms
  by (auto simp: write_database_recovery_def Let_def dest!: durable_Inr split: if_splits sum.splits prod.splits)

lemma recovery_loads:
  assumes "host_lawful e h" "write_database_recovery e h snapshot path rid did pre f = (f', Inr sha)"
    "uuid_text h rid = Some rid" "uuid_text h did = Some did" "file_readable h path" "integrity_ok h snapshot = Some True"
  shows "load_database_recovery e h path rid' did' f' =
    (if rid' = rid \<and> did' = did then Inr snapshot else Inl (Recovery_Failed BINDING_MISMATCH))"
    "assert_recovery_digest e h path sha' f' = (if sha' = sha then Inr () else Inl (Recovery_Failed ARTIFACT_INVALID))"
proof -
  define v where "v = new_envelope e snapshot rid did"
  from write_recovery_Inr [OF assms(2)] obtain c n where
    c: "envelope_errors v = []" "protected_json h (envelope_json v) DATABASE_RECOVERY = Inr c"
      "f' = f(path \<mapsto> \<lparr>disk_content = c, disk_links = n\<rparr>)" "sha = sha256_hex e c" by (auto simp: v_def)
  have read: "read_bytes h path f' = Inr c" using assms(5) by (simp add: read_bytes_def c(3))
  then show "assert_recovery_digest e h path sha' f' =
      (if sha' = sha then Inr () else Inl (Recovery_Failed ARTIFACT_INVALID))"
    by (auto simp: assert_recovery_digest_def c(4) require_def)
  from protected_json_read [OF assms(1) envelope_json_plain c(2)] obtain b where
    b: "unprotect_for_current_user h c DATABASE_RECOVERY = Inr b" "parse_json h b = Some (envelope_json v)" by blast
  have fields: "envelope_rotation_id v = rid" "envelope_database_id v = did" "snapshot_size v = int (length snapshot)"
    "snapshot_sha256 v = sha256_hex e snapshot" by (simp_all add: v_def new_envelope_def)
  then have "envelope_of_json h (envelope_json v) = Some v"
    using assms(3, 4) c(1) by (intro envelope_json_read) simp_all
  then have "recovery_of_plaintext h b = Inr (v, snapshot)"
    by (simp add: recovery_of_plaintext_def b(2) of_option_def v_def new_envelope_snapshot)
  then show "load_database_recovery e h path rid' did' f' =
      (if rid' = rid \<and> did' = did then Inr snapshot else Inl (Recovery_Failed BINDING_MISMATCH))"
    using assms(6) by (auto simp: load_database_recovery_def read b(1) fields of_option_def)
qed

lemma snapshot_integrity: "snapshot_connection h s = Inr snapshot \<Longrightarrow> integrity_ok h snapshot = Some True"
  by (auto simp: snapshot_connection_def Let_def result_simps split: if_splits)

text \<open>
  C17 [recovery_round_trip]: a recovery artifact that was written can be loaded for its rotation and its database, and
  gives the snapshot of the database at that moment; for another rotation or database it is refused. A later
  database is confirmed to match it exactly when its snapshot is the same, unless SHA-256 collides on the two, and
  the snapshot does not list the rotation already.
\<close>

theorem recovery_round_trip:
  assumes "host_lawful e h" "create_database_recovery_from_connection e h s path rid did f = (f', Inr sha)"
    "uuid_text h rid = Some rid" "uuid_text h did = Some did" "file_readable h path"
    "inj_on (sha256_digest h) {x. Inr x \<in> {snapshot_connection h s, snapshot_connection h s2}}"
  shows "\<exists>snapshot. snapshot_connection h s = Inr snapshot \<and>
    load_database_recovery e h path rid' did' f' =
      (if rid' = rid \<and> did' = did then Inr snapshot else Inl (Recovery_Failed BINDING_MISMATCH)) \<and>
    (confirm_connection_matches_recovery e h s2 path rid did sha f' = Inr () \<longleftrightarrow>
      snapshot_connection h s2 = Inr snapshot \<and> assert_snapshot_precedes_rotation h snapshot rid = Inr ())"
proof -
  from assms(2) obtain snapshot where s: "snapshot_connection h s = Inr snapshot"
    "write_database_recovery e h snapshot path rid did True f = (f', Inr sha)"
    by (auto simp: create_database_recovery_from_connection_def split: sum.splits)
  note loads = recovery_loads [OF assms(1) s(2) assms(3-5) snapshot_integrity [OF s(1)]]
  have "confirm_connection_matches_recovery e h s2 path rid did sha f' = Inr () \<longleftrightarrow>
      snapshot_connection h s2 = Inr snapshot \<and> assert_snapshot_precedes_rotation h snapshot rid = Inr ()"
  proof (cases "snapshot_connection h s2")
    case (Inr actual)
    then have "sha256_digest h snapshot = sha256_digest h actual \<longleftrightarrow> snapshot = actual"
      using inj_on_eq_iff [OF assms(6), of snapshot actual] by (simp add: s(1))
    with Inr loads show ?thesis
      by (auto simp: confirm_connection_matches_recovery_def same_snapshot_def result_simps)
  qed (simp add: confirm_connection_matches_recovery_def loads)
  with s(1) loads(1) show ?thesis by blast
qed

subsection \<open>A host\<close>

definition plain_print :: "json \<Rightarrow> bytes option" where
  "plain_print v = utf8_encode (js_print Compact 0 v)"

definition plain_parse :: "bytes \<Rightarrow> json option" where
  "plain_parse b = Option.bind (utf8_decode b) loads"

text \<open>The serialized database tells the size of the ledger.\<close>

definition plain_host :: rotation_host where
  "plain_host = \<lparr>crypt_protect = (\<lambda>b d en fl. Some b), crypt_unprotect = (\<lambda>c en fl. Some c), sha256_digest = id,
     uuid_text = Some, print_json = plain_print, parse_json = plain_parse,
     reported_errors = (\<lambda>b. [(lit ''json_invalid'', [])]),
     serialize_db = (\<lambda>s. replicate 100 (char_of (length (ledger s)))), vacuumed = Some, integrity_ok = (\<lambda>b. Some True),
     has_ledger_table = (\<lambda>b. Some False), lists_rotation = (\<lambda>b r. Some False), opens_readonly = True,
     lock_granted = True, commit_granted = True, sqlite_driver = True, file_readable = (\<lambda>p. True),
     disk_answer = (\<lambda>p. Disk_Written), fresh_uuid = lit ''D'', fresh_rotation = lit ''R'', token_hex = replicate 32 75,
     token_urlsafe = (\<lambda>i. replicate 24 80 @ dec_digits i), unicode_digit = is_digit\<rparr>"

lemma plain_host_simps [simp]:
  "crypt_protect plain_host b t en fl = Some b" "crypt_unprotect plain_host b en fl = Some b" "sha256_digest plain_host = id"
  "uuid_text plain_host = Some" "print_json plain_host = plain_print" "parse_json plain_host = plain_parse"
  "serialize_db plain_host s = replicate 100 (char_of (length (ledger s)))" "vacuumed plain_host = Some"
  "integrity_ok plain_host b = Some True" "has_ledger_table plain_host b = Some False" "opens_readonly plain_host"
  "lock_granted plain_host" "commit_granted plain_host" "sqlite_driver plain_host" "file_readable plain_host = (\<lambda>p. True)"
  "disk_answer plain_host p = Disk_Written" "fresh_uuid plain_host = lit ''D''" "fresh_rotation plain_host = lit ''R''"
  "token_hex plain_host = replicate 32 75" "token_urlsafe plain_host i = replicate 24 80 @ dec_digits i"
  by (simp_all add: plain_host_def)

lemma small_digest: "hex64_pattern (sha256_hex small_env b)"
  
proof -
  have "length b mod 10 < 10" by simp
  then have "length b mod 10 \<le> 9" by linarith
  then show ?thesis by (simp add: small_env_def hex64_pattern_def is_digit_def list_all_iff)
qed

lemma plain_lawful: "host_lawful small_env plain_host"
proof -
  have "plain_parse b = Some v" if "no_float v" "dict_ok v" "plain_print v = Some b" for v b
    using that utf8_roundtrip [of "js_print Compact 0 v" b]
    by (simp add: plain_print_def plain_parse_def loads_print)
  then show ?thesis by (simp add: host_lawful_def hex_digests_def small_digest)
qed

definition plain_snapshot :: bytes where
  "plain_snapshot = set_slice 92 96 CANONICAL_COUNTER (set_slice 24 28 CANONICAL_COUNTER
     ((replicate 100 (char_of (0 :: nat)))[18 := char_of (1 :: nat), 19 := char_of (1 :: nat)]))"

lemma small_snapshot: "snapshot_connection plain_host small_store = Inr plain_snapshot"
  by (simp add: snapshot_connection_def small_store_def plain_snapshot_def of_option_def Let_def)

lemma plain_precedes: "assert_snapshot_precedes_rotation plain_host snapshot rid = Inr ()"
  by (simp add: assert_snapshot_precedes_rotation_def of_option_def)

lemma plain_snapshot_length: "length plain_snapshot = 100"
  by (simp add: plain_snapshot_def set_slice_def CANONICAL_COUNTER_def)

definition small_disk :: disk where
  "small_disk = (\<lambda>p. if p = lit ''r'' then Some \<lparr>disk_content = [], disk_links = 1\<rparr> else None)"

lemma plain_print_total: "json_scalar v \<Longrightarrow> \<exists>b. plain_print v = Some b"
  using utf8_encode_print [of v Compact 0] by (auto simp: plain_print_def)

lemma lit_scalar: "list_all (\<lambda>c. of_char c < (128 :: nat)) s \<Longrightarrow> list_all is_scalar (lit s)"
  by (induction s) (simp_all add: lit_def is_scalar_def is_surrogate_def)

lemma small_recovery_written:
  assumes "f (lit ''r'') = Some \<lparr>disk_content = [], disk_links = 1\<rparr>"
  shows "\<exists>f' sha. create_database_recovery_from_connection small_env plain_host small_store (lit ''r'') (lit ''R'') (lit ''D'')
     f = (f', Inr sha)"
proof -
  define v where "v = new_envelope small_env plain_snapshot (lit ''R'') (lit ''D'')"
  have ok: "envelope_errors v = []"
    by (simp add: v_def new_envelope_def envelope_errors_def plain_snapshot_length small_digest)
  have "list_all is_scalar (b64_encode plain_snapshot)" by (rule scalar_ascii) (rule b64_encode_ascii)
  moreover have "list_all is_scalar (sha256_hex small_env plain_snapshot)"
    by (simp add: small_env_def is_scalar_def is_surrogate_def list_all_iff plain_snapshot_length)
  ultimately have "json_scalar (envelope_json v)"
    by (simp add: envelope_json_def v_def new_envelope_def lit_scalar)
  then have "\<exists>b. plain_print (envelope_json v) = Some b" by (rule plain_print_total)
  then obtain b where "protected_json plain_host (envelope_json v) DATABASE_RECOVERY = Inr b"
    by (auto simp: protected_json_def protect_for_current_user_def of_option_def)
  with ok show ?thesis
    by (simp add: create_database_recovery_from_connection_def small_snapshot write_database_recovery_def
      v_def [symmetric] write_precreated_durable_def put_file_def assms)
qed

lemma recovery_round_trip_witness:
  "\<exists>f' sha. load_database_recovery small_env plain_host (lit ''r'') (lit ''R'') (lit ''D'') f' = Inr plain_snapshot \<and>
     confirm_connection_matches_recovery small_env plain_host small_store (lit ''r'') (lit ''R'') (lit ''D'') sha f' = Inr ()"
proof -
  obtain f' sha where w: "create_database_recovery_from_connection small_env plain_host small_store (lit ''r'') (lit ''R'')
      (lit ''D'') small_disk = (f', Inr sha)" using small_recovery_written [of small_disk] by (auto simp: small_disk_def)
  have "uuid_text plain_host x = Some x" "file_readable plain_host x" "inj_on (sha256_digest plain_host) X" for x X
    by simp_all
  from recovery_round_trip [OF plain_lawful w this(1, 1, 2, 3), of "lit ''R''" "lit ''D''" small_store]
  have "load_database_recovery small_env plain_host (lit ''r'') (lit ''R'') (lit ''D'') f' = Inr plain_snapshot \<and>
     confirm_connection_matches_recovery small_env plain_host small_store (lit ''r'') (lit ''R'') (lit ''D'') sha f' = Inr ()"
    by (simp add: small_snapshot plain_precedes)
  then show ?thesis by blast
qed

subsection \<open>No commit without recovery\<close>

lemma transaction_committed:
  assumes "run_transaction e h c w = (w', res)" "world_store w' \<noteq> world_store w"
  obtains b n m f sha where "load_credential_bundle h (tx_bundle_path c) (world_disk w) = Inr b"
    "secure_recovery e h c b (world_store w) (world_disk w) = (f, Inr sha)"
    "decide_and_rotate e h (command_request (tx_database_url c) b (tx_fail_before_commit c))
      (announce (ready_json sha n m) (w\<lparr>world_disk := f\<rparr>)) = (w', res)"
proof -
  obtain b where b: "load_credential_bundle h (tx_bundle_path c) (world_disk w) = Inr b"
    using assms by (auto simp: run_transaction_def split: sum.splits)
  define r where "r = command_request (tx_database_url c) b (tx_fail_before_commit c)"
  have r: "rotation_bundle r = b" by (simp add: r_def command_request_def)
  have "run_transaction e h c w = rotate_with_recovery e h c r w"
  proof (cases "lock_granted h \<and> sqlite_driver h \<and> find_existing_rotation_result e r (world_store w) = Inr None")
    case False
    have "world_store x = world_store w" if "resume_committed e h c b existing w = (x, y)" for existing x y
      using resume_store [of e h c b existing w] that by simp
    with False assms b show ?thesis
      by (auto simp: run_transaction_def r_def Let_def split: sum.splits option.splits if_splits)
  qed (simp add: run_transaction_def b r_def Let_def)
  with assms(1) have rec: "rotate_with_recovery e h c r w = (w', res)" by simp
  then obtain n m where v: "validate_rotation_transaction r (world_store w) = Inr (n, m)"
    using assms(2) by (auto simp: rotate_with_recovery_def split: sum.splits)
  obtain f x where x: "secure_recovery e h c b (world_store w) (world_disk w) = (f, x)" by (rule prod.exhaust)
  then obtain sha where sha: "x = Inr sha" "ready_errors sha n m = []"
    using rec assms(2) by (auto simp: rotate_with_recovery_def v r split: sum.splits if_splits)
  have "decide_and_rotate e h r (announce (ready_json sha n m) (w\<lparr>world_disk := f\<rparr>)) = (w', res)"
    using rec by (simp add: rotate_with_recovery_def v r x sha)
  with x sha(1) show ?thesis unfolding r_def by (intro that [OF b]) simp_all
qed

lemma decide_committed:
  assumes "decide_and_rotate e h r w = (w', res)" "world_store w' \<noteq> world_store w"
  shows "is_decision h ''commit'' (fst (read_frame w)) \<and> world_disk w' = world_disk w \<and> emitted w' = emitted w \<and>
    (\<exists>result. res = Inr (Some result))"
proof -
  obtain frame w1 where f: "read_frame w = (frame, w1)" by (rule prod.exhaust)
  with read_frame_rest [of w] assms show ?thesis
    by (auto simp: decide_and_rotate_def split: if_splits sum.splits)
qed

definition nth_frame :: "nat \<Rightarrow> rotation_world \<Rightarrow> bytes" where
  "nth_frame k w = (if k < length (input_lines w) then without_bom (input_lines w ! k) else [])"

lemma read_frame_eq: "read_frame w = (nth_frame 0 w, w\<lparr>input_lines := tl (input_lines w)\<rparr>)"
  by (cases "input_lines w") (simp_all add: read_frame_def nth_frame_def)

lemma map_sum_const_Inr: "map_sum id (\<lambda>_. k) m = Inr x \<longleftrightarrow> x = k \<and> (\<exists>u. m = Inr u)"
  by (cases m) auto

lemma secured:
  assumes "host_lawful e h" "secure_recovery e h c b s f = (f', Inr sha)" "file_readable h (tx_recovery_path c)"
    "uuid_text h (bundle_rotation_id b) = Some (bundle_rotation_id b)"
    "uuid_text h (bundle_database_id b) = Some (bundle_database_id b)"
  shows "\<exists>snapshot old. snapshot_connection h s = Inr snapshot \<and>
    load_database_recovery e h (tx_recovery_path c) (bundle_rotation_id b) (bundle_database_id b) f' = Inr old \<and>
    length old = length snapshot \<and> sha256_digest h old = sha256_digest h snapshot \<and>
    assert_recovery_digest e h (tx_recovery_path c) sha f' = Inr ()"
proof (cases "tx_reuse_recovery c")
  case True
  with assms(2) have "f' = f" "confirm_connection_matches_recovery e h s (tx_recovery_path c) (bundle_rotation_id b)
      (bundle_database_id b) sha f' = Inr ()"
    by (auto simp: secure_recovery_def map_sum_const_Inr split: option.splits)
  then show ?thesis
    by (auto simp: confirm_connection_matches_recovery_def same_snapshot_def result_simps)
next
  case False
  with assms(2) obtain snapshot where s: "snapshot_connection h s = Inr snapshot"
    "write_database_recovery e h snapshot (tx_recovery_path c) (bundle_rotation_id b) (bundle_database_id b) True f = (f', Inr sha)"
    by (auto simp: secure_recovery_def create_database_recovery_from_connection_def split: if_splits sum.splits)
  from recovery_loads [OF assms(1) s(2) assms(4, 5, 3) snapshot_integrity [OF s(1)]] s(1) show ?thesis by auto
qed

lemma bundle_uuids:
  assumes "host_lawful e h" "load_credential_bundle h path f = Inr b"
  shows "uuid_text h (bundle_rotation_id b) = Some (bundle_rotation_id b)"
    "uuid_text h (bundle_database_id b) = Some (bundle_database_id b)"
proof -
  have field: "uuid_text h t = Some t" if "default_uuid_field h k d v = Some t" "uuid_text h d = Some d" for k d v t
    using that assms(1) by (auto simp: default_uuid_field_def uuid_field_def bind_eq_Some_conv split: option.splits
      intro: host_uuid)
  from assms(2) obtain v where "bundle_of_json h v = Some b"
    by (auto simp: load_credential_bundle_def result_simps bind_eq_Some_conv)
  then have "default_uuid_field h ''rotation_id'' (fresh_rotation h) v = Some (bundle_rotation_id b)"
    "default_uuid_field h ''database_id'' (fresh_uuid h) v = Some (bundle_database_id b)"
    by (auto simp: bundle_of_json_def Let_def split: if_splits option.splits json.splits)
  with field assms(1) show "uuid_text h (bundle_rotation_id b) = Some (bundle_rotation_id b)"
    "uuid_text h (bundle_database_id b) = Some (bundle_database_id b)" by (auto simp: host_lawful_def)
qed

text \<open>
  C8 [no_commit_without_recovery]: when a run of the dialogue changes the database, the bundle it names was readable, a
  recovery artifact whose digest was announced lies on the disk, it can be loaded for this rotation and its content
  has the length and the digest of the snapshot of the database before, the second line of the caller was the
  decision to commit, and the program ends with success.
\<close>

theorem no_commit_without_recovery:
  assumes "host_lawful e h" "file_readable h = (\<lambda>p. True)" "transaction_main e h w = (w', status)"
    "world_store w' \<noteq> world_store w"
  shows "\<exists>(c :: begin_transaction) b sha n m snapshot old.
    load_credential_bundle h (tx_bundle_path c) (world_disk w) = Inr b \<and>
    snapshot_connection h (world_store w) = Inr snapshot \<and>
    load_database_recovery e h (tx_recovery_path c) (bundle_rotation_id b) (bundle_database_id b) (world_disk w') = Inr old \<and>
    length old = length snapshot \<and> sha256_digest h old = sha256_digest h snapshot \<and>
    assert_recovery_digest e h (tx_recovery_path c) sha (world_disk w') = Inr () \<and>
    ready_json sha n m \<in> set (emitted w') \<and>
    is_decision h ''commit'' (nth_frame 1 w) \<and> status = 0"
proof -
  obtain frame w1 where f: "read_frame w = (frame, w1)" by (rule prod.exhaust)
  then have w1: "world_store w1 = world_store w" "world_disk w1 = world_disk w" using read_frame_rest [of w] by simp_all
  obtain c where c: "Option.bind (parse_json h frame) (begin_of_json h) = Some (Begin_Transaction c)"
    using assms(3, 4) transaction_main_store [of e h w] f
    by (auto split: option.splits begin_command.splits)
  obtain w2 res where run: "run_transaction e h c w1 = (w2, res)" by (rule prod.exhaust)
  have main: "transaction_main e h w =
      conclude transaction_exit (w2, map_sum id (map_option (answer_json \<circ> Command_Success)) res)"
    by (simp add: transaction_main_def f c run)
  then have store: "world_store w2 \<noteq> world_store w1" "world_disk w' = world_disk w2"
    using assms(3, 4) w1 conclude_store [of transaction_exit w2] conclude_disk [of transaction_exit w2] by (metis fst_conv)+
  from transaction_committed [OF run store(1)] obtain b n m d sha where
    t: "load_credential_bundle h (tx_bundle_path c) (world_disk w) = Inr b"
      "secure_recovery e h c b (world_store w) (world_disk w) = (d, Inr sha)"
      "decide_and_rotate e h (command_request (tx_database_url c) b (tx_fail_before_commit c))
        (announce (ready_json sha n m) (w1\<lparr>world_disk := d\<rparr>)) = (w2, res)"
    using w1 by metis
  have dec: "is_decision h ''commit'' (fst (read_frame (announce (ready_json sha n m) (w1\<lparr>world_disk := d\<rparr>))))"
    "world_disk w2 = d" "emitted w2 = emitted w1 @ [ready_json sha n m]" "\<exists>result. res = Inr (Some result)"
    using decide_committed [OF t(3)] store(1) by simp_all
  have out: "\<exists>x. emitted w' = emitted w2 @ [x] \<and> status = 0"
    using main assms(3) dec(4) by (auto simp: conclude_def)
  have "w1 = w\<lparr>input_lines := tl (input_lines w)\<rparr>" using f by (simp add: read_frame_eq)
  then have "is_decision h ''commit'' (nth_frame 1 w)"
    using dec(1)
    by (cases "input_lines w"; cases "tl (input_lines w)") (simp_all add: read_frame_eq nth_frame_def)
  moreover obtain snapshot old where "snapshot_connection h (world_store w) = Inr snapshot"
    "load_database_recovery e h (tx_recovery_path c) (bundle_rotation_id b) (bundle_database_id b) d = Inr old"
    "length old = length snapshot" "sha256_digest h old = sha256_digest h snapshot"
    "assert_recovery_digest e h (tx_recovery_path c) sha d = Inr ()"
    using secured [OF assms(1) t(2) _ bundle_uuids [OF assms(1) t(1)]] assms(2) by auto
  moreover note out t(1) store(2) dec(2, 3)
  ultimately show ?thesis
    by - (rule exI [of _ c], rule exI [of _ b], rule exI [of _ sha], rule exI [of _ n], rule exI [of _ m],
      rule exI [of _ snapshot], rule exI [of _ old], auto)
qed

subsection \<open>Reading the bundle back\<close>

lemma read_all_map: "(\<And>x. x \<in> set xs \<Longrightarrow> g (k x) = Some x) \<Longrightarrow> read_all g (map k xs) = Some xs"
  by (induction xs) auto

lemma bundle_json_read:
  assumes "bundle_ok b" "uuid_text h (bundle_rotation_id b) = Some (bundle_rotation_id b)"
    "uuid_text h (bundle_database_id b) = Some (bundle_database_id b)"
  shows "bundle_of_json h (bundle_json b) = Some b"
proof -
  have "credential_of_json (JObj [(lit ''username'', JStr (credential_username c)),
      (lit ''password'', JStr (credential_password c))]) = Some c" if "c \<in> set (bundle_users b)" for c
    using assms(1) that
    by (cases c) (auto simp: credential_of_json_def keys_within_def string_field_def obj_get_def bundle_ok_def list_all_iff Let_def)
  then have "read_all credential_of_json (map (\<lambda>c. JObj [(lit ''username'', JStr (credential_username c)),
      (lit ''password'', JStr (credential_password c))]) (bundle_users b)) = Some (bundle_users b)"
    by (rule read_all_map)
  with assms show ?thesis
    by (cases b) (simp add: bundle_of_json_def bundle_json_def keys_within_def default_uuid_field_def uuid_field_def
      string_field_def obj_get_def Let_def)
qed

lemma bundle_json_plain: "no_float (bundle_json b)" "dict_ok (bundle_json b)"
  by (auto simp: bundle_json_def)

lemma bundle_loads:
  assumes "host_lawful e h" "protected_json h (bundle_json b) CREDENTIAL_BUNDLE = Inr c"
    "f path = Some \<lparr>disk_content = c, disk_links = n\<rparr>" "file_readable h path" "bundle_ok b"
    "uuid_text h (bundle_rotation_id b) = Some (bundle_rotation_id b)"
    "uuid_text h (bundle_database_id b) = Some (bundle_database_id b)"
  shows "load_credential_bundle h path f = Inr b"
proof -
  from protected_json_read [OF assms(1) bundle_json_plain assms(2)] obtain t where
    "unprotect_for_current_user h c CREDENTIAL_BUNDLE = Inr t" "parse_json h t = Some (bundle_json b)" by blast
  with bundle_json_read [OF assms(5-7)] assms(3, 4) show ?thesis
    by (simp add: load_credential_bundle_def read_bytes_def of_option_def)
qed

subsection \<open>A dialogue\<close>

definition begin_json :: json where
  "begin_json = JObj [(lit ''action'', JStr (lit ''begin'')), (lit ''database_url'', JStr (lit ''sqlite:///x'')),
     (lit ''bundle_path'', JStr (lit ''b'')), (lit ''recovery_path'', JStr (lit ''r''))]"

definition commit_json :: json where
  "commit_json = JObj [(lit ''action'', JStr (lit ''commit''))]"

definition dialogue_world :: rotation_world where
  "dialogue_world = \<lparr>world_store = small_store,
     world_disk = small_disk(lit ''b'' \<mapsto> \<lparr>disk_content = the (plain_print (bundle_json small_bundle)), disk_links = 1\<rparr>),
     emitted = [], input_lines = [the (plain_print begin_json), the (plain_print commit_json)]\<rparr>"

definition small_transaction :: begin_transaction where
  "small_transaction = \<lparr>tx_database_url = lit ''sqlite:///x'', tx_bundle_path = lit ''b'', tx_recovery_path = lit ''r'',
     tx_recovery_sha256 = None, tx_reuse_recovery = False, tx_fail_before_commit = False\<rparr>"

lemma plain_parse_print:
  assumes "json_scalar v" "dict_ok v"
  shows "plain_parse (the (plain_print v)) = Some v"
proof -
  obtain b where b: "plain_print v = Some b" using plain_print_total [OF assms(1)] by blast
  with utf8_roundtrip [of "js_print Compact 0 v" b] assms json_scalar_no_float
  show ?thesis by (simp add: plain_print_def plain_parse_def loads_print)
qed

lemma plain_no_bom:
  assumes "json_scalar (JObj kvs)"
  shows "without_bom (the (plain_print (JObj kvs))) = the (plain_print (JObj kvs))"
proof -
  obtain t where t: "js_print Compact 0 (JObj kvs) = 123 # t" by (cases kvs) simp_all
  obtain b where b: "plain_print (JObj kvs) = Some b" using plain_print_total [OF assms] by blast
  then have "hd b = char_of (123 :: nat) \<and> b \<noteq> []"
    using t by (auto simp: plain_print_def utf8_encode_def utf8_char_def is_surrogate_def split: option.splits)
  then have "\<not> starts_with b UTF8_BOM"
    by (cases b) (auto simp: starts_with_def UTF8_BOM_def)
  then show ?thesis by (simp add: without_bom_def b)
qed

lemma small_scalar: "json_scalar begin_json" "json_scalar commit_json" "json_scalar (bundle_json small_bundle)"
  by (simp_all add: begin_json_def commit_json_def bundle_json_def small_bundle_def lit_scalar)
    (simp add: list_all_iff is_scalar_def is_surrogate_def)

lemma small_bundle_loads: "load_credential_bundle plain_host (lit ''b'') (world_disk dialogue_world) = Inr small_bundle"
proof -
  have "protected_json plain_host (bundle_json small_bundle) CREDENTIAL_BUNDLE =
      Inr (the (plain_print (bundle_json small_bundle)))"
    using plain_print_total [OF small_scalar(3)]
    by (auto simp: protected_json_def protect_for_current_user_def of_option_def)
  then show ?thesis
    by (rule bundle_loads [OF plain_lawful])
      (simp_all add: dialogue_world_def bundle_ok_def credential_ok_def small_bundle_def)
qed

lemma dialogue_commits:
  "\<exists>w' status. transaction_main small_env plain_host dialogue_world = (w', status) \<and>
     world_store w' = rotated_store small_env small_bundle small_store"
proof -
  define w1 where "w1 = dialogue_world\<lparr>input_lines := [the (plain_print commit_json)]\<rparr>"
  have frame: "read_frame dialogue_world = (the (plain_print begin_json), w1)"
    using plain_no_bom [of "[(lit ''action'', JStr (lit ''begin'')), (lit ''database_url'', JStr (lit ''sqlite:///x'')),
       (lit ''bundle_path'', JStr (lit ''b'')), (lit ''recovery_path'', JStr (lit ''r''))]"] small_scalar(1)
    by (simp add: read_frame_def dialogue_world_def w1_def begin_json_def)
  have begun: "Option.bind (parse_json plain_host (the (plain_print begin_json))) (begin_of_json plain_host) =
      Some (Begin_Transaction small_transaction)"
  proof -
    have "dict_ok begin_json" by (simp add: begin_json_def)
    moreover have "sqlite_url (lit ''sqlite:///x'')" by (simp add: sqlite_url_def starts_with_def lit_def)
    ultimately show ?thesis
      by (simp add: plain_parse_print small_scalar)
        (simp add: begin_json_def begin_of_json_def keys_within_def string_field_def url_field_def flag_field_def
          sha_default_field_def obj_get_def small_transaction_def Let_def)
  qed
  have req: "command_request (lit ''sqlite:///x'') small_bundle False = small_rotation" by (simp add: small_rotation_def)
  have b: "rotation_bundle small_rotation = small_bundle" by (simp add: small_rotation_def command_request_def)
  have none: "find_existing_rotation_result small_env small_rotation small_store = Inr None"
    using small_ids(2) by (simp add: find_existing_rotation_result_def)
  have valid: "validate_rotation_transaction small_rotation small_store = Inr (1, 0)"
    using refusal_none_scope [OF small_refusal]
    by (simp add: validate_rotation_transaction_def validate_rotation_scope_eq b)
      (simp add: small_store_def session_count_def small_bundle_def)
  have w1: "world_store w1 = small_store" "world_disk w1 = world_disk dialogue_world"
    by (simp_all add: w1_def dialogue_world_def)
  obtain f sha where rec: "create_database_recovery_from_connection small_env plain_host small_store (lit ''r'') (lit ''R'')
      (lit ''D'') (world_disk w1) = (f, Inr sha)"
    using small_recovery_written [of "world_disk w1"] by (auto simp: w1 dialogue_world_def small_disk_def)
  then have sha: "hex64_pattern sha"
    by (auto simp: create_database_recovery_from_connection_def small_snapshot dest!: write_recovery_Inr intro: small_digest)
  have secured: "secure_recovery small_env plain_host small_transaction small_bundle small_store (world_disk w1) = (f, Inr sha)"
    using rec by (simp add: secure_recovery_def small_transaction_def) (simp add: small_bundle_def)
  have ready: "ready_errors sha 1 0 = []" using sha by (simp add: ready_errors_def bound_error_def)
  have commit: "is_decision plain_host ''commit'' (the (plain_print commit_json))"
    using plain_parse_print [OF small_scalar(2)]
    by (simp add: is_decision_def) (simp add: commit_json_def keys_within_def obj_get_def)
  have line: "without_bom (the (plain_print commit_json)) = the (plain_print commit_json)"
    using plain_no_bom [of "[(lit ''action'', JStr (lit ''commit''))]"] small_scalar(2) by (simp add: commit_json_def)
  have rotated: "rotate_in_transaction small_env small_rotation small_store =
      Inr (rotated_store small_env small_bundle small_store, counts 1 1 1 0 0)"
    using rotate_in_transaction_eq [OF small_ids, of small_env] by (simp add: small_refusal small_counts b)
  have tx: "tx_bundle_path small_transaction = lit ''b''" "tx_database_url small_transaction = lit ''sqlite:///x''"
    "\<not> tx_fail_before_commit small_transaction" by (simp_all add: small_transaction_def)
  have run: "run_transaction small_env plain_host small_transaction w1 =
      rotate_with_recovery small_env plain_host small_transaction small_rotation w1"
    using small_bundle_loads by (simp add: run_transaction_def tx w1 req none)
  have "world_store (fst (run_transaction small_env plain_host small_transaction w1)) =
      rotated_store small_env small_bundle small_store"
    unfolding run
    by (simp add: rotate_with_recovery_def w1(1) valid b secured ready decide_and_rotate_def read_frame_def)
      (simp add: w1_def dialogue_world_def line commit rotated)
  then show ?thesis
    using transaction_main_store [of small_env plain_host dialogue_world]
    by (cases "transaction_main small_env plain_host dialogue_world") (simp add: frame begun [simplified])
qed

text \<open>The rotation left a row in the ledger, so that the database changed.\<close>

lemma no_commit_without_recovery_witness:
  "\<exists>w' n m sha. is_decision plain_host ''commit'' (nth_frame 1 dialogue_world) \<and> ready_json sha n m \<in> set (emitted w') \<and>
     transaction_main small_env plain_host dialogue_world = (w', 0)"
proof -
  obtain w' status where w: "transaction_main small_env plain_host dialogue_world = (w', status)"
    "world_store w' = rotated_store small_env small_bundle small_store" using dialogue_commits by blast
  have "ledger (world_store w') \<noteq> ledger (world_store dialogue_world)" by (simp add: w(2) dialogue_world_def)
  then have "world_store w' \<noteq> world_store dialogue_world" by auto
  from no_commit_without_recovery [OF plain_lawful _ w(1) this] w(1) show ?thesis by auto
qed

end
