(* ===== verification/Rotation_Lifecycle.thy ===== *)
theory Rotation_Lifecycle
  imports Rotation_Protocol
begin

text \<open>
  The three commands of a rotation one after the other: prepare a bundle, commit the rotation, verify it. When the
  machine does its part, all three come through.
\<close>

definition lifecycle_identity :: "rotation_host \<Rightarrow> rotation_store \<Rightarrow> pystr" where
  "lifecycle_identity h s = (case database_identity s of None \<Rightarrow> fresh_uuid h | Some i \<Rightarrow> i)"

definition lifecycle_bundle :: "rotation_host \<Rightarrow> pystr \<Rightarrow> rotation_store \<Rightarrow> credential_bundle" where
  "lifecycle_bundle h admin_username s =
     \<lparr>bundle_rotation_id = fresh_rotation h, bundle_database_id = lifecycle_identity h s,
      bundle_admin_username = admin_username, bundle_jwt_secret_key = token_hex h,
      bundle_users = map (\<lambda>(i, u). \<lparr>credential_username = username u, credential_password = token_urlsafe h i\<rparr>)
        (enumerate 0 (users_by_id s))\<rparr>"

text \<open>The machine: locks, commits and files are granted, and the \<open>n\<close> tokens that are drawn are long and differ.\<close>

definition host_works :: "rotation_host \<Rightarrow> pystr \<Rightarrow> nat \<Rightarrow> bool" where
  "host_works h path n \<longleftrightarrow> lock_granted h \<and> commit_granted h \<and> file_readable h path \<and>
     disk_answer h path = Disk_Written \<and> 32 \<le> length (token_hex h) \<and>
     (\<forall>i < n. 24 \<le> length (token_urlsafe h i)) \<and> inj_on (token_urlsafe h) {..<n}"

text \<open>Hashes of these tokens: each token is hashed, its hash verifies it, and is none that an account had.\<close>

definition hashes_work :: "env \<Rightarrow> rotation_host \<Rightarrow> user list \<Rightarrow> bool" where
  "hashes_work e h us \<longleftrightarrow>
     (\<forall>i < length us. \<exists>new. make_hash e (token_urlsafe h i) = Inr new \<and>
        verify_password e (token_urlsafe h i) new = Inr True \<and> new \<notin> password_hash ` set us)"

lemma lifecycle_new_bundle:
  assumes "host_works h path (length (users (accounts s)))"
  shows "new_bundle h (lifecycle_identity h s) name (users_by_id s) = Inr (lifecycle_bundle h name s)"
    "bundle_ok (lifecycle_bundle h name s)"
proof -
  have len: "24 \<le> length (token_urlsafe h i)" if "i < length (users (accounts s))" for i
    using assms that by (simp add: host_works_def)
  have idx: "i < length (users (accounts s))" if "(i, u) \<in> set (enumerate 0 (users_by_id s))" for i u
    using that by (auto simp: in_set_enumerate_eq)
  have "map_result (\<lambda>(i, u). new_credential h i u) ps =
      Inr (map (\<lambda>(i, u). \<lparr>credential_username = username u, credential_password = token_urlsafe h i\<rparr>) ps)"
    if "set ps \<subseteq> set (enumerate 0 (users_by_id s))" for ps
    using that
  proof (induction ps)
    case (Cons p ps)
    obtain i u where p: "p = (i, u)" by (cases p)
    with Cons.prems have "24 \<le> length (token_urlsafe h i)" by (intro len idx) auto
    with Cons p show ?case by (simp add: new_credential_def credential_ok_def Let_def)
  qed simp
  moreover show "bundle_ok (lifecycle_bundle h name s)"
    using assms idx by (auto simp: bundle_ok_def lifecycle_bundle_def credential_ok_def list_all_iff host_works_def)
  ultimately show "new_bundle h (lifecycle_identity h s) name (users_by_id s) = Inr (lifecycle_bundle h name s)"
    by (simp add: new_bundle_def lifecycle_bundle_def Let_def)
qed

lemma lifecycle_names [simp]:
  "map credential_username (bundle_users (lifecycle_bundle h name s)) = map username (users_by_id s)"
  "map credential_password (bundle_users (lifecycle_bundle h name s)) =
    map (token_urlsafe h) [0..<length (users (accounts s))]"
  by (simp_all add: lifecycle_bundle_def case_prod_beta comp_def)
    (simp_all add: map_map [symmetric, unfolded comp_def] del: map_map)

lemma lifecycle_scope:
  assumes "host_works h path (length (users (accounts s)))" "inspect_credential_scope name s = Inr n"
    "distinct (map username (users_by_id s))" "users_by_id s' = users_by_id s"
  shows "scope_refusal (users_by_id s') (lifecycle_bundle h name s) = None"
proof -
  have "distinct (map credential_password (bundle_users (lifecycle_bundle h name s)))"
    using assms(1) by (simp add: distinct_map host_works_def atLeast0LessThan)
  moreover have "length (bundle_users (lifecycle_bundle h name s)) = length (users_by_id s)"
    by (simp add: lifecycle_bundle_def)
  moreover have "bundle_admin_username (lifecycle_bundle h name s) = name" by (simp add: lifecycle_bundle_def)
  ultimately show ?thesis
    using assms(2, 3)
    by (auto simp: scope_refusal_def assms(4) inspect_credential_scope_def validate_active_admin_eq result_simps Let_def
      simp del: users_by_id_length split: if_splits)
qed

text \<open>The hash an account gets is the one of its own password.\<close>

lemma lifecycle_password:
  assumes "scope_refusal us (lifecycle_bundle h name s) = None" "u \<in> set us" "hashes_work e h (users (accounts s))"
  obtains c where "credential_by_username (lifecycle_bundle h name s) (username u) = Some c"
    "make_hash e (credential_password c) = Inr (password_hash (rotated_user e (lifecycle_bundle h name s) u))"
    "verify_password e (credential_password c) (password_hash (rotated_user e (lifecycle_bundle h name s) u)) = Inr True"
    "password_hash (rotated_user e (lifecycle_bundle h name s) u) \<notin> password_hash ` set (users (accounts s))"
proof -
  from credential_found [OF assms(1, 2)] obtain c where c: "c \<in> set (bundle_users (lifecycle_bundle h name s))"
    "credential_by_username (lifecycle_bundle h name s) (username u) = Some c" by blast
  then obtain i where "i < length (users (accounts s))" "credential_password c = token_urlsafe h i"
    by (auto simp: lifecycle_bundle_def in_set_enumerate_eq)
  with assms(3) obtain new where "make_hash e (credential_password c) = Inr new"
    "verify_password e (credential_password c) new = Inr True" "new \<notin> password_hash ` set (users (accounts s))"
    by (auto simp: hashes_work_def)
  with c(2) that show thesis by (simp add: rotated_user_def)
qed

lemma lifecycle_ready:
  assumes "host_works h path (length (users (accounts s)))" "inspect_credential_scope name s = Inr n"
    "distinct (map username (users_by_id s))" "hashes_work e h (users (accounts s))" "users_by_id s' = users_by_id s"
    "database_identity s' = Some (lifecycle_identity h s)" "\<not> fail_before_commit r"
    "rotation_bundle r = lifecycle_bundle h name s"
    "material_fingerprint e (lifecycle_bundle h name s) \<notin> row_material_fingerprint ` set (ledger s')"
  shows "rotation_refusal e r s' = None"
proof -
  note scope = lifecycle_scope [OF assms(1-3, 5)]
  have ok: "\<not> unhashable e (lifecycle_bundle h name s) u \<and>
      password_hash (rotated_user e (lifecycle_bundle h name s) u) \<noteq> password_hash u" if "u \<in> set (users_by_id s')" for u
  proof -
    from that assms(5) have u: "u \<in> set (users (accounts s))" by simp
    show ?thesis
      by (rule lifecycle_password [OF scope that assms(4)]) (use u in \<open>force simp: unhashable_def\<close>)
  qed
  then have "\<not> list_ex (unhashable e (lifecycle_bundle h name s)) (users_by_id s')" by (auto simp: list_ex_iff)
  moreover from ok have "\<not> list_ex (\<lambda>u. password_hash (rotated_user e (lifecycle_bundle h name s) u) = password_hash u) (users_by_id s')"
    by (auto simp: list_ex_iff)
  moreover have "bundle_database_id (lifecycle_bundle h name s) = lifecycle_identity h s" by (simp add: lifecycle_bundle_def)
  ultimately show ?thesis using scope assms(6-9) by (simp add: rotation_refusal_def)
qed

subsection \<open>The commands\<close>

lemma prepared:
  assumes "host_lawful e h" "host_works h path (length (users (accounts (world_store w))))"
    "inspect_credential_scope name (world_store w) = Inr n"
    "uuid_text h (lifecycle_identity h (world_store w)) = Some (lifecycle_identity h (world_store w))"
    "protected_json h (bundle_json (lifecycle_bundle h name (world_store w))) CREDENTIAL_BUNDLE = Inr c"
  shows "\<exists>k. run_command e h (Prepare_Command url name path) w =
    (w\<lparr>world_store := (world_store w)\<lparr>database_identity := Some (lifecycle_identity h (world_store w))\<rparr>,
       world_disk := (world_disk w)(path \<mapsto> \<lparr>disk_content = c, disk_links = k\<rparr>)\<rparr>,
     Inr (Command_Success (counts n n 0 0 0)))"
proof -
  let ?s = "world_store w"
  have "ensure_database_identity (uuid_text h) (fresh_uuid h) (lock_granted h) (commit_granted h) ?s =
      (?s\<lparr>database_identity := Some (lifecycle_identity h ?s)\<rparr>, Inr (lifecycle_identity h ?s))"
    using assms(2, 4)
    by (simp add: ensure_database_identity_def in_transaction_def host_works_def lifecycle_identity_def Let_def)
  then show ?thesis
    using assms(2, 3, 5) lifecycle_new_bundle(1) [OF assms(2), of name]
    by (simp add: prepare_credential_bundle_def put_file_def host_works_def Let_def) (rule exI, rule refl)
qed

lemma verified_after:
  assumes "distinct_ids s" "find_ledger (bundle_rotation_id (rotation_bundle r)) s = None"
    "list_all (\<lambda>u. verified_password e (rotation_bundle r) (rotated_user e (rotation_bundle r) u) = Inr True) (users_by_id s)"
  shows "verify_rotation_state e r (rotated_store e (rotation_bundle r) s) =
    Inr \<lparr>verified_user_count = int (length (users (accounts s))), password_count_verified = int (length (users (accounts s))),
      verified_session_count = 0\<rparr>"
proof -
  have "map_result (verified_password e b) (map (rotated_user e b) us) = Inr (replicate (length us) True)"
    if "list_all (\<lambda>u. verified_password e b (rotated_user e b u) = Inr True) us" for b us
    using that by (induction us) auto
  from this [OF assms(3)] show ?thesis using assms(2)
    by (simp add: verify_rotation_state_def find_ledger_rotated existing_result_def filter_replicate Let_def)
qed

text \<open>
  C15 [rotation_lifecycle]: on a database with an active administrator, distinct accounts and no trace of the new rotation
  or its material, and on a machine that grants locks, commits, files, as many long distinct tokens as there are
  accounts, and hashes of these tokens that verify them and are new, preparing a bundle,
  committing it and verifying it all succeed; the commit changes the password of every account and ends every
  session, and the verification finds every account with its new password.
\<close>

theorem rotation_lifecycle:
  assumes "host_lawful e h" "host_works h path (length (users (accounts (world_store w))))"
    "hashes_work e h (users (accounts (world_store w)))"
    "distinct_ids (world_store w)" "distinct (map username (users_by_id (world_store w)))"
    "inspect_credential_scope name (world_store w) = Inr n"
    "uuid_text h (lifecycle_identity h (world_store w)) = Some (lifecycle_identity h (world_store w))"
    "protected_json h (bundle_json (lifecycle_bundle h name (world_store w))) CREDENTIAL_BUNDLE = Inr c"
    "find_ledger (fresh_rotation h) (world_store w) = None"
    "material_fingerprint e (lifecycle_bundle h name (world_store w)) \<notin> row_material_fingerprint ` set (ledger (world_store w))"
  shows "\<exists>w1 w2. run_command e h (Prepare_Command url name path) w = (w1, Inr (Command_Success (counts n n 0 0 0))) \<and>
    run_command e h (Commit_Command url path False) w1 =
      (w2, Inr (Command_Success (counts n n n (session_count (world_store w)) 0))) \<and>
    run_command e h (Verify_Command url path) w2 = (w2, Inr (Command_Success (counts n n n 0 0)))"
proof -
  define s where "s = world_store w"
  define b where "b = lifecycle_bundle h name s"
  define s1 where "s1 = s\<lparr>database_identity := Some (lifecycle_identity h s)\<rparr>"
  define r where "r = command_request url b False"
  have r: "rotation_bundle r = b" "\<not> fail_before_commit r" by (simp_all add: r_def command_request_def)
  have s1: "users_by_id s1 = users_by_id s" "distinct_ids s1" "session_count s1 = session_count s" "ledger s1 = ledger s"
    "database_identity s1 = Some (lifecycle_identity h s)" "users (accounts s1) = users (accounts s)"
    using assms(4) by (simp_all add: s1_def s_def users_by_id_def distinct_ids_def session_count_def)
  have n: "n = int (length (users (accounts s)))"
    using assms(6) by (auto simp: inspect_credential_scope_def s_def Let_def result_simps split: if_splits)
  from prepared [OF assms(1, 2, 6-8)] obtain w1 k where w1:
    "run_command e h (Prepare_Command url name path) w = (w1, Inr (Command_Success (counts n n 0 0 0)))"
    "world_store w1 = s1" "world_disk w1 path = Some \<lparr>disk_content = c, disk_links = k\<rparr>"
    by (fastforce simp: s1_def s_def)
  have "bundle_rotation_id b = fresh_rotation h" "bundle_database_id b = lifecycle_identity h s"
    by (simp_all add: b_def lifecycle_bundle_def)
  then have load: "load_credential_bundle h path (world_disk w1) = Inr b"
    and new: "find_ledger (bundle_rotation_id (rotation_bundle r)) s1 = None"
    using bundle_loads [where path = path and f = "world_disk w1" and b = b and c = c and n = k, OF assms(1)] w1(3) assms(1, 2, 7-9) lifecycle_new_bundle(2) [OF assms(2)]
    by (simp_all add: b_def s_def host_works_def host_lawful_def r s1(4) find_ledger_def)
  have "rotation_refusal e r s1 = None"
    using assms(3, 5, 6, 10) s1(4, 5) r
    by (intro lifecycle_ready [OF assms(2), where name = name and n = n]) (simp_all add: s_def b_def s1(1))
  then have rotated: "rotate_all_credentials e (lock_granted h) (commit_granted h) r s1 = (rotated_store e b s1, Inr (new_counts s1))"
    using rotate_all_eq [OF s1(2) new] assms(2) by (simp add: host_works_def r)
  have cnt: "new_counts s1 = counts n n n (session_count s) 0" by (simp add: new_counts_def n s1(3, 6) Let_def)
  define w2 where "w2 = w1\<lparr>world_store := rotated_store e b s1\<rparr>"
  have commit: "run_command e h (Commit_Command url path False) w1 =
      (w2, Inr (Command_Success (counts n n n (session_count s) 0)))"
    using load rotated by (simp add: w1(2) r_def w2_def cnt)
  have scope: "scope_refusal (users_by_id s1) b = None"
    using lifecycle_scope [OF assms(2), where name = name and n = n and s' = s1] assms(5, 6) s1(1) by (simp add: b_def s_def)
  have "verified_password e b (rotated_user e b u) = Inr True" if "u \<in> set (users_by_id s1)" for u
    by (rule lifecycle_password [OF scope [unfolded b_def] that assms(3) [folded s_def]])
      (simp add: verified_password_def b_def)
  then have "list_all (\<lambda>u. verified_password e b (rotated_user e b u) = Inr True) (users_by_id s1)"
    by (simp add: list_all_iff)
  then have "verify_rotation_state e r (rotated_store e b s1) =
      Inr \<lparr>verified_user_count = n, password_count_verified = n, verified_session_count = 0\<rparr>"
    using verified_after [OF s1(2) new] by (simp add: r n s1(6))
  moreover have "load_credential_bundle h path (world_disk w2) = Inr b" using load by (simp add: w2_def)
  ultimately have "run_command e h (Verify_Command url path) w2 = (w2, Inr (Command_Success (counts n n n 0 0)))"
    by (simp add: r_def w2_def)
  with w1(1) commit show ?thesis by (auto simp: s_def)
qed

lemma rotation_lifecycle_witness:
  "\<exists>w1 w2. run_command small_env plain_host (Commit_Command (lit ''u'') (lit ''b'') False) w1 =
      (w2, Inr (Command_Success (counts 1 1 1 0 0))) \<and>
    run_command small_env plain_host (Verify_Command (lit ''u'') (lit ''b'')) w2 = (w2, Inr (Command_Success (counts 1 1 1 0 0)))"
proof -
  have works: "host_works plain_host (lit ''b'') (length (users (accounts (world_store small_world))))"
    by (auto simp: host_works_def inj_on_def) (metis dec_value_digits)
  have hashes: "hashes_work small_env plain_host (users (accounts (world_store small_world)))"
    by (simp add: hashes_work_def small_world_def small_store_def small_admin_def small_env_def verify_password_def lit_def)
  have scope: "inspect_credential_scope (lit ''root'') (world_store small_world) = Inr 1"
    by (simp add: inspect_credential_scope_def validate_active_admin_def users_by_id_def small_world_def small_store_def small_admin_def)
  have "json_scalar (bundle_json (lifecycle_bundle plain_host (lit ''root'') (world_store small_world)))"
    using dec_digits_ascii
    by (simp add: bundle_json_def lifecycle_bundle_def lifecycle_identity_def users_by_id_def small_world_def small_store_def
      small_admin_def lit_scalar scalar_ascii) (auto simp: list_all_iff is_scalar_def is_surrogate_def)
  then obtain c where c: "protected_json plain_host (bundle_json (lifecycle_bundle plain_host (lit ''root'') (world_store small_world)))
      CREDENTIAL_BUNDLE = Inr c"
    using plain_print_total by (fastforce simp: protected_json_def protect_for_current_user_def of_option_def)
  have ids: "distinct_ids (world_store small_world)" "distinct (map username (users_by_id (world_store small_world)))"
    "find_ledger (fresh_rotation plain_host) (world_store small_world) = None" "ledger (world_store small_world) = []"
    "session_count (world_store small_world) = 0"
    by (simp_all add: distinct_ids_def users_by_id_def small_world_def small_store_def find_ledger_def session_count_def)
  from rotation_lifecycle [OF plain_lawful works hashes ids(1, 2) scope _ c ids(3)] ids(4, 5) show ?thesis
    by simp blast
qed

end
