(* ===== verification/Package_Policy.thy ===== *)
theory Package_Policy
  imports Py_Json
begin

text \<open>
  The policy of offline packages and the verifier of a staged package and of its ZIP,
  \<open>operations/package_policy_contracts.py\<close> and \<open>operations/package_policy_verifier.py\<close>.
  The staging directory is a tree of files, links and directories, as \<open>os.walk\<close> finds it; every directory of it
  can be listed, and names in it are compared with case. A resolved path is the list of its parts, compared as \<open>pathlib\<close> compares them. An archive is the
  list of its central directory, as \<open>zipfile\<close> reads it, each member with the bytes it decompresses to. SHA-256,
  the mappings of case outside ASCII and the files outside the tree are fields of \<open>package_host\<close>. A raised
  \<open>PackagePolicyError\<close> is \<open>Policy_Failure\<close> with its code; other exceptions have their own constructors.
\<close>

record package_host =
  hash_hex :: "bytes \<Rightarrow> pystr"
  lower_of :: "pystr \<Rightarrow> pystr"
  upper_of :: "pystr \<Rightarrow> pystr"
  casefold_of :: "pystr \<Rightarrow> pystr"
  read_outside :: "pystr \<Rightarrow> bytes option"

subsection \<open>Error codes and records\<close>

datatype policy_code =
    PATH_TRAVERSAL | SYMLINK_ENTRY | DUPLICATE_ENTRY | TOPLEVEL_NOT_ALLOWED | FORBIDDEN_ENV_SECRET
  | FORBIDDEN_DATABASE | FORBIDDEN_STORAGE_RUNTIME | FORBIDDEN_AGENT_STATE | FORBIDDEN_DEV_ARTIFACT
  | MANIFEST_MISSING_ENTRY | MANIFEST_EXTRA_ENTRY | MANIFEST_HASH_MISMATCH | MANIFEST_PROVENANCE_MISMATCH
  | INSTALLER_MISSING | INSTALLER_HASH_MISMATCH | INSTALLER_SIGNATURE_INVALID | INSTALLER_THUMBPRINT_MISMATCH
  | INSTALLER_SUBJECT_MISMATCH | POST_ZIP_DIGEST_MISMATCH | POST_ZIP_ENTRY_COUNT_MISMATCH | POST_ZIP_UNKNOWN_ENTRY

fun policy_code_value :: "policy_code \<Rightarrow> pystr" where
  "policy_code_value PATH_TRAVERSAL = lit ''path-traversal''"
| "policy_code_value SYMLINK_ENTRY = lit ''symlink-entry''"
| "policy_code_value DUPLICATE_ENTRY = lit ''duplicate-entry''"
| "policy_code_value TOPLEVEL_NOT_ALLOWED = lit ''toplevel-not-allowed''"
| "policy_code_value FORBIDDEN_ENV_SECRET = lit ''forbidden-env-secret''"
| "policy_code_value FORBIDDEN_DATABASE = lit ''forbidden-database''"
| "policy_code_value FORBIDDEN_STORAGE_RUNTIME = lit ''forbidden-storage-runtime''"
| "policy_code_value FORBIDDEN_AGENT_STATE = lit ''forbidden-agent-state''"
| "policy_code_value FORBIDDEN_DEV_ARTIFACT = lit ''forbidden-dev-artifact''"
| "policy_code_value MANIFEST_MISSING_ENTRY = lit ''manifest-missing-entry''"
| "policy_code_value MANIFEST_EXTRA_ENTRY = lit ''manifest-extra-entry''"
| "policy_code_value MANIFEST_HASH_MISMATCH = lit ''manifest-hash-mismatch''"
| "policy_code_value MANIFEST_PROVENANCE_MISMATCH = lit ''manifest-provenance-mismatch''"
| "policy_code_value INSTALLER_MISSING = lit ''installer-missing''"
| "policy_code_value INSTALLER_HASH_MISMATCH = lit ''installer-hash-mismatch''"
| "policy_code_value INSTALLER_SIGNATURE_INVALID = lit ''installer-signature-invalid''"
| "policy_code_value INSTALLER_THUMBPRINT_MISMATCH = lit ''installer-thumbprint-mismatch''"
| "policy_code_value INSTALLER_SUBJECT_MISMATCH = lit ''installer-subject-mismatch''"
| "policy_code_value POST_ZIP_DIGEST_MISMATCH = lit ''post-zip-digest-mismatch''"
| "policy_code_value POST_ZIP_ENTRY_COUNT_MISMATCH = lit ''post-zip-entry-count-mismatch''"
| "policy_code_value POST_ZIP_UNKNOWN_ENTRY = lit ''post-zip-unknown-entry''"

datatype package_failure = Policy_Failure policy_code | Os_Failure | Key_Failure | Zip_Failure

type_synonym 'a packaged = "(package_failure, 'a) result"

record forbidden_category =
  category_name :: pystr
  category_patterns :: "pystr list"
  category_allows :: "pystr list"

record required_installer =
  installer_filename :: pystr
  installer_sha256 :: pystr
  installer_thumbprint :: pystr
  installer_subject :: pystr

record policy_document =
  policy_version :: int
  policy_profile :: pystr
  allow_top_level_entries :: "pystr list"
  forbidden_categories :: "forbidden_category list"
  required_installers :: "required_installer list"

record manifest_entry =
  entry_path :: pystr
  entry_sha256 :: pystr
  entry_origin :: pystr
  entry_tag :: pystr
  entry_commit :: pystr
  entry_policy :: pystr

record package_manifest =
  manifest_entries :: "manifest_entry list"

record manifest_provenance =
  prov_origin :: pystr
  prov_tag :: pystr
  prov_commit :: pystr
  prov_policy :: pystr

record signature_info =
  signature_status :: pystr
  signature_thumbprint :: pystr
  signature_subject :: pystr

record pre_stage_result =
  staged_count :: nat
  installer_count :: nat
  entry_digests :: "pystr \<Rightarrow> pystr option"

record post_zip_result =
  zipped_count :: nat

subsection \<open>Patterns\<close>

text \<open>
  A pattern is compiled to a regular expression between \<open>^\<close> and \<open>$\<close>; its pieces are
  \<open>.*\<close> (\<open>Any_Run\<close>), \<open>/?\<close> (\<open>Opt_Slash\<close>), \<open>[^/]*\<close> (\<open>Name_Run\<close>), \<open>[^/]\<close> (\<open>Name_Char\<close>) and escaped characters.
\<close>

datatype piece = Any_Run | Opt_Slash | Name_Run | Name_Char | Char nat

definition piece_of :: "nat \<Rightarrow> piece" where
  "piece_of c = (if c = 42 then Name_Run else if c = 63 then Name_Char else Char c)"

function pattern_to_regex :: "pystr \<Rightarrow> piece list" where
  "pattern_to_regex [] = []"
| "pattern_to_regex [c] = [piece_of c]"
| "pattern_to_regex (c # d # r) =
     (if c = 42 \<and> d = 42
      then Any_Run # (if starts_with r [47] then Opt_Slash # pattern_to_regex (drop 1 r) else pattern_to_regex r)
      else piece_of c # pattern_to_regex (d # r))"
  by pat_completeness auto
termination by (relation "measure length") auto

text \<open>
  \<open>re.match\<close> on such an expression, by trying every way to go on. A dot does not match a line feed, and \<open>$\<close> matches
  at the end of the text and before a line feed that ends it.
\<close>

fun match_pieces :: "piece list \<Rightarrow> pystr \<Rightarrow> bool" where
  "match_pieces [] s \<longleftrightarrow> s = [] \<or> s = [10]"
| "match_pieces (Char c # ps) [] \<longleftrightarrow> False"
| "match_pieces (Char c # ps) (x # r) \<longleftrightarrow> x = c \<and> match_pieces ps r"
| "match_pieces (Name_Char # ps) [] \<longleftrightarrow> False"
| "match_pieces (Name_Char # ps) (x # r) \<longleftrightarrow> x \<noteq> 47 \<and> match_pieces ps r"
| "match_pieces (Opt_Slash # ps) [] \<longleftrightarrow> match_pieces ps []"
| "match_pieces (Opt_Slash # ps) (x # r) \<longleftrightarrow> x = 47 \<and> match_pieces ps r \<or> match_pieces ps (x # r)"
| "match_pieces (Name_Run # ps) [] \<longleftrightarrow> match_pieces ps []"
| "match_pieces (Name_Run # ps) (x # r) \<longleftrightarrow> x \<noteq> 47 \<and> match_pieces (Name_Run # ps) r \<or> match_pieces ps (x # r)"
| "match_pieces (Any_Run # ps) [] \<longleftrightarrow> match_pieces ps []"
| "match_pieces (Any_Run # ps) (x # r) \<longleftrightarrow> x \<noteq> 10 \<and> match_pieces (Any_Run # ps) r \<or> match_pieces ps (x # r)"

definition match_any :: "pystr \<Rightarrow> pystr list \<Rightarrow> bool" where
  "match_any rel_posix patterns \<longleftrightarrow> list_ex (\<lambda>pattern. match_pieces (pattern_to_regex pattern) rel_posix) patterns"

subsection \<open>Forbidden categories and top-level entries\<close>

definition category_codes :: "pystr \<Rightarrow> policy_code option" where
  "category_codes = map_of
     [(lit ''env-secret'', FORBIDDEN_ENV_SECRET), (lit ''database'', FORBIDDEN_DATABASE),
      (lit ''storage-runtime'', FORBIDDEN_STORAGE_RUNTIME), (lit ''agent-state'', FORBIDDEN_AGENT_STATE),
      (lit ''dev-artifact'', FORBIDDEN_DEV_ARTIFACT)]"

fun classify_in :: "pystr \<Rightarrow> forbidden_category list \<Rightarrow> policy_code option packaged" where
  "classify_in rel_posix [] = Inr None"
| "classify_in rel_posix (forbidden # rest) =
     (if match_any rel_posix (category_allows forbidden) then classify_in rel_posix rest
      else if match_any rel_posix (category_patterns forbidden)
      then (case category_codes (category_name forbidden) of
              None \<Rightarrow> Inl (Policy_Failure TOPLEVEL_NOT_ALLOWED)
            | Some code \<Rightarrow> Inr (Some code))
      else classify_in rel_posix rest)"

definition classify_forbidden :: "pystr \<Rightarrow> policy_document \<Rightarrow> policy_code option packaged" where
  "classify_forbidden rel_posix policy = classify_in rel_posix (forbidden_categories policy)"

definition check_top_level_allowed :: "pystr \<Rightarrow> policy_document \<Rightarrow> bool" where
  "check_top_level_allowed rel_posix policy \<longleftrightarrow>
     takeWhile (\<lambda>c. c \<noteq> 47) rel_posix \<in> set (allow_top_level_entries policy)"

subsection \<open>The staging tree\<close>

datatype stage_node =
    File bytes
  | File_Link "pystr list"
  | Dir_Link "pystr list"
  | Dir "(pystr \<times> stage_node) list"

record raw_entry =
  raw_path :: pystr
  raw_is_symlink :: bool
  raw_resolved :: "pystr list"

text \<open>What one round of \<open>os.walk\<close> reports: links among the directories, then the files.\<close>

definition raw_of :: "pystr list \<Rightarrow> bool \<Rightarrow> pystr list \<Rightarrow> raw_entry" where
  "raw_of rel link resolved = \<lparr>raw_path = join_with [47] rel, raw_is_symlink = link, raw_resolved = resolved\<rparr>"

definition dir_entries :: "pystr list \<Rightarrow> pystr list \<Rightarrow> (pystr \<times> stage_node) list \<Rightarrow> raw_entry list" where
  "dir_entries root rel nodes =
     concat (map (\<lambda>(name, node). case node of Dir_Link t \<Rightarrow> [raw_of (rel @ [name]) True t] | _ \<Rightarrow> []) nodes) @
     concat (map (\<lambda>(name, node). case node of
         File b \<Rightarrow> [raw_of (rel @ [name]) False (root @ rel @ [name])]
       | File_Link t \<Rightarrow> [raw_of (rel @ [name]) True t]
       | _ \<Rightarrow> []) nodes)"

fun walk_subdirs :: "pystr list \<Rightarrow> pystr list \<Rightarrow> (pystr \<times> stage_node) list \<Rightarrow> raw_entry list" where
  "walk_subdirs root rel [] = []"
| "walk_subdirs root rel ((name, Dir nodes) # rest) =
     dir_entries root (rel @ [name]) nodes @ walk_subdirs root (rel @ [name]) nodes @ walk_subdirs root rel rest"
| "walk_subdirs root rel ((name, node) # rest) = walk_subdirs root rel rest"

definition iter_raw_entries :: "pystr list \<Rightarrow> (pystr \<times> stage_node) list \<Rightarrow> raw_entry list" where
  "iter_raw_entries root nodes = sort_key raw_path (dir_entries root [] nodes @ walk_subdirs root [] nodes)"

text \<open>
  Reading \<open>root / rel\<close>. A path of ordinary names is looked up in the tree; a link on the way, and a path with other
  parts (\<open>..\<close>, a drive, a backslash, an absolute path), lead to what the machine has there.
\<close>

definition plain_name :: "pystr \<Rightarrow> bool" where
  "plain_name w \<longleftrightarrow> w \<noteq> [] \<and> w \<noteq> lit ''.'' \<and> w \<noteq> lit ''..'' \<and> 47 \<notin> set w \<and> 92 \<notin> set w \<and> 58 \<notin> set w"

fun tree_file :: "bytes option \<Rightarrow> (pystr \<times> stage_node) list \<Rightarrow> pystr list \<Rightarrow> bytes option" where
  "tree_file out nodes [] = None"
| "tree_file out nodes (w # ws) =
     (case map_of nodes w of
        None \<Rightarrow> None
      | Some (File b) \<Rightarrow> if ws = [] then Some b else None
      | Some (File_Link t) \<Rightarrow> out
      | Some (Dir_Link t) \<Rightarrow> out
      | Some (Dir ns) \<Rightarrow> tree_file out ns ws)"

definition read_stage :: "package_host \<Rightarrow> (pystr \<times> stage_node) list \<Rightarrow> pystr \<Rightarrow> bytes option" where
  "read_stage h nodes rel =
     (if list_all plain_name (split_on 47 rel) then tree_file (read_outside h rel) nodes (split_on 47 rel)
      else read_outside h rel)"

definition compute_sha256 :: "package_host \<Rightarrow> (pystr \<times> stage_node) list \<Rightarrow> pystr \<Rightarrow> pystr packaged" where
  "compute_sha256 h nodes rel = bind_result (of_option Os_Failure (read_stage h nodes rel)) (\<lambda>b. Inr (hash_hex h b))"

subsection \<open>Checks before the ZIP is made\<close>

fun validate_from ::
    "package_host \<Rightarrow> pystr list \<Rightarrow> pystr list \<Rightarrow> raw_entry list \<Rightarrow> pystr list packaged" where
  "validate_from h root seen [] = Inr []"
| "validate_from h root seen (entry # rest) =
     (if raw_is_symlink entry then Inl (Policy_Failure SYMLINK_ENTRY)
      else if lit ''..'' \<in> set (split_on 47 (raw_path entry)) then Inl (Policy_Failure PATH_TRAVERSAL)
      else if \<not> prefix root (raw_resolved entry) then Inl (Policy_Failure PATH_TRAVERSAL)
      else let lowered = lower_of h (raw_path entry) in
        if lowered \<in> set seen then Inl (Policy_Failure DUPLICATE_ENTRY)
        else bind_result (validate_from h root (lowered # seen) rest) (\<lambda>paths. Inr (raw_path entry # paths)))"

definition validate_raw_entries :: "package_host \<Rightarrow> raw_entry list \<Rightarrow> pystr list \<Rightarrow> pystr list packaged" where
  "validate_raw_entries h entries root_resolved = validate_from h root_resolved [] entries"

definition walk_stage_entries ::
    "package_host \<Rightarrow> pystr list \<Rightarrow> (pystr \<times> stage_node) list \<Rightarrow> pystr list packaged" where
  "walk_stage_entries h root nodes = validate_raw_entries h (iter_raw_entries root nodes) root"

definition verify_stage_policy :: "pystr list \<Rightarrow> policy_document \<Rightarrow> unit packaged" where
  "verify_stage_policy entries policy = for_each (\<lambda>rel_posix.
     bind_result (classify_forbidden rel_posix policy) (\<lambda>forbidden_code.
       case forbidden_code of
         Some code \<Rightarrow> Inl (Policy_Failure code)
       | None \<Rightarrow> require (check_top_level_allowed rel_posix policy) (Policy_Failure TOPLEVEL_NOT_ALLOWED))) entries"

definition verify_manifest_one_to_one :: "manifest_entry list \<Rightarrow> pystr list \<Rightarrow> unit packaged" where
  "verify_manifest_one_to_one entries actual_paths =
     (let manifest_paths = set (map entry_path entries); actual_set = set actual_paths in
      if card manifest_paths \<noteq> length entries then Inl (Policy_Failure DUPLICATE_ENTRY)
      else if card actual_set \<noteq> length actual_paths then Inl (Policy_Failure DUPLICATE_ENTRY)
      else if manifest_paths - actual_set \<noteq> {} then Inl (Policy_Failure MANIFEST_MISSING_ENTRY)
      else if actual_set - manifest_paths \<noteq> {} then Inl (Policy_Failure MANIFEST_EXTRA_ENTRY)
      else Inr ())"

fun hash_entries :: "package_host \<Rightarrow> (pystr \<times> stage_node) list \<Rightarrow> (pystr \<Rightarrow> pystr option) \<Rightarrow> manifest_entry list \<Rightarrow>
    (pystr \<Rightarrow> pystr option) packaged" where
  "hash_entries h nodes digests [] = Inr digests"
| "hash_entries h nodes digests (entry # rest) =
     bind_result (compute_sha256 h nodes (entry_path entry)) (\<lambda>actual_hash.
       if actual_hash \<noteq> entry_sha256 entry then Inl (Policy_Failure MANIFEST_HASH_MISMATCH)
       else hash_entries h nodes (digests(entry_path entry \<mapsto> actual_hash)) rest)"

definition verify_manifest_hashes ::
    "package_host \<Rightarrow> manifest_entry list \<Rightarrow> (pystr \<times> stage_node) list \<Rightarrow> (pystr \<Rightarrow> pystr option) packaged" where
  "verify_manifest_hashes h entries nodes = hash_entries h nodes Map.empty entries"

definition verify_manifest_provenance :: "manifest_entry list \<Rightarrow> manifest_provenance \<Rightarrow> unit packaged" where
  "verify_manifest_provenance entries expected = for_each (\<lambda>entry.
     if entry_origin entry \<noteq> prov_origin expected \<or> entry_tag entry \<noteq> prov_tag expected \<or>
        entry_commit entry \<noteq> prov_commit expected \<or> entry_policy entry \<noteq> prov_policy expected
     then Inl (Policy_Failure MANIFEST_PROVENANCE_MISMATCH) else Inr ()) entries"

text \<open>\<open>Path(path).name\<close> of a path without a drive.\<close>

definition path_name :: "pystr \<Rightarrow> pystr" where
  "path_name p =
     (case rev (filter (\<lambda>w. w \<noteq> [] \<and> w \<noteq> lit ''.'') (split_on 47 p)) of [] \<Rightarrow> [] | w # _ \<Rightarrow> w)"

definition verify_installer :: "package_host \<Rightarrow> manifest_entry list \<Rightarrow> (pystr \<times> stage_node) list \<Rightarrow>
    (pystr \<Rightarrow> signature_info option) \<Rightarrow> required_installer \<Rightarrow> unit packaged" where
  "verify_installer h entries nodes signature_lookup required =
     (case find (\<lambda>e. path_name (entry_path e) = installer_filename required) entries of
        None \<Rightarrow> Inl (Policy_Failure INSTALLER_MISSING)
      | Some entry \<Rightarrow>
          bind_result (compute_sha256 h nodes (entry_path entry)) (\<lambda>actual_hash.
            if actual_hash \<noteq> installer_sha256 required \<or> entry_sha256 entry \<noteq> installer_sha256 required
            then Inl (Policy_Failure INSTALLER_HASH_MISMATCH)
            else
              (case signature_lookup (installer_filename required) of
                 None \<Rightarrow> Inl (Policy_Failure INSTALLER_SIGNATURE_INVALID)
               | Some signature \<Rightarrow>
                   if signature_status signature \<noteq> lit ''Valid'' then Inl (Policy_Failure INSTALLER_SIGNATURE_INVALID)
                   else if upper_of h (signature_thumbprint signature) \<noteq> upper_of h (installer_thumbprint required)
                   then Inl (Policy_Failure INSTALLER_THUMBPRINT_MISMATCH)
                   else if signature_subject signature \<noteq> installer_subject required
                   then Inl (Policy_Failure INSTALLER_SUBJECT_MISMATCH)
                   else Inr ())))"

definition verify_installers :: "package_host \<Rightarrow> manifest_entry list \<Rightarrow> (pystr \<times> stage_node) list \<Rightarrow> policy_document \<Rightarrow>
    (pystr \<Rightarrow> signature_info option) \<Rightarrow> nat packaged" where
  "verify_installers h entries nodes policy signature_lookup =
     bind_result (for_each (verify_installer h entries nodes signature_lookup) (required_installers policy))
       (\<lambda>_. Inr (length (required_installers policy)))"

definition verify_pre_stage :: "package_host \<Rightarrow> pystr list \<Rightarrow> (pystr \<times> stage_node) list \<Rightarrow> package_manifest \<Rightarrow>
    policy_document \<Rightarrow> manifest_provenance \<Rightarrow> (pystr \<Rightarrow> signature_info option) \<Rightarrow> pre_stage_result packaged" where
  "verify_pre_stage h root nodes manifest policy expected_provenance signature_lookup =
     bind_result (walk_stage_entries h root nodes) (\<lambda>actual_paths.
     bind_result (verify_stage_policy actual_paths policy) (\<lambda>_.
     bind_result (verify_manifest_one_to_one (manifest_entries manifest) actual_paths) (\<lambda>_.
     bind_result (verify_manifest_hashes h (manifest_entries manifest) nodes) (\<lambda>digests.
     bind_result (verify_manifest_provenance (manifest_entries manifest) expected_provenance) (\<lambda>_.
     bind_result (verify_installers h (manifest_entries manifest) nodes policy signature_lookup) (\<lambda>n.
       Inr \<lparr>staged_count = length actual_paths, installer_count = n, entry_digests = digests\<rparr>))))))"

subsection \<open>Checks of the finished ZIP\<close>

record zip_info =
  zip_filename :: pystr
  zip_content :: "bytes option"

definition is_dir_info :: "zip_info \<Rightarrow> bool" where
  "is_dir_info info \<longleftrightarrow> zip_filename info \<noteq> [] \<and> last (zip_filename info) = 47"

text \<open>\<open>filename.replace('\\', '/')\<close>; \<open>archive.open(name)\<close> finds the last member of that name.\<close>

definition slashed :: "pystr \<Rightarrow> pystr" where
  "slashed s = map (\<lambda>c. if c = 92 then 47 else c) s"

definition zip_entry_sha256 :: "package_host \<Rightarrow> zip_info list \<Rightarrow> pystr \<Rightarrow> pystr packaged" where
  "zip_entry_sha256 h archive name =
     (case find (\<lambda>info. zip_filename info = name) (rev archive) of
        None \<Rightarrow> Inl Key_Failure
      | Some info \<Rightarrow> bind_result (of_option Zip_Failure (zip_content info)) (\<lambda>b. Inr (hash_hex h b)))"

definition verify_post_zip :: "package_host \<Rightarrow> zip_info list \<Rightarrow> package_manifest \<Rightarrow> (pystr \<Rightarrow> pystr option) \<Rightarrow>
    post_zip_result packaged" where
  "verify_post_zip h archive manifest pre_stage_digests =
     (let infos = filter (\<lambda>info. \<not> is_dir_info info) archive;
          names = map (\<lambda>info. slashed (zip_filename info)) infos;
          manifest_paths = set (map entry_path (manifest_entries manifest));
          actual_set = set names
      in
        bind_result (for_each (\<lambda>name.
          if starts_with name [47] \<or> lit ''..'' \<in> set (split_on 47 name) then Inl (Policy_Failure PATH_TRAVERSAL)
          else Inr ()) names) (\<lambda>_.
        if card actual_set \<noteq> length names then Inl (Policy_Failure DUPLICATE_ENTRY)
        else if manifest_paths - actual_set \<noteq> {} then Inl (Policy_Failure MANIFEST_MISSING_ENTRY)
        else if actual_set - manifest_paths \<noteq> {} then Inl (Policy_Failure MANIFEST_EXTRA_ENTRY)
        else if length names \<noteq> length (manifest_entries manifest) then Inl (Policy_Failure POST_ZIP_ENTRY_COUNT_MISMATCH)
        else
          bind_result (for_each (\<lambda>name.
            case pre_stage_digests name of
              None \<Rightarrow> Inl (Policy_Failure POST_ZIP_UNKNOWN_ENTRY)
            | Some expected_digest \<Rightarrow>
                bind_result (zip_entry_sha256 h archive name) (\<lambda>actual_digest.
                  if actual_digest \<noteq> expected_digest then Inl (Policy_Failure POST_ZIP_DIGEST_MISMATCH) else Inr ()))
            names) (\<lambda>_.
          Inr \<lparr>zipped_count = length names\<rparr>)))"

end
