(* ===== verification/Package_Build.thy ===== *)
theory Package_Build
  imports Package_Policy
begin

text \<open>
  The builder of offline packages and the command lines around it and the verifier:
  \<open>operations/offline_package_build_contracts.py\<close>, \<open>operations/offline_package_policy.py\<close>,
  \<open>packaging/build_offline_package_plan.py\<close>, \<open>packaging/verify_offline_package.py\<close>, with the reading of the
  policy and of the manifest. A raised \<open>OfflinePackageBuildError\<close> is \<open>Build_Failure\<close>, an exception of the
  verifier's functions \<open>Package_Failed\<close>. Parsed arguments are records; a command line ends with what it prints
  and its exit code, or with the exception it does not catch.
\<close>

subsection \<open>Contracts\<close>

datatype build_code =
    DIRTY_WORKTREE | REUSE_NODE_MODULES_FORBIDDEN | REUSE_NEXT_BUILD_FORBIDDEN | REUSE_WHEELHOUSE_FORBIDDEN
  | DEV_DEPENDENCIES_FORBIDDEN | TAG_REQUIRED | PUBLIC_DATA_FORBIDDEN | BUILD_TOPLEVEL_NOT_ALLOWED
  | NETWORK_SANDBOX_FORBIDDEN | INTERACTIVE_PAUSE_FORBIDDEN | SANDBOX_TIMEOUT_INVALID | EMPTY_SELECTION

fun build_code_value :: "build_code \<Rightarrow> pystr" where
  "build_code_value DIRTY_WORKTREE = lit ''dirty-worktree''"
| "build_code_value REUSE_NODE_MODULES_FORBIDDEN = lit ''reuse-node-modules-forbidden''"
| "build_code_value REUSE_NEXT_BUILD_FORBIDDEN = lit ''reuse-next-build-forbidden''"
| "build_code_value REUSE_WHEELHOUSE_FORBIDDEN = lit ''reuse-wheelhouse-forbidden''"
| "build_code_value DEV_DEPENDENCIES_FORBIDDEN = lit ''dev-dependencies-forbidden''"
| "build_code_value TAG_REQUIRED = lit ''tag-required''"
| "build_code_value PUBLIC_DATA_FORBIDDEN = lit ''public-data-forbidden''"
| "build_code_value BUILD_TOPLEVEL_NOT_ALLOWED = lit ''toplevel-not-allowed''"
| "build_code_value NETWORK_SANDBOX_FORBIDDEN = lit ''network-sandbox-forbidden''"
| "build_code_value INTERACTIVE_PAUSE_FORBIDDEN = lit ''interactive-pause-forbidden''"
| "build_code_value SANDBOX_TIMEOUT_INVALID = lit ''sandbox-timeout-invalid''"
| "build_code_value EMPTY_SELECTION = lit ''empty-selection''"

datatype build_failure = Build_Failure build_code | Package_Failed package_failure

type_synonym 'a built = "(build_failure, 'a) result"

record build_options =
  reuse_node_modules :: bool
  reuse_next_build :: bool
  reuse_wheelhouse :: bool
  include_dev_dependencies :: bool
  allow_public_data :: bool
  allow_timestamp_fallback :: bool

record git_state =
  is_clean :: bool
  head_commit :: pystr
  head_tag :: "pystr option"

record sandbox_launch_options =
  networking_enabled :: bool
  interactive_pause :: bool
  timeout_minutes :: int

datatype release_mode = Release | Qa

fun mode_value :: "release_mode \<Rightarrow> pystr" where
  "mode_value Release = lit ''release''"
| "mode_value Qa = lit ''qa''"

record release_context =
  release_mode :: release_mode
  publishable :: bool
  output_dir :: pystr
  zip_name :: pystr
  context_version :: pystr
  context_tag :: "pystr option"
  context_commit :: pystr

record build_plan =
  plan_context :: release_context
  selected_paths :: "pystr list"

subsection \<open>Options, requirements, release context\<close>

definition validate_build_options :: "build_options \<Rightarrow> unit built" where
  "validate_build_options options =
     (if reuse_node_modules options then Inl (Build_Failure REUSE_NODE_MODULES_FORBIDDEN)
      else if reuse_next_build options then Inl (Build_Failure REUSE_NEXT_BUILD_FORBIDDEN)
      else if reuse_wheelhouse options then Inl (Build_Failure REUSE_WHEELHOUSE_FORBIDDEN)
      else if include_dev_dependencies options then Inl (Build_Failure DEV_DEPENDENCIES_FORBIDDEN)
      else if allow_public_data options then Inl (Build_Failure PUBLIC_DATA_FORBIDDEN)
      else if allow_timestamp_fallback options then Inl (Build_Failure TAG_REQUIRED)
      else Inr ())"

definition validate_requirements_source :: "pystr \<Rightarrow> unit built" where
  "validate_requirements_source requirements_filename =
     require (slashed requirements_filename = lit ''backend/requirements.txt'') (Build_Failure DEV_DEPENDENCIES_FORBIDDEN)"

definition version_shaped :: "pystr \<Rightarrow> bool" where
  "version_shaped version \<longleftrightarrow>
     (case split_on 46 version of
        [a, b, c] \<Rightarrow> list_all (\<lambda>w. w \<noteq> [] \<and> list_all is_digit w) [a, b, c]
      | _ \<Rightarrow> False)"

definition determine_release_context :: "pystr \<Rightarrow> pystr \<Rightarrow> git_state \<Rightarrow> pystr \<Rightarrow> release_context built" where
  "determine_release_context dist_root qa_root git version =
     (if \<not> is_clean git then Inl (Build_Failure DIRTY_WORKTREE)
      else if \<not> version_shaped version then Inl (Build_Failure TAG_REQUIRED)
      else
        let commit_short = take 8 (head_commit git) in
        if head_tag git = Some version
        then Inr \<lparr>release_mode = Release, publishable = True, output_dir = dist_root,
               zip_name = lit ''AeroOne-offline-'' @ version @ lit ''.zip'', context_version = version,
               context_tag = head_tag git, context_commit = head_commit git\<rparr>
        else
          let pr_id = version @ lit ''-pr-'' @ commit_short in
          Inr \<lparr>release_mode = Qa, publishable = False,
            output_dir = qa_root @ lit ''/'' @ version @ lit ''/'' @ pr_id,
            zip_name = lit ''AeroOne-offline-'' @ pr_id @ lit ''.zip'', context_version = version,
            context_tag = head_tag git, context_commit = head_commit git\<rparr>)"

subsection \<open>Selection of the tracked paths\<close>

definition denied_exact :: "pystr list" where
  "denied_exact = map lit
     [''backend/requirements-dev.txt'', ''frontend/playwright.qa.config.ts'',
      ''frontend/components/office-tools/leantime-status.tsx'',
      ''frontend/components/office-tools/leantime-dashboard.tsx'',
      ''frontend/components/office-tools/leantime-launch.tsx'']"

definition denied_prefixes :: "pystr list" where
  "denied_prefixes = map lit
     [''backend/tests/'', ''frontend/tests/'', ''scripts/qa/'', ''frontend/node_modules/'', ''frontend/.next/'',
      ''offline_assets/python-wheels/'', ''scripts/leantime/'', ''frontend/app/leantime/'',
      ''frontend/app/api/frontend/leantime/'']"

definition is_builder_denied_path :: "package_host \<Rightarrow> pystr \<Rightarrow> bool" where
  "is_builder_denied_path h rel_posix =
     (let normalized = casefold_of h (slashed rel_posix)
      in normalized \<in> set denied_exact \<or> list_ex (starts_with normalized) denied_prefixes)"

fun select_from :: "package_host \<Rightarrow> policy_document \<Rightarrow> pystr list \<Rightarrow> pystr list \<Rightarrow> pystr list built" where
  "select_from h policy seen [] = Inr []"
| "select_from h policy seen (rel_posix # rest) =
     (if rel_posix \<in> set seen then select_from h policy seen rest
      else let seen' = rel_posix # seen in
        if is_builder_denied_path h rel_posix then select_from h policy seen' rest
        else
          (case classify_forbidden rel_posix policy of
             Inl e \<Rightarrow> Inl (Package_Failed e)
           | Inr (Some code) \<Rightarrow> select_from h policy seen' rest
           | Inr None \<Rightarrow>
               if \<not> check_top_level_allowed rel_posix policy then select_from h policy seen' rest
               else bind_result (select_from h policy seen' rest) (\<lambda>selected. Inr (rel_posix # selected))))"

definition select_allowlisted_paths :: "package_host \<Rightarrow> pystr list \<Rightarrow> policy_document \<Rightarrow> pystr list built" where
  "select_allowlisted_paths h tracked_paths policy =
     bind_result (select_from h policy [] tracked_paths) (\<lambda>selected.
       if selected = [] then Inl (Build_Failure EMPTY_SELECTION) else Inr (sort selected))"

definition manifest_entry_for :: "manifest_provenance \<Rightarrow> pystr \<Rightarrow> pystr \<Rightarrow> manifest_entry" where
  "manifest_entry_for provenance rel_posix digest =
     \<lparr>entry_path = rel_posix, entry_sha256 = digest, entry_origin = prov_origin provenance,
      entry_tag = prov_tag provenance, entry_commit = prov_commit provenance, entry_policy = prov_policy provenance\<rparr>"

definition build_manifest_entries :: "package_host \<Rightarrow> (pystr \<times> stage_node) list \<Rightarrow> pystr list \<Rightarrow>
    manifest_provenance \<Rightarrow> manifest_entry list packaged" where
  "build_manifest_entries h nodes paths provenance = map_result (\<lambda>rel_posix.
     bind_result (compute_sha256 h nodes rel_posix) (\<lambda>digest.
       Inr (manifest_entry_for provenance rel_posix digest))) paths"

definition plan_build :: "package_host \<Rightarrow> pystr \<Rightarrow> pystr \<Rightarrow> git_state \<Rightarrow> pystr \<Rightarrow> build_options \<Rightarrow> pystr list \<Rightarrow>
    policy_document \<Rightarrow> build_plan built" where
  "plan_build h dist_root qa_root git version options tracked_paths policy =
     bind_result (validate_build_options options) (\<lambda>_.
     bind_result (determine_release_context dist_root qa_root git version) (\<lambda>ctxt.
     bind_result (select_allowlisted_paths h tracked_paths policy) (\<lambda>selected.
       Inr \<lparr>plan_context = ctxt, selected_paths = selected\<rparr>)))"

definition MAX_SANDBOX_TIMEOUT_MINUTES :: int where "MAX_SANDBOX_TIMEOUT_MINUTES = 20"

definition validate_sandbox_launch_options :: "int \<Rightarrow> sandbox_launch_options \<Rightarrow> unit built" where
  "validate_sandbox_launch_options max_timeout_minutes options =
     (if networking_enabled options then Inl (Build_Failure NETWORK_SANDBOX_FORBIDDEN)
      else if interactive_pause options then Inl (Build_Failure INTERACTIVE_PAUSE_FORBIDDEN)
      else if timeout_minutes options \<le> 0 \<or> max_timeout_minutes < timeout_minutes options
      then Inl (Build_Failure SANDBOX_TIMEOUT_INVALID)
      else Inr ())"

subsection \<open>Reading the policy and the manifest\<close>

text \<open>
  \<open>model_validate\<close> of the parsed JSON: other keys are forbidden, a text has no lone surrogate, an integer is read by
  pydantic's coercion (\<open>coerce\<close>, a parameter). \<open>None\<close> is a \<open>ValidationError\<close>.
\<close>

definition str_value :: "json \<Rightarrow> pystr option" where
  "str_value v = (case v of JStr s \<Rightarrow> if list_ex is_surrogate s then None else Some s | _ \<Rightarrow> None)"

definition str_field :: "string \<Rightarrow> json \<Rightarrow> pystr option" where
  "str_field k v = Option.bind (obj_get (lit k) v) str_value"

definition all_of :: "(json \<Rightarrow> 'a option) \<Rightarrow> json \<Rightarrow> 'a list option" where
  "all_of f v = (case v of JArr xs \<Rightarrow> those (map f xs) | _ \<Rightarrow> None)"

definition values_field :: "(json \<Rightarrow> 'a option) \<Rightarrow> string \<Rightarrow> json \<Rightarrow> 'a list option" where
  "values_field f k v = Option.bind (obj_get (lit k) v) (all_of f)"

definition authenticode_pattern :: "pystr \<Rightarrow> bool" where
  "authenticode_pattern s \<longleftrightarrow> length s = 40 \<and> list_all (\<lambda>c. is_digit c \<or> 65 \<le> c \<and> c \<le> 70) s"

definition category_of_json :: "json \<Rightarrow> forbidden_category option" where
  "category_of_json v =
     (if \<not> keys_within [''category'', ''patterns'', ''allow_patterns''] v then None
      else Option.bind (str_field ''category'' v) (\<lambda>name.
        Option.bind (values_field str_value ''patterns'' v) (\<lambda>patterns.
        Option.bind (if obj_get (lit ''allow_patterns'') v = None then Some []
                     else values_field str_value ''allow_patterns'' v) (\<lambda>allows.
          Some \<lparr>category_name = name, category_patterns = patterns, category_allows = allows\<rparr>))))"

definition installer_of_json :: "json \<Rightarrow> required_installer option" where
  "installer_of_json v =
     (if \<not> keys_within [''filename'', ''sha256'', ''authenticode_thumbprint'', ''authenticode_subject''] v then None
      else Option.bind (str_field ''filename'' v) (\<lambda>name.
        Option.bind (str_field ''sha256'' v) (\<lambda>sha.
        Option.bind (str_field ''authenticode_thumbprint'' v) (\<lambda>thumbprint.
        Option.bind (str_field ''authenticode_subject'' v) (\<lambda>subject.
          if hex64_pattern sha \<and> authenticode_pattern thumbprint
          then Some \<lparr>installer_filename = name, installer_sha256 = sha, installer_thumbprint = thumbprint,
                 installer_subject = subject\<rparr>
          else None)))))"

definition policy_of_json :: "(json \<Rightarrow> int option) \<Rightarrow> json \<Rightarrow> policy_document option" where
  "policy_of_json coerce v =
     (if \<not> keys_within [''policy_version'', ''profile'', ''allow_top_level_entries'', ''forbidden_categories'',
            ''required_installers''] v then None
      else Option.bind (Option.bind (obj_get (lit ''policy_version'') v) coerce) (\<lambda>number.
        Option.bind (str_field ''profile'' v) (\<lambda>profile.
        Option.bind (values_field str_value ''allow_top_level_entries'' v) (\<lambda>tops.
        Option.bind (values_field category_of_json ''forbidden_categories'' v) (\<lambda>categories.
        Option.bind (values_field installer_of_json ''required_installers'' v) (\<lambda>installers.
          Some \<lparr>policy_version = number, policy_profile = profile, allow_top_level_entries = tops,
            forbidden_categories = categories, required_installers = installers\<rparr>))))))"

definition entry_of_json :: "json \<Rightarrow> manifest_entry option" where
  "entry_of_json v =
     (if \<not> keys_within [''path'', ''sha256'', ''origin'', ''tag'', ''commit'', ''policy''] v then None
      else Option.bind (str_field ''path'' v) (\<lambda>path.
        Option.bind (str_field ''sha256'' v) (\<lambda>sha.
        Option.bind (str_field ''origin'' v) (\<lambda>origin.
        Option.bind (str_field ''tag'' v) (\<lambda>tag.
        Option.bind (str_field ''commit'' v) (\<lambda>commit.
        Option.bind (str_field ''policy'' v) (\<lambda>label.
          if hex64_pattern sha
          then Some \<lparr>entry_path = path, entry_sha256 = sha, entry_origin = origin, entry_tag = tag,
                 entry_commit = commit, entry_policy = label\<rparr>
          else None)))))))"

definition manifest_of_json :: "json \<Rightarrow> package_manifest option" where
  "manifest_of_json v =
     (if \<not> keys_within [''entries''] v then None
      else map_option (\<lambda>es. \<lparr>manifest_entries = es\<rparr>) (values_field entry_of_json ''entries'' v))"

text \<open>\<open>model_dump\<close> of a manifest.\<close>

definition entry_json :: "manifest_entry \<Rightarrow> json" where
  "entry_json e = JObj [(lit ''path'', JStr (entry_path e)), (lit ''sha256'', JStr (entry_sha256 e)),
     (lit ''origin'', JStr (entry_origin e)), (lit ''tag'', JStr (entry_tag e)),
     (lit ''commit'', JStr (entry_commit e)), (lit ''policy'', JStr (entry_policy e))]"

definition manifest_json :: "package_manifest \<Rightarrow> json" where
  "manifest_json m = JObj [(lit ''entries'', JArr (map entry_json (manifest_entries m)))]"

subsection \<open>Command lines\<close>

text \<open>\<open>str.splitlines\<close> after the universal newlines of \<open>read_text\<close>, then \<open>strip\<close>; empty lines are dropped.\<close>

definition is_line_break :: "nat \<Rightarrow> bool" where
  "is_line_break c \<longleftrightarrow> 10 \<le> c \<and> c \<le> 13 \<or> 28 \<le> c \<and> c \<le> 30 \<or> c = 133 \<or> c = 8232 \<or> c = 8233"

definition path_lines :: "pystr \<Rightarrow> pystr list" where
  "path_lines text =
     filter (\<lambda>line. line \<noteq> []) (map strip (split_on 10 (map (\<lambda>c. if is_line_break c then 10 else c) text)))"

record plan_args =
  arg_version :: pystr
  arg_commit :: pystr
  arg_tag :: "pystr option"
  arg_clean :: bool
  arg_options :: build_options

datatype command_end = Printed json int | Uncaught build_failure

definition refusal :: "pystr \<Rightarrow> command_end" where
  "refusal code = Printed (JObj [(lit ''ok'', JBool False), (lit ''code'', JStr code)]) 1"

definition plan_summary :: "build_plan \<Rightarrow> json" where
  "plan_summary plan = JObj
     [(lit ''ok'', JBool True), (lit ''mode'', JStr (mode_value (release_mode (plan_context plan)))),
      (lit ''publishable'', JBool (publishable (plan_context plan))),
      (lit ''output_dir'', JStr (output_dir (plan_context plan))),
      (lit ''zip_name'', JStr (zip_name (plan_context plan))),
      (lit ''selected_count'', JInt (int (length (selected_paths plan))))]"

text \<open>The second component is the text of the selected paths that is written, when the plan is made.\<close>

definition run_plan :: "package_host \<Rightarrow> policy_document \<Rightarrow> pystr \<Rightarrow> plan_args \<Rightarrow> command_end \<times> pystr option" where
  "run_plan h policy tracked_text args =
     (case plan_build h (lit ''dist'') (lit ''artifacts/qa'')
             \<lparr>is_clean = arg_clean args, head_commit = arg_commit args, head_tag = arg_tag args\<rparr>
             (arg_version args) (arg_options args) (path_lines tracked_text) policy of
        Inl (Build_Failure code) \<Rightarrow> (refusal (build_code_value code), None)
      | Inl (Package_Failed e) \<Rightarrow> (Uncaught (Package_Failed e), None)
      | Inr plan \<Rightarrow> (Printed (plan_summary plan) 0, Some (join_with [10] (selected_paths plan))))"

definition run_manifest :: "package_host \<Rightarrow> (pystr \<times> stage_node) list \<Rightarrow> pystr \<Rightarrow> pystr option \<Rightarrow> pystr \<Rightarrow> pystr \<Rightarrow>
    command_end \<times> json option" where
  "run_manifest h nodes selected_text tag commit policy_label =
     (let provenance = \<lparr>prov_origin = lit ''AeroOne'', prov_tag = (case tag of None \<Rightarrow> [] | Some t \<Rightarrow> t),
            prov_commit = commit, prov_policy = policy_label\<rparr>
      in case build_manifest_entries h nodes (path_lines selected_text) provenance of
           Inl e \<Rightarrow> (Uncaught (Package_Failed e), None)
         | Inr entries \<Rightarrow>
             (Printed (JObj [(lit ''ok'', JBool True), (lit ''entry_count'', JInt (int (length entries)))]) 0,
              Some (manifest_json \<lparr>manifest_entries = entries\<rparr>)))"

definition run_pre_stage :: "package_host \<Rightarrow> pystr list \<Rightarrow> (pystr \<times> stage_node) list \<Rightarrow> package_manifest \<Rightarrow>
    policy_document \<Rightarrow> manifest_provenance \<Rightarrow> (pystr \<Rightarrow> signature_info option) \<Rightarrow>
    command_end \<times> (pystr \<Rightarrow> pystr option) option" where
  "run_pre_stage h root nodes manifest policy provenance signatures =
     (case verify_pre_stage h root nodes manifest policy provenance signatures of
        Inl (Policy_Failure code) \<Rightarrow> (refusal (policy_code_value code), None)
      | Inl e \<Rightarrow> (Uncaught (Package_Failed e), None)
      | Inr r \<Rightarrow>
          (Printed (JObj [(lit ''ok'', JBool True), (lit ''entry_count'', JInt (int (staged_count r))),
             (lit ''installer_count'', JInt (int (installer_count r)))]) 0, Some (entry_digests r)))"

definition run_post_zip :: "package_host \<Rightarrow> zip_info list \<Rightarrow> package_manifest \<Rightarrow> (pystr \<Rightarrow> pystr option) \<Rightarrow>
    command_end" where
  "run_post_zip h archive manifest digests =
     (case verify_post_zip h archive manifest digests of
        Inl (Policy_Failure code) \<Rightarrow> refusal (policy_code_value code)
      | Inl e \<Rightarrow> Uncaught (Package_Failed e)
      | Inr r \<Rightarrow> Printed (JObj [(lit ''ok'', JBool True), (lit ''entry_count'', JInt (int (zipped_count r)))]) 0)"

end
