(* ===== verification/Package_Facts.thy ===== *)
theory Package_Facts
  imports Package_Build
begin

text \<open>
  What the functions of \<^theory_text>\<open>Package_Policy\<close> and \<^theory_text>\<open>Package_Build\<close> accept: a reference for the patterns, the files of a
  staging tree and what reading and walking it gives, and for each check the condition under which it passes.
\<close>

subsection \<open>A reference for patterns\<close>

text \<open>
  \<open>glob p s\<close>: the pattern \<open>p\<close> admits \<open>s\<close>. Two stars run over everything but a line feed, with a slash that
  follows them taken as optional; one star runs within a segment; a question mark is a character of a segment.
\<close>

inductive glob :: "pystr \<Rightarrow> pystr \<Rightarrow> bool" where
  glob_end: "glob [] []"
| glob_deep: "glob (42 # 42 # p) (w @ s)" if "10 \<notin> set w" "\<not> starts_with p [47]" "glob p s"
| glob_deep_slash: "glob (42 # 42 # 47 # p) (w @ s)" if "10 \<notin> set w" "glob p s \<or> (\<exists>t. s = 47 # t \<and> glob p t)"
| glob_star: "glob (42 # p) (w @ s)" if "47 \<notin> set w" "\<not> starts_with p [42]" "glob p s"
| glob_any: "glob (63 # p) (c # s)" if "c \<noteq> 47" "glob p s"
| glob_char: "glob (c # p) (c # s)" if "c \<noteq> 42" "c \<noteq> 63" "glob p s"

lemma starts_with_one [simp]: "starts_with (x # r) [c] \<longleftrightarrow> x = c" "\<not> starts_with [] [c]"
  by (auto simp: starts_with_def)

lemma starts_with_oneD: "starts_with r [c] \<longleftrightarrow> (\<exists>t. r = c # t)"
  by (cases r) auto

inductive_simps glob_Nil: "glob [] s"

text \<open>What \<open>$\<close> adds: a line feed at the end.\<close>

definition line_end :: "(pystr \<Rightarrow> bool) \<Rightarrow> pystr \<Rightarrow> bool" where
  "line_end q s \<longleftrightarrow> q s \<or> (\<exists>t. s = t @ [10] \<and> q t)"

lemma split_Cons:
  "(\<exists>w t. x # r = w @ t \<and> P w \<and> Q t) \<longleftrightarrow> P [] \<and> Q (x # r) \<or> (\<exists>w t. r = w @ t \<and> P (x # w) \<and> Q t)"
  by (auto simp: Cons_eq_append_conv)

lemma match_any_run:
  "match_pieces (Any_Run # ps) s \<longleftrightarrow> (\<exists>w t. s = w @ t \<and> 10 \<notin> set w \<and> match_pieces ps t)"
proof (induction s)
  case (Cons x r)
  then show ?case by (subst split_Cons) auto
qed simp

lemma match_name_run:
  "match_pieces (Name_Run # ps) s \<longleftrightarrow> (\<exists>w t. s = w @ t \<and> 47 \<notin> set w \<and> match_pieces ps t)"
proof (induction s)
  case (Cons x r)
  then show ?case by (subst split_Cons) auto
qed simp

lemma match_opt_slash:
  "match_pieces (Opt_Slash # ps) s \<longleftrightarrow> match_pieces ps s \<or> (\<exists>t. s = 47 # t \<and> match_pieces ps t)"
  by (cases s) auto

lemma match_name_char: "match_pieces (Name_Char # ps) s \<longleftrightarrow> (\<exists>c t. s = c # t \<and> c \<noteq> 47 \<and> match_pieces ps t)"
  by (cases s) auto

lemma match_char: "match_pieces (Char c # ps) s \<longleftrightarrow> (\<exists>t. s = c # t \<and> match_pieces ps t)"
  by (cases s) auto

lemmas match_steps = match_any_run match_name_run match_opt_slash match_name_char match_char

text \<open>A run that ends at the optional line feed.\<close>

lemma line_end_run:
  "line_end (\<lambda>s. \<exists>w t. s = w @ t \<and> P w \<and> q t) s \<longleftrightarrow> (\<exists>w t. s = w @ t \<and> P w \<and> line_end q t)"
  (is "?l \<longleftrightarrow> ?r")
proof
  assume ?l
  then consider w t where "s = w @ t" "P w" "q t" | w t where "s = (w @ t) @ [10]" "P w" "q t"
    unfolding line_end_def by blast
  then show ?r
  proof cases
    case (1 w t)
    then show ?thesis unfolding line_end_def by blast
  next
    case (2 w t)
    then have "s = w @ t @ [10]" by simp
    with 2 show ?thesis unfolding line_end_def by blast
  qed
next
  assume ?r
  then obtain w t where s: "s = w @ t" "P w" and "q t \<or> (\<exists>u. t = u @ [10] \<and> q u)"
    unfolding line_end_def by blast
  then consider "q t" | u where "t = u @ [10]" "q u" by blast
  then show ?l
  proof cases
    case 1
    with s show ?thesis unfolding line_end_def by blast
  next
    case (2 u)
    with s have "s = (w @ u) @ [10]" by simp
    with s 2 show ?thesis unfolding line_end_def by blast
  qed
qed

lemma line_end_Cons:
  "line_end (\<lambda>s. \<exists>t. s = c # t \<and> q t) s \<longleftrightarrow> (\<exists>t. s = c # t \<and> line_end q t)"
  using line_end_run [of "\<lambda>w. w = [c]" q s] by simp

lemma line_end_one:
  "line_end (\<lambda>s. \<exists>c t. s = c # t \<and> P c \<and> q t) s \<longleftrightarrow> (\<exists>c t. s = c # t \<and> P c \<and> line_end q t)"
proof -
  have *: "(\<exists>c t. s = c # t \<and> P c \<and> r t) \<longleftrightarrow> (\<exists>w t. s = w @ t \<and> (\<exists>c. w = [c] \<and> P c) \<and> r t)" for r s
    by (metis append_Cons append_Nil)
  show ?thesis
    unfolding * by (rule line_end_run)
qed

lemma line_end_or: "line_end (\<lambda>s. q s \<or> r s) s \<longleftrightarrow> line_end q s \<or> line_end r s"
  by (auto simp: line_end_def)

subsubsection \<open>The shapes of \<^const>\<open>glob\<close>\<close>

lemma glob_Nil_iff: "glob [] s \<longleftrightarrow> s = []"
  by (auto simp: glob_Nil)

lemma glob_star_iff:
  "\<not> starts_with p [42] \<Longrightarrow> glob (42 # p) s \<longleftrightarrow> (\<exists>w t. s = w @ t \<and> 47 \<notin> set w \<and> glob p t)"
  by (subst glob.simps) (auto simp: starts_with_oneD)

lemma glob_deep_iff:
  "\<not> starts_with p [47] \<Longrightarrow> glob (42 # 42 # p) s \<longleftrightarrow> (\<exists>w t. s = w @ t \<and> 10 \<notin> set w \<and> glob p t)"
  by (subst glob.simps) (auto simp: starts_with_oneD)

lemma glob_deep_slash_iff:
  "glob (42 # 42 # 47 # p) s \<longleftrightarrow>
     (\<exists>w t. s = w @ t \<and> 10 \<notin> set w \<and> (glob p t \<or> (\<exists>u. t = 47 # u \<and> glob p u)))"
  by (subst glob.simps) auto

lemma glob_any_iff: "glob (63 # p) s \<longleftrightarrow> (\<exists>c t. s = c # t \<and> c \<noteq> 47 \<and> glob p t)"
  by (subst glob.simps) auto

lemma glob_char_iff: "c \<noteq> 42 \<Longrightarrow> c \<noteq> 63 \<Longrightarrow> glob (c # p) s \<longleftrightarrow> (\<exists>t. s = c # t \<and> glob p t)"
  by (subst glob.simps) auto

lemmas glob_iffs = glob_Nil_iff glob_star_iff glob_deep_iff glob_deep_slash_iff glob_any_iff glob_char_iff

lemma match_end: "match_pieces [] s \<longleftrightarrow> line_end (glob []) s"
  by (auto simp: line_end_def glob_Nil_iff)

lemma match_piece_of:
  assumes "\<not> (c = 42 \<and> starts_with p [42])" and IH: "\<And>t. match_pieces ps t \<longleftrightarrow> line_end (glob p) t"
  shows "match_pieces (piece_of c # ps) s \<longleftrightarrow> line_end (glob (c # p)) s"
proof -
  consider "c = 42" "\<not> starts_with p [42]" | "c = 63" | "c \<noteq> 42" "c \<noteq> 63" using assms(1) by blast
  then show ?thesis
  proof cases
    case 1
    then have "glob (42 # p) = (\<lambda>s. \<exists>w t. s = w @ t \<and> 47 \<notin> set w \<and> glob p t)"
      by (intro ext, intro glob_star_iff)
    then show ?thesis
      by (simp only: 1 line_end_run) (simp add: piece_of_def match_name_run IH del: match_pieces.simps)
  next
    case 2
    have "glob (63 # p) = (\<lambda>s. \<exists>c t. s = c # t \<and> c \<noteq> 47 \<and> glob p t)"
      by (rule ext, rule glob_any_iff)
    then show ?thesis
      by (simp only: 2 line_end_one) (simp add: piece_of_def match_name_char IH del: match_pieces.simps)
  next
    case 3
    then have "glob (c # p) = (\<lambda>s. \<exists>t. s = c # t \<and> glob p t)"
      by (intro ext, intro glob_char_iff)
    then show ?thesis
      by (simp only: line_end_Cons) (simp add: 3 piece_of_def match_char IH del: match_pieces.simps)
  qed
qed

text \<open>The compiled pattern is the reference, but for a line feed at the end.\<close>

lemma pattern_is_glob: "match_pieces (pattern_to_regex p) s \<longleftrightarrow> line_end (glob p) s"
proof (induction p arbitrary: s rule: pattern_to_regex.induct)
  case 1
  show ?case by (simp only: pattern_to_regex.simps match_end)
next
  case (2 c)
  show ?case by (simp only: pattern_to_regex.simps) (rule match_piece_of [OF _ match_end], simp)
next
  case (3 c d r)
  consider (slash) q where "c = 42" "d = 42" "r = 47 # q" | (deep) "c = 42" "d = 42" "\<not> starts_with r [47]"
    | (shallow) "\<not> (c = 42 \<and> d = 42)" by (cases r) auto
  then show ?case
  proof cases
    case (slash q)
    then have IH: "match_pieces (pattern_to_regex q) t \<longleftrightarrow> line_end (glob q) t" for t
      using 3(1) by simp
    have "glob (42 # 42 # 47 # q) =
        (\<lambda>s. \<exists>w t. s = w @ t \<and> 10 \<notin> set w \<and> (glob q t \<or> (\<exists>u. t = 47 # u \<and> glob q u)))"
      by (rule ext, rule glob_deep_slash_iff)
    then show ?thesis
      by (simp only: slash line_end_run line_end_or line_end_Cons)
        (simp add: match_any_run match_opt_slash IH del: match_pieces.simps)
  next
    case deep
    then have IH: "match_pieces (pattern_to_regex r) t \<longleftrightarrow> line_end (glob r) t" for t
      using 3(2) by simp
    have "glob (42 # 42 # r) = (\<lambda>s. \<exists>w t. s = w @ t \<and> 10 \<notin> set w \<and> glob r t)"
      using deep by (intro ext, intro glob_deep_iff)
    then show ?thesis
      using deep by (simp only: line_end_run) (simp add: match_any_run IH del: match_pieces.simps)
  next
    case shallow
    then have "pattern_to_regex (c # d # r) = piece_of c # pattern_to_regex (d # r)" by auto
    moreover have "match_pieces (piece_of c # pattern_to_regex (d # r)) s \<longleftrightarrow> line_end (glob (c # d # r)) s"
      by (rule match_piece_of) (use shallow 3(3) in auto)
    ultimately show ?thesis by (simp only:)
  qed
qed

subsection \<open>The files of a staging tree\<close>

fun tree_files :: "pystr list \<Rightarrow> (pystr \<times> stage_node) list \<Rightarrow> (pystr list \<times> bytes) list" where
  "tree_files rel [] = []"
| "tree_files rel ((name, File b) # rest) = (rel @ [name], b) # tree_files rel rest"
| "tree_files rel ((name, Dir nodes) # rest) = tree_files (rel @ [name]) nodes @ tree_files rel rest"
| "tree_files rel ((name, node) # rest) = tree_files rel rest"

definition staged_files :: "(pystr \<times> stage_node) list \<Rightarrow> (pystr \<times> bytes) list" where
  "staged_files nodes = map (\<lambda>(ws, b). (join_with [47] ws, b)) (tree_files [] nodes)"

text \<open>A tree as a file system holds it: ordinary names, distinct in each directory.\<close>

fun wf_tree :: "(pystr \<times> stage_node) list \<Rightarrow> bool" where
  "wf_tree [] \<longleftrightarrow> True"
| "wf_tree ((name, Dir nodes) # rest) \<longleftrightarrow> plain_name name \<and> name \<notin> set (map fst rest) \<and> wf_tree nodes \<and> wf_tree rest"
| "wf_tree ((name, node) # rest) \<longleftrightarrow> plain_name name \<and> name \<notin> set (map fst rest) \<and> wf_tree rest"

fun link_free :: "(pystr \<times> stage_node) list \<Rightarrow> bool" where
  "link_free [] \<longleftrightarrow> True"
| "link_free ((name, File b) # rest) \<longleftrightarrow> link_free rest"
| "link_free ((name, Dir nodes) # rest) \<longleftrightarrow> link_free nodes \<and> link_free rest"
| "link_free ((name, node) # rest) \<longleftrightarrow> False"

definition walked :: "pystr list \<Rightarrow> pystr list \<Rightarrow> (pystr \<times> stage_node) list \<Rightarrow> raw_entry set" where
  "walked root rel nodes = set (dir_entries root rel nodes) \<union> set (walk_subdirs root rel nodes)"

lemma walked_simps [simp]:
  "walked root rel [] = {}"
  "walked root rel ((n, File b) # rest) = insert (raw_of (rel @ [n]) False (root @ rel @ [n])) (walked root rel rest)"
  "walked root rel ((n, File_Link t) # rest) = insert (raw_of (rel @ [n]) True t) (walked root rel rest)"
  "walked root rel ((n, Dir_Link t) # rest) = insert (raw_of (rel @ [n]) True t) (walked root rel rest)"
  "walked root rel ((n, Dir ns) # rest) = walked root (rel @ [n]) ns \<union> walked root rel rest"
  by (auto simp: walked_def dir_entries_def)

lemma set_iter_raw_entries: "set (iter_raw_entries root nodes) = walked root [] nodes"
  by (simp add: iter_raw_entries_def walked_def)

lemma walked_link_free:
  "(\<forall>e \<in> walked root rel nodes. \<not> raw_is_symlink e) \<longleftrightarrow> link_free nodes"
  by (induction rel nodes rule: tree_files.induct) (auto simp: raw_of_def)

lemma walked_files:
  "link_free nodes \<Longrightarrow>
     walked root rel nodes = (\<lambda>(ws, b). raw_of ws False (root @ ws)) ` set (tree_files rel nodes)"
  by (induction rel nodes rule: tree_files.induct) auto

lemma walked_paths:
  "link_free nodes \<Longrightarrow> set (map raw_path (iter_raw_entries root nodes)) = set (map fst (staged_files nodes))"
  by (force simp: set_iter_raw_entries walked_files staged_files_def raw_of_def)

lemma tree_file_skip:
  assumes "n \<notin> set (map fst rest)" "tree_file out rest us = Some b"
  shows "tree_file out ((n, x) # rest) us = Some b"
proof (cases us)
  case (Cons u vs)
  with assms(2) have "map_of rest u \<noteq> None" by (auto split: option.splits)
  with assms(1) have "u \<noteq> n" by (auto simp: map_of_eq_None_iff)
  with assms(2) Cons show ?thesis by simp
qed (use assms(2) in simp)

lemma tree_files_found:
  "wf_tree nodes \<Longrightarrow> (ws, b) \<in> set (tree_files rel nodes) \<Longrightarrow>
     \<exists>us. ws = rel @ us \<and> us \<noteq> [] \<and> list_all plain_name us \<and> tree_file out nodes us = Some b"
proof (induction rel nodes rule: tree_files.induct)
  case (3 rel n ns rest)
  from 3(4) consider "(ws, b) \<in> set (tree_files (rel @ [n]) ns)" | "(ws, b) \<in> set (tree_files rel rest)" by auto
  then show ?case
  proof cases
    case 1
    with 3 show ?thesis by fastforce
  next
    case 2
    with 3 show ?thesis using tree_file_skip [of n rest out] by fastforce
  qed
next
  case (2 rel n c rest)
  from 2(3) consider "ws = rel @ [n]" "b = c" | "(ws, b) \<in> set (tree_files rel rest)" by auto
  then show ?case
  proof cases
    case 1
    with 2(2) show ?thesis by fastforce
  next
    case 2
    with \<open>wf_tree ((n, File c) # rest)\<close> show ?thesis
      using "2.IH" tree_file_skip [of n rest out] by fastforce
  qed
next
  case "4_1"
  then show ?case by (fastforce intro: tree_file_skip)
next
  case "4_2"
  then show ?case by (fastforce intro: tree_file_skip)
qed simp

lemma plain_no_slash: "list_all plain_name ws \<Longrightarrow> w \<in> set ws \<Longrightarrow> 47 \<notin> set w"
  by (auto simp: list_all_iff plain_name_def)

lemma staged_file:
  assumes "wf_tree nodes" "(p, b) \<in> set (staged_files nodes)"
  shows "list_all plain_name (split_on 47 p)" "read_stage h nodes p = Some b"
proof -
  from assms(2) obtain ws where p: "p = join_with [47] ws" "(ws, b) \<in> set (tree_files [] nodes)"
    by (auto simp: staged_files_def)
  from tree_files_found [OF assms(1) p(2), of "read_outside h p"]
  have ws: "ws \<noteq> []" "list_all plain_name ws" "tree_file (read_outside h p) nodes ws = Some b" by auto
  have "split_on 47 p = ws" using split_on_join [OF ws(1) plain_no_slash [OF ws(2)]] p(1) by simp
  with ws show "list_all plain_name (split_on 47 p)" "read_stage h nodes p = Some b"
    by (simp_all add: read_stage_def)
qed

lemma staged_plain:
  assumes "wf_tree nodes" "p \<in> set (map fst (staged_files nodes))"
  shows "list_all plain_name (split_on 47 p)"
  using assms staged_file(1) by fastforce

lemma plain_path_facts:
  assumes "list_all plain_name (split_on 47 p)"
  shows "lit ''..'' \<notin> set (split_on 47 p)" "92 \<notin> set p" "\<not> starts_with p [47]" "p \<noteq> []" "last p \<noteq> 47"
proof -
  show "lit ''..'' \<notin> set (split_on 47 p)" using assms by (auto simp: list_all_iff plain_name_def)
  have elem: "c = 47 \<or> (\<exists>w \<in> set (split_on 47 q). c \<in> set w)" if "c \<in> set q" for c q
    using that by (induction q) (auto split: list.splits)
  show "92 \<notin> set p" using elem [of 92 p] assms by (auto simp: list_all_iff plain_name_def)
  show "\<not> starts_with p [47]" using assms by (auto simp: starts_with_oneD plain_name_def)
  show "p \<noteq> []" using assms by (auto simp: plain_name_def)
  have "p \<noteq> q @ [47]" for q using assms by (auto simp: plain_name_def split_on_snoc)
  then show "last p \<noteq> 47" using \<open>p \<noteq> []\<close> by (metis append_butlast_last_id)
qed

subsection \<open>When the checks pass\<close>

definition entry_safe :: "pystr list \<Rightarrow> raw_entry \<Rightarrow> bool" where
  "entry_safe root e \<longleftrightarrow> \<not> raw_is_symlink e \<and> lit ''..'' \<notin> set (split_on 47 (raw_path e)) \<and> prefix root (raw_resolved e)"

lemma validate_from_Inr:
  "validate_from h root seen es = Inr ps \<longleftrightarrow>
     ps = map raw_path es \<and> list_all (entry_safe root) es \<and> distinct (map (\<lambda>e. lower_of h (raw_path e)) es) \<and>
     (\<forall>e \<in> set es. lower_of h (raw_path e) \<notin> set seen)"
proof (induction es arbitrary: seen ps)
  case (Cons e es)
  show ?case
    unfolding validate_from.simps Let_def guard_Inr bind_result_Inr Cons.IH
    by (auto simp: entry_safe_def [of root e] image_iff)
qed auto

lemma walk_stage_Inr [result_simps]:
  "walk_stage_entries h root nodes = Inr ps \<longleftrightarrow>
     ps = map raw_path (iter_raw_entries root nodes) \<and> list_all (entry_safe root) (iter_raw_entries root nodes) \<and>
     distinct (map (\<lambda>e. lower_of h (raw_path e)) (iter_raw_entries root nodes))"
  by (simp add: walk_stage_entries_def validate_raw_entries_def validate_from_Inr)

definition path_allowed :: "policy_document \<Rightarrow> pystr \<Rightarrow> bool" where
  "path_allowed policy p \<longleftrightarrow> classify_forbidden p policy = Inr None \<and> check_top_level_allowed p policy"

lemma stage_policy_Inr [result_simps]:
  "verify_stage_policy ps policy = Inr u \<longleftrightarrow> list_all (path_allowed policy) ps"
  by (auto simp: verify_stage_policy_def for_each_Inr bind_result_Inr require_Inr list_all_iff path_allowed_def
      split: option.splits)

lemma card_set_length: "card (set xs) = length xs \<longleftrightarrow> distinct xs"
  by (auto simp: distinct_card card_distinct)

lemma one_to_one_Inr [result_simps]:
  "verify_manifest_one_to_one entries ps = Inr u \<longleftrightarrow>
     distinct (map entry_path entries) \<and> distinct ps \<and> set (map entry_path entries) = set ps"
  using card_set_length [of "map entry_path entries"] card_set_length [of ps]
  unfolding verify_manifest_one_to_one_def Let_def guard_Inr length_map by (auto simp del: set_map)

lemma compute_sha256_Inr [result_simps]:
  "compute_sha256 h nodes p = Inr d \<longleftrightarrow> (\<exists>b. read_stage h nodes p = Some b \<and> d = hash_hex h b)"
  by (auto simp: compute_sha256_def bind_result_Inr of_option_Inr)

text \<open>The hash of an entry is that of the file it names, and it was written for the expected build.\<close>

definition entry_hashed :: "package_host \<Rightarrow> (pystr \<times> stage_node) list \<Rightarrow> manifest_entry \<Rightarrow> bool" where
  "entry_hashed h nodes e \<longleftrightarrow> map_option (hash_hex h) (read_stage h nodes (entry_path e)) = Some (entry_sha256 e)"

definition entry_from :: "manifest_provenance \<Rightarrow> manifest_entry \<Rightarrow> bool" where
  "entry_from exp e \<longleftrightarrow> entry_origin e = prov_origin exp \<and> entry_tag e = prov_tag exp \<and>
     entry_commit e = prov_commit exp \<and> entry_policy e = prov_policy exp"

lemma hash_entries_Inr:
  "hash_entries h nodes d es = Inr d' \<longleftrightarrow>
     list_all (entry_hashed h nodes) es \<and> d' = d ++ map_of (rev (map (\<lambda>e. (entry_path e, entry_sha256 e)) es))"
proof (induction es arbitrary: d)
  case (Cons e es)
  show ?case
    unfolding hash_entries.simps bind_result_Inr guard_Inr Cons.IH
    by (auto simp: compute_sha256_Inr entry_hashed_def [of h nodes e] map_add_def fun_eq_iff split: option.splits)
qed auto

lemma provenance_Inr [result_simps]:
  "verify_manifest_provenance es exp = Inr u \<longleftrightarrow> list_all (entry_from exp) es"
  by (auto simp: verify_manifest_provenance_def for_each_Inr list_all_iff entry_from_def)

text \<open>The first entry with the name of the installer is the installer, signed as required.\<close>

definition installer_vetted :: "package_host \<Rightarrow> manifest_entry list \<Rightarrow> (pystr \<times> stage_node) list \<Rightarrow>
    (pystr \<Rightarrow> signature_info option) \<Rightarrow> required_installer \<Rightarrow> bool" where
  "installer_vetted h entries nodes sigs req \<longleftrightarrow>
     (\<exists>e s. find (\<lambda>e. path_name (entry_path e) = installer_filename req) entries = Some e \<and>
        map_option (hash_hex h) (read_stage h nodes (entry_path e)) = Some (installer_sha256 req) \<and>
        entry_sha256 e = installer_sha256 req \<and> sigs (installer_filename req) = Some s \<and>
        signature_status s = lit ''Valid'' \<and>
        upper_of h (signature_thumbprint s) = upper_of h (installer_thumbprint req) \<and>
        signature_subject s = installer_subject req)"

lemma verify_installer_Inr [result_simps]:
  "verify_installer h entries nodes sigs req = Inr u \<longleftrightarrow> installer_vetted h entries nodes sigs req"
  by (auto simp: verify_installer_def installer_vetted_def bind_result_Inr compute_sha256_Inr split: option.splits)

lemma verify_installers_Inr [result_simps]:
  "verify_installers h entries nodes policy sigs = Inr n \<longleftrightarrow>
     list_all (installer_vetted h entries nodes sigs) (required_installers policy) \<and>
     n = length (required_installers policy)"
  by (auto simp: verify_installers_def bind_result_Inr for_each_Inr verify_installer_Inr list_all_iff)

text \<open>The digests of the entries, under their paths.\<close>

definition digests_of :: "manifest_entry list \<Rightarrow> pystr \<Rightarrow> pystr option" where
  "digests_of es = map_of (rev (map (\<lambda>e. (entry_path e, entry_sha256 e)) es))"

lemma digests_of_iff:
  "distinct (map entry_path es) \<Longrightarrow>
     digests_of es p = Some d \<longleftrightarrow> (\<exists>e \<in> set es. entry_path e = p \<and> entry_sha256 e = d)"
proof -
  assume "distinct (map entry_path es)"
  moreover have "map fst (rev (map (\<lambda>e. (entry_path e, entry_sha256 e)) es)) = rev (map entry_path es)"
    by (simp add: rev_map comp_def)
  ultimately show ?thesis
    unfolding digests_of_def by (subst map_of_eq_Some_iff) auto
qed

definition stage_accepted :: "package_host \<Rightarrow> pystr list \<Rightarrow> (pystr \<times> stage_node) list \<Rightarrow> manifest_entry list \<Rightarrow>
    policy_document \<Rightarrow> manifest_provenance \<Rightarrow> (pystr \<Rightarrow> signature_info option) \<Rightarrow> bool" where
  "stage_accepted h root nodes entries policy exp sigs \<longleftrightarrow>
     (let es = iter_raw_entries root nodes; ps = map raw_path es in
        list_all (entry_safe root) es \<and> distinct (map (lower_of h) ps) \<and> list_all (path_allowed policy) ps \<and>
        distinct (map entry_path entries) \<and> set (map entry_path entries) = set ps \<and>
        list_all (entry_hashed h nodes) entries \<and> list_all (entry_from exp) entries \<and>
        list_all (installer_vetted h entries nodes sigs) (required_installers policy))"

lemma pre_stage_Inr:
  "verify_pre_stage h root nodes m policy exp sigs = Inr r \<longleftrightarrow>
     stage_accepted h root nodes (manifest_entries m) policy exp sigs \<and>
     r = \<lparr>staged_count = length (iter_raw_entries root nodes), installer_count = length (required_installers policy),
          entry_digests = digests_of (manifest_entries m)\<rparr>"
proof -
  have "distinct ps" if "distinct (map (lower_of h) ps)" for ps using that by (simp add: distinct_map)
  then show ?thesis
    unfolding verify_pre_stage_def stage_accepted_def Let_def
    by (auto simp: bind_result_Inr walk_stage_Inr stage_policy_Inr one_to_one_Inr verify_manifest_hashes_def
        hash_entries_Inr provenance_Inr verify_installers_Inr digests_of_def comp_def)
qed

subsection \<open>The finished archive\<close>

definition archive_paths :: "zip_info list \<Rightarrow> pystr list" where
  "archive_paths archive = map (\<lambda>i. slashed (zip_filename i)) (filter (\<lambda>i. \<not> is_dir_info i) archive)"

definition digest_confirmed :: "package_host \<Rightarrow> zip_info list \<Rightarrow> (pystr \<Rightarrow> pystr option) \<Rightarrow> pystr \<Rightarrow> bool" where
  "digest_confirmed h archive digests n \<longleftrightarrow> (\<exists>d. digests n = Some d \<and> zip_entry_sha256 h archive n = Inr d)"

lemma post_zip_Inr:
  "verify_post_zip h archive m digests = Inr r \<longleftrightarrow>
     list_all (\<lambda>n. \<not> starts_with n [47] \<and> lit ''..'' \<notin> set (split_on 47 n)) (archive_paths archive) \<and>
     distinct (archive_paths archive) \<and> set (map entry_path (manifest_entries m)) = set (archive_paths archive) \<and>
     length (archive_paths archive) = length (manifest_entries m) \<and>
     list_all (digest_confirmed h archive digests) (archive_paths archive) \<and>
     r = \<lparr>zipped_count = length (archive_paths archive)\<rparr>"
proof -
  have confirmed: "(case digests n of None \<Rightarrow> Inl (Policy_Failure POST_ZIP_UNKNOWN_ENTRY)
      | Some expected \<Rightarrow> bind_result (zip_entry_sha256 h archive n) (\<lambda>actual.
          if actual \<noteq> expected then Inl (Policy_Failure POST_ZIP_DIGEST_MISMATCH) else Inr ())) = Inr () \<longleftrightarrow>
      digest_confirmed h archive digests n" for n
    by (auto simp: digest_confirmed_def bind_result_Inr split: option.splits)
  show ?thesis
    unfolding verify_post_zip_def Let_def archive_paths_def [symmetric] bind_result_Inr for_each_Inr guard_Inr confirmed
      card_set_length
    by (auto simp: list_all_iff simp del: set_map)
qed

lemma zip_entry_Inr:
  "zip_entry_sha256 h archive n = Inr d \<longleftrightarrow>
     (\<exists>i b. find (\<lambda>i. zip_filename i = n) (rev archive) = Some i \<and> zip_content i = Some b \<and> d = hash_hex h b)"
  by (auto simp: zip_entry_sha256_def bind_result_Inr of_option_Inr split: option.splits)

lemma slashed_plain: "92 \<notin> set p \<Longrightarrow> slashed p = p"
  by (induction p) (auto simp: slashed_def)

text \<open>Where no two members have one name, the member found under a name is the member of that name.\<close>

lemma find_member: "find q xs = Some x \<Longrightarrow> x \<in> set xs \<and> q x"
  by (induction xs) (auto split: if_splits)

lemma member_unique:
  assumes "distinct (archive_paths archive)" "i \<in> set archive" "j \<in> set archive" "\<not> is_dir_info i" "\<not> is_dir_info j"
    "slashed (zip_filename i) = slashed (zip_filename j)"
  shows "i = j"
  using assms by (auto simp: archive_paths_def distinct_map inj_on_def)

subsection \<open>The selection\<close>

definition selectable :: "package_host \<Rightarrow> policy_document \<Rightarrow> pystr \<Rightarrow> bool" where
  "selectable h policy p \<longleftrightarrow> \<not> is_builder_denied_path h p \<and> path_allowed policy p"

definition classifiable :: "package_host \<Rightarrow> policy_document \<Rightarrow> pystr \<Rightarrow> bool" where
  "classifiable h policy p \<longleftrightarrow> is_builder_denied_path h p \<or> is_ok (classify_forbidden p policy)"

text \<open>The only exception of the selection is that of a category without a code.\<close>

lemma classify_Inl: "classify_forbidden p policy = Inl e \<Longrightarrow> e = Policy_Failure TOPLEVEL_NOT_ALLOWED"
proof -
  have "classify_in p cs = Inl e \<Longrightarrow> e = Policy_Failure TOPLEVEL_NOT_ALLOWED" for cs
    by (induction cs) (auto split: if_splits option.splits)
  then show "classify_forbidden p policy = Inl e \<Longrightarrow> e = Policy_Failure TOPLEVEL_NOT_ALLOWED"
    by (simp add: classify_forbidden_def)
qed

text \<open>One step of the loop, by what becomes of the path.\<close>

lemma select_from_Cons:
  "select_from h policy seen (p # ps) =
     (if p \<in> set seen then select_from h policy seen ps
      else if \<not> classifiable h policy p then Inl (Package_Failed (Policy_Failure TOPLEVEL_NOT_ALLOWED))
      else if selectable h policy p then map_sum id ((#) p) (select_from h policy (p # seen) ps)
      else select_from h policy (p # seen) ps)"
proof -
  have bound: "bind_result r (\<lambda>x. Inr (p # x)) = map_sum id ((#) p) r" for r :: "pystr list built"
    by (cases r) auto
  show ?thesis
    by (auto simp: Let_def classifiable_def selectable_def path_allowed_def bound dest: classify_Inl
        split: sum.splits option.splits)
qed

lemma select_from_Inr:
  "select_from h policy seen ps = Inr qs \<Longrightarrow>
     distinct qs \<and> set qs = {p \<in> set ps - set seen. selectable h policy p}"
proof (induction ps arbitrary: seen qs)
  case (Cons p ps)
  from Cons.prems consider (seen) "p \<in> set seen" "select_from h policy seen ps = Inr qs"
    | (kept) rs where "p \<notin> set seen" "selectable h policy p" "select_from h policy (p # seen) ps = Inr rs" "qs = p # rs"
    | (skipped) "p \<notin> set seen" "\<not> selectable h policy p" "select_from h policy (p # seen) ps = Inr qs"
    unfolding select_from_Cons by (cases "select_from h policy (p # seen) ps") (auto split: if_splits)
  then show ?case
  proof cases
    case seen
    with Cons.IH show ?thesis by fastforce
  next
    case kept
    with Cons.IH [OF kept(3)] show ?thesis by auto
  next
    case skipped
    with Cons.IH [OF skipped(3)] show ?thesis by auto
  qed
qed simp

lemma select_from_is_ok:
  "is_ok (select_from h policy seen ps) \<longleftrightarrow> list_all (\<lambda>p. p \<in> set seen \<or> classifiable h policy p) ps"
proof (induction ps arbitrary: seen)
  case (Cons p ps)
  have mapped: "is_ok (map_sum id ((#) p) r) = is_ok r" for r :: "pystr list built" by (cases r) auto
  show ?case
    unfolding select_from_Cons by (auto simp: mapped Cons.IH list_all_iff)
qed simp

lemma select_from_Inl:
  "select_from h policy seen ps = Inl e \<Longrightarrow> e = Package_Failed (Policy_Failure TOPLEVEL_NOT_ALLOWED)"
proof (induction ps arbitrary: seen)
  case (Cons p ps)
  from Cons.prems show ?case
    unfolding select_from_Cons using Cons.IH
    by (cases "select_from h policy (p # seen) ps") (auto split: if_splits)
qed simp

end
