(* ===== verification/Package_Chain.thy ===== *)
theory Package_Chain
  imports Package_Facts "HOL-Library.Multiset"
begin

text \<open>
  The steps of a package build, put after one another: what the lines of a file of paths carry from one command to
  the next, the manifest and its JSON, and the acceptance of what the earlier steps made.
\<close>

subsection \<open>Paths as lines of text\<close>

definition line_ok :: "pystr \<Rightarrow> bool" where
  "line_ok p \<longleftrightarrow> p \<noteq> [] \<and> strip p = p \<and> \<not> list_ex is_line_break p"

lemma strip_of_idem: "strip_of q (strip_of q xs) = strip_of q xs"
proof (cases "strip_of q xs = []")
  case True
  have "strip_of q [] = []" by (simp add: strip_of_def)
  with True show ?thesis by simp
next
  case False
  define ys zs where "ys = dropWhile q xs" and "zs = dropWhile q (rev ys)"
  have s: "strip_of q xs = rev zs" by (simp add: strip_of_def ys_def zs_def)
  with False have "zs \<noteq> []" "ys \<noteq> []" by (auto simp: zs_def)
  obtain us where us: "rev ys = us @ zs" unfolding zs_def by (metis takeWhile_dropWhile_id)
  then have "ys = rev zs @ rev us" by (metis rev_append rev_rev_ident)
  with \<open>zs \<noteq> []\<close> have "hd (rev zs) = hd ys" by simp
  moreover have "\<not> q (hd ys)" using \<open>ys \<noteq> []\<close> by (simp add: ys_def hd_dropWhile)
  ultimately have "dropWhile q (rev zs) = rev zs" using \<open>zs \<noteq> []\<close> by (cases "rev zs") auto
  moreover have "dropWhile q zs = zs" by (simp add: zs_def)
  ultimately show ?thesis by (simp add: s) (simp add: strip_of_def)
qed

lemma split_on_set: "w \<in> set (split_on c xs) \<Longrightarrow> set w \<subseteq> set xs"
proof (induction xs arbitrary: w)
  case (Cons x xs)
  then show ?case by (fastforce split: if_splits list.splits)
qed simp

lemma path_lines_ok: "p \<in> set (path_lines text) \<Longrightarrow> line_ok p"
proof -
  let ?t = "map (\<lambda>c. if is_line_break c then 10 else c) text"
  assume "p \<in> set (path_lines text)"
  then obtain w where w: "w \<in> set (split_on 10 ?t)" "p = strip w" "p \<noteq> []" by (auto simp: path_lines_def)
  have "\<not> is_line_break c" if "c \<in> set p" for c
  proof -
    from that w(2) have "c \<in> set w" using strip_of_set [of is_space w] by (auto simp: strip_def)
    with w(1) split_on_set [OF w(1)] split_on_no_sep [OF w(1)] have "c \<in> set ?t" "c \<noteq> 10" by auto
    then show ?thesis by auto
  qed
  with w show ?thesis by (auto simp: line_ok_def strip_def strip_of_idem list_ex_iff)
qed

lemma path_lines_chars: "p \<in> set (path_lines text) \<Longrightarrow> c \<in> set p \<Longrightarrow> c \<in> set text"
proof -
  let ?t = "map (\<lambda>c. if is_line_break c then 10 else c) text"
  assume p: "p \<in> set (path_lines text)" and c: "c \<in> set p"
  then obtain w where w: "w \<in> set (split_on 10 ?t)" "p = strip w" by (auto simp: path_lines_def)
  with c have "c \<in> set w" using strip_of_set [of is_space w] by (auto simp: strip_def)
  with split_on_set [OF w(1)] split_on_no_sep [OF w(1)] show ?thesis by auto
qed

lemma path_lines_join:
  assumes "ps \<noteq> []" "list_all line_ok ps"
  shows "path_lines (join_with [10] ps) = ps"
proof -
  have clean: "\<forall>p \<in> set ps. 10 \<notin> set p \<and> strip p = p \<and> p \<noteq> []"
  proof (rule ballI)
    fix p assume "p \<in> set ps"
    with assms(2) have "line_ok p" by (simp add: list_all_iff)
    moreover have "is_line_break 10" by (simp add: is_line_break_def)
    ultimately show "10 \<notin> set p \<and> strip p = p \<and> p \<noteq> []" unfolding line_ok_def list_ex_iff by blast
  qed
  have joined: "map (\<lambda>c. if is_line_break c then 10 else c) (join_with [10] ps) = join_with [10] ps"
  proof (rule map_idI)
    fix c assume "c \<in> set (join_with [10] ps)"
    moreover have "set (join_with [10] qs) \<subseteq> insert 10 (\<Union> (set ` set qs))" for qs :: "pystr list"
      by (induction "[10::nat]" qs rule: join_with.induct) auto
    ultimately have "c = 10 \<or> (\<exists>p \<in> set ps. c \<in> set p)" by fastforce
    then show "(if is_line_break c then 10 else c) = c"
      using assms(2) by (auto simp: list_all_iff line_ok_def list_ex_iff)
  qed
  have "map strip ps = ps" "filter (\<lambda>line. line \<noteq> []) ps = ps"
    using clean by (auto intro: map_idI filter_True)
  then show ?thesis
    unfolding path_lines_def joined using split_on_join [OF assms(1)] clean by simp
qed

subsection \<open>The manifest\<close>

definition entry_at :: "package_host \<Rightarrow> (pystr \<times> stage_node) list \<Rightarrow> manifest_provenance \<Rightarrow> pystr \<Rightarrow> manifest_entry" where
  "entry_at h nodes prov p = manifest_entry_for prov p (hash_hex h (the (read_stage h nodes p)))"

lemma build_manifest_readable:
  "list_all (\<lambda>p. read_stage h nodes p \<noteq> None) ps \<Longrightarrow>
     build_manifest_entries h nodes ps prov = Inr (map (entry_at h nodes prov) ps)"
  unfolding build_manifest_entries_def
  by (induction ps) (auto simp: entry_at_def compute_sha256_def of_option_def)

lemma manifest_entry_for_simps [simp]:
  "entry_path (manifest_entry_for prov p d) = p" "entry_sha256 (manifest_entry_for prov p d) = d"
  by (simp_all add: manifest_entry_for_def)

lemma entry_at_simps [simp]: "entry_path (entry_at h nodes prov p) = p"
  by (simp add: entry_at_def)

definition unicode :: "pystr \<Rightarrow> bool" where
  "unicode s \<longleftrightarrow> \<not> list_ex is_surrogate s"

definition entry_unicode :: "manifest_entry \<Rightarrow> bool" where
  "entry_unicode e \<longleftrightarrow> list_all unicode [entry_path e, entry_sha256 e, entry_origin e, entry_tag e, entry_commit e, entry_policy e]
     \<and> hex64_pattern (entry_sha256 e)"

lemma entry_of_entry_json: "entry_unicode e \<Longrightarrow> entry_of_json (entry_json e) = Some e"
  by (cases e) (simp add: entry_of_json_def entry_json_def entry_unicode_def unicode_def keys_within_def str_field_def
      str_value_def obj_get_JObj)

lemma manifest_of_manifest_json:
  assumes "list_all entry_unicode (manifest_entries m)"
  shows "manifest_of_json (manifest_json m) = Some m"
proof -
  have "those (map entry_of_json (map entry_json es)) = Some es" if "list_all entry_unicode es" for es
    using that by (induction es) (auto simp: entry_of_entry_json)
  with assms show ?thesis
    by (cases m) (simp add: manifest_of_json_def manifest_json_def keys_within_def values_field_def all_of_def obj_get_JObj)
qed

subsection \<open>What the plan hands on\<close>

lemma plan_Inr:
  "plan_build h d q git v options tracked policy = Inr plan \<longleftrightarrow>
     validate_build_options options = Inr () \<and> determine_release_context d q git v = Inr (plan_context plan) \<and>
     (\<exists>ps. select_from h policy [] tracked = Inr ps \<and> ps \<noteq> [] \<and> selected_paths plan = sort ps)"
  by (cases plan) (auto simp: plan_build_def bind_result_Inr select_allowlisted_paths_def guard_Inr)

lemma selected_exact:
  "(\<exists>ps. select_from h policy [] tracked = Inr ps \<and> ps \<noteq> [] \<and> qs = sort ps) \<longleftrightarrow>
     list_all (classifiable h policy) tracked \<and> qs \<noteq> [] \<and>
     qs = sorted_list_of_set {p \<in> set tracked. selectable h policy p}"
proof -
  let ?allowed = "{p \<in> set tracked. selectable h policy p}"
  have sorted: "sort ps = sorted_list_of_set ?allowed" "sort ps = [] \<longleftrightarrow> ps = []"
    if "select_from h policy [] tracked = Inr ps" for ps
  proof -
    from select_from_Inr [OF that] have "remdups ps = ps" "set ps = ?allowed" by (auto simp: distinct_remdups_id)
    then show "sort ps = sorted_list_of_set ?allowed"
      using sorted_list_of_set_sort_remdups [of ps] by (simp add: distinct_remdups_id)
    show "sort ps = [] \<longleftrightarrow> ps = []" by (metis set_empty set_sort)
  qed
  have ok: "is_ok (select_from h policy [] tracked) \<longleftrightarrow> list_all (classifiable h policy) tracked"
    by (simp add: select_from_is_ok)
  show ?thesis
  proof (cases "select_from h policy [] tracked")
    case (Inl e)
    with ok show ?thesis by simp
  next
    case (Inr ps)
    with ok sorted [OF Inr] show ?thesis by auto
  qed
qed

lemma selected_text:
  assumes "run_plan h policy tracked_text args = (c, Some selected_text)"
  shows "list_all (\<lambda>p. line_ok p \<and> path_allowed policy p) (path_lines selected_text)"
proof -
  from assms obtain plan ps where ps: "select_from h policy [] (path_lines tracked_text) = Inr ps" "ps \<noteq> []"
    and sel_text: "selected_text = join_with [10] (sort ps)"
    by (auto simp: run_plan_def refusal_def plan_Inr split: sum.splits build_failure.splits)
  from select_from_Inr [OF ps(1)] have sel: "\<forall>p \<in> set ps. p \<in> set (path_lines tracked_text) \<and> path_allowed policy p"
    by (auto simp: selectable_def)
  then have ok: "list_all line_ok (sort ps)" using path_lines_ok by (auto simp: list_all_iff)
  have "sort ps \<noteq> []" using ps(2) by (metis set_empty set_sort)
  from path_lines_join [OF this ok] sel ok show ?thesis by (simp add: sel_text list_all_iff)
qed

subsection \<open>Acceptance of what was made\<close>

definition installer_staged :: "package_host \<Rightarrow> (pystr \<times> stage_node) list \<Rightarrow> (pystr \<Rightarrow> signature_info option) \<Rightarrow>
    pystr list \<Rightarrow> required_installer \<Rightarrow> bool" where
  "installer_staged h nodes sigs ps req \<longleftrightarrow>
     (\<exists>p s. find (\<lambda>p. path_name p = installer_filename req) ps = Some p \<and>
        map_option (hash_hex h) (read_stage h nodes p) = Some (installer_sha256 req) \<and>
        sigs (installer_filename req) = Some s \<and> signature_status s = lit ''Valid'' \<and>
        upper_of h (signature_thumbprint s) = upper_of h (installer_thumbprint req) \<and>
        signature_subject s = installer_subject req)"

lemma find_map: "find q (map f xs) = map_option f (find (q \<circ> f) xs)"
  by (induction xs) auto

lemma installer_staged_vetted:
  assumes "installer_staged h nodes sigs ps req"
  shows "installer_vetted h (map (entry_at h nodes prov) ps) nodes sigs req"
proof -
  from assms obtain p s where *: "find (\<lambda>p. path_name p = installer_filename req) ps = Some p"
    "map_option (hash_hex h) (read_stage h nodes p) = Some (installer_sha256 req)"
    "sigs (installer_filename req) = Some s" "signature_status s = lit ''Valid''"
    "upper_of h (signature_thumbprint s) = upper_of h (installer_thumbprint req)"
    "signature_subject s = installer_subject req" by (auto simp: installer_staged_def)
  then have "entry_sha256 (entry_at h nodes prov p) = installer_sha256 req" by (auto simp: entry_at_def)
  with * show ?thesis
    unfolding installer_vetted_def by (auto simp: find_map comp_def)
qed

lemma plain_entry_safe:
  assumes "wf_tree nodes" "link_free nodes"
  shows "list_all (entry_safe root) (iter_raw_entries root nodes)"
proof -
  have "entry_safe root e" if "e \<in> walked root [] nodes" for e
  proof -
    from that walked_files [OF assms(2)] obtain ws b where e: "e = raw_of ws False (root @ ws)"
      "(ws, b) \<in> set (tree_files [] nodes)" by auto
    then have "join_with [47] ws \<in> set (map fst (staged_files nodes))" by (force simp: staged_files_def)
    from plain_path_facts(1) [OF staged_plain [OF assms(1) this]] e(1) show ?thesis
      by (simp add: entry_safe_def raw_of_def)
  qed
  then show ?thesis by (simp add: list_all_iff set_iter_raw_entries)
qed

lemma entry_at_hashed:
  "read_stage h nodes p \<noteq> None \<Longrightarrow> entry_hashed h nodes (entry_at h nodes prov p)"
  by (auto simp: entry_hashed_def entry_at_def)

lemma entry_at_from: "entry_from prov (entry_at h nodes prov p)"
  by (simp add: entry_from_def entry_at_def manifest_entry_for_def)

text \<open>No file is walked twice.\<close>

lemma tree_files_under:
  "(ws, b) \<in> set (tree_files rel nodes) \<Longrightarrow> \<exists>n us. ws = rel @ n # us \<and> n \<in> set (map fst nodes)"
proof (induction rel nodes rule: tree_files.induct)
  case (3 rel n ns rest)
  from 3(3) consider "(ws, b) \<in> set (tree_files (rel @ [n]) ns)" | "(ws, b) \<in> set (tree_files rel rest)" by auto
  then show ?case
  proof cases
    case 1
    with 3(1) show ?thesis by fastforce
  next
    case 2
    with 3(2) show ?thesis by auto
  qed
qed auto

lemma tree_files_distinct: "wf_tree nodes \<Longrightarrow> distinct (map fst (tree_files rel nodes))"
proof (induction rel nodes rule: tree_files.induct)
  case (2 rel n b rest)
  have "rel @ [n] \<notin> set (map fst (tree_files rel rest))"
  proof
    assume "rel @ [n] \<in> set (map fst (tree_files rel rest))"
    then obtain c where "(rel @ [n], c) \<in> set (tree_files rel rest)" by auto
    from tree_files_under [OF this] 2(2) show False by auto
  qed
  with 2 show ?case by simp
next
  case (3 rel n ns rest)
  have "set (map fst (tree_files (rel @ [n]) ns)) \<inter> set (map fst (tree_files rel rest)) = {}"
  proof (rule ccontr)
    assume "\<not> ?thesis"
    then obtain ws b c where "(ws, b) \<in> set (tree_files (rel @ [n]) ns)" "(ws, c) \<in> set (tree_files rel rest)" by auto
    from tree_files_under [OF this(1)] tree_files_under [OF this(2)] 3(3) show False by auto
  qed
  with 3 show ?case by simp
qed auto

lemma mset_dir_entries [simp]:
  "dir_entries root rel [] = []"
  "mset (dir_entries root rel ((n, File b) # rest)) =
     add_mset (raw_of (rel @ [n]) False (root @ rel @ [n])) (mset (dir_entries root rel rest))"
  "dir_entries root rel ((n, Dir ns) # rest) = dir_entries root rel rest"
  by (auto simp: dir_entries_def)

lemma walk_permutes:
  "link_free nodes \<Longrightarrow> mset (dir_entries root rel nodes) + mset (walk_subdirs root rel nodes) =
     mset (map (\<lambda>(ws, b). raw_of ws False (root @ ws)) (tree_files rel nodes))"
proof (induction rel nodes rule: tree_files.induct)
  case (3 rel n ns rest)
  then have "link_free ns" "link_free rest" by simp_all
  from 3(1) [OF this(1), symmetric] 3(2) [OF this(2), symmetric] show ?case by (simp add: ac_simps)
qed auto

lemma staged_paths_distinct:
  assumes "wf_tree nodes"
  shows "distinct (map fst (staged_files nodes))"
proof -
  have "inj_on (join_with [47]) (set (map fst (tree_files [] nodes)))"
  proof (rule inj_onI)
    fix us vs assume us: "us \<in> set (map fst (tree_files [] nodes))" and vs: "vs \<in> set (map fst (tree_files [] nodes))"
      and eq: "join_with [47] us = join_with [47] vs"
    have split: "split_on 47 (join_with [47] ws) = ws" if "ws \<in> set (map fst (tree_files [] nodes))" for ws
    proof -
      from that obtain b where "(ws, b) \<in> set (tree_files [] nodes)" by auto
      from tree_files_found [OF assms this, of None] have "ws \<noteq> []" "list_all plain_name ws" by auto
      from split_on_join [OF this(1) plain_no_slash [OF this(2)]] show ?thesis .
    qed
    from split [OF us] split [OF vs] eq show "us = vs" by metis
  qed
  moreover have "map fst (staged_files nodes) = map (join_with [47]) (map fst (tree_files [] nodes))"
    by (simp add: staged_files_def split_def comp_def)
  ultimately show ?thesis
    using tree_files_distinct [OF assms, of "[]"] by (simp only: distinct_map)
qed

lemma walked_mset:
  assumes "link_free nodes"
  shows "mset (map raw_path (iter_raw_entries root nodes)) = mset (map fst (staged_files nodes))"
proof -
  have "mset (iter_raw_entries root nodes) = mset (map (\<lambda>(ws, b). raw_of ws False (root @ ws)) (tree_files [] nodes))"
    using walk_permutes [OF assms, of root "[]"] by (simp only: iter_raw_entries_def mset_sort mset_append)
  then have "image_mset raw_path (mset (iter_raw_entries root nodes)) =
      image_mset raw_path (mset (map (\<lambda>(ws, b). raw_of ws False (root @ ws)) (tree_files [] nodes)))" by simp
  moreover have "map fst (staged_files nodes) = map raw_path (map (\<lambda>(ws, b). raw_of ws False (root @ ws)) (tree_files [] nodes))"
    by (simp add: staged_files_def raw_of_def split_def comp_def)
  ultimately show ?thesis by (simp only: mset_map)
qed

lemma walked_distinct:
  assumes "wf_tree nodes" "link_free nodes"
  shows "distinct (map raw_path (iter_raw_entries root nodes))"
  using mset_eq_imp_distinct_iff [OF walked_mset [OF assms(2), of root]] staged_paths_distinct [OF assms(1)] by blast

lemma chain_stage_accepted:
  assumes tree: "wf_tree nodes" "link_free nodes"
    and lines: "distinct ps" "set ps = set (map fst (staged_files nodes))"
    and allowed: "list_all (path_allowed policy) ps" and same_case: "inj_on (lower_of h) (set ps)"
    and installers: "list_all (installer_staged h nodes sigs ps) (required_installers policy)"
  shows "stage_accepted h root nodes (map (entry_at h nodes prov) ps) policy prov sigs"
proof -
  let ?qs = "map raw_path (iter_raw_entries root nodes)"
  have qs: "set ?qs = set ps" using walked_paths [OF tree(2)] lines(2) by simp
  have "distinct (map (lower_of h) ?qs)"
    unfolding distinct_map [of "lower_of h"] qs using walked_distinct [OF tree, of root] same_case by blast
  moreover have "list_all (path_allowed policy) ?qs" using allowed qs by (simp only: list_all_iff)
  moreover have "distinct (map entry_path (map (entry_at h nodes prov) ps))"
    "set (map entry_path (map (entry_at h nodes prov) ps)) = set ?qs"
    using lines(1) qs by (simp_all add: comp_def)
  moreover have "list_all (entry_hashed h nodes) (map (entry_at h nodes prov) ps)"
  proof -
    have "read_stage h nodes p \<noteq> None" if "p \<in> set ps" for p
      using that lines(2) staged_file(2) [OF tree(1)] by fastforce
    then show ?thesis by (auto simp: list_all_iff entry_at_hashed)
  qed
  moreover have "list_all (entry_from prov) (map (entry_at h nodes prov) ps)"
    by (auto simp: list_all_iff entry_at_from)
  moreover have "list_all (installer_vetted h (map (entry_at h nodes prov) ps) nodes sigs) (required_installers policy)"
    using installers by (auto simp: list_all_iff installer_staged_vetted)
  ultimately show ?thesis
    unfolding stage_accepted_def Let_def using plain_entry_safe [OF tree] by blast
qed

subsection \<open>The finished archive\<close>

text \<open>The files of an archive, under the names it has for them.\<close>

definition archived_files :: "zip_info list \<Rightarrow> (pystr \<times> bytes option) list" where
  "archived_files archive = map (\<lambda>i. (zip_filename i, zip_content i)) (filter (\<lambda>i. \<not> is_dir_info i) archive)"

text \<open>An archive of exactly the staged files, in any order and with any directories between them.\<close>

definition archive_of :: "(pystr \<times> stage_node) list \<Rightarrow> zip_info list \<Rightarrow> bool" where
  "archive_of nodes archive \<longleftrightarrow> distinct (map fst (archived_files archive)) \<and>
     set (archived_files archive) = (\<lambda>(p, b). (p, Some b)) ` set (staged_files nodes)"

lemma plain_not_dir:
  "list_all plain_name (split_on 47 (zip_filename i)) \<Longrightarrow> \<not> is_dir_info i"
  using plain_path_facts(4,5) by (auto simp: is_dir_info_def)

lemma archive_of_paths:
  assumes tree: "wf_tree nodes" and arch: "archive_of nodes archive"
  shows "archive_paths archive = map fst (archived_files archive)"
    "set (archive_paths archive) = set (map fst (staged_files nodes))"
proof -
  have names: "set (map fst (archived_files archive)) = set (map fst (staged_files nodes))"
    using arch by (force simp: archive_of_def)
  have "slashed (zip_filename i) = zip_filename i" if "i \<in> set archive" "\<not> is_dir_info i" for i
  proof -
    have "zip_filename i \<in> set (map fst (archived_files archive))" using that by (auto simp: archived_files_def)
    with names have "zip_filename i \<in> set (map fst (staged_files nodes))" by simp
    from slashed_plain [OF plain_path_facts(2) [OF staged_plain [OF tree this]]] show ?thesis .
  qed
  then show "archive_paths archive = map fst (archived_files archive)"
    by (auto simp: archive_paths_def archived_files_def)
  with names show "set (archive_paths archive) = set (map fst (staged_files nodes))" by simp
qed

lemma archive_of_found:
  assumes tree: "wf_tree nodes" and arch: "archive_of nodes archive" and staged: "(p, b) \<in> set (staged_files nodes)"
  shows "zip_entry_sha256 h archive p = Inr (hash_hex h b)"
proof -
  have p_in: "p \<in> set (map fst (staged_files nodes))" using staged by force
  note plain = staged_plain [OF tree p_in]
  have "(p, Some b) \<in> set (archived_files archive)" using arch staged by (force simp: archive_of_def)
  then obtain i where i: "i \<in> set archive" "\<not> is_dir_info i" "zip_filename i = p" "zip_content i = Some b"
    by (auto simp: archived_files_def)
  then have "find (\<lambda>i. zip_filename i = p) (rev archive) \<noteq> None" by (auto simp: find_None_iff)
  then obtain j where j: "find (\<lambda>i. zip_filename i = p) (rev archive) = Some j" by blast
  from find_member [OF this] have jm: "j \<in> set archive" "zip_filename j = p" by auto
  with plain have "\<not> is_dir_info j" by (simp add: plain_not_dir)
  moreover have "distinct (archive_paths archive)"
    using archive_of_paths(1) [OF tree arch] arch by (simp add: archive_of_def)
  ultimately have "j = i" using member_unique [of archive j i] i jm by simp
  with j i show ?thesis by (auto simp: zip_entry_Inr)
qed

lemma chain_post_zip:
  assumes tree: "wf_tree nodes" and arch: "archive_of nodes archive"
    and lines: "distinct ps" "set ps = set (map fst (staged_files nodes))"
    and entries: "manifest_entries m = map (entry_at h nodes prov) ps"
  shows "verify_post_zip h archive m (digests_of (manifest_entries m)) = Inr \<lparr>zipped_count = length ps\<rparr>"
proof -
  note paths = archive_of_paths [OF tree arch]
  have d: "distinct (archive_paths archive)" using paths(1) arch by (simp add: archive_of_def)
  have m_paths: "map entry_path (manifest_entries m) = ps" by (simp add: entries comp_def)
  have len: "length (archive_paths archive) = length ps"
    using distinct_card [OF d] distinct_card [OF lines(1)] paths(2) lines(2) by simp
  have "digest_confirmed h archive (digests_of (manifest_entries m)) p" if "p \<in> set (archive_paths archive)" for p
  proof -
    from that paths(2) obtain b where b: "(p, b) \<in> set (staged_files nodes)" by auto
    then have "p \<in> set ps" using lines(2) by force
    with m_paths lines(1) have "digests_of (manifest_entries m) p = Some (entry_sha256 (entry_at h nodes prov p))"
      by (subst digests_of_iff) (auto simp: entries)
    then show ?thesis
      using archive_of_found [OF tree arch b] staged_file(2) [OF tree b]
      by (simp add: digest_confirmed_def entry_at_def)
  qed
  moreover have "\<not> starts_with p [47] \<and> lit ''..'' \<notin> set (split_on 47 p)" if "p \<in> set (archive_paths archive)" for p
    using that paths(2) plain_path_facts(1,3) [OF staged_plain [OF tree, of p]] by simp
  ultimately show ?thesis
    unfolding post_zip_Inr list_all_iff using d len lines(2) paths(2) m_paths by (auto simp: entries)
qed

subsection \<open>The manifest command\<close>

definition provenance_of :: "pystr option \<Rightarrow> pystr \<Rightarrow> pystr \<Rightarrow> manifest_provenance" where
  "provenance_of tag commit policy_label =
     \<lparr>prov_origin = lit ''AeroOne'', prov_tag = (case tag of None \<Rightarrow> [] | Some t \<Rightarrow> t), prov_commit = commit,
      prov_policy = policy_label\<rparr>"

lemma chain_manifest:
  assumes tree: "wf_tree nodes" and files: "set (path_lines all_text) = set (map fst (staged_files nodes))"
    and hex: "\<And>b. hex64_pattern (hash_hex h b)"
    and unicode: "unicode all_text" "unicode commit" "unicode policy_label" "unicode (case tag of None \<Rightarrow> [] | Some t \<Rightarrow> t)"
  defines "entries \<equiv> map (entry_at h nodes (provenance_of tag commit policy_label)) (path_lines all_text)"
  shows "run_manifest h nodes all_text tag commit policy_label =
      (Printed (JObj [(lit ''ok'', JBool True), (lit ''entry_count'', JInt (int (length (path_lines all_text))))]) 0,
       Some (manifest_json \<lparr>manifest_entries = entries\<rparr>))"
    and "manifest_of_json (manifest_json \<lparr>manifest_entries = entries\<rparr>) = Some \<lparr>manifest_entries = entries\<rparr>"
proof -
  have readable: "list_all (\<lambda>p. read_stage h nodes p \<noteq> None) (path_lines all_text)"
    unfolding list_all_iff
  proof
    fix p assume "p \<in> set (path_lines all_text)"
    then obtain b where "(p, b) \<in> set (staged_files nodes)" using files by auto
    from staged_file(2) [OF tree this] show "read_stage h nodes p \<noteq> None" by simp
  qed
  show "run_manifest h nodes all_text tag commit policy_label =
      (Printed (JObj [(lit ''ok'', JBool True), (lit ''entry_count'', JInt (int (length (path_lines all_text))))]) 0,
       Some (manifest_json \<lparr>manifest_entries = entries\<rparr>))"
    by (simp add: run_manifest_def build_manifest_readable [OF readable] entries_def flip: provenance_of_def)
  have hex_unicode: "unicode s" if "hex64_pattern s" for s
    using that by (force simp: hex64_pattern_def unicode_def list_all_iff list_ex_iff is_digit_def is_surrogate_def)
  have path: "unicode p" if "p \<in> set (path_lines all_text)" for p
    using unicode(1) path_lines_chars [OF that] by (auto simp: unicode_def list_ex_iff)
  have "unicode (lit ''AeroOne'')" by (simp add: unicode_def lit_def is_surrogate_def)
  then have "list_all entry_unicode entries"
    using hex hex_unicode [OF hex] path unicode
    by (auto simp: entries_def list_all_iff entry_unicode_def entry_at_def manifest_entry_for_def provenance_of_def)
  then show "manifest_of_json (manifest_json \<lparr>manifest_entries = entries\<rparr>) = Some \<lparr>manifest_entries = entries\<rparr>"
    by (simp add: manifest_of_manifest_json)
qed

end
