(* ===== verification/Package_Properties.thy ===== *)
theory Package_Properties
  imports Package_Chain
begin

text \<open>
  The properties of offline packages: what a pattern admits, when a plan is made, what the check before the ZIP
  accepts, that an accepted ZIP holds the accepted files, and that a package built by the commands passes both
  checks. The policy the repository ships is \<open>installer_policy\<close>.
\<close>

subsection \<open>The shipped policy\<close>

definition category :: "string \<Rightarrow> string list \<Rightarrow> string list \<Rightarrow> forbidden_category" where
  "category name patterns allows =
     \<lparr>category_name = lit name, category_patterns = map lit patterns, category_allows = map lit allows\<rparr>"

definition installer_policy :: policy_document where
  "installer_policy =
     \<lparr>policy_version = 1, policy_profile = lit ''release-qa'',
      allow_top_level_entries = map lit
        [''backend'', ''frontend'', ''docs'', ''scripts'', ''packaging'', ''offline_assets'', ''infra'', ''alembic.ini'',
         ''README.md'', ''start_offline.bat'', ''stop_offline.bat'', ''setup_offline.bat'', ''offline_package.bat'',
         ''setup.bat''],
      forbidden_categories =
        [category ''env-secret'' [''**/.env'', ''.env''] [''**/.env.example'', ''.env.example''],
         category ''database''
           [''**/*.db'', ''**/*.db-wal'', ''**/*.db-shm'', ''**/*.sqlite'', ''**/*.sqlite3'', ''backend/data/**''] [],
         category ''storage-runtime'' [''storage/**''] [],
         category ''agent-state'' [''.gjc/**'', ''.omo/**'', ''.omx/**'', ''.omc/**'', ''.ug-*'', ''**/.ug-*''] [],
         category ''dev-artifact''
           [''**/.venv/**'', ''**/__pycache__/**'', ''**/*.pyc'', ''**/node_modules/.cache/**'', ''**/.next/cache/**'',
            ''dist/**'', ''artifacts/**'', ''**/.pytest_cache/**'', ''.worktrees/**''] [],
         category ''provider-credential-root'' [''**/provider-credentials/**'', ''provider-credentials/**''] [],
         category ''credential-dpapi-blob'' [''**/*.dpapi'', ''**/*.dpapi.tmp'', ''**/.aeroone-rotation-*.tmp''] [],
         category ''credential-secure-state'' [''**/.rotation-secure/**'', ''.rotation-secure/**''] []],
      required_installers =
        [\<lparr>installer_filename = lit ''python-3.12.7-amd64.exe'',
          installer_sha256 = lit ''1206721601a62c925d4e4a0dcfc371e88f2ddbe8c0c07962ebb2be9b5bde4570'',
          installer_thumbprint = lit ''36168EE17C1A240517388540C903BB6717DD2563'',
          installer_subject = lit ''Python Software Foundation''\<rparr>,
         \<lparr>installer_filename = lit ''node-v20.18.0-x64.msi'',
          installer_sha256 = lit ''93d1d30341d7d38b7a8f3ab0fa3be1f9e6436b90338b2bd8b8af4e80d00bd036'',
          installer_thumbprint = lit ''6153EB0186DD8FEBD9E3693F4F110DEFC007715D'',
          installer_subject = lit ''OpenJS Foundation''\<rparr>]\<rparr>"

subsection \<open>Patterns and plans\<close>

text \<open>
  C33 [pattern_reference]: a path matches a compiled pattern when the reference for patterns admits it, with or without
  a line feed at its end.
\<close>

theorem pattern_reference:
  "match_pieces (pattern_to_regex pattern) rel_posix \<longleftrightarrow>
     glob pattern rel_posix \<or> (\<exists>t. rel_posix = t @ [10] \<and> glob pattern t)"
  using pattern_is_glob [of pattern rel_posix] by (simp only: line_end_def)

text \<open>
  C23 [plan_exact]: a plan is made exactly when no unsafe option is set, the worktree is clean, the version has three
  numbers, every tracked path can be classified and some path is left; the plan then has the allowed paths in order,
  and is a release, and publishable, exactly when the tag of the commit is the version.
\<close>

theorem plan_exact:
  "plan_build h dist_root qa_root git version options tracked policy = Inr plan \<longleftrightarrow>
     options = \<lparr>reuse_node_modules = False, reuse_next_build = False, reuse_wheelhouse = False,
       include_dev_dependencies = False, allow_public_data = False, allow_timestamp_fallback = False\<rparr> \<and>
     is_clean git \<and> version_shaped version \<and>
     list_all (\<lambda>p. is_builder_denied_path h p \<or> is_ok (classify_forbidden p policy)) tracked \<and>
     selected_paths plan = sorted_list_of_set {p \<in> set tracked. \<not> is_builder_denied_path h p \<and>
       classify_forbidden p policy = Inr None \<and> check_top_level_allowed p policy} \<and>
     selected_paths plan \<noteq> [] \<and>
     plan_context plan =
       \<lparr>release_mode = (if head_tag git = Some version then Release else Qa),
        publishable = (head_tag git = Some version),
        output_dir = (if head_tag git = Some version then dist_root
          else qa_root @ lit ''/'' @ version @ lit ''/'' @ version @ lit ''-pr-'' @ take 8 (head_commit git)),
        zip_name = lit ''AeroOne-offline-'' @ version @
          (if head_tag git = Some version then lit ''.zip'' else lit ''-pr-'' @ take 8 (head_commit git) @ lit ''.zip''),
        context_version = version, context_tag = head_tag git, context_commit = head_commit git\<rparr>"
proof -
  have options: "validate_build_options options = Inr () \<longleftrightarrow>
      options = \<lparr>reuse_node_modules = False, reuse_next_build = False, reuse_wheelhouse = False,
        include_dev_dependencies = False, allow_public_data = False, allow_timestamp_fallback = False\<rparr>"
    by (cases options) (auto simp: validate_build_options_def)
  have chosen: "(\<exists>ps. select_from h policy [] tracked = Inr ps \<and> ps \<noteq> [] \<and> selected_paths plan = sort ps) \<longleftrightarrow>
      list_all (classifiable h policy) tracked \<and> selected_paths plan \<noteq> [] \<and>
      selected_paths plan = sorted_list_of_set {p \<in> set tracked. selectable h policy p}"
    by (rule selected_exact)
  show ?thesis
    unfolding plan_Inr options chosen
    by (auto simp: determine_release_context_def Let_def classifiable_def [abs_def] selectable_def path_allowed_def)
qed

subsection \<open>Categories without a code\<close>

lemma classify_in_append: "classify_in p cs = Inr None \<Longrightarrow> classify_in p (cs @ ds) = classify_in p ds"
  by (induction cs) (auto split: if_splits option.splits)

lemma unknown_category: "category_codes (lit ''provider-credential-root'') = None" "category_codes (lit ''credential-dpapi-blob'') = None"
  by (simp_all add: category_codes_def)

lemma dpapi_glob: "10 \<notin> set u \<Longrightarrow> glob (lit ''**/*.dpapi'') (u @ lit ''.dpapi'')"
proof -
  have "glob (lit ''.dpapi'') (lit ''.dpapi'')"
    by (simp add: lit_def) (intro glob_char glob_end; simp)
  then have "glob (42 # lit ''.dpapi'') ([] @ lit ''.dpapi'')"
    by (intro glob_star) (simp_all add: lit_def)
  moreover assume "10 \<notin> set u"
  ultimately have "glob (42 # 42 # 47 # 42 # lit ''.dpapi'') (u @ lit ''.dpapi'')"
    by (intro glob_deep_slash) simp_all
  then show ?thesis by (simp add: lit_def)
qed

lemma dpapi_unclassified:
  assumes "classify_in (u @ lit ''.dpapi'') (take 5 (forbidden_categories installer_policy)) = Inr None" "10 \<notin> set u"
  shows "classify_forbidden (u @ lit ''.dpapi'') installer_policy = Inl (Policy_Failure TOPLEVEL_NOT_ALLOWED)"
proof -
  let ?p = "u @ lit ''.dpapi''" and ?cs = "forbidden_categories installer_policy"
  have rest: "drop 5 ?cs = [category ''provider-credential-root'' [''**/provider-credentials/**'', ''provider-credentials/**''] [],
      category ''credential-dpapi-blob'' [''**/*.dpapi'', ''**/*.dpapi.tmp'', ''**/.aeroone-rotation-*.tmp''] [],
      category ''credential-secure-state'' [''**/.rotation-secure/**'', ''.rotation-secure/**''] []]"
    by (simp add: installer_policy_def)
  have "match_pieces (pattern_to_regex (lit ''**/*.dpapi'')) ?p"
    by (simp only: pattern_is_glob line_end_def dpapi_glob [OF assms(2)] simp_thms)
  then have "classify_in ?p (drop 5 ?cs) = Inl (Policy_Failure TOPLEVEL_NOT_ALLOWED)"
    unfolding rest by (simp add: category_def match_any_def unknown_category)
  then show ?thesis
    using classify_in_append [OF assms(1), of "drop 5 ?cs"] by (simp add: classify_forbidden_def)
qed

text \<open>
  C34 [credential_file_stops_plan]: under the shipped policy a tracked file whose name ends in \<open>.dpapi\<close> is not left
  out of the plan: unless the builder excludes it or an earlier category takes it, the command ends with an exception
  it does not catch, whatever the other paths are.
\<close>

theorem credential_file_stops_plan:
  assumes "validate_build_options (arg_options args) = Inr ()" "arg_clean args" "version_shaped (arg_version args)"
    and tracked: "u @ lit ''.dpapi'' \<in> set (path_lines tracked_text)"
    and earlier: "\<not> is_builder_denied_path h (u @ lit ''.dpapi'')"
      "classify_in (u @ lit ''.dpapi'') (take 5 (forbidden_categories installer_policy)) = Inr None"
  shows "run_plan h installer_policy tracked_text args =
    (Uncaught (Package_Failed (Policy_Failure TOPLEVEL_NOT_ALLOWED)), None)"
proof -
  let ?p = "u @ lit ''.dpapi''"
  have "\<not> is_line_break c" if "c \<in> set ?p" for c
    using path_lines_ok [OF tracked] that unfolding line_ok_def list_ex_iff by blast
  then have "10 \<notin> set u" by (force simp: is_line_break_def)
  from dpapi_unclassified [OF earlier(2) this] earlier(1) have "\<not> classifiable h installer_policy ?p"
    by (simp add: classifiable_def)
  then have "\<not> is_ok (select_from h installer_policy [] (path_lines tracked_text))"
    using tracked by (auto simp: select_from_is_ok list_all_iff)
  then obtain e where e: "select_from h installer_policy [] (path_lines tracked_text) = Inl e"
    by (cases "select_from h installer_policy [] (path_lines tracked_text)") auto
  from select_from_Inl [OF this] assms(1-3) e show ?thesis
    by (simp add: run_plan_def plan_build_def select_allowlisted_paths_def determine_release_context_def Let_def)
qed

subsection \<open>The two checks\<close>

text \<open>
  C22 [pre_stage_exact]: the check of a staged package passes exactly when the tree has no link, no entry outside the
  root and no two that differ in case only, every path is allowed, the manifest lists each path once and nothing
  else, every entry has the digest of its file and the expected provenance, and every required installer is there with
  its digest and a valid signature of the required certificate; the result then has the counts and the digests.
\<close>

theorem pre_stage_exact:
  "verify_pre_stage h root nodes m policy expected sigs = Inr r \<longleftrightarrow>
     list_all (\<lambda>e. \<not> raw_is_symlink e \<and> lit ''..'' \<notin> set (split_on 47 (raw_path e)) \<and> prefix root (raw_resolved e))
       (iter_raw_entries root nodes) \<and>
     distinct (map (\<lambda>e. lower_of h (raw_path e)) (iter_raw_entries root nodes)) \<and>
     list_all (\<lambda>e. classify_forbidden (raw_path e) policy = Inr None \<and> check_top_level_allowed (raw_path e) policy)
       (iter_raw_entries root nodes) \<and>
     distinct (map entry_path (manifest_entries m)) \<and>
     set (map entry_path (manifest_entries m)) = set (map raw_path (iter_raw_entries root nodes)) \<and>
     list_all (\<lambda>e. map_option (hash_hex h) (read_stage h nodes (entry_path e)) = Some (entry_sha256 e) \<and>
         entry_origin e = prov_origin expected \<and> entry_tag e = prov_tag expected \<and>
         entry_commit e = prov_commit expected \<and> entry_policy e = prov_policy expected) (manifest_entries m) \<and>
     list_all (\<lambda>req. \<exists>e s.
         find (\<lambda>e. path_name (entry_path e) = installer_filename req) (manifest_entries m) = Some e \<and>
         map_option (hash_hex h) (read_stage h nodes (entry_path e)) = Some (installer_sha256 req) \<and>
         entry_sha256 e = installer_sha256 req \<and> sigs (installer_filename req) = Some s \<and>
         signature_status s = lit ''Valid'' \<and>
         upper_of h (signature_thumbprint s) = upper_of h (installer_thumbprint req) \<and>
         signature_subject s = installer_subject req) (required_installers policy) \<and>
     r = \<lparr>staged_count = length (iter_raw_entries root nodes), installer_count = length (required_installers policy),
          entry_digests = map_of (rev (map (\<lambda>e. (entry_path e, entry_sha256 e)) (manifest_entries m)))\<rparr>"
  unfolding pre_stage_Inr stage_accepted_def Let_def digests_of_def
  by (auto simp: list_all_iff entry_safe_def path_allowed_def entry_hashed_def entry_from_def installer_vetted_def comp_def)

text \<open>An accepted archive member is a staged file, with its content.\<close>

lemma accepted_parts:
  assumes tree: "wf_tree nodes" and pre: "verify_pre_stage h root nodes m policy expected sigs = Inr r"
  shows "set (map entry_path (manifest_entries m)) = set (map fst (staged_files nodes))"
    "list_all (path_allowed policy) (map fst (staged_files nodes))"
    "(p, b) \<in> set (staged_files nodes) \<Longrightarrow> entry_digests r p = Some (hash_hex h b)"
proof -
  from pre have acc: "stage_accepted h root nodes (manifest_entries m) policy expected sigs"
    and r: "entry_digests r = digests_of (manifest_entries m)" by (simp_all add: pre_stage_Inr)
  from acc have "list_all (entry_safe root) (iter_raw_entries root nodes)" by (simp add: stage_accepted_def Let_def)
  then have links: "link_free nodes"
    by (simp add: list_all_iff entry_safe_def set_iter_raw_entries flip: walked_link_free [of root "[]"])
  note paths = walked_paths [OF links, of root]
  from acc paths show set_eq: "set (map entry_path (manifest_entries m)) = set (map fst (staged_files nodes))"
    by (simp add: stage_accepted_def Let_def)
  from acc have "list_all (path_allowed policy) (map raw_path (iter_raw_entries root nodes))"
    by (simp add: stage_accepted_def Let_def)
  with paths show "list_all (path_allowed policy) (map fst (staged_files nodes))" by (simp only: list_all_iff)
  assume f: "(p, b) \<in> set (staged_files nodes)"
  then have "p \<in> set (map entry_path (manifest_entries m))" using set_eq by force
  then obtain e where e: "e \<in> set (manifest_entries m)" "entry_path e = p" by auto
  with acc have "entry_hashed h nodes e" "distinct (map entry_path (manifest_entries m))"
    by (auto simp: stage_accepted_def Let_def list_all_iff)
  with e staged_file(2) [OF tree f] show "entry_digests r p = Some (hash_hex h b)"
    unfolding r by (subst digests_of_iff) (auto simp: entry_hashed_def)
qed

lemma accepted_member:
  assumes tree: "wf_tree nodes"
    and pre: "verify_pre_stage h root nodes m policy expected sigs = Inr r"
    and post: "verify_post_zip h archive m (entry_digests r) = Inr z"
    and no_collision: "inj_on (hash_hex h) (snd ` set (staged_files nodes) \<union> {b. \<exists>i \<in> set archive. zip_content i = Some b})"
    and i: "i \<in> set archive" "\<not> is_dir_info i"
  shows "\<exists>b. (zip_filename i, b) \<in> set (staged_files nodes) \<and> zip_content i = Some b \<and>
      slashed (zip_filename i) = zip_filename i"
proof -
  let ?n = "slashed (zip_filename i)"
  note parts = accepted_parts [OF tree pre]
  have n: "?n \<in> set (archive_paths archive)" using i by (auto simp: archive_paths_def)
  with post parts(1) obtain b where b: "(?n, b) \<in> set (staged_files nodes)" by (auto simp: post_zip_Inr)
  have plain: "list_all plain_name (split_on 47 ?n)" using staged_file(1) [OF tree b] .
  from post n parts(3) [OF b] have "zip_entry_sha256 h archive ?n = Inr (hash_hex h b)"
    by (auto simp: post_zip_Inr list_all_iff digest_confirmed_def)
  then obtain j c where j: "find (\<lambda>i. zip_filename i = ?n) (rev archive) = Some j" "zip_content j = Some c"
    "hash_hex h c = hash_hex h b" by (auto simp: zip_entry_Inr)
  from find_member [OF j(1)] have jm: "j \<in> set archive" "zip_filename j = ?n" by auto
  then have "\<not> is_dir_info j" "slashed (zip_filename j) = ?n"
    using plain plain_not_dir [of j] slashed_plain [OF plain_path_facts(2) [OF plain]] by simp_all
  moreover from post have "distinct (archive_paths archive)" by (simp add: post_zip_Inr)
  ultimately have ji: "j = i" using member_unique [of archive j i] jm(1) i by simp
  have "c \<in> snd ` set (staged_files nodes) \<union> {b. \<exists>i \<in> set archive. zip_content i = Some b}"
    "b \<in> snd ` set (staged_files nodes) \<union> {b. \<exists>i \<in> set archive. zip_content i = Some b}"
    using j(2) jm(1) b by force+
  with no_collision j(3) have "c = b" by (simp add: inj_on_def)
  with ji j(2) jm(2) b show ?thesis by auto
qed

text \<open>
  C12 [packed_is_staged]: when a staged package passes the first check and a ZIP passes the second with the digests of
  the first, then, as far as the digest tells their contents apart, the files of the ZIP are the staged files, each
  once, under the same path and with the same bytes, and every one of them is allowed by the policy.
\<close>

theorem packed_is_staged:
  assumes tree: "wf_tree nodes"
    and pre: "verify_pre_stage h root nodes m policy expected sigs = Inr r"
    and post: "verify_post_zip h archive m (entry_digests r) = Inr z"
    and no_collision: "inj_on (hash_hex h) (snd ` set (staged_files nodes) \<union> {b. \<exists>i \<in> set archive. zip_content i = Some b})"
  shows "set (archived_files archive) = (\<lambda>(p, b). (p, Some b)) ` set (staged_files nodes) \<and>
    distinct (map fst (archived_files archive)) \<and>
    list_all (\<lambda>(p, c). classify_forbidden p policy = Inr None \<and> check_top_level_allowed p policy)
      (archived_files archive)"
proof (intro conjI)
  note parts = accepted_parts [OF tree pre]
  from post have d: "distinct (archive_paths archive)"
    and names: "set (archive_paths archive) = set (map fst (staged_files nodes))"
    using parts(1) by (simp_all add: post_zip_Inr)
  note member = accepted_member [OF tree pre post no_collision]
  have fwd: "set (archived_files archive) \<subseteq> (\<lambda>(p, b). (p, Some b)) ` set (staged_files nodes)"
    using member by (fastforce simp: archived_files_def)
  have same: "archive_paths archive = map fst (archived_files archive)"
    using member by (auto simp: archive_paths_def archived_files_def)
  with d show dist: "distinct (map fst (archived_files archive))" by simp
  have "(p, Some b) \<in> set (archived_files archive)" if "(p, b) \<in> set (staged_files nodes)" for p b
  proof -
    have "p \<in> set (map fst (archived_files archive))" using that names same by force
    with fwd obtain c where c: "(p, Some c) \<in> set (archived_files archive)" "(p, c) \<in> set (staged_files nodes)" by auto
    with staged_file(2) [OF tree that, of h] staged_file(2) [OF tree c(2), of h] show ?thesis by simp
  qed
  with fwd show "set (archived_files archive) = (\<lambda>(p, b). (p, Some b)) ` set (staged_files nodes)" by auto
  with parts(2) show "list_all (\<lambda>(p, c). classify_forbidden p policy = Inr None \<and> check_top_level_allowed p policy)
      (archived_files archive)"
    by (auto simp: list_all_iff path_allowed_def)
qed

subsection \<open>The commands one after the other\<close>

text \<open>
  C11 [package_chain_passes]: a package that is staged from a plan comes through. When the plan was made, the staging
  tree holds exactly its paths and generated files that the policy allows, no two paths differ in case only, and the
  required installers are there and signed, then the manifest command succeeds, what it writes is read back by the
  verifier, the check before the ZIP passes, and every ZIP of the staged files passes the last check.
\<close>

theorem package_chain_passes:
  assumes plan: "run_plan h policy tracked_text args = (c, Some selected_text)"
    and lines: "path_lines all_text = path_lines selected_text @ generated" "distinct (path_lines all_text)"
    and generated: "list_all (\<lambda>p. classify_forbidden p policy = Inr None \<and> check_top_level_allowed p policy) generated"
    and tree: "wf_tree nodes" "link_free nodes"
    and files: "set (path_lines all_text) = set (map fst (staged_files nodes))"
    and same_case: "inj_on (lower_of h) (set (path_lines all_text))"
    and installers: "list_all (installer_staged h nodes sigs (path_lines all_text)) (required_installers policy)"
    and hex: "\<And>b. hex64_pattern (hash_hex h b)"
    and texts: "unicode all_text" "unicode commit" "unicode policy_label" "unicode (case tag of None \<Rightarrow> [] | Some t \<Rightarrow> t)"
    and archive: "archive_of nodes archive"
  shows "\<exists>j m digests.
    run_manifest h nodes all_text tag commit policy_label =
      (Printed (JObj [(lit ''ok'', JBool True), (lit ''entry_count'', JInt (int (length (path_lines all_text))))]) 0, Some j) \<and>
    manifest_of_json j = Some m \<and>
    run_pre_stage h root nodes m policy
        \<lparr>prov_origin = lit ''AeroOne'', prov_tag = (case tag of None \<Rightarrow> [] | Some t \<Rightarrow> t), prov_commit = commit,
         prov_policy = policy_label\<rparr> sigs =
      (Printed (JObj [(lit ''ok'', JBool True), (lit ''entry_count'', JInt (int (length (path_lines all_text)))),
         (lit ''installer_count'', JInt (int (length (required_installers policy))))]) 0, Some digests) \<and>
    run_post_zip h archive m digests =
      Printed (JObj [(lit ''ok'', JBool True), (lit ''entry_count'', JInt (int (length (path_lines all_text))))]) 0"
proof -
  let ?prov = "provenance_of tag commit policy_label" and ?ps = "path_lines all_text"
  let ?m = "\<lparr>manifest_entries = map (entry_at h nodes ?prov) ?ps\<rparr>"
  have "list_all (path_allowed policy) ?ps"
    using selected_text [OF plan] generated by (auto simp: lines(1) list_all_iff path_allowed_def)
  from chain_stage_accepted [OF tree lines(2) files this same_case installers]
  have "stage_accepted h root nodes (manifest_entries ?m) policy ?prov sigs" by simp
  moreover have "length (iter_raw_entries root nodes) = length ?ps"
  proof -
    have "length (iter_raw_entries root nodes) = length (map fst (staged_files nodes))"
      using mset_eq_length [OF walked_mset [OF tree(2), of root]] by simp
    then show ?thesis
      using distinct_card [OF lines(2)] distinct_card [OF staged_paths_distinct [OF tree(1)]] files by simp
  qed
  ultimately have pre: "verify_pre_stage h root nodes ?m policy ?prov sigs =
      Inr \<lparr>staged_count = length ?ps, installer_count = length (required_installers policy),
        entry_digests = digests_of (manifest_entries ?m)\<rparr>"
    by (simp add: pre_stage_Inr)
  have "verify_post_zip h archive ?m (digests_of (manifest_entries ?m)) = Inr \<lparr>zipped_count = length ?ps\<rparr>"
    using chain_post_zip [OF tree(1) archive lines(2) files] by simp
  with pre chain_manifest [OF tree(1) files hex texts] show ?thesis
    unfolding provenance_of_def [symmetric] by (intro exI) (auto simp: run_pre_stage_def run_post_zip_def)
qed

subsection \<open>A small package\<close>

text \<open>A tree of three files, a policy with one category and one installer, and its archive.\<close>

definition mini_host :: package_host where
  "mini_host = \<lparr>hash_hex = (\<lambda>b. replicate 63 48 @ [48 + length b mod 10]), lower_of = lower, upper_of = (\<lambda>s. s),
     casefold_of = lower, read_outside = (\<lambda>_. None)\<rparr>"

definition mini_policy :: policy_document where
  "mini_policy = \<lparr>policy_version = 1, policy_profile = lit ''qa'',
     allow_top_level_entries = map lit [''README.md'', ''backend'', ''tools''],
     forbidden_categories = [category ''env-secret'' [''**/.env''] [''**/.env.example'']],
     required_installers = [\<lparr>installer_filename = lit ''py.exe'', installer_sha256 = replicate 63 48 @ [51],
       installer_thumbprint = lit ''AB'', installer_subject = lit ''PSF''\<rparr>]\<rparr>"

definition mini_tree :: "(pystr \<times> stage_node) list" where
  "mini_tree = [(lit ''README.md'', File ''r''), (lit ''backend'', Dir [(lit ''a.py'', File ''ab'')]),
     (lit ''tools'', Dir [(lit ''py.exe'', File ''abc'')])]"

definition mini_args :: plan_args where
  "mini_args = \<lparr>arg_version = lit ''1.13.0'', arg_commit = lit ''0123456789'', arg_tag = Some (lit ''1.13.0''),
     arg_clean = True, arg_options = \<lparr>reuse_node_modules = False, reuse_next_build = False, reuse_wheelhouse = False,
       include_dev_dependencies = False, allow_public_data = False, allow_timestamp_fallback = False\<rparr>\<rparr>"

definition mini_signatures :: "pystr \<Rightarrow> signature_info option" where
  "mini_signatures = [lit ''py.exe'' \<mapsto> \<lparr>signature_status = lit ''Valid'', signature_thumbprint = lit ''AB'',
     signature_subject = lit ''PSF''\<rparr>]"

definition mini_archive :: "zip_info list" where
  "mini_archive = [\<lparr>zip_filename = lit ''backend/'', zip_content = Some []\<rparr>,
     \<lparr>zip_filename = lit ''tools/py.exe'', zip_content = Some ''abc''\<rparr>,
     \<lparr>zip_filename = lit ''README.md'', zip_content = Some ''r''\<rparr>,
     \<lparr>zip_filename = lit ''backend/a.py'', zip_content = Some ''ab''\<rparr>]"

lemma mini_files: "staged_files mini_tree =
    [(lit ''README.md'', ''r''), (lit ''backend/a.py'', ''ab''), (lit ''tools/py.exe'', ''abc'')]"
  by (simp add: mini_tree_def staged_files_def lit_def)

lemma mini_wf: "wf_tree mini_tree" "link_free mini_tree"
  by (simp_all add: mini_tree_def plain_name_def lit_def)

lemma mini_hash [simp]: "hash_hex mini_host b = replicate 63 48 @ [48 + length b mod 10]"
  by (simp add: mini_host_def)

lemma mini_hex: "hex64_pattern (hash_hex mini_host b)"
proof -
  have "length b mod 10 < 10" by simp
  then have "length b mod 10 \<le> 9" by linarith
  then show ?thesis by (simp add: hex64_pattern_def is_digit_def list_all_iff)
qed

lemma mini_archive_of: "archive_of mini_tree mini_archive"
  unfolding archive_of_def mini_files
  by (auto simp: mini_archive_def archived_files_def is_dir_info_def lit_def)

definition mini_tracked :: pystr where
  "mini_tracked = join_with [10] (map lit [''README.md'', ''backend/a.py'', ''backend/.env''])"

definition mini_staged :: pystr where
  "mini_staged = join_with [10] (map lit [''README.md'', ''backend/a.py'', ''tools/py.exe''])"

lemma mini_line_ok: "list_all line_ok (map lit [''README.md'', ''backend/a.py'', ''backend/.env'', ''tools/py.exe'',
    ''backend/key.dpapi''])"
  by (simp add: line_ok_def lit_def is_line_break_def strip_def strip_of_def is_space_def)

lemma mini_lines: "path_lines mini_tracked = map lit [''README.md'', ''backend/a.py'', ''backend/.env'']"
  "path_lines mini_staged = map lit [''README.md'', ''backend/a.py'', ''tools/py.exe'']"
  "path_lines (join_with [10] (map lit [''README.md'', ''backend/key.dpapi''])) = map lit [''README.md'', ''backend/key.dpapi'']"
  "path_lines (join_with [10] (map lit [''README.md'', ''backend/a.py''])) = map lit [''README.md'', ''backend/a.py'']"
  unfolding mini_tracked_def mini_staged_def by (rule path_lines_join; use mini_line_ok in simp)+

lemma mini_classified:
  "classify_forbidden (lit ''README.md'') mini_policy = Inr None"
  "classify_forbidden (lit ''backend/a.py'') mini_policy = Inr None"
  "classify_forbidden (lit ''tools/py.exe'') mini_policy = Inr None"
  "classify_forbidden (lit ''backend/.env'') mini_policy = Inr (Some FORBIDDEN_ENV_SECRET)"
  by (simp_all add: classify_forbidden_def mini_policy_def category_def match_any_def piece_of_def category_codes_def lit_def)

lemma mini_top:
  "check_top_level_allowed (lit ''README.md'') mini_policy" "check_top_level_allowed (lit ''backend/a.py'') mini_policy"
  "check_top_level_allowed (lit ''tools/py.exe'') mini_policy"
  by (simp_all add: check_top_level_allowed_def mini_policy_def lit_def)

lemma mini_not_denied:
  "\<not> is_builder_denied_path mini_host (lit ''README.md'')" "\<not> is_builder_denied_path mini_host (lit ''backend/a.py'')"
  "\<not> is_builder_denied_path mini_host (lit ''backend/.env'')" "\<not> is_builder_denied_path mini_host (lit ''backend/key.dpapi'')"
  by (simp_all add: is_builder_denied_path_def mini_host_def denied_exact_def denied_prefixes_def lower_def slashed_def
      starts_with_def lit_def ascii_lower_def)

lemma mini_early: "classify_in (lit ''backend/key'' @ lit ''.dpapi'') (take 5 (forbidden_categories installer_policy)) = Inr None"
  by (simp add: installer_policy_def category_def match_any_def piece_of_def category_codes_def lit_def)

lemma mini_version: "version_shaped (lit ''1.13.0'')"
  by (simp add: version_shaped_def lit_def is_digit_def)

lemma mini_plan: "run_plan mini_host mini_policy mini_tracked mini_args =
    (fst (run_plan mini_host mini_policy mini_tracked mini_args), Some (join_with [10] (map lit [''README.md'', ''backend/a.py''])))"
proof -
  have "select_from mini_host mini_policy [] (path_lines mini_tracked) = Inr (map lit [''README.md'', ''backend/a.py''])"
    unfolding mini_lines by (simp add: mini_classified mini_top mini_not_denied Let_def del: lit_eq_iff) (simp add: lit_def)
  moreover have "sort (map lit [''README.md'', ''backend/a.py'']) = map lit [''README.md'', ''backend/a.py'']"
    by (simp add: lit_def)
  ultimately show ?thesis
    by (simp add: run_plan_def plan_build_def select_allowlisted_paths_def validate_build_options_def
        determine_release_context_def mini_args_def mini_version Let_def)
qed

lemma mini_lower: "inj_on (lower_of mini_host) (set (path_lines mini_staged))"
  unfolding mini_lines by (simp add: mini_host_def lower_def lit_def ascii_lower_def)

lemma mini_reads:
  "read_stage mini_host mini_tree (lit ''tools/py.exe'') = Some ''abc''"
  by (rule staged_file(2) [OF mini_wf(1)]) (simp add: mini_files)

lemma mini_installers:
  "list_all (installer_staged mini_host mini_tree mini_signatures (path_lines mini_staged)) (required_installers mini_policy)"
  unfolding mini_lines
  by (simp add: mini_policy_def installer_staged_def path_name_def lit_def) (use mini_reads in \<open>simp add: mini_signatures_def lit_def\<close>)

lemma mini_same_files: "set (path_lines mini_staged) = set (map fst (staged_files mini_tree))" "distinct (path_lines mini_staged)"
  unfolding mini_lines mini_files by auto

definition mini_leak :: pystr where
  "mini_leak = join_with [10] (map lit [''README.md'', ''backend/key.dpapi''])"

lemma mini_leak_tracked: "lit ''backend/key'' @ lit ''.dpapi'' \<in> set (path_lines mini_leak)"
  unfolding mini_leak_def mini_lines by (simp add: lit_def)

lemma mini_leak_not_denied: "\<not> is_builder_denied_path mini_host (lit ''backend/key'' @ lit ''.dpapi'')"
  using mini_not_denied(4) by (simp add: lit_def)

lemma mini_args_ok: "validate_build_options (arg_options mini_args) = Inr ()" "arg_clean mini_args"
  "version_shaped (arg_version mini_args)"
  by (simp_all add: mini_args_def validate_build_options_def mini_version)

lemma credential_file_stops_plan_witness:
  "run_plan mini_host installer_policy mini_leak mini_args =
    (Uncaught (Package_Failed (Policy_Failure TOPLEVEL_NOT_ALLOWED)), None)"
  by (rule credential_file_stops_plan [OF mini_args_ok mini_leak_tracked mini_leak_not_denied mini_early])

lemma mini_generated: "list_all (\<lambda>p. classify_forbidden p mini_policy = Inr None \<and> check_top_level_allowed p mini_policy)
    [lit ''tools/py.exe'']"
  by (simp add: mini_classified mini_top)

lemma mini_all_lines: "path_lines mini_staged =
    path_lines (join_with [10] (map lit [''README.md'', ''backend/a.py''])) @ [lit ''tools/py.exe'']"
  unfolding mini_lines by simp

lemma mini_texts: "unicode mini_staged" "unicode (lit ''0123'')" "unicode (lit ''qa@1'')"
  "unicode (case Some (lit ''1.13.0'') of None \<Rightarrow> [] | Some t \<Rightarrow> t)"
  by (simp_all add: unicode_def mini_staged_def lit_def is_surrogate_def)

lemma package_chain_passes_witness:
  "\<exists>j m digests.
    run_manifest mini_host mini_tree mini_staged (Some (lit ''1.13.0'')) (lit ''0123'') (lit ''qa@1'') =
      (Printed (JObj [(lit ''ok'', JBool True), (lit ''entry_count'', JInt 3)]) 0, Some j) \<and>
    manifest_of_json j = Some m \<and>
    run_pre_stage mini_host [lit ''stage''] mini_tree m mini_policy
        \<lparr>prov_origin = lit ''AeroOne'', prov_tag = lit ''1.13.0'', prov_commit = lit ''0123'', prov_policy = lit ''qa@1''\<rparr>
        mini_signatures =
      (Printed (JObj [(lit ''ok'', JBool True), (lit ''entry_count'', JInt 3), (lit ''installer_count'', JInt 1)]) 0,
       Some digests) \<and>
    run_post_zip mini_host mini_archive m digests =
      Printed (JObj [(lit ''ok'', JBool True), (lit ''entry_count'', JInt 3)]) 0"
proof -
  have counts: "length (path_lines mini_staged) = 3" "length (required_installers mini_policy) = 1"
    by (simp_all add: mini_lines mini_policy_def)
  from package_chain_passes [OF mini_plan mini_all_lines mini_same_files(2) mini_generated mini_wf mini_same_files(1)
      mini_lower mini_installers mini_hex mini_texts mini_archive_of, of "[lit ''stage'']"]
  show ?thesis by (simp only: counts option.case of_nat_numeral of_nat_1)
qed

definition mini_manifest :: package_manifest where
  "mini_manifest = \<lparr>manifest_entries = map (entry_at mini_host mini_tree (provenance_of None [] [])) (path_lines mini_staged)\<rparr>"

lemma mini_pre: "verify_pre_stage mini_host [] mini_tree mini_manifest mini_policy (provenance_of None [] []) mini_signatures =
    Inr \<lparr>staged_count = length (iter_raw_entries [] mini_tree), installer_count = length (required_installers mini_policy),
      entry_digests = digests_of (manifest_entries mini_manifest)\<rparr>"
proof -
  have "list_all (path_allowed mini_policy) (path_lines mini_staged)"
    unfolding mini_lines by (simp add: path_allowed_def mini_classified mini_top)
  from chain_stage_accepted [OF mini_wf mini_same_files(2,1) this mini_lower mini_installers] show ?thesis
    by (simp add: pre_stage_Inr mini_manifest_def)
qed

lemma mini_post: "verify_post_zip mini_host mini_archive mini_manifest (digests_of (manifest_entries mini_manifest)) =
    Inr \<lparr>zipped_count = length (path_lines mini_staged)\<rparr>"
  by (rule chain_post_zip [OF mini_wf(1) mini_archive_of mini_same_files(2,1), of _ _ "provenance_of None [] []"])
    (simp add: mini_manifest_def)

lemma packed_is_staged_witness:
  "set (archived_files mini_archive) = {(lit ''README.md'', Some ''r''), (lit ''backend/a.py'', Some ''ab''),
     (lit ''tools/py.exe'', Some ''abc'')}"
proof -
  have contents: "{b. \<exists>i \<in> set mini_archive. zip_content i = Some b} = {[], ''abc'', ''r'', ''ab''}"
    by (auto simp: mini_archive_def)
  have "inj_on (hash_hex mini_host) (snd ` set (staged_files mini_tree) \<union> {b. \<exists>i \<in> set mini_archive. zip_content i = Some b})"
    unfolding contents mini_files by (simp add: inj_on_def)
  from packed_is_staged [OF mini_wf(1) mini_pre _ this] mini_post show ?thesis by (simp add: mini_files)
qed

end
