(* ===== verification/Session_Renewal.thy ===== *)
theory Session_Renewal
  imports Access_Properties Json_Ascii
begin

text \<open>
  What a change of password means for sessions: the tokens of before are refused from then on, and the one of the
  response works. This is where the token library is relied on; what is asked of it is \<open>jwt_works\<close>.
\<close>

subsection \<open>The token library\<close>

text \<open>
  Claims the library gives back at the instant \<open>t\<close>: those of an access token, of proper text and of integers that fit
  a column, issued by then and not yet expired. For a token that expired, or is of the future, \<open>jwt.decode\<close> raises.
\<close>

definition live_claims :: "int \<Rightarrow> json \<Rightarrow> bool" where
  "live_claims t p \<longleftrightarrow>
     (\<exists>subject r csrf issued expires ver.
        p = JObj [(lit ''sub'', JStr subject), (lit ''role'', JStr r), (lit ''csrf'', JStr csrf),
          (lit ''iat'', JInt issued), (lit ''exp'', JInt expires), (lit ''ver'', JInt ver)] \<and>
        json_scalar p \<and> issued * micros_per_second \<le> t \<and> t < expires * micros_per_second \<and>
        (\<forall>i \<in> {issued, expires, ver}. \<bar>i\<bar> < 2 ^ 63))"

text \<open>A token that the service of \<open>e\<close> signs is text, and the service of \<open>e'\<close>, at its own time, reads its live claims.\<close>

definition jwt_works :: "env \<Rightarrow> env \<Rightarrow> bool" where
  "jwt_works e e' \<longleftrightarrow>
     (\<forall>p. live_claims (now e') p \<longrightarrow>
        jwt_encode e p (jwt_secret_key e) \<noteq> [] \<and> utf8_encode (jwt_encode e p (jwt_secret_key e)) \<noteq> None \<and>
        decode_access_token e' (jwt_encode e p (jwt_secret_key e)) = Some p)"

definition new_claims :: "env \<Rightarrow> user \<Rightarrow> json" where
  "new_claims e u =
     access_token_payload e (js_int (user_id u)) (role u) (random_token e) (access_token_ttl_minutes e) (session_version u + 1)"

subsection \<open>Renewal\<close>

lemma account_number: "0 \<le> i \<Longrightarrow> i < 2 ^ 63 \<Longrightarrow> py_int (js_int i) = Some i"
proof -
  assume i: "0 \<le> i" "i < 2 ^ 63"
  then have "nat i < 10 ^ 19" by simp
  then have "length (dec_digits (nat i)) \<le> 19" by (rule dec_digits_short) simp
  with i show ?thesis by (intro py_int_js_int) simp_all
qed

lemma stale_token_refused:
  assumes "reaches d' d''" "grant_ids_ok d'" "get_user i d' = Some u'" "v < session_version u'"
    and "map_of (req_cookies req) (admin_session_cookie_name e) = Some old" "old \<noteq> []"
    and "decode_access_token e old = Some p" "subject_of p = Some i" "obj_get (lit ''ver'') p = Some (JInt v)"
  shows "\<exists>w. get_user i d'' = Some w \<and> current_user_from_request e req d'' =
    Inl (HTTPException 401 (msg (if is_active w then ''Session expired'' else ''Invalid user'')))"
proof -
  from reaches_account [OF assms(1-3)] assms(4) obtain w where "get_user i d'' = Some w" "v < session_version w" by auto
  with assms(5-9) show ?thesis by (auto simp: current_user_from_request_def)
qed

text \<open>
  C14 [password_change_renews_session]: a change of password ends the sessions of before and opens the new one. After the
  route succeeded, a request with the session cookie of the response is accepted as the same account while its
  claims are live, and finds the hash of the new password; and whatever requests follow, a token of the account that
  carries the session version of before the change, or a lower one, is refused from then on.
\<close>

theorem password_change_renews_session:
  assumes "change_password_route e cur new req d = (d', Inr r)"
    and "current_user_from_request e req d = Inr (d1, u, payload)"
    and "0 \<le> user_id u" "user_id u < 2 ^ 63" "now e \<noteq> 0"
    and "jwt_works e e'" "live_claims (now e') (new_claims e u)"
    and "map_of (req_cookies req') (admin_session_cookie_name e') = Some (cookie_value (hd (auth_cookies r)))"
    and "grant_ids_ok d" "reaches d' d''"
    and "map_of (req_cookies req'') (admin_session_cookie_name e'') = Some old" "old \<noteq> []"
    and "decode_access_token e'' old = Some p" "subject_of p = Some (user_id u)"
    and "obj_get (lit ''ver'') p = Some (JInt v)" "v \<le> session_version u"
  shows "(\<exists>d2 u2. current_user_from_request e' req' d' = Inr (d2, u2, new_claims e u) \<and> user_id u2 = user_id u \<and>
      make_hash e new = Inr (password_hash u2)) \<and>
    (\<exists>w. get_user (user_id u) d'' = Some w \<and> current_user_from_request e'' req'' d'' =
      Inl (HTTPException 401 (msg (if is_active w then ''Session expired'' else ''Invalid user''))))"
proof -
  from assms(1, 2) have h: "change_password_handler e cur new req u d1 = Inr (d', r)"
    by (auto simp: change_password_route_def result_simps session_scope_def split: sum.splits prod.splits)
  from current_user_effect [OF assms(2)] have u: "drop_activity d1 = drop_activity d" "get_user (user_id u) d = Some u"
    "is_active u" by auto
  from h obtain u' a where u': "set_user_password e u new False ''New password'' (Some cur) True = Inr u'"
    and a: "audit (change_user (user_id u) (\<lambda>_. u') d1) a = Inr d'" "arg_idempotency_key a = None"
    and tok: "cookie_value (hd (auth_cookies r)) =
      create_access_token e (js_int (user_id u')) (role u') (random_token e) (session_version u')"
    by (auto simp: change_password_handler_def result_simps Let_def session_cookies_def split: if_split_asm)
  note keeps = set_user_password_keeps [OF u'] and res = set_user_password_result [OF u']
  from a obtain ev where d': "d' = (change_user (user_id u) (\<lambda>_. u') d1)\<lparr>audit_events :=
      audit_events (change_user (user_id u) (\<lambda>_. u') d1) @ [ev]\<rparr>" by (rule audit_tables)
  have "users d1 = users d" using arg_cong [OF u(1), of users] by simp
  then have get: "get_user (user_id u) d' = Some u'"
    using u(2) keeps(1) by (simp add: d' get_user_def change_user_users find_row_replace)
  have "reaches d d'" using request_step.intros(15) [of d e cur new req] assms(1) by (auto intro: r_into_rtranclp)
  then have ids: "grant_ids_ok d'" using assms(9) by (rule reaches_ids)
  from stale_token_refused [OF assms(10) ids get _ assms(11-15)] assms(16) keeps(6)
  have stale: "\<exists>w. get_user (user_id u) d'' = Some w \<and> current_user_from_request e'' req'' d'' =
      Inl (HTTPException 401 (msg (if is_active w then ''Session expired'' else ''Invalid user'')))" by simp
  have cookie: "cookie_value (hd (auth_cookies r)) = jwt_encode e (new_claims e u) (jwt_secret_key e)"
    using keeps by (simp add: tok create_access_token_def new_claims_def)
  with assms(6, 7) have jwt: "cookie_value (hd (auth_cookies r)) \<noteq> []" "utf8_encode (cookie_value (hd (auth_cookies r))) \<noteq> None"
    "decode_access_token e' (cookie_value (hd (auth_cookies r))) = Some (new_claims e u)"
    by (simp_all add: jwt_works_def)
  have claims: "subject_of (new_claims e u) = Some (user_id u)"
    "obj_get (lit ''ver'') (new_claims e u) = Some (JInt (session_version u'))"
    using account_number [OF assms(3, 4)] keeps(6)
    by (simp_all add: new_claims_def subject_of_def access_token_payload_def obj_get_def)
  have "\<not> requires_password_change u'"
    using res(2) assms(5) by (simp add: requires_password_change_def FIRST_CHANGE_REQUIRED_AT_def)
  moreover obtain d2 where "record_session_activity id e' d' u' (cookie_value (hd (auth_cookies r))) (new_claims e u) = Inr d2"
    using record_session_activity_total [OF jwt(2), of u' d'] get keeps(1) by auto
  ultimately have "current_user_from_request e' req' d' = Inr (d2, u', new_claims e u)"
    using assms(8) jwt(1, 3) claims get u(3) keeps by (simp add: current_user_from_request_def)
  with stale keeps(1) res(1) show ?thesis by auto
qed

subsection \<open>A service in which tokens expire\<close>

text \<open>Tokens are the printed claims; they are read unless they have expired by the clock.\<close>

definition read_token :: "int \<Rightarrow> pystr \<Rightarrow> json option" where
  "read_token t token =
     (case loads token of
        None \<Rightarrow> None
      | Some p \<Rightarrow>
          (case obj_get (lit ''exp'') p of
             Some (JInt x) \<Rightarrow> if x * micros_per_second \<le> t then None else Some p
           | _ \<Rightarrow> None))"

definition clock_env :: "int \<Rightarrow> env" where
  "clock_env t = demo_env\<lparr>jwt_encode := (\<lambda>p k. js_print Compact 0 p), jwt_decode := (\<lambda>token k. read_token t token),
     now := t, access_token_ttl_minutes := 1\<rparr>"

lemma clock_env_simps [simp]:
  "admin_session_cookie_name (clock_env t) = lit ''s''" "csrf_cookie_name (clock_env t) = lit ''c''"
  "now (clock_env t) = t" "random_token (clock_env t) = lit ''C''" "access_token_ttl_minutes (clock_env t) = 1"
  "verify_hash (clock_env t) p h = Some (p = h)" "identify_scheme (clock_env t) h = Some []"
  "make_hash (clock_env t) p = (if length p \<le> 4096 then Inr p else Inl (msg ''password exceeds maximum allowed size''))"
  "jwt_encode (clock_env t) v k = js_print Compact 0 v" "jwt_decode (clock_env t) token k = read_token t token"
  by (simp_all add: clock_env_def demo_env_def)

lemma clock_works: "jwt_works (clock_env t) (clock_env t')"
  unfolding jwt_works_def
proof (intro allI impI)
  fix p
  assume live: "live_claims (now (clock_env t')) p"
  then have "json_scalar p" "no_float p" "dict_ok p" "\<exists>x. obj_get (lit ''exp'') p = Some (JInt x) \<and> t' < x * micros_per_second"
    by (auto simp: live_claims_def obj_get_def)
  moreover from live have "js_print Compact 0 p \<noteq> []" by (auto simp: live_claims_def)
  ultimately show "jwt_encode (clock_env t) p (jwt_secret_key (clock_env t)) \<noteq> [] \<and>
      utf8_encode (jwt_encode (clock_env t) p (jwt_secret_key (clock_env t))) \<noteq> None \<and>
      decode_access_token (clock_env t') (jwt_encode (clock_env t) p (jwt_secret_key (clock_env t))) = Some p"
    using utf8_encode_print [of p Compact 0] by (auto simp: decode_access_token_def read_token_def loads_print)
qed

definition old_claims :: json where
  "old_claims = access_token_payload (clock_env 0) (lit ''1'') (lit ''admin'') (lit ''C'') 1 0"

definition old_token :: pystr where
  "old_token = js_print Compact 0 old_claims"

definition clock_request :: request where
  "clock_request = demo_request\<lparr>req_cookies := [(lit ''s'', old_token), (lit ''c'', lit ''C'')]\<rparr>"

lemma old_claims_eq: "old_claims = JObj [(lit ''sub'', JStr (lit ''1'')), (lit ''role'', JStr (lit ''admin'')),
    (lit ''csrf'', JStr (lit ''C'')), (lit ''iat'', JInt 0), (lit ''exp'', JInt 60), (lit ''ver'', JInt 0)]"
  by (simp add: old_claims_def access_token_payload_def micros_per_second_def)

lemma old_token_live: "0 \<le> t \<Longrightarrow> t < 60000000 \<Longrightarrow> live_claims t old_claims"
  by (simp add: live_claims_def old_claims_eq micros_per_second_def) (simp add: lit_def is_scalar_def is_surrogate_def)

lemma old_token_facts:
  assumes "0 \<le> t" "t < 60000000"
  shows "decode_access_token (clock_env t) old_token = Some old_claims" "old_token \<noteq> []" "utf8_encode old_token \<noteq> None"
  using clock_works [of 0 t] old_token_live [OF assms] by (simp_all add: jwt_works_def old_token_def)

lemma old_claims_read: "subject_of old_claims = Some 1" "obj_get (lit ''ver'') old_claims = Some (JInt 0)"
  by (simp_all add: old_claims_eq subject_of_def obj_get_def py_int_def strip_def strip_of_def is_space_def lit_def
      int_digits_def is_digit_def dec_value_def)

lemma clock_user:
  obtains d1 where "current_user_from_request (clock_env 1000000) clock_request demo_db = Inr (d1, demo_admin, old_claims)"
proof -
  have old: "decode_access_token (clock_env 1000000) old_token = Some old_claims" "old_token \<noteq> []" "utf8_encode old_token \<noteq> None"
    using old_token_facts [of 1000000] by simp_all
  from record_session_activity_total [OF old(3), of demo_admin demo_db "clock_env 1000000" old_claims]
  obtain d1 where "record_session_activity id (clock_env 1000000) demo_db demo_admin old_token old_claims = Inr d1" by auto
  then have "current_user_from_request (clock_env 1000000) clock_request demo_db = Inr (d1, demo_admin, old_claims)"
    using old old_claims_read by (simp add: current_user_from_request_def clock_request_def)
  with that show thesis by blast
qed

definition new_secret :: pystr where "new_secret = lit ''longerword''"

definition new_admin :: user where
  "new_admin = demo_admin\<lparr>password_hash := new_secret, password_changed_at := Some (utc 1000000), session_version := 1\<rparr>"

lemma new_secret_accepted: "set_user_password (clock_env 1000000) demo_admin new_secret False ''New password''
    (Some (lit ''longenough'')) True = Inr new_admin"
  by (simp add: set_user_password_def validate_password_candidate_def new_secret_def PASSWORD_MAX_LENGTH_def
      PASSWORD_MIN_LENGTH_def is_retired_password_def RETIRED_PASSWORD_def strip_def strip_of_def is_space_def
      lit_def ascii_lower_def new_admin_def hash_password_def)

lemma clock_route:
  obtains d' r where "change_password_route (clock_env 1000000) (lit ''longenough'') new_secret clock_request demo_db = (d', Inr r)"
    "cookie_value (hd (auth_cookies r)) = js_print Compact 0 (new_claims (clock_env 1000000) demo_admin)"
proof -
  let ?e = "clock_env 1000000"
  obtain d1 where c: "current_user_from_request ?e clock_request demo_db = Inr (d1, demo_admin, old_claims)"
    by (rule clock_user)
  have csrf: "require_csrf ?e clock_request old_claims = Inr ()"
    by (simp add: require_csrf_def clock_request_def demo_request_def header_def truthy_def old_claims_eq obj_get_def)
  have v: "verify_password ?e (lit ''longenough'') (lit ''longenough'') = Inr True"
    by (simp add: verify_password_def)
  have one: "js_int 1 = lit ''1''" by (simp add: js_int_def dec_digits.simps lit_def)
  have n: "user_id new_admin = 1" "role new_admin = lit ''admin''" "session_version new_admin = 1"
    by (simp_all add: new_admin_def)
  let ?a = "(audit_call new_admin ''account.password_change'' ''user'' (Some (lit ''1'')) clock_request)
    \<lparr>arg_metadata := Some (JObj [(lit ''self'', JBool True)])\<rparr>"
  obtain d' where a: "audit (change_user 1 (\<lambda>_. new_admin) d1) ?a = Inr d'"
    using audit_total [of ?a] by auto
  show thesis
    using that
    by (simp add: change_password_route_def c csrf change_password_handler_def v new_secret_accepted Let_def
        n one a session_cookies_def create_access_token_def new_claims_def)
qed

text \<open>The change after one second; the new token is used after two, the old one after three.\<close>

theorem password_change_renews_session_witness:
  "\<exists>d' r d2 u2 req'. change_password_route (clock_env 1000000) (lit ''longenough'') new_secret clock_request demo_db = (d', Inr r) \<and>
     current_user_from_request (clock_env 2000000) req' d' = Inr (d2, u2, new_claims (clock_env 1000000) demo_admin) \<and>
     password_hash u2 = new_secret \<and>
     current_user_from_request (clock_env 3000000) clock_request d' = Inl (HTTPException 401 (msg ''Session expired''))"
proof -
  obtain d1 where c: "current_user_from_request (clock_env 1000000) clock_request demo_db = Inr (d1, demo_admin, old_claims)"
    by (rule clock_user)
  obtain d' r where r: "change_password_route (clock_env 1000000) (lit ''longenough'') new_secret clock_request demo_db = (d', Inr r)"
    "cookie_value (hd (auth_cookies r)) = js_print Compact 0 (new_claims (clock_env 1000000) demo_admin)" by (rule clock_route)
  let ?new = "clock_request\<lparr>req_cookies := [(lit ''s'', cookie_value (hd (auth_cookies r)))]\<rparr>"
  have live: "live_claims (now (clock_env 2000000)) (new_claims (clock_env 1000000) demo_admin)"
    by (simp add: live_claims_def new_claims_def access_token_payload_def micros_per_second_def)
      (simp add: lit_def is_scalar_def is_surrogate_def js_int_def dec_digits.simps)
  have old: "decode_access_token (clock_env 3000000) old_token = Some old_claims" "old_token \<noteq> []" "utf8_encode old_token \<noteq> None"
    using old_token_facts [of 3000000] by simp_all
  have "(\<exists>d2 u2. current_user_from_request (clock_env 2000000) ?new d' =
        Inr (d2, u2, new_claims (clock_env 1000000) demo_admin) \<and> user_id u2 = user_id demo_admin \<and>
      make_hash (clock_env 1000000) new_secret = Inr (password_hash u2)) \<and>
    (\<exists>w. get_user (user_id demo_admin) d' = Some w \<and> current_user_from_request (clock_env 3000000) clock_request d' =
      Inl (HTTPException 401 (msg (if is_active w then ''Session expired'' else ''Invalid user''))))"
    by (rule password_change_renews_session [OF r(1) c, where e' = "clock_env 2000000" and old = old_token and p = old_claims and v = 0])
      (use old old_claims_read live clock_works in \<open>auto simp: clock_request_def\<close>)
  then obtain d2 u2 w where n: "current_user_from_request (clock_env 2000000) ?new d' =
        Inr (d2, u2, new_claims (clock_env 1000000) demo_admin)" "user_id u2 = user_id demo_admin"
      "make_hash (clock_env 1000000) new_secret = Inr (password_hash u2)"
    and o: "get_user (user_id demo_admin) d' = Some w" "current_user_from_request (clock_env 3000000) clock_request d' =
      Inl (HTTPException 401 (msg (if is_active w then ''Session expired'' else ''Invalid user'')))" by blast
  from current_user_effect [OF n(1)] n(2) o(1) have "is_active w" by auto
  with n o r(1) show ?thesis by (auto simp: new_secret_def lit_def)
qed

end
