(* ===== verification/Spec2Isabelle.thy ===== *)
theory Spec2Isabelle
  imports Access_Properties Bundle_Contracts Zip_Preflight Upload_Ingress Provider_Egress Rotation_Lifecycle
    Package_Properties Session_Renewal
begin

text \<open>
  AeroOne: a verification library for its backend. All paths are below \<open>src/backend/app\<close>.

  \<^bold>\<open>The program.\<close> AeroOne is a FastAPI service over one SQLite database for a closed network. Accounts in roles and
  groups hold permissions and grants on collections; service modules are shown or hidden by gates; every change of
  authority ends the sessions issued before it and is written to an audit trail. Administrators configure one
  OpenAI-compatible provider, whose key lies in a store of protected files and whose answers come over a transport
  that only talks to vetted addresses. The office tools take uploads through a middleware that counts multipart
  bodies as they arrive, and look into ZIP containers before they open them. Two programs rotate every password at
  once, with a recovery artifact, a ledger and a journal; a further one checks the contracts of data bundles that
  cross the boundary of the network, and two command lines plan an offline package of the repository and verify it
  before and after it is zipped.

  \<^bold>\<open>How Python is represented.\<close> Text is the list of its code points, bytes are lists of \<^typ>\<open>char\<close>, integers are
  \<^typ>\<open>int\<close>, a \<open>dict\<close> is its association list in insertion order, a call that may raise is a sum with the exception
  on the left. A table is the list of its rows; a session that commits or rolls back is a function from the state to
  the new state and the outcome. A handler is one definition that runs through the guards in the order of the
  code. What the repository does not contain (password hashing, tokens, SHA-256, Windows, SQLite, sockets, TLS, the
  tables of Unicode, pydantic's parser) is a field of a record of parameters: \<open>env\<close>, \<open>store_host\<close>, \<open>provider_env\<close>,
  \<open>net\<close>, \<open>rotation_host\<close>, \<open>package_host\<close>; what is relied on for them is a named predicate, and every property that uses one has a
  witness on concrete functions. These predicates ask no more than the libraries keep: the hash function may raise (it
  does above 4,096 characters), the token library is asked to give back live claims of an access token only
  (\<open>jwt_works\<close>, for a clock that has not reached \<open>exp\<close>), tokens are distinct among those drawn, and the codec of international
  names is asked not to make up line ends (\<open>idna_clean\<close>).

  \<^bold>\<open>The theories.\<close>
  \<^item> \<open>Py_Prelude\<close>, \<open>Py_Text\<close>, \<open>Py_Json\<close>, \<open>Json_Ascii\<close>, \<open>Base64\<close>, \<open>Py_Net\<close>: results, searches, UTF-8, decimal
    numbers, the \<open>json\<close> module with its parser and printers, strict base64, URL splitting and IP addresses. The
    lemmas are the round trips (printing and parsing, encoding and decoding) and injectivity of the printers.
  \<^item> \<open>Db_Model\<close>: rows of \<open>modules/auth/models.py\<close> and \<open>modules/admin/models.py\<close>, the session scope of
    \<open>db/session.py\<close>, and the locale \<open>keyed_table\<close>, interpreted for users, groups and modules.
  \<^item> \<open>Audit_Trail\<close> (\<open>modules/admin/audit.py\<close>), \<open>Rbac_Policy\<close> (\<open>permissions.py\<close>, \<open>module_policy.py\<close>,
    \<open>module_access_service.py\<close>, \<open>session_fanout.py\<close>), \<open>Auth\<close> (\<open>core/security.py\<close>, \<open>modules/auth/services.py\<close>,
    \<open>dependencies.py\<close>), \<open>Accounts\<close> (\<open>modules/auth/api.py\<close>), \<open>Admin_Api\<close> and \<open>Module_Api\<close>
    (\<open>modules/admin/api.py\<close>): the access layer.
  \<^item> \<open>Routes\<close>, \<open>Route_Invariants\<close>, \<open>Access_Properties\<close>: the routes as one relation over the database, its invariants,
    and the properties of the access layer over any sequence of requests; \<open>Session_Renewal\<close>: what a change of password does
    to the sessions of before and to the one of the response.
  \<^item> \<open>Bundle_Contracts\<close> (\<open>operations/internal_data_bundle_contracts.py\<close>): the strict JSON reader, approval, trust policy,
    signers, recipients, envelope and inventory.
  \<^item> \<open>Office_Limits\<close>, \<open>Zip_Preflight\<close> (\<open>modules/office_tools/limits.py\<close>), \<open>Multipart_Counter\<close> and \<open>Upload_Ingress\<close>
    (\<open>upload_limits.py\<close>): bounded decimals, the walk over the central directory, the incremental multipart machine with
    a reference parser it agrees with, and the middleware around it.
  \<^item> \<open>Credential_Store\<close> (\<open>operations/provider_credential_store.py\<close>): the protected files and their refinement of a
    vault, by the locale \<open>vault\<close>; \<open>Provider_Config\<close>, \<open>Provider_Properties\<close>, \<open>Provider_Safety\<close>
    (\<open>modules/ai/provider_config_service.py\<close> and its routes): the singleton row, its journal, its operations with crash
    points, and what holds after any sequence of them.
  \<^item> \<open>Egress\<close>, \<open>Egress_Transport\<close>, \<open>Egress_Properties\<close>, \<open>Egress_Canonical\<close> (\<open>modules/ai/egress_transport.py\<close>): canonical
    endpoints, pinned peers, one bounded exchange, chat and embeddings; \<open>Provider_Egress\<close> puts the configuration service
    on top of this transport.
  \<^item> \<open>Credential_Rotation\<close> (\<open>operations/credential_rotation_contracts.py\<close>, \<open>_fingerprints\<close>, \<open>_models\<close>, \<open>_audit\<close>, \<open>_ledger\<close>),
    \<open>Rotation_Journal\<close> (\<open>credential_rotation_artifacts.py\<close>), \<open>Sqlite_Recovery\<close> (\<open>sqlite_recovery.py\<close>,
    \<open>sqlite_recovery_snapshot.py\<close>, \<open>windows_dpapi.py\<close>, \<open>credential_bundle.py\<close>) and \<open>Rotation_Commands\<close> (\<open>commands/\<close>): the
    rotation; \<open>Rotation_Properties\<close>, \<open>Rotation_History\<close>, \<open>Rotation_Protocol\<close>, \<open>Rotation_Lifecycle\<close> hold its
    specification and properties.
  \<^item> \<open>Package_Policy\<close> (\<open>operations/package_policy_contracts.py\<close>, \<open>package_policy_verifier.py\<close>) and \<open>Package_Build\<close>
    (\<open>operations/offline_package_build_contracts.py\<close>, \<open>offline_package_policy.py\<close> and, below \<open>src/packaging\<close>,
    \<open>build_offline_package_plan.py\<close>, \<open>verify_offline_package.py\<close>, \<open>installer-policy.json\<close>): patterns, the walk of the stage, the
    checks, the plan. \<open>Package_Facts\<close> gives the condition under which each check passes, \<open>Package_Chain\<close> what one step
    hands to the next, \<open>Package_Properties\<close> the properties.

  \<^bold>\<open>What is shown.\<close> For the access layer: no session outlives the authority it was issued under, an administrator
  remains, grants stay reads, the audit trail is complete and redacted, permission checks are exact. For the
  bundles: what the strict reader, the approval and the signatures accept. For uploads: the limits hold for every way
  the body is cut into pieces, what is forwarded is safe, archives are listed completely. For the provider: the store
  is a vault, requests are only served with the configuration that was proven, whatever an operation raises, the configuration and its
  journal tell what happened, stale versions are refused; every call reaches a vetted peer or nobody. For the rotation: the exact effect, its
  repetition, the end of every session, the growth of the ledger over any life of the database, no commit without a
  recovery artifact that can be loaded, the order and the seal of the journal, and that prepare, commit and verify come
  through when the machine does its part. For packages: the exact conditions of a plan and of the check before the ZIP,
  that an accepted ZIP holds the accepted files, and that what the commands build passes both checks. Properties that span components rest on the lemmas of each: the end
  of sessions joins the rotation with request authentication, the verified peer joins configuration and transport.

  \<^bold>\<open>Bounds and fuel.\<close> The parser of \<open>Py_Json\<close> takes the length of the text plus one as fuel, more than the number of
  values and containers a text of that length can open, and the round trip is proved for it. Loops over messages,
  bytes and rows are structural, or have a measure on what is left to read. Limits of the code (URL length, answer size, upload
  limits) are the constants of the source. Integers of SQLite columns that matter are checked against 64 bits.

  \<^bold>\<open>Not modelled.\<close> The clock stands still during one request or command. Response headers and OpenAPI documents,
  logging, the zeroing of buffers, timeouts, latencies and the interpreter's limit of recursion are left out. Integers of JSON text
  with more than 4,300 digits, which Python refuses, are the predicate \<open>ints_readable\<close>. Whole parts of the repository that are not
  here are the job store and the services of the office tools, the work assistant (\<open>modules/aero_work\<close>), the
  conversations of the AI module, newsletters, collections, documents, reports, read tracking, launchers and Leantime,
  the maintenance gate, the migrations, the frontend, and the PowerShell scripts that package and install the service:
  they are mostly input and output around libraries, or were left for their size.
\<close>

end
